(* ===== verification/Prelude.thy ===== *)
theory Prelude
  imports Main "HOL-Library.Sublist"
begin

text \<open>
  What every theory of the development shares: the types the Go standard library gives the
  program (instants and durations in nanoseconds, 64-bit counters), the named collections that
  carry the component proofs, and generic lemmas on lists and maps.

  An instant is the number of nanoseconds since Go's zero \<open>time.Time\<close>, so the zero value that
  the program stores into unset fields is \<open>0\<close>.  A duration is an \<open>int64\<close> of nanoseconds;
  \<open>time.Time.Sub\<close> saturates at its bounds, which \<open>time_sub\<close> writes out.
\<close>

named_theorems opdefs \<open>definitions of the operations of the component under study\<close>
named_theorems frame \<open>what an operation leaves unchanged\<close>

section \<open>Time\<close>

type_synonym instant = int
type_synonym duration = int

definition zero_time :: instant where
  "zero_time = 0"

definition max_duration :: duration where
  "max_duration = 2 ^ 63 - 1"

definition min_duration :: duration where
  "min_duration = - (2 ^ 63)"

definition time_sub :: "instant \<Rightarrow> instant \<Rightarrow> duration" where
  "time_sub t u = max min_duration (min max_duration (t - u))"

definition time_add :: "instant \<Rightarrow> duration \<Rightarrow> instant" where
  "time_add t d = t + d"

definition time_before :: "instant \<Rightarrow> instant \<Rightarrow> bool" where
  "time_before t u \<longleftrightarrow> t < u"

definition seconds :: "int \<Rightarrow> duration" where
  "seconds n = n * 1000000000"

definition minutes :: "int \<Rightarrow> duration" where
  "minutes n = n * 60000000000"

lemma time_sub_ge_iff:
  "0 < d \<Longrightarrow> d \<le> max_duration \<Longrightarrow> d \<le> time_sub t u \<longleftrightarrow> u + d \<le> t"
  by (auto simp: time_sub_def min_duration_def max_duration_def)

lemma time_sub_mono: "t \<le> t' \<Longrightarrow> time_sub t u \<le> time_sub t' u"
  by (auto simp: time_sub_def)

section \<open>64-bit counters\<close>

text \<open>\<open>i64\<close> is the wrap-around of Go's \<open>int64\<close> arithmetic.\<close>

definition i64 :: "int \<Rightarrow> int" where
  "i64 x = (x + 2 ^ 63) mod 2 ^ 64 - 2 ^ 63"

lemma i64_id [simp]: "- (2 ^ 63) \<le> x \<Longrightarrow> x < 2 ^ 63 \<Longrightarrow> i64 x = x"
  by (simp add: i64_def)

lemma i64_bounds: "- (2 ^ 63) \<le> i64 x \<and> i64 x < 2 ^ 63"
proof -
  have "0 \<le> (x + 2 ^ 63) mod (2 ^ 64 :: int)" by simp
  moreover have "(x + 2 ^ 63) mod (2 ^ 64 :: int) < 2 ^ 64" by (rule pos_mod_bound) simp
  ultimately show ?thesis by (simp add: i64_def)
qed

section \<open>Lists\<close>

text \<open>\<open>keep_last n xs\<close> is Go's \<open>xs[len(xs)-n:]\<close> behind its guard \<open>len(xs) > n\<close>.\<close>

definition keep_last :: "nat \<Rightarrow> 'a list \<Rightarrow> 'a list" where
  "keep_last n xs = (if n < length xs then drop (length xs - n) xs else xs)"

lemma keep_last_drop: "keep_last n xs = drop (length xs - n) xs"
  by (simp add: keep_last_def)

lemma length_keep_last [simp]: "length (keep_last n xs) = min n (length xs)"
  by (simp add: keep_last_def)

lemma suffix_keep_last [simp]: "suffix (keep_last n xs) xs"
  by (simp add: keep_last_def suffix_drop)

lemma keep_last_snoc_keep_last:
  "0 < n \<Longrightarrow> keep_last n (keep_last n xs @ [x]) = keep_last n (xs @ [x])"
proof -
  assume "0 < n"
  show ?thesis
  proof (cases "length xs \<le> n")
    case True
    then show ?thesis by (simp add: keep_last_drop)
  next
    case False
    then have "Suc (length xs - n) = Suc (length xs) - n" by simp
    with False \<open>0 < n\<close> show ?thesis by (simp add: keep_last_drop)
  qed
qed

lemma subseq_snoc: "subseq xs ys \<Longrightarrow> subseq xs (ys @ [y])"
  by (rule list_emb_prefix)

lemma subseq_snoc2: "subseq xs ys \<Longrightarrow> subseq (xs @ [y]) (ys @ [y])"
  by (simp add: subseq_append')

end
