(* ===== verification/Fsm.thy ===== *)
theory Fsm
  imports Prelude
begin

text \<open>
  The session lifecycle machine of \<open>src/internal/desk/fsm.go\<close>.  \<open>fsm\<close> is the struct \<open>FSM\<close>
  without its mutex: every exported method locks it for its whole body, so a method is one atomic
  operation here, and \<open>fsm_op\<close> with \<open>fsm_apply\<close> makes a concurrent history a list of operations.
  \<open>fsm_reach\<close> is the set of states such histories produce from \<open>NewFSM\<close>.
\<close>

section \<open>State\<close>

datatype fsm_state = LIVE | QUIET | PARKING | PARKED

datatype park_reason =
  NoReason | ParkIdle | ParkMuteHidden | ParkExplicit | ParkDisconnect | ParkRollover
  | ParkDrainTimeout

record fsm_config =
  QuietAfter :: duration
  ParkAfter :: duration
  RolloverAt :: duration
  MuteParkAfter :: duration
  QuestionGrace :: duration
  ParkDrainAfter :: duration

definition DefaultFSMConfig :: "duration \<Rightarrow> duration \<Rightarrow> duration \<Rightarrow> fsm_config" where
  "DefaultFSMConfig quiet park rollover =
     \<lparr>QuietAfter = quiet, ParkAfter = park, RolloverAt = rollover,
      MuteParkAfter = minutes 10, QuestionGrace = minutes 2, ParkDrainAfter = seconds 30\<rparr>"

record fsm =
  fcfg :: fsm_config
  fstate :: fsm_state
  callStart :: instant
  lastSpeech :: instant
  inFlight :: bool
  audioPlaying :: bool
  userSpeaking :: bool
  toolPendingF :: bool
  muted :: bool
  hidden :: bool
  mutedSince :: instant
  graceUntil :: instant
  parkRequested :: bool
  parkRequestedAt :: instant
  parkReason :: park_reason

definition NewFSM :: "fsm_config \<Rightarrow> fsm" where
  "NewFSM c = \<lparr>fcfg = c, fstate = PARKED, callStart = zero_time, lastSpeech = zero_time,
     inFlight = False, audioPlaying = False, userSpeaking = False, toolPendingF = False,
     muted = False, hidden = False, mutedSince = zero_time, graceUntil = zero_time,
     parkRequested = False, parkRequestedAt = zero_time, parkReason = NoReason\<rparr>"

section \<open>Operations\<close>

definition CallStarted :: "instant \<Rightarrow> fsm \<Rightarrow> fsm" where
  "CallStarted now f = f\<lparr>fstate := LIVE, callStart := now, lastSpeech := now,
     inFlight := False, audioPlaying := False, userSpeaking := False, toolPendingF := False,
     graceUntil := zero_time, parkRequested := False, parkRequestedAt := zero_time,
     parkReason := NoReason\<rparr>"

definition speechActivityLocked :: "instant \<Rightarrow> fsm \<Rightarrow> fsm" where
  "speechActivityLocked now f =
     (let f = f\<lparr>lastSpeech := now\<rparr> in if fstate f = QUIET then f\<lparr>fstate := LIVE\<rparr> else f)"

definition SpeechActivity :: "instant \<Rightarrow> fsm \<Rightarrow> fsm" where
  "SpeechActivity now f = speechActivityLocked now f"

definition SpeechStarted :: "instant \<Rightarrow> fsm \<Rightarrow> fsm" where
  "SpeechStarted now f = speechActivityLocked now (f\<lparr>userSpeaking := True\<rparr>)"

definition SpeechStopped :: "instant \<Rightarrow> fsm \<Rightarrow> fsm" where
  "SpeechStopped now f = speechActivityLocked now (f\<lparr>userSpeaking := False\<rparr>)"

definition ResponseStarted :: "instant \<Rightarrow> fsm \<Rightarrow> fsm" where
  "ResponseStarted now f = f\<lparr>inFlight := True, lastSpeech := now\<rparr>"

definition TryStartResponse :: "instant \<Rightarrow> fsm \<Rightarrow> bool \<times> fsm" where
  "TryStartResponse now f =
     (if fstate f \<noteq> LIVE \<and> fstate f \<noteq> QUIET then (False, f)
      else if inFlight f \<or> audioPlaying f \<or> userSpeaking f \<or> toolPendingF f then (False, f)
      else (True, f\<lparr>inFlight := True, lastSpeech := now\<rparr>))"

definition ResponseDone :: "instant \<Rightarrow> fsm \<Rightarrow> fsm" where
  "ResponseDone now f = f\<lparr>inFlight := False, lastSpeech := now\<rparr>"

definition AudioStarted :: "instant \<Rightarrow> fsm \<Rightarrow> fsm" where
  "AudioStarted now f = f\<lparr>audioPlaying := True, lastSpeech := now\<rparr>"

definition AudioStopped :: "instant \<Rightarrow> fsm \<Rightarrow> fsm" where
  "AudioStopped now f = f\<lparr>audioPlaying := False, lastSpeech := now\<rparr>"

definition ToolPending :: "bool \<Rightarrow> fsm \<Rightarrow> fsm" where
  "ToolPending p f = f\<lparr>toolPendingF := p\<rparr>"

definition Busy :: "fsm \<Rightarrow> bool" where
  "Busy f \<longleftrightarrow> inFlight f \<or> audioPlaying f \<or> userSpeaking f \<or> toolPendingF f"

definition CanStartResponse :: "fsm \<Rightarrow> bool" where
  "CanStartResponse f =
     (if fstate f \<noteq> LIVE \<and> fstate f \<noteq> QUIET then False
      else \<not> inFlight f \<and> \<not> audioPlaying f \<and> \<not> userSpeaking f \<and> \<not> toolPendingF f)"

definition QuestionVoiced :: "instant \<Rightarrow> fsm \<Rightarrow> fsm" where
  "QuestionVoiced now f = f\<lparr>graceUntil := time_add now (QuestionGrace (fcfg f))\<rparr>"

definition SetClientState :: "instant \<Rightarrow> bool \<Rightarrow> bool \<Rightarrow> fsm \<Rightarrow> fsm" where
  "SetClientState now m h f =
     (let f = (if m \<and> \<not> muted f then f\<lparr>mutedSince := now\<rparr> else f)
      in f\<lparr>muted := m, hidden := h\<rparr>)"

definition Disconnected :: "fsm \<Rightarrow> park_reason \<times> fsm" where
  "Disconnected f = (ParkDisconnect, f\<lparr>fstate := PARKED\<rparr>)"

definition RequestPark :: "instant \<Rightarrow> park_reason \<Rightarrow> fsm \<Rightarrow> fsm" where
  "RequestPark now r f =
     (if fstate f = PARKED then f
      else f\<lparr>parkRequested := True, parkRequestedAt := now, parkReason := r,
             fstate := PARKING\<rparr>)"

definition ExplicitPark :: "fsm \<Rightarrow> park_reason \<times> fsm" where
  "ExplicitPark f = (ParkExplicit, f\<lparr>fstate := PARKED\<rparr>)"

text \<open>\<open>Tick\<close> returns \<open>(park, reason, becameQuiet)\<close> and the new state.\<close>

definition clearPark :: "fsm \<Rightarrow> fsm" where
  "clearPark f = f\<lparr>fstate := PARKED, parkRequested := False, parkRequestedAt := zero_time,
     parkReason := NoReason\<rparr>"

definition Tick :: "instant \<Rightarrow> fsm \<Rightarrow> (bool \<times> park_reason \<times> bool) \<times> fsm" where
  "Tick now f =
     (if fstate f = PARKED then ((False, NoReason, False), f)
      else let busy = inFlight f \<or> audioPlaying f \<or> userSpeaking f \<or> toolPendingF f;
               inGrace = time_before now (graceUntil f) in
        if parkRequested f then
          (if busy then
             (if 0 < ParkDrainAfter (fcfg f) \<and>
                 ParkDrainAfter (fcfg f) \<le> time_sub now (parkRequestedAt f)
              then ((True, ParkDrainTimeout, False), clearPark f)
              else ((False, NoReason, False), f))
           else ((True, if parkReason f = NoReason then ParkExplicit else parkReason f, False),
                 clearPark f))
        else if RolloverAt (fcfg f) \<le> time_sub now (callStart f) \<and> \<not> busy
        then ((True, ParkRollover, False), f\<lparr>fstate := PARKED\<rparr>)
        else if \<not> busy \<and> \<not> inGrace \<and> muted f \<and>
                (hidden f \<or> MuteParkAfter (fcfg f) \<le> time_sub now (mutedSince f))
        then ((True, ParkMuteHidden, False), f\<lparr>fstate := PARKED\<rparr>)
        else if \<not> busy \<and> \<not> inGrace \<and> ParkAfter (fcfg f) \<le> time_sub now (lastSpeech f)
        then ((True, ParkIdle, False), f\<lparr>fstate := PARKED\<rparr>)
        else if fstate f = LIVE \<and> \<not> busy \<and> QuietAfter (fcfg f) \<le> time_sub now (lastSpeech f)
        then ((False, NoReason, True), f\<lparr>fstate := QUIET\<rparr>)
        else ((False, NoReason, False), f))"

lemmas fsm_op_defs = CallStarted_def speechActivityLocked_def SpeechActivity_def
  SpeechStarted_def SpeechStopped_def ResponseStarted_def TryStartResponse_def ResponseDone_def
  AudioStarted_def AudioStopped_def ToolPending_def QuestionVoiced_def SetClientState_def
  Disconnected_def RequestPark_def ExplicitPark_def clearPark_def Let_def

section \<open>Histories\<close>

datatype fsm_op =
  OCallStarted instant | OSpeechActivity instant | OSpeechStarted instant
  | OSpeechStopped instant | OResponseStarted instant | OTryStart instant
  | OResponseDone instant | OAudioStarted instant | OAudioStopped instant
  | OToolPending bool | OQuestionVoiced instant | OSetClientState instant bool bool
  | ODisconnected | ORequestPark instant park_reason | OExplicitPark | OTick instant

fun fsm_apply :: "fsm_op \<Rightarrow> fsm \<Rightarrow> fsm" where
  "fsm_apply (OCallStarted t) f = CallStarted t f"
| "fsm_apply (OSpeechActivity t) f = SpeechActivity t f"
| "fsm_apply (OSpeechStarted t) f = SpeechStarted t f"
| "fsm_apply (OSpeechStopped t) f = SpeechStopped t f"
| "fsm_apply (OResponseStarted t) f = ResponseStarted t f"
| "fsm_apply (OTryStart t) f = snd (TryStartResponse t f)"
| "fsm_apply (OResponseDone t) f = ResponseDone t f"
| "fsm_apply (OAudioStarted t) f = AudioStarted t f"
| "fsm_apply (OAudioStopped t) f = AudioStopped t f"
| "fsm_apply (OToolPending p) f = ToolPending p f"
| "fsm_apply (OQuestionVoiced t) f = QuestionVoiced t f"
| "fsm_apply (OSetClientState t m h) f = SetClientState t m h f"
| "fsm_apply ODisconnected f = snd (Disconnected f)"
| "fsm_apply (ORequestPark t r) f = RequestPark t r f"
| "fsm_apply OExplicitPark f = snd (ExplicitPark f)"
| "fsm_apply (OTick t) f = snd (Tick t f)"

abbreviation fsm_run :: "fsm_op list \<Rightarrow> fsm \<Rightarrow> fsm" where
  "fsm_run xs f \<equiv> fold fsm_apply xs f"

inductive fsm_reach :: "fsm_config \<Rightarrow> fsm \<Rightarrow> bool" for c where
  fsm_start: "fsm_reach c (NewFSM c)"
| fsm_step: "fsm_reach c f \<Longrightarrow> fsm_reach c (fsm_apply x f)"

lemma fsm_reach_run: "fsm_reach c f \<Longrightarrow> fsm_reach c (fsm_run xs f)"
  by (induction xs arbitrary: f) (auto intro: fsm_step)

section \<open>Invariant\<close>

text \<open>
  A session is draining exactly when it shows PARKING; a request can outlive its session only in
  PARKED, where \<open>Disconnected\<close> and \<open>ExplicitPark\<close> leave it set.
\<close>

definition fsm_inv :: "fsm_config \<Rightarrow> fsm \<Rightarrow> bool" where
  "fsm_inv c f \<longleftrightarrow> fcfg f = c \<and> (fstate f = PARKING \<longrightarrow> parkRequested f) \<and>
     (parkRequested f \<longrightarrow> fstate f = PARKING \<or> fstate f = PARKED)"

lemma fsm_inv_NewFSM: "fsm_inv c (NewFSM c)"
  by (simp add: fsm_inv_def NewFSM_def)

lemma Tick_inv: "fsm_inv c f \<Longrightarrow> fsm_inv c (snd (Tick now f))"
  by (auto simp: fsm_inv_def Tick_def Let_def clearPark_def)

lemma fsm_apply_inv: "fsm_inv c f \<Longrightarrow> fsm_inv c (fsm_apply x f)"
proof (cases x)
  case (OTick t)
  then show "fsm_inv c f \<Longrightarrow> ?thesis" by (simp add: Tick_inv)
qed (auto simp: fsm_inv_def fsm_op_defs)

lemma fsm_reach_inv: "fsm_reach c f \<Longrightarrow> fsm_inv c f"
  by (induction rule: fsm_reach.induct) (auto intro: fsm_inv_NewFSM fsm_apply_inv)

lemma fsm_apply_cfg [simp]: "fcfg (fsm_apply x f) = fcfg f"
  by (cases x) (auto simp: fsm_op_defs Tick_def)

lemma fsm_run_cfg [simp]: "fcfg (fsm_run xs f) = fcfg f"
  by (induction xs arbitrary: f) auto

section \<open>What one operation keeps\<close>

text \<open>
  \<open>starts_call\<close>, \<open>releases\<close> and \<open>renews_park\<close> name the operations that may end, respectively,
  the parked state, an admitted response and a pending park deadline; every other operation keeps
  them.
\<close>

fun starts_call :: "fsm_op \<Rightarrow> bool" where
  "starts_call (OCallStarted t) = True"
| "starts_call _ = False"

fun releases :: "fsm_op \<Rightarrow> bool" where
  "releases (OCallStarted t) = True"
| "releases (OResponseDone t) = True"
| "releases _ = False"

fun renews_park :: "fsm_op \<Rightarrow> bool" where
  "renews_park (OCallStarted t) = True"
| "renews_park (ORequestPark t r) = True"
| "renews_park _ = False"

lemma apply_parked: "fstate f = PARKED \<Longrightarrow> \<not> starts_call x \<Longrightarrow> fstate (fsm_apply x f) = PARKED"
  by (cases x) (auto simp: fsm_op_defs Tick_def)

lemma apply_inFlight: "inFlight f \<Longrightarrow> \<not> releases x \<Longrightarrow> inFlight (fsm_apply x f)"
  by (cases x) (auto simp: fsm_op_defs Tick_def)

lemma apply_pending_park:
  assumes "fstate f = PARKED \<or> fstate f = PARKING \<and> parkRequested f \<and> parkRequestedAt f = t"
    and "\<not> renews_park x"
  shows "fstate (fsm_apply x f) = PARKED \<or> fstate (fsm_apply x f) = PARKING \<and>
    parkRequested (fsm_apply x f) \<and> parkRequestedAt (fsm_apply x f) = t"
  using assms by (cases x) (auto simp: fsm_op_defs Tick_def)

lemma run_parked:
  "fstate f = PARKED \<Longrightarrow> \<forall>x\<in>set xs. \<not> starts_call x \<Longrightarrow> fstate (fsm_run xs f) = PARKED"
  by (induction xs arbitrary: f) (auto simp: apply_parked)

lemma run_inFlight:
  "inFlight f \<Longrightarrow> \<forall>x\<in>set xs. \<not> releases x \<Longrightarrow> inFlight (fsm_run xs f)"
  by (induction xs arbitrary: f) (auto simp: apply_inFlight)

lemma run_pending_park:
  assumes "fstate f = PARKED \<or> fstate f = PARKING \<and> parkRequested f \<and> parkRequestedAt f = t"
    and "\<forall>x\<in>set xs. \<not> renews_park x"
  shows "fstate (fsm_run xs f) = PARKED \<or> fstate (fsm_run xs f) = PARKING \<and>
    parkRequested (fsm_run xs f) \<and> parkRequestedAt (fsm_run xs f) = t"
  using assms
proof (induction xs arbitrary: f)
  case (Cons x xs)
  then show ?case using apply_pending_park [of f t x] by simp
qed simp

lemma Tick_drained:
  assumes "fstate f = PARKED \<or> fstate f = PARKING \<and> parkRequested f \<and> parkRequestedAt f = t"
    and "0 < ParkDrainAfter (fcfg f)" and "ParkDrainAfter (fcfg f) \<le> max_duration"
    and "t + ParkDrainAfter (fcfg f) \<le> now"
  shows "fstate (snd (Tick now f)) = PARKED"
proof -
  have "ParkDrainAfter (fcfg f) \<le> time_sub now t"
    using assms(2-4) time_sub_ge_iff by blast
  with assms(1,2) show ?thesis by (auto simp: Tick_def clearPark_def Let_def)
qed

section \<open>Properties\<close>

text \<open>
  C40. The ladder never ends a call mid-turn: a \<open>Tick\<close> that parks found no response in flight, no
  output audio, no operator speech and no pending tool, unless it is the drain fallback, which
  needs a park request that has already waited \<open>ParkDrainAfter\<close>.
\<close>

theorem tick_parks_only_drained:
  assumes "Tick now f = ((True, r, q), f')"
  shows "fstate f' = PARKED \<and>
    (Busy f \<longrightarrow> r = ParkDrainTimeout \<and> parkRequested f \<and> 0 < ParkDrainAfter (fcfg f) \<and>
       ParkDrainAfter (fcfg f) \<le> time_sub now (parkRequestedAt f)) \<and>
    (r = ParkIdle \<and> \<not> parkRequested f \<or> r = ParkMuteHidden \<and> \<not> parkRequested f \<longrightarrow>
       graceUntil f \<le> now)"
  using assms
  by (auto simp: Tick_def Busy_def clearPark_def time_before_def Let_def split: if_splits)

text \<open>A concrete session: live since 0, a response in flight, parked on request at second 1.\<close>

definition demo_cfg :: fsm_config where
  "demo_cfg = DefaultFSMConfig (seconds 30) (minutes 10) (minutes 57)"

definition demo_busy :: fsm where
  "demo_busy = fsm_run [OCallStarted 5, OTryStart 6, ORequestPark (seconds 1) ParkExplicit]
     (NewFSM demo_cfg)"

lemmas demo_simps = demo_cfg_def demo_busy_def DefaultFSMConfig_def NewFSM_def fsm_op_defs
  Tick_def time_sub_def min_duration_def max_duration_def seconds_def minutes_def
  zero_time_def time_before_def

lemma tick_parks_only_drained_witness:
  "let (v, f') = Tick (seconds 31) demo_busy in
     v = (True, ParkDrainTimeout, False) \<and> Busy demo_busy \<and> fstate f' = PARKED \<and>
     parkRequested demo_busy"
proof -
  have t: "Tick (seconds 31) demo_busy =
      ((True, ParkDrainTimeout, False), snd (Tick (seconds 31) demo_busy))"
    and b: "Busy demo_busy"
    by (simp_all add: demo_simps Busy_def)
  show ?thesis using tick_parks_only_drained [OF t] b by (subst t) simp
qed

lemma demo_reach: "fsm_reach demo_cfg (fsm_apply (OCallStarted 5) (NewFSM demo_cfg))"
  by (rule fsm_step [OF fsm_start])

text \<open>
  A park request always completes: whatever happens after it (responses, audio, speech, tools,
  ticks, mute changes, disconnects), unless a new call starts or the park is requested again, the
  first \<open>Tick\<close> at least \<open>ParkDrainAfter\<close> later leaves the session PARKED.
\<close>

lemma park_request_completes:
  assumes "fsm_reach c f" and "\<forall>x\<in>set xs. \<not> renews_park x"
    and "0 < ParkDrainAfter c" and "ParkDrainAfter c \<le> max_duration"
    and "t + ParkDrainAfter c \<le> now"
  shows "fstate (fsm_run (ORequestPark t r # xs @ [OTick now]) f) = PARKED"
proof -
  let ?g = "RequestPark t r f" and ?h = "fsm_run xs (RequestPark t r f)"
  have c: "fcfg f = c" using fsm_reach_inv [OF assms(1)] by (simp add: fsm_inv_def)
  have "fstate ?g = PARKED \<or> fstate ?g = PARKING \<and> parkRequested ?g \<and> parkRequestedAt ?g = t"
    by (simp add: RequestPark_def)
  from run_pending_park [OF this assms(2)]
  have "fstate ?h = PARKED \<or> fstate ?h = PARKING \<and> parkRequested ?h \<and> parkRequestedAt ?h = t" .
  moreover have "fcfg ?h = c" using c by (simp add: RequestPark_def)
  ultimately show ?thesis using Tick_drained [of ?h t now] assms(3-5) by simp
qed

text \<open>
  PARKED is left only through a new call: no other history of operations brings a session
  back, and in PARKED or PARKING no response is ever admitted.
\<close>

lemma parked_until_call:
  assumes "fstate f = PARKED" and "\<forall>x\<in>set xs. \<not> starts_call x"
  shows "fstate (fsm_run xs f) = PARKED \<and> \<not> fst (TryStartResponse t (fsm_run xs f)) \<and>
    \<not> CanStartResponse (fsm_run xs f)"
  using run_parked [OF assms] by (simp add: TryStartResponse_def CanStartResponse_def)

text \<open>
  Single writer: after an admitted response, no second one is admitted until a
  \<open>ResponseDone\<close> (or a new call) releases it, whatever else happens in between.
\<close>

lemma one_response_in_flight:
  assumes "TryStartResponse t f = (True, g)" and "\<forall>x\<in>set xs. \<not> releases x"
  shows "\<not> fst (TryStartResponse t' (fsm_run xs g))"
proof -
  have "inFlight g" using assms(1) by (auto simp: TryStartResponse_def split: if_splits)
  from run_inFlight [OF this assms(2)] show ?thesis by (simp add: TryStartResponse_def)
qed

text \<open>
  In every reachable state PARKING and a pending park request go together, a request can be
  left over only in PARKED, and the read-only probe \<open>CanStartResponse\<close> agrees with the admission
  \<open>TryStartResponse\<close>, which changes nothing when it refuses.
\<close>

lemma fsm_reachable_consistent:
  assumes "fsm_reach c f"
  shows "(fstate f = PARKING \<longleftrightarrow> parkRequested f \<and> fstate f \<noteq> PARKED) \<and>
    fst (TryStartResponse t f) = CanStartResponse f \<and>
    (\<not> CanStartResponse f \<longrightarrow> snd (TryStartResponse t f) = f)"
  using fsm_reach_inv [OF assms]
  by (auto simp: fsm_inv_def TryStartResponse_def CanStartResponse_def)

section \<open>The ladder\<close>

text \<open>
  The states of a session are linearly ordered: live, quiet, parking, parked,
  and the lemmas say which operations can climb back.
\<close>

instantiation fsm_state :: linorder
begin

fun rung :: "fsm_state \<Rightarrow> nat" where
  "rung LIVE = 0"
| "rung QUIET = 1"
| "rung PARKING = 2"
| "rung PARKED = 3"

definition less_eq_fsm_state :: "fsm_state \<Rightarrow> fsm_state \<Rightarrow> bool" where
  "less_eq_fsm_state s t \<longleftrightarrow> rung s \<le> rung t"

definition less_fsm_state :: "fsm_state \<Rightarrow> fsm_state \<Rightarrow> bool" where
  "less_fsm_state s t \<longleftrightarrow> rung s < rung t"

instance
proof
  fix s t :: fsm_state
  show "s = t" if "s \<le> t" "t \<le> s"
    using that by (cases s; cases t) (simp_all add: less_eq_fsm_state_def)
qed (auto simp: less_eq_fsm_state_def less_fsm_state_def)

end

lemmas rungs = less_eq_fsm_state_def less_fsm_state_def

text \<open>The timer only goes down the ladder.\<close>

lemma tick_descends: "fstate f \<le> fstate (snd (Tick now f))"
  by (cases "fstate f") (auto simp: rungs Tick_def clearPark_def Let_def)

fun speaks :: "fsm_op \<Rightarrow> bool" where
  "speaks (OSpeechActivity t) = True"
| "speaks (OSpeechStarted t) = True"
| "speaks (OSpeechStopped t) = True"
| "speaks _ = False"

fun_cases speaksE: "speaks x"

text \<open>Only a new call climbs back, and speech, which climbs from quiet to live.\<close>

lemma climbs_back:
  assumes "fstate (fsm_apply x f) < fstate f"
  shows "starts_call x \<or> speaks x \<and> fstate f = QUIET \<and> fstate (fsm_apply x f) = LIVE"
proof (cases x)
  case (OTick t)
  then show ?thesis using assms tick_descends [of f t] by simp
next
  case (ORequestPark t r)
  then show ?thesis using assms by (cases "fstate f") (auto simp: rungs RequestPark_def)
qed (use assms in \<open>cases "fstate f"; auto simp: rungs fsm_op_defs split: if_splits\<close>)+

lemma quiet_speech:
  assumes "speaks x" "fstate f \<noteq> QUIET"
  shows "fstate (fsm_apply x f) = fstate f"
  using assms(1) by (rule speaksE) (use assms(2) in \<open>simp_all add: fsm_op_defs\<close>)

text \<open>A session that drains never comes back: without a new call its state only goes down, whatever happens.\<close>

lemma draining_is_final:
  "PARKING \<le> fstate f \<Longrightarrow> \<forall>x\<in>set xs. \<not> starts_call x \<Longrightarrow> fstate f \<le> fstate (fsm_run xs f)"
proof (induction xs arbitrary: f)
  case (Cons x xs)
  have "fstate f \<noteq> QUIET" using Cons.prems(1) by (auto simp: rungs)
  then have "fstate f \<le> fstate (fsm_apply x f)" using climbs_back [of x f] Cons.prems(2) not_le by auto
  moreover from this have "fstate (fsm_apply x f) \<le> fstate (fsm_run (x # xs) f)"
    using Cons.IH [of "fsm_apply x f"] Cons.prems by (simp add: order_trans)
  ultimately show ?case by (rule order_trans)
qed simp

end
