(* ===== verification/Text.thy ===== *)
theory Text
  imports Prelude
begin

text \<open>
  Go strings.  A \<open>string\<close> is the byte sequence Go's type holds.  \<open>segments\<close> is the walk that
  \<open>for range s\<close> and \<open>[]rune(s)\<close> make over it (package \<open>unicode/utf8\<close>): each segment is a rune with
  the bytes it came from, and a byte that starts no well-formed sequence is the replacement rune
  \<open>U+FFFD\<close> of width one.  On it rest the functions of package \<open>strings\<close> the program calls
  (\<open>Fields\<close>, \<open>TrimSpace\<close>, \<open>Join\<close>, \<open>HasPrefix\<close>, \<open>Contains\<close>, \<open>Split\<close>) and the rune-bounded cut
  \<open>string([]rune(s)[:n])\<close> that appears in half of the packages.
\<close>

section \<open>UTF-8\<close>

definition byte :: "char \<Rightarrow> nat" where
  "byte c = of_char c"

lemma byte_less [simp]: "byte c < 256"
  unfolding byte_def using of_char_mod_256 [of c, where 'a = nat] mod_less_divisor [of 256 "of_char c :: nat"]
  by simp

lemma byte_char_of [simp]: "byte (char_of n) = n mod 256"
  by (simp add: byte_def)

lemma byte_inj [simp]: "byte c = byte d \<longleftrightarrow> c = d"
  by (simp add: byte_def)

definition rune_error :: nat where
  "rune_error = 65533"

definition cont :: "nat \<Rightarrow> bool" where
  "cont b \<longleftrightarrow> 128 \<le> b \<and> b < 192"

definition second_ok :: "nat \<Rightarrow> nat \<Rightarrow> bool" where
  "second_ok b0 b1 \<longleftrightarrow>
     (if b0 = 224 then 160 \<le> b1 \<and> b1 < 192
      else if b0 = 237 then 128 \<le> b1 \<and> b1 < 160
      else if b0 = 240 then 144 \<le> b1 \<and> b1 < 192
      else if b0 = 244 then 128 \<le> b1 \<and> b1 < 144
      else cont b1)"

text \<open>\<open>utf8.DecodeRuneInString\<close>: the rune and the number of bytes it takes.\<close>

fun decode_rune :: "string \<Rightarrow> nat \<times> nat" where
  "decode_rune [] = (rune_error, 0)"
| "decode_rune (c # cs) =
     (let b0 = byte c in
      if b0 < 128 then (b0, 1)
      else if 194 \<le> b0 \<and> b0 < 224 then
        (case cs of
           c1 # _ \<Rightarrow> if cont (byte c1) then ((b0 - 192) * 64 + (byte c1 - 128), 2)
                     else (rune_error, 1)
         | [] \<Rightarrow> (rune_error, 1))
      else if 224 \<le> b0 \<and> b0 < 240 then
        (case cs of
           c1 # c2 # _ \<Rightarrow>
             if second_ok b0 (byte c1) \<and> cont (byte c2)
             then ((b0 - 224) * 4096 + (byte c1 - 128) * 64 + (byte c2 - 128), 3)
             else (rune_error, 1)
         | _ \<Rightarrow> (rune_error, 1))
      else if 240 \<le> b0 \<and> b0 < 245 then
        (case cs of
           c1 # c2 # c3 # _ \<Rightarrow>
             if second_ok b0 (byte c1) \<and> cont (byte c2) \<and> cont (byte c3)
             then ((b0 - 240) * 262144 + (byte c1 - 128) * 4096 + (byte c2 - 128) * 64
                   + (byte c3 - 128), 4)
             else (rune_error, 1)
         | _ \<Rightarrow> (rune_error, 1))
      else (rune_error, 1))"

declare decode_rune.simps(2) [simp del]

lemma decode_rune_width:
  "0 < snd (decode_rune (c # cs)) \<and> snd (decode_rune (c # cs)) \<le> length (c # cs)"
  by (auto simp: decode_rune.simps Let_def split: list.splits)

function segments :: "string \<Rightarrow> (nat \<times> string) list" where
  "segments [] = []"
| "segments (c # cs) =
     (case decode_rune (c # cs) of (r, w) \<Rightarrow>
        (r, take w (c # cs)) # segments (drop w (c # cs)))"
  by pat_completeness auto
termination
proof (relation "measure length")
  fix c cs r w
  assume "(r, w) = decode_rune (c # cs)"
  then show "(drop w (c # cs), c # cs) \<in> measure length"
    using decode_rune_width [of c cs] by (cases "decode_rune (c # cs)") auto
qed simp

declare segments.simps(2) [simp del]

definition runes :: "string \<Rightarrow> nat list" where
  "runes s = map fst (segments s)"

text \<open>A rune that \<open>string(rune)\<close> encodes as itself; the others become \<open>U+FFFD\<close>.\<close>

definition valid_rune :: "nat \<Rightarrow> bool" where
  "valid_rune r \<longleftrightarrow> r < 55296 \<or> 57344 \<le> r \<and> r < 1114112"

definition encode_rune :: "nat \<Rightarrow> string" where
  "encode_rune r0 =
     (let r = (if valid_rune r0 then r0 else rune_error) in
      if r < 128 then [char_of r]
      else if r < 2048 then [char_of (192 + r div 64), char_of (128 + r mod 64)]
      else if r < 65536 then
        [char_of (224 + r div 4096), char_of (128 + r div 64 mod 64), char_of (128 + r mod 64)]
      else
        [char_of (240 + r div 262144), char_of (128 + r div 4096 mod 64),
         char_of (128 + r div 64 mod 64), char_of (128 + r mod 64)])"

definition of_runes :: "nat list \<Rightarrow> string" where
  "of_runes rs = concat (map encode_rune rs)"

lemma concat_segments: "concat (map snd (segments s)) = s"
proof (induction s rule: segments.induct)
  case (2 c cs)
  then show ?case by (cases "decode_rune (c # cs)") (simp add: segments.simps)
qed simp

lemma segment_nonempty: "(r, b) \<in> set (segments s) \<Longrightarrow> b \<noteq> []"
proof (induction s rule: segments.induct)
  case (2 c cs)
  then show ?case
    using decode_rune_width [of c cs] by (cases "decode_rune (c # cs)") (auto simp: segments.simps)
qed simp

lemma second_ok_cont: "second_ok b0 b1 \<Longrightarrow> cont b1"
  by (auto simp: second_ok_def cont_def split: if_splits)

lemma valid_rune2: "b0 < 224 \<Longrightarrow> cont b1 \<Longrightarrow> valid_rune ((b0 - 192) * 64 + (b1 - 128))"
  unfolding valid_rune_def cont_def by linarith

lemma valid_rune3:
  assumes "b0 < 240" "second_ok b0 b1" "cont b2"
  shows "valid_rune ((b0 - 224) * 4096 + (b1 - 128) * 64 + (b2 - 128))"
proof -
  have b1: "b1 - 128 < 64" and b2: "b2 - 128 < 64"
    using second_ok_cont [OF assms(2)] assms(3) by (auto simp: cont_def)
  consider "b0 < 237" | "b0 = 237" | "238 \<le> b0" by linarith
  then show ?thesis
  proof cases
    case 1
    then have "b0 - 224 \<le> 12" by simp
    with b1 b2 show ?thesis unfolding valid_rune_def by linarith
  next
    case 2
    with assms(2) have "128 \<le> b1" "b1 < 160" by (simp_all add: second_ok_def)
    then have "b1 - 128 < 32" by linarith
    with 2 b2 show ?thesis unfolding valid_rune_def by simp
  next
    case 3
    then have "14 \<le> b0 - 224" "b0 - 224 \<le> 15" using assms(1) by simp_all
    with b1 b2 show ?thesis unfolding valid_rune_def by linarith
  qed
qed

lemma valid_rune4:
  assumes "240 \<le> b0" "b0 < 245" "second_ok b0 b1" "cont b2" "cont b3"
  shows "valid_rune ((b0 - 240) * 262144 + (b1 - 128) * 4096 + (b2 - 128) * 64 + (b3 - 128))"
proof -
  have b: "b1 - 128 < 64" "b2 - 128 < 64" "b3 - 128 < 64"
    using second_ok_cont [OF assms(3)] assms(4,5) by (auto simp: cont_def)
  consider "b0 = 240" | "241 \<le> b0" "b0 \<le> 243" | "b0 = 244" using assms(1,2) by linarith
  then show ?thesis
  proof cases
    case 1
    with assms(3) have "144 \<le> b1" by (simp add: second_ok_def)
    then have "16 \<le> b1 - 128" by linarith
    with 1 b show ?thesis unfolding valid_rune_def by simp
  next
    case 2
    then have "1 \<le> b0 - 240" "b0 - 240 \<le> 3" by simp_all
    with b show ?thesis unfolding valid_rune_def by linarith
  next
    case 3
    with assms(3) have "b1 < 144" by (simp add: second_ok_def)
    then have "b1 - 128 < 16" by linarith
    with 3 b show ?thesis unfolding valid_rune_def by simp
  qed
qed

lemma decode_valid: "valid_rune (fst (decode_rune s))"
proof (cases s)
  case Nil
  then show ?thesis by (simp add: valid_rune_def rune_error_def)
next
  case (Cons c cs)
  have e: "valid_rune rune_error" and a: "\<And>b. b < 128 \<Longrightarrow> valid_rune b"
    by (simp_all add: valid_rune_def rune_error_def)
  show ?thesis
    unfolding Cons decode_rune.simps Let_def
    by (simp add: e a valid_rune2 valid_rune3 valid_rune4 split: list.split)
qed

lemma runes_valid: "r \<in> set (runes s) \<Longrightarrow> valid_rune r"
  unfolding runes_def
proof (induction s rule: segments.induct)
  case (2 c cs)
  then show ?case
    using decode_valid [of "c # cs"] by (cases "decode_rune (c # cs)") (auto simp: segments.simps)
qed simp

section \<open>Encoding is inverse to decoding\<close>

lemma decode2:
  assumes "194 \<le> b0" "b0 < 224" "cont b1"
  shows "decode_rune (char_of b0 # char_of b1 # s) = ((b0 - 192) * 64 + (b1 - 128), 2)"
proof -
  have "b0 mod 256 = b0" "b1 mod 256 = b1" using assms by (simp_all add: cont_def)
  with assms show ?thesis by (simp add: decode_rune.simps Let_def)
qed

lemma decode3:
  assumes "224 \<le> b0" "b0 < 240" "second_ok b0 b1" "cont b2"
  shows "decode_rune (char_of b0 # char_of b1 # char_of b2 # s) =
    ((b0 - 224) * 4096 + (b1 - 128) * 64 + (b2 - 128), 3)"
proof -
  have "b0 mod 256 = b0" "b1 mod 256 = b1" "b2 mod 256 = b2"
    using assms second_ok_cont [OF assms(3)] by (simp_all add: cont_def)
  with assms show ?thesis by (simp add: decode_rune.simps Let_def)
qed

lemma decode4:
  assumes "240 \<le> b0" "b0 < 245" "second_ok b0 b1" "cont b2" "cont b3"
  shows "decode_rune (char_of b0 # char_of b1 # char_of b2 # char_of b3 # s) =
    ((b0 - 240) * 262144 + (b1 - 128) * 4096 + (b2 - 128) * 64 + (b3 - 128), 4)"
proof -
  have "b0 mod 256 = b0" "b1 mod 256 = b1" "b2 mod 256 = b2" "b3 mod 256 = b3"
    using assms second_ok_cont [OF assms(3)] by (simp_all add: cont_def)
  with assms show ?thesis by (simp add: decode_rune.simps Let_def)
qed

lemma digits64: "(n :: nat) = n div 64 * 64 + n mod 64 \<and> n mod 64 < 64"
  by simp

lemma decode_encode_rune:
  assumes "valid_rune r"
  shows "decode_rune (encode_rune r @ s) = (r, length (encode_rune r))"
proof -
  consider "r < 128" | "128 \<le> r" "r < 2048" | "2048 \<le> r" "r < 65536" | "65536 \<le> r"
    by linarith
  then show ?thesis
  proof cases
    case 1
    with assms show ?thesis by (simp add: encode_rune_def decode_rune.simps)
  next
    case 2
    have b: "194 \<le> 192 + r div 64" "192 + r div 64 < 224" "cont (128 + r mod 64)"
      using 2 unfolding cont_def by linarith+
    have e: "encode_rune r = [char_of (192 + r div 64), char_of (128 + r mod 64)]"
      using 2 assms by (simp add: encode_rune_def)
    show ?thesis unfolding e using decode2 [OF b] by simp
  next
    case 3
    define a b c where abc: "a = r div 64 div 64" "b = r div 64 mod 64" "c = r mod 64"
    have d: "r = a * 4096 + b * 64 + c" and l: "b < 64" "c < 64"
      using digits64 [of r] digits64 [of "r div 64"] unfolding abc by linarith+
    have a: "a < 16" using 3 d by linarith
    have "a = 0 \<longrightarrow> 32 \<le> b" using 3(1) d l by linarith
    moreover have "a = 13 \<longrightarrow> b < 32" using assms 3(2) d l unfolding valid_rune_def by linarith
    ultimately have "second_ok (224 + a) (128 + b)"
      using a l by (auto simp: second_ok_def cont_def)
    moreover have "encode_rune r = [char_of (224 + a), char_of (128 + b), char_of (128 + c)]"
      using 3 assms by (simp add: encode_rune_def abc div_mult2_eq [symmetric])
    moreover have "r = (224 + a - 224) * 4096 + (128 + b - 128) * 64 + (128 + c - 128)"
      using d by simp
    ultimately show ?thesis
      using a l decode3 [of "224 + a" "128 + b" "128 + c" s] by (simp add: cont_def)
  next
    case 4
    define a b c e where abc: "a = r div 64 div 64 div 64" "b = r div 64 div 64 mod 64"
      "c = r div 64 mod 64" "e = r mod 64"
    have r: "r < 1114112" using assms 4 by (simp add: valid_rune_def)
    have d: "r = a * 262144 + b * 4096 + c * 64 + e" and l: "b < 64" "c < 64" "e < 64"
      using digits64 [of r] digits64 [of "r div 64"] digits64 [of "r div 64 div 64"]
      unfolding abc by linarith+
    have a: "a < 5" using r d by linarith
    have "a = 0 \<longrightarrow> 16 \<le> b" using 4 d l by linarith
    moreover have "a = 4 \<longrightarrow> b < 16" using r d by linarith
    ultimately have "second_ok (240 + a) (128 + b)"
      using a l by (auto simp: second_ok_def cont_def)
    moreover have "encode_rune r =
        [char_of (240 + a), char_of (128 + b), char_of (128 + c), char_of (128 + e)]"
      using 4 assms by (simp add: encode_rune_def abc div_mult2_eq [symmetric])
    moreover have "r = (240 + a - 240) * 262144 + (128 + b - 128) * 4096 + (128 + c - 128) * 64
        + (128 + e - 128)"
      using d by simp
    ultimately show ?thesis
      using a l decode4 [of "240 + a" "128 + b" "128 + c" "128 + e" s] by (simp add: cont_def)
  qed
qed

lemma encode_rune_nonempty [simp]: "encode_rune r \<noteq> []"
  by (simp add: encode_rune_def Let_def)

lemma segments_unfold:
  "s \<noteq> [] \<Longrightarrow> segments s =
     (fst (decode_rune s), take (snd (decode_rune s)) s) # segments (drop (snd (decode_rune s)) s)"
  by (cases s) (auto simp: segments.simps split: prod.split)

lemma segments_encode:
  "valid_rune r \<Longrightarrow> segments (encode_rune r @ s) = (r, encode_rune r) # segments s"
  by (subst segments_unfold) (simp_all add: decode_encode_rune)

lemma runes_of_runes: "\<forall>r\<in>set rs. valid_rune r \<Longrightarrow> runes (of_runes rs) = rs"
  unfolding runes_def of_runes_def by (induction rs) (auto simp: segments_encode)

section \<open>Package strings\<close>

text \<open>\<open>unicode.IsSpace\<close>.\<close>

definition is_space :: "nat \<Rightarrow> bool" where
  "is_space r \<longleftrightarrow> r \<in> {9, 10, 11, 12, 13, 32, 133, 160, 5760, 8232, 8233, 8239, 8287, 12288} \<or>
     8192 \<le> r \<and> r \<le> 8202"

fun fields_seg :: "(nat \<times> string) list \<Rightarrow> string \<Rightarrow> string list" where
  "fields_seg [] cur = (if cur = [] then [] else [cur])"
| "fields_seg ((r, b) # xs) cur =
     (if is_space r then (if cur = [] then fields_seg xs [] else cur # fields_seg xs [])
      else fields_seg xs (cur @ b))"

definition fields :: "string \<Rightarrow> string list" where
  "fields s = fields_seg (segments s) []"

fun join :: "string \<Rightarrow> string list \<Rightarrow> string" where
  "join sep [] = []"
| "join sep [x] = x"
| "join sep (x # y # ys) = x @ sep @ join sep (y # ys)"

definition trim_seg :: "(nat \<times> string) list \<Rightarrow> (nat \<times> string) list" where
  "trim_seg xs = rev (dropWhile (is_space \<circ> fst) (rev (dropWhile (is_space \<circ> fst) xs)))"

definition trim_space :: "string \<Rightarrow> string" where
  "trim_space s = concat (map snd (trim_seg (segments s)))"

definition has_prefix :: "string \<Rightarrow> string \<Rightarrow> bool" where
  "has_prefix s p \<longleftrightarrow> take (length p) s = p"

definition has_suffix :: "string \<Rightarrow> string \<Rightarrow> bool" where
  "has_suffix s p \<longleftrightarrow> length p \<le> length s \<and> drop (length s - length p) s = p"

fun contains :: "string \<Rightarrow> string \<Rightarrow> bool" where
  "contains [] p = (p = [])"
| "contains (c # cs) p = (has_prefix (c # cs) p \<or> contains cs p)"

text \<open>\<open>strings.Split(s, sep)\<close> for the one-byte separators the program uses.\<close>

fun split_on :: "char \<Rightarrow> string \<Rightarrow> string list" where
  "split_on d [] = [[]]"
| "split_on d (c # cs) =
     (if c = d then [] # split_on d cs
      else (case split_on d cs of [] \<Rightarrow> [[c]] | x # xs \<Rightarrow> (c # x) # xs))"

text \<open>\<open>string([]rune(s)[:n])\<close>, and the ellipsis \<open>U+2026\<close> the program appends after such a cut.\<close>

definition cut_runes :: "nat \<Rightarrow> string \<Rightarrow> string" where
  "cut_runes n s = of_runes (take n (runes s))"

definition ellipsis :: string where
  "ellipsis = encode_rune 8230"

definition line_break :: char where
  "line_break = CHR 0x0A"

text \<open>
  Decimal rendering (\<open>%d\<close>), and \<open>%q\<close> for what the program quotes: exact on ASCII; a byte of a longer
  sequence is kept, as \<open>strconv.Quote\<close> does for printable runes of well-formed text.
\<close>

function nat_text :: "nat \<Rightarrow> string" where
  "nat_text n = (if n < 10 then [char_of (48 + n)] else nat_text (n div 10) @ [char_of (48 + n mod 10)])"
  by pat_completeness auto
termination by (relation "measure id") auto

declare nat_text.simps [simp del]

definition int_text :: "int \<Rightarrow> string" where
  "int_text i = (if i < 0 then CHR ''-'' # nat_text (nat (- i)) else nat_text (nat i))"

definition hex_digit :: "nat \<Rightarrow> char" where
  "hex_digit d = char_of (if d < 10 then 48 + d else 87 + d)"

definition quote_char :: "char \<Rightarrow> string" where
  "quote_char c =
     (let b = byte c in
      if b = 34 then [CHR 0x5C, CHR 0x22]
      else if b = 92 then [CHR 0x5C, CHR 0x5C]
      else if b = 7 then [CHR 0x5C, CHR ''a'']
      else if b = 8 then [CHR 0x5C, CHR ''b'']
      else if b = 12 then [CHR 0x5C, CHR ''f'']
      else if b = 10 then [CHR 0x5C, CHR ''n'']
      else if b = 13 then [CHR 0x5C, CHR ''r'']
      else if b = 9 then [CHR 0x5C, CHR ''t'']
      else if b = 11 then [CHR 0x5C, CHR ''v'']
      else if b < 32 \<or> b = 127 then [CHR 0x5C, CHR ''x'', hex_digit (b div 16), hex_digit (b mod 16)]
      else [c])"

definition quoted :: "string \<Rightarrow> string" where
  "quoted s = CHR 0x22 # concat (map quote_char s) @ [CHR 0x22]"

section \<open>Segments of pieces\<close>

lemma decode_rune_take:
  assumes "snd (decode_rune s) \<le> n"
  shows "decode_rune (take n s) = decode_rune s"
proof -
  have ne: "s \<noteq> [] \<Longrightarrow> 0 < n"
    using assms decode_rune_width by (cases s) (auto intro: less_le_trans)
  consider "s = [] \<or> length s \<le> n"
    | c d ds where "s = c # d # ds" "n = 1"
    | c d e es where "s = c # d # e # es" "n = 2"
    | c d e f fs where "s = c # d # e # f # fs" "3 \<le> n"
  proof -
    have "s = [] \<or> length s \<le> n \<or> n = 1 \<and> 2 \<le> length s \<or> n = 2 \<and> 3 \<le> length s \<or>
        3 \<le> n \<and> 4 \<le> length s" using ne by (cases s) auto
    then show ?thesis
      using that by (auto simp: Suc_le_length_iff numeral_eq_Suc)
  qed
  then show ?thesis
  proof cases
    case (2 c d ds)
    show ?thesis
    proof (cases ds)
      case Nil
      with 2 assms show ?thesis by (auto simp: decode_rune.simps Let_def split: if_splits)
    next
      case (Cons e es)
      with 2 assms show ?thesis
        by (cases es) (auto simp: decode_rune.simps Let_def split: if_splits)
    qed
  next
    case (3 c d e es)
    with assms show ?thesis
      by (cases es) (auto simp: decode_rune.simps Let_def split: if_splits)
  next
    case (4 c d e f fs)
    then have "n = Suc (Suc (Suc (n - 3)))" by simp
    then obtain m where "n = Suc (Suc (Suc m))" by blast
    with 4(1) assms show ?thesis
      by (cases m) (auto simp: decode_rune.simps Let_def split: if_splits)
  qed auto
qed

text \<open>A list of segments is \<open>contig\<close> when its bytes decode to exactly these segments.\<close>

definition contig :: "(nat \<times> string) list \<Rightarrow> bool" where
  "contig ps \<longleftrightarrow> segments (concat (map snd ps)) = ps"

lemma contig_segments [simp]: "contig (segments s)"
  by (simp add: contig_def concat_segments)

lemma contig_Cons:
  "contig ((r, b) # ps) \<longleftrightarrow>
     b \<noteq> [] \<and> decode_rune (b @ concat (map snd ps)) = (r, length b) \<and> contig ps"
proof
  assume c: "contig ((r, b) # ps)"
  let ?t = "b @ concat (map snd ps)"
  have s: "segments ?t = (r, b) # ps" using c by (simp add: contig_def)
  then have b: "b \<noteq> []" using segment_nonempty [of r b ?t] by simp
  obtain rr w where d: "decode_rune ?t = (rr, w)" by fastforce
  have u: "segments ?t = (rr, take w ?t) # segments (drop w ?t)"
    using segments_unfold [of ?t] b by (simp add: d)
  have "w \<le> length ?t"
    using decode_rune_width b d by (metis append_is_Nil_conv neq_Nil_conv snd_conv)
  moreover from s u have "rr = r" "take w ?t = b" "segments (drop w ?t) = ps" by simp_all
  ultimately have "w = length b"
    by (metis length_take min.absorb2)
  with \<open>rr = r\<close> \<open>segments (drop w ?t) = ps\<close> b d
  show "b \<noteq> [] \<and> decode_rune ?t = (r, length b) \<and> contig ps" by (simp add: contig_def)
next
  assume "b \<noteq> [] \<and> decode_rune (b @ concat (map snd ps)) = (r, length b) \<and> contig ps"
  then show "contig ((r, b) # ps)"
    using segments_unfold [of "b @ concat (map snd ps)"] by (simp add: contig_def)
qed

lemma contig_append1: "contig (ps @ qs) \<Longrightarrow> contig ps"
proof (induction ps)
  case (Cons p ps)
  obtain r b where p: "p = (r, b)" by (cases p)
  let ?n = "length (b @ concat (map snd ps))"
  from Cons.prems have d: "b \<noteq> []" "decode_rune (b @ concat (map snd (ps @ qs))) = (r, length b)"
    "contig (ps @ qs)" by (simp_all add: p contig_Cons)
  then have "decode_rune (take ?n (b @ concat (map snd (ps @ qs)))) = (r, length b)"
    by (subst decode_rune_take) simp_all
  then have "decode_rune (b @ concat (map snd ps)) = (r, length b)" by simp
  with d Cons.IH show ?case by (simp add: p contig_Cons)
qed (simp add: contig_def)

lemma contig_append2: "contig (ps @ qs) \<Longrightarrow> contig qs"
  by (induction ps) (auto simp: contig_Cons)

lemma cont_ascii: "b < 128 \<Longrightarrow> \<not> cont b" "b < 128 \<Longrightarrow> \<not> second_ok b0 b"
  by (auto simp: cont_def second_ok_def)

lemma decode_rune_ascii_after:
  assumes "s \<noteq> []" and "byte c < 128"
  shows "decode_rune (s @ c # t) = decode_rune s"
proof -
  obtain d ds where s: "s = d # ds" using assms(1) by (cases s) auto
  have e: "\<not> cont (byte c)" "\<And>b0. \<not> second_ok b0 (byte c)" using assms(2) by (simp_all add: cont_ascii)
  show ?thesis
  proof (cases ds)
    case Nil
    then show ?thesis by (simp add: s e decode_rune.simps Let_def split: list.split)
  next
    case (Cons d1 ds1)
    note c1 = this
    show ?thesis
    proof (cases ds1)
      case Nil
      then show ?thesis by (simp add: s c1 e decode_rune.simps Let_def split: list.split)
    next
      case (Cons d2 ds2)
      show ?thesis
        by (cases ds2) (simp_all add: s c1 Cons e decode_rune.simps Let_def)
    qed
  qed
qed

lemma segments_ascii: "byte c < 128 \<Longrightarrow> segments (c # t) = (byte c, [c]) # segments t"
  by (simp add: segments.simps decode_rune.simps)

lemma segments_append_ascii:
  assumes "byte c < 128"
  shows "segments (s @ c # t) = segments s @ (byte c, [c]) # segments t"
proof (induction s rule: segments.induct)
  case 1
  then show ?case by (simp add: assms segments_ascii)
next
  case (2 a as)
  obtain r w where d: "decode_rune (a # as) = (r, w)" by fastforce
  have w: "0 < w" "w \<le> length (a # as)" using decode_rune_width [of a as] d by simp_all
  have "decode_rune ((a # as) @ c # t) = (r, w)"
    using decode_rune_ascii_after [of "a # as" c t] assms d by simp
  then have "segments ((a # as) @ c # t) =
      (r, take w (a # as)) # segments (drop w (a # as) @ c # t)"
    using segments_unfold [of "(a # as) @ c # t"] w by (simp del: append_Cons)
  also have "segments (drop w (a # as) @ c # t) =
      segments (drop w (a # as)) @ (byte c, [c]) # segments t"
    using 2 d by simp
  finally show ?case using d by (simp add: segments.simps)
qed

section \<open>Words\<close>

definition word :: "string \<Rightarrow> bool" where
  "word w \<longleftrightarrow> w \<noteq> [] \<and> (\<forall>p\<in>set (segments w). \<not> is_space (fst p))"

lemma fields_seg_word:
  "contig (pre @ ps) \<Longrightarrow> \<forall>p\<in>set pre. \<not> is_space (fst p) \<Longrightarrow>
   w \<in> set (fields_seg ps (concat (map snd pre))) \<Longrightarrow> word w"
proof (induction ps arbitrary: pre)
  case Nil
  then show ?case by (auto simp: word_def contig_def split: if_splits)
next
  case (Cons p ps)
  obtain r b where p: "p = (r, b)" by (cases p)
  have pre: "contig pre" using contig_append1 Cons.prems(1) by blast
  have rest: "contig ([] @ ps)" using contig_append2 [of "pre @ [p]" ps] Cons.prems(1) by simp
  show ?case
  proof (cases "is_space r")
    case True
    let ?c = "concat (map snd pre)"
    from True have "fields_seg (p # ps) ?c = (if ?c = [] then [] else [?c]) @ fields_seg ps []"
      by (simp add: p del: concat_eq_Nil_conv)
    with Cons.prems(3) consider "w = ?c" "?c \<noteq> []" | "w \<in> set (fields_seg ps [])"
      by (auto simp del: concat_eq_Nil_conv split: if_splits)
    then show ?thesis
    proof cases
      case 1
      with pre Cons.prems(2) show ?thesis by (simp add: word_def contig_def)
    next
      case 2
      with Cons.IH [OF rest] show ?thesis by simp
    qed
  next
    case False
    then show ?thesis
      using Cons.IH [of "pre @ [p]"] Cons.prems by (simp add: p)
  qed
qed

lemma fields_word: "w \<in> set (fields s) \<Longrightarrow> word w"
  using fields_seg_word [of "[]" "segments s"] by (simp add: fields_def)

lemma fields_seg_prefix:
  "\<forall>p\<in>set ps. \<not> is_space (fst p) \<Longrightarrow>
   fields_seg (ps @ qs) cur = fields_seg qs (cur @ concat (map snd ps))"
  by (induction ps arbitrary: cur) auto

lemma space_byte [simp]: "is_space 32" "byte CHR '' '' = 32"
  by (simp_all add: is_space_def byte_def)

lemma fields_join: "\<forall>w\<in>set ws. word w \<Longrightarrow> fields (join '' '' ws) = ws"
proof (induction "'' ''" ws rule: join.induct)
  case (2 x)
  then show ?case
    using fields_seg_prefix [of "segments x" "[]"] by (simp add: fields_def word_def concat_segments)
next
  case (3 x y ys)
  have "fields (x @ '' '' @ join '' '' (y # ys)) =
      fields_seg ((32, '' '') # segments (join '' '' (y # ys))) (concat (map snd (segments x)))"
    using 3 segments_append_ascii [of "CHR '' ''" x "join '' '' (y # ys)"]
    by (simp add: fields_def word_def fields_seg_prefix)
  with 3 show ?case by (simp add: concat_segments word_def fields_def)
qed (simp add: fields_def)

text \<open>\<open>strings.Join(strings.Fields(s), " ")\<close>, the normal form of spoken and quoted text.\<close>

definition squash :: "string \<Rightarrow> string" where
  "squash s = join '' '' (fields s)"

lemma fields_squash [simp]: "fields (squash s) = fields s"
  by (simp add: squash_def fields_join fields_word)

lemma squash_squash [simp]: "squash (squash s) = squash s"
  unfolding squash_def using fields_squash [of s] by (simp add: squash_def)

lemma join_nonempty: "\<forall>w\<in>set ws. word w \<Longrightarrow> ws \<noteq> [] \<Longrightarrow> join '' '' ws \<noteq> []"
  by (induction "'' ''" ws rule: join.induct) (auto simp: word_def)

lemma squash_empty: "squash s = [] \<longleftrightarrow> fields s = []"
  using join_nonempty [of "fields s"] fields_word by (auto simp: squash_def)

section \<open>Cutting normal text\<close>

text \<open>
  \<open>tidy\<close> holds of the segments of text in normal form, and of every piece of such text: the only
  white space is single ASCII blanks.
\<close>

abbreviation sp :: "nat \<times> string \<Rightarrow> bool" where
  "sp p \<equiv> is_space (fst p)"

fun no_double :: "(nat \<times> string) list \<Rightarrow> bool" where
  "no_double (p # q # ps) \<longleftrightarrow> \<not> (sp p \<and> sp q) \<and> no_double (q # ps)"
| "no_double _ \<longleftrightarrow> True"

definition tidy :: "(nat \<times> string) list \<Rightarrow> bool" where
  "tidy ps \<longleftrightarrow> (\<forall>p\<in>set ps. snd p \<noteq> [] \<and> (sp p \<longrightarrow> p = (32, '' ''))) \<and> no_double ps"

lemma tidy_Cons: "tidy (p # ps) \<Longrightarrow> tidy ps"
  by (cases ps) (auto simp: tidy_def)

lemma join_fields_tidy:
  "tidy ps \<Longrightarrow> ps = [] \<or> \<not> sp (last ps) \<Longrightarrow> cur \<noteq> [] \<or> ps = [] \<or> \<not> sp (hd ps) \<Longrightarrow>
   join '' '' (fields_seg ps cur) = cur @ concat (map snd ps)"
proof (induction ps arbitrary: cur)
  case (Cons p ps)
  obtain r b where p: "p = (r, b)" by (cases p)
  have t: "tidy ps" using Cons.prems(1) by (rule tidy_Cons)
  show ?case
  proof (cases "is_space r")
    case False
    have b: "b \<noteq> []" using Cons.prems(1) by (auto simp: tidy_def p)
    have l: "ps = [] \<or> \<not> sp (last ps)" using Cons.prems(2) by auto
    show ?thesis using Cons.IH [OF t l, of "cur @ b"] b False by (simp add: p)
  next
    case True
    with Cons.prems have c: "cur \<noteq> []" and b: "b = '' ''" and ps: "ps \<noteq> []" "\<not> sp (last ps)"
      by (auto simp: p tidy_def split: if_splits)
    moreover have h: "\<not> sp (hd ps)"
      using Cons.prems(1) True ps(1) by (cases ps) (auto simp: p tidy_def)
    ultimately have e: "join '' '' (fields_seg ps []) = concat (map snd ps)"
      using Cons.IH [OF t, of "[]"] by simp
    have "fields_seg ps [] \<noteq> []"
      using e ps(1) t by (cases ps) (auto simp: tidy_def)
    then obtain w ws where "fields_seg ps [] = w # ws" by (cases "fields_seg ps []") auto
    with e c b True show ?thesis by (simp add: p)
  qed
qed simp

lemma no_double_append_nonspace:
  "\<forall>p\<in>set ps. \<not> sp p \<Longrightarrow> no_double qs \<Longrightarrow> no_double (ps @ qs)"
proof (induction ps)
  case (Cons p ps)
  then show ?case by (cases "ps @ qs") auto
qed simp

lemma segments_join:
  "\<forall>w\<in>set ws. word w \<Longrightarrow> ps = segments (join '' '' ws) \<Longrightarrow>
   tidy ps \<and> (ps = [] \<or> \<not> sp (hd ps) \<and> \<not> sp (last ps))"
proof (induction "'' ''" ws arbitrary: ps rule: join.induct)
  case 1
  then show ?case by (simp add: tidy_def)
next
  case (2 x)
  have "\<forall>p\<in>set ps. \<not> sp p" "\<forall>p\<in>set ps. snd p \<noteq> []"
    using 2 segment_nonempty [where s = x] by (auto simp: word_def)
  then show ?case
    using no_double_append_nonspace [of ps "[]"] by (auto simp: tidy_def)
next
  case (3 x y ys)
  let ?r = "segments (join '' '' (y # ys))"
  have ps: "ps = segments x @ (32, '' '') # ?r"
    using segments_append_ascii [of "CHR '' ''" x "join '' '' (y # ys)"] 3(3) by simp
  have IH: "tidy ?r" "?r = [] \<or> \<not> sp (hd ?r) \<and> \<not> sp (last ?r)" using 3 by auto
  have x: "segments x \<noteq> []" "\<forall>p\<in>set (segments x). \<not> sp p" "\<forall>p\<in>set (segments x). snd p \<noteq> []"
    using 3(2) segment_nonempty [where s = x] concat_segments [of x] by (auto simp: word_def)
  have "join '' '' (y # ys) \<noteq> []" using join_nonempty 3(2) by simp
  then have r: "?r \<noteq> []" using concat_segments [of "join '' '' (y # ys)"] by force
  have "no_double ((32, '' '') # ?r)" using IH r by (cases ?r) (auto simp: tidy_def)
  then have "no_double ps" unfolding ps by (rule no_double_append_nonspace [OF x(2)])
  with IH r x show ?case by (auto simp: ps tidy_def)
qed

lemma segments_squash:
  "tidy (segments (squash s)) \<and> (squash s = [] \<or>
     \<not> sp (hd (segments (squash s))) \<and> \<not> sp (last (segments (squash s))))"
  using segments_join [of "fields s" "segments (squash s)"] fields_word
    concat_segments [of "squash s"]
  by (force simp: squash_def)

lemma segments_of_runes:
  "\<forall>r\<in>set rs. valid_rune r \<Longrightarrow> segments (of_runes rs) = map (\<lambda>r. (r, encode_rune r)) rs"
  unfolding of_runes_def by (induction rs) (auto simp: segments_encode)

lemma runes_cut [simp]: "runes (cut_runes n s) = take n (runes s)"
  unfolding cut_runes_def by (rule runes_of_runes) (auto dest: in_set_takeD runes_valid)

lemma segments_cut: "segments (cut_runes n s) = map (\<lambda>r. (r, encode_rune r)) (take n (runes s))"
  unfolding cut_runes_def by (rule segments_of_runes) (auto dest: in_set_takeD runes_valid)

lemma trim_seg_infix: "\<exists>as bs. ps = as @ trim_seg ps @ bs"
proof -
  let ?d = "dropWhile (is_space \<circ> fst) ps"
  have "ps = takeWhile (is_space \<circ> fst) ps @ ?d" by simp
  moreover have "?d = trim_seg ps @ rev (takeWhile (is_space \<circ> fst) (rev ?d))"
    unfolding trim_seg_def by (metis rev_append rev_rev_ident takeWhile_dropWhile_id)
  ultimately show ?thesis by metis
qed

lemma segments_trim: "segments (trim_space s) = trim_seg (segments s)"
  using trim_seg_infix [of "segments s"] contig_segments [of s] contig_append1 contig_append2
  unfolding trim_space_def contig_def by (metis contig_def)

lemma trim_seg_ends:
  "trim_seg ps = [] \<or> \<not> sp (hd (trim_seg ps)) \<and> \<not> sp (last (trim_seg ps))"
proof (cases "trim_seg ps = []")
  case False
  let ?d = "dropWhile (is_space \<circ> fst) ps"
  have n: "dropWhile (is_space \<circ> fst) (rev ?d) \<noteq> []" using False by (simp add: trim_seg_def)
  then have "\<not> sp (last (trim_seg ps))"
    using hd_dropWhile [of "is_space \<circ> fst" "rev ?d"] by (simp add: trim_seg_def last_rev)
  moreover have "\<not> sp (hd (trim_seg ps))"
  proof -
    obtain ts where "?d = trim_seg ps @ ts"
      unfolding trim_seg_def by (metis rev_append rev_rev_ident takeWhile_dropWhile_id)
    then have "hd ?d = hd (trim_seg ps)" "?d \<noteq> []" using False by auto
    with hd_dropWhile [of "is_space \<circ> fst" ps] show ?thesis by simp
  qed
  ultimately show ?thesis by simp
qed simp

lemma no_double_append1: "no_double (ps @ qs) \<Longrightarrow> no_double ps"
proof (induction ps rule: no_double.induct)
  case (1 p q ps)
  then show ?case by simp
qed auto

lemma no_double_append2: "no_double (ps @ qs) \<Longrightarrow> no_double qs"
proof (induction ps)
  case (Cons p ps)
  then show ?case by (cases "ps @ qs") auto
qed simp

lemma tidy_infix: "tidy (as @ ps @ bs) \<Longrightarrow> tidy ps"
  unfolding tidy_def by (auto dest: no_double_append1 no_double_append2)

lemma no_double_map_fst:
  "no_double ps \<Longrightarrow> no_double (map (\<lambda>r. (r, f r)) (map fst ps))"
  by (induction ps rule: no_double.induct) auto

lemma encode_blank: "encode_rune 32 = '' ''"
proof -
  have "char_of (32 :: nat) = CHR '' ''" by (subst byte_inj [symmetric]) simp
  then show ?thesis by (simp add: encode_rune_def valid_rune_def)
qed

lemma tidy_cut: "tidy (segments s) \<Longrightarrow> tidy (segments (cut_runes n s))"
proof -
  assume t: "tidy (segments s)"
  let ?ps = "take n (segments s)"
  have "tidy ?ps" using tidy_infix [of "[]" ?ps "drop n (segments s)"] t by simp
  then have "tidy (map (\<lambda>r. (r, encode_rune r)) (map fst ?ps))"
    using no_double_map_fst by (auto simp: tidy_def encode_blank)
  then show ?thesis by (simp add: segments_cut runes_def take_map)
qed

lemma squash_trim_cut:
  assumes "tidy (segments s)"
  shows "squash (trim_space (cut_runes n s)) = trim_space (cut_runes n s)"
proof -
  let ?t = "trim_space (cut_runes n s)"
  have "tidy (segments ?t)"
    using tidy_cut [OF assms] trim_seg_infix tidy_infix unfolding segments_trim by metis
  moreover have "segments ?t = [] \<or> \<not> sp (hd (segments ?t)) \<and> \<not> sp (last (segments ?t))"
    unfolding segments_trim by (rule trim_seg_ends)
  ultimately show ?thesis
    using join_fields_tidy [of "segments ?t" "[]"] concat_segments [of ?t]
    by (auto simp: squash_def fields_def)
qed

lemma length_runes_trim: "length (runes (trim_space s)) \<le> length (runes s)"
proof -
  obtain as bs where "segments s = as @ trim_seg (segments s) @ bs"
    using trim_seg_infix by blast
  then have "length (segments s) = length as + length (trim_seg (segments s)) + length bs"
    by (metis add.assoc length_append)
  then show ?thesis by (simp add: runes_def segments_trim)
qed

lemma segments_eq_Nil [simp]: "segments s = [] \<longleftrightarrow> s = []"
  using concat_segments [of s] by auto

lemma trim_cut_nonempty:
  assumes "s \<noteq> []" "\<not> sp (hd (segments s))" "0 < n"
  shows "trim_space (cut_runes n s) \<noteq> []"
proof -
  obtain p ps where ps: "segments s = p # ps" using assms(1) by (cases "segments s") auto
  then have "segments (cut_runes n s) = (fst p, encode_rune (fst p)) #
      map (\<lambda>r. (r, encode_rune r)) (take (n - 1) (map fst ps))"
    using assms(3) by (cases n) (simp_all add: segments_cut runes_def)
  then have "trim_seg (segments (cut_runes n s)) \<noteq> []"
    using assms(2) ps by (simp add: trim_seg_def dropWhile_append)
  then show ?thesis using segments_eq_Nil segments_trim by metis
qed

end
