(* ===== verification/Errors.thy ===== *)
theory Errors
  imports Text
begin

text \<open>
  Go errors.  One constructor per sentinel of the program, one for text made by \<open>errors.New\<close> or
  \<open>fmt.Errorf\<close> without \<open>%w\<close>, one for \<open>fmt.Errorf\<close> with \<open>%w\<close> (the text before and after the wrapped
  error), the Hermes API error and the \<open>noRetryError\<close> of \<open>src/internal/bridge/hermes.go\<close>.
  \<open>err_text\<close> is \<open>Error()\<close>, \<open>err_is\<close> is \<open>errors.Is\<close> for a sentinel, \<open>err_no_retry\<close> and \<open>err_api\<close> are the
  \<open>errors.As\<close> of \<open>dispatch.Worker.Work\<close> and of \<open>Hermes.DecideApproval\<close>.
\<close>

datatype error =
  ErrNotFound | ErrAmbiguous | ErrApprovalStale | ErrDispatchPaused
  | ErrApprovalParked | ErrRunSuperseded | ErrVoiceBecameLive
  | ErrDeadline | ErrCanceled
  | EText string
  | EWrap string error string
  | ENoRetry error
  | EApi nat string string

definition noRetry :: "error \<Rightarrow> error" where
  "noRetry e = ENoRetry e"

definition api_error_text :: "nat \<Rightarrow> string \<Rightarrow> string \<Rightarrow> string" where
  "api_error_text status code msg =
     (if code = [] then ''Hermes http '' @ nat_text status @ '': '' @ msg
      else ''Hermes http '' @ nat_text status @ '' ('' @ code @ ''): '' @ msg)"

fun err_text :: "error \<Rightarrow> string" where
  "err_text ErrNotFound = ''not found''"
| "err_text ErrAmbiguous = ''ambiguous job reference''"
| "err_text ErrApprovalStale = ''stale, replayed, or mismatched approval decision''"
| "err_text ErrDispatchPaused = ''job dispatch is temporarily paused for deployment''"
| "err_text ErrApprovalParked = ''approval parked unresolved''"
| "err_text ErrRunSuperseded = ''Hermes run no longer owns the durable job state''"
| "err_text ErrVoiceBecameLive = ''voice session became live''"
| "err_text ErrDeadline = ''context deadline exceeded''"
| "err_text ErrCanceled = ''context canceled''"
| "err_text (EText s) = s"
| "err_text (EWrap p e q) = p @ err_text e @ q"
| "err_text (ENoRetry e) = err_text e"
| "err_text (EApi status code msg) = api_error_text status code msg"

fun err_is :: "error \<Rightarrow> error \<Rightarrow> bool" where
  "err_is t (EWrap p e q) = (EWrap p e q = t \<or> err_is t e)"
| "err_is t (ENoRetry e) = (ENoRetry e = t \<or> err_is t e)"
| "err_is t e = (e = t)"

fun err_no_retry :: "error \<Rightarrow> bool" where
  "err_no_retry (EWrap p e q) = err_no_retry e"
| "err_no_retry (ENoRetry e) = True"
| "err_no_retry e = False"

fun err_api :: "error \<Rightarrow> (nat \<times> string \<times> string) option" where
  "err_api (EWrap p e q) = err_api e"
| "err_api (ENoRetry e) = err_api e"
| "err_api (EApi status code msg) = Some (status, code, msg)"
| "err_api e = None"

text \<open>Sequences of checks: \<open>if err := check(); err != nil { return err }\<close>.\<close>

fun first_error :: "error option list \<Rightarrow> error option" where
  "first_error [] = None"
| "first_error (None # es) = first_error es"
| "first_error (Some e # es) = Some e"

lemma first_error_None: "first_error es = None \<longleftrightarrow> (\<forall>e\<in>set es. e = None)"
  by (induction es rule: first_error.induct) auto

text \<open>\<open>if !ok { return fmt.Errorf(msg) }\<close>.\<close>

definition require :: "bool \<Rightarrow> string \<Rightarrow> error option" where
  "require ok msg = (if ok then None else Some (EText msg))"

lemma require_None [simp]: "require ok msg = None \<longleftrightarrow> ok"
  by (simp add: require_def)

text \<open>\<open>if err != nil { return nil, err }\<close>.\<close>

definition and_then :: "error + 'a \<Rightarrow> ('a \<Rightarrow> error + 'b) \<Rightarrow> error + 'b" where
  "and_then m k = (case m of Inl e \<Rightarrow> Inl e | Inr x \<Rightarrow> k x)"

lemma and_then_Inr: "and_then m k = Inr r \<longleftrightarrow> (\<exists>x. m = Inr x \<and> k x = Inr r)"
  by (cases m) (simp_all add: and_then_def)

text \<open>\<open>x, err := m; if err != nil { return err }\<close> in a function that returns an error only.\<close>

definition or_error :: "error + 'a \<Rightarrow> ('a \<Rightarrow> error option) \<Rightarrow> error option" where
  "or_error m k = (case m of Inl e \<Rightarrow> Some e | Inr x \<Rightarrow> k x)"

lemma or_error_None: "or_error m k = None \<longleftrightarrow> (\<exists>x. m = Inr x \<and> k x = None)"
  by (cases m) (simp_all add: or_error_def)

end
