(* ===== verification/Jobs.thy ===== *)
theory Jobs
  imports Errors
begin

text \<open>
  The durable job records of \<open>src/internal/store/store.go\<close>: the row types, the tables they live in,
  and the operations that create, lock, update, claim, park and look up jobs.  \<open>db\<close> is the whole
  database the program owns (with the River queue of pending deliveries, which shares its
  transactions); each operation is the transaction of the source, with the SQL it sends written out
  on the table lists.  A clock reading is an argument.  The value Go returns beside a non-nil error is
  not modelled: no caller reads it.
\<close>

section \<open>Rows\<close>

datatype job_status =
  Queued | Running | NeedsInput | NeedsApproval | ParkedApproval | Done | Failed | Cancelled

fun status_text :: "job_status \<Rightarrow> string" where
  "status_text Queued = ''queued''"
| "status_text Running = ''running''"
| "status_text NeedsInput = ''needs_input''"
| "status_text NeedsApproval = ''needs_approval''"
| "status_text ParkedApproval = ''parked_approval''"
| "status_text Done = ''done''"
| "status_text Failed = ''failed''"
| "status_text Cancelled = ''cancelled''"

datatype approval_state = APending | ASending | AParked | AIndeterminate

fun approval_state_text :: "approval_state \<Rightarrow> string" where
  "approval_state_text APending = ''pending''"
| "approval_state_text ASending = ''sending''"
| "approval_state_text AParked = ''parked''"
| "approval_state_text AIndeterminate = ''indeterminate''"

record approval =
  apID :: string
  ProviderRequestID :: string
  DecisionNonce :: string
  apDecision :: string
  apState :: approval_state
  Command :: string
  Description :: string
  PatternKeys :: "string list"
  AllowPermanent :: bool
  RequestedAt :: instant
  ParkedAt :: "instant option"
  ParkReason :: string

record progress =
  prTool :: string
  prLabel :: string
  prState :: string
  prUpdatedAt :: instant

record job =
  jID :: string
  DisplayName :: string
  Task :: string
  Status :: job_status
  Question :: string
  PendingInput :: string
  ResultDigest :: string
  Error :: string
  HermesSessionID :: string
  HermesRunID :: string
  Approvals :: "approval list"
  Progress :: "progress option"
  CreatedAt :: instant
  UpdatedAt :: instant
  FinishedAt :: "instant option"
  StateVersion :: int

record attention =
  atID :: nat
  atJob :: string
  atVersion :: int
  atKind :: job_status
  SpeechText :: string
  PushTitle :: string
  PushBody :: string
  atCreated :: instant
  atToken :: string
  atUntil :: "instant option"
  atSpoken :: "instant option"

record push_sub =
  psID :: nat
  Endpoint :: string
  P256DH :: string
  Auth :: string
  psCreated :: instant
  psUpdated :: instant
  psDisabled :: "instant option"

record push_row =
  pdID :: nat
  pdAttention :: nat
  pdSub :: nat
  pdAttempts :: nat
  pdNext :: instant
  pdToken :: string
  pdUntil :: "instant option"
  pdSent :: "instant option"
  pdFailed :: "instant option"
  pdError :: string

record db =
  jobs :: "job list"
  river :: "string list"
  paused :: bool
  denials :: "string \<rightharpoonup> string"
  allows :: "string \<rightharpoonup> string"
  attentions :: "attention list"
  atSeq :: nat
  subs :: "push_sub list"
  psSeq :: nat
  deliveries :: "push_row list"
  pdSeq :: nat

definition empty_db :: db where
  "empty_db = \<lparr>jobs = [], river = [], paused = False, denials = Map.empty, allows = Map.empty,
     attentions = [], atSeq = 1, subs = [], psSeq = 1, deliveries = [], pdSeq = 1\<rparr>"

section \<open>Redaction\<close>

definition redact_approval :: "approval \<Rightarrow> approval" where
  "redact_approval a = a\<lparr>DecisionNonce := ''''\<rparr>"

definition Redacted :: "job \<Rightarrow> job" where
  "Redacted j = (if Approvals j = [] then j
     else j\<lparr>Approvals := map redact_approval (Approvals j)\<rparr>)"

section \<open>Attention rows\<close>

definition compactAttentionText :: "string \<Rightarrow> nat \<Rightarrow> string" where
  "compactAttentionText value limit =
     (let v = squash value in
      if v = '''' then ''(no details provided)''
      else if limit < length (runes v) then cut_runes limit v @ ellipsis
      else v)"

text \<open>The kind, speech text, push title and push body of a noteworthy status.\<close>

definition attentionForTransition :: "job \<Rightarrow> (job_status \<times> string \<times> string \<times> string) option" where
  "attentionForTransition j =
     (let name = quoted (compactAttentionText (DisplayName j) 80) in
      case Status j of
        Done \<Rightarrow> Some (Done,
          ''Job '' @ name @ '' finished. Quoted result digest: ''
            @ compactAttentionText (ResultDigest j) 500,
          ''Thornhill job finished'', ''A background job finished. Open Thornhill for details.'')
      | Failed \<Rightarrow> Some (Failed,
          ''Job '' @ name @ '' failed. Quoted error: '' @ compactAttentionText (Error j) 500,
          ''Thornhill job failed'', ''A background job failed. Open Thornhill for details.'')
      | NeedsInput \<Rightarrow> Some (NeedsInput,
          ''Job '' @ name @ '' needs input. Quoted question: ''
            @ compactAttentionText (Question j) 500,
          ''Thornhill needs input'', ''A background job is waiting for input.'')
      | NeedsApproval \<Rightarrow> Some (NeedsApproval,
          ''Job '' @ name @ '' needs approval. Retrieve the redacted pending request with job_status before asking for a decision.'',
          ''Thornhill needs approval'', ''A background job is waiting for approval.'')
      | ParkedApproval \<Rightarrow> Some (ParkedApproval,
          ''Job '' @ name @ '' parked an unresolved approval without making a decision. Offer to resume the job with fresh authority.'',
          ''Thornhill approval parked'', ''A background job released its run with an unresolved approval.'')
      | _ \<Rightarrow> None)"

section \<open>Tables\<close>

definition find_job :: "string \<Rightarrow> db \<Rightarrow> job option" where
  "find_job i d = find (\<lambda>j. jID j = i) (jobs d)"

text \<open>
  The trigger \<open>thornhill_guard_job_dispatch\<close>: with the deployment pause set it refuses to insert a
  queued or running row and to move a row into one of these from another status.
\<close>

definition guard_refuses :: "db \<Rightarrow> job_status option \<Rightarrow> job_status \<Rightarrow> bool" where
  "guard_refuses d old new =
     (if old = Some new then False
      else if new \<noteq> Queued \<and> new \<noteq> Running then False
      else paused d)"

text \<open>\<open>INSERT INTO attention_events ... ON CONFLICT (job_id, job_version, kind) DO NOTHING\<close>.\<close>

definition insert_attention ::
  "string \<Rightarrow> int \<Rightarrow> (job_status \<times> string \<times> string \<times> string) \<Rightarrow> instant \<Rightarrow> db \<Rightarrow> db" where
  "insert_attention i v x now d =
     (case x of (kind, speech, title, body) \<Rightarrow>
        if \<exists>a\<in>set (attentions d). atJob a = i \<and> atVersion a = v \<and> atKind a = kind
        then d\<lparr>atSeq := Suc (atSeq d)\<rparr>
        else d\<lparr>attentions := attentions d @
               [\<lparr>atID = atSeq d, atJob = i, atVersion = v, atKind = kind, SpeechText = speech,
                 PushTitle = title, PushBody = body, atCreated = now, atToken = '''',
                 atUntil = None, atSpoken = None\<rparr>],
               atSeq := Suc (atSeq d)\<rparr>)"

section \<open>Create and update\<close>

definition terminal :: "job_status \<Rightarrow> bool" where
  "terminal s \<longleftrightarrow> s = Done \<or> s = Failed \<or> s = Cancelled"

definition CreateJobTx ::
  "instant \<Rightarrow> string \<Rightarrow> string \<Rightarrow> string \<Rightarrow> db \<Rightarrow> error + (job \<times> db)" where
  "CreateJobTx now ulid name tsk d =
     (let j = \<lparr>jID = ulid, DisplayName = name, Task = tsk, Status = Queued, Question = '''',
           PendingInput = '''', ResultDigest = '''', Error = '''', HermesSessionID = '''',
           HermesRunID = '''', Approvals = [], Progress = None, CreatedAt = now, UpdatedAt = now,
           FinishedAt = None, StateVersion = 0\<rparr> in
      if paused d then Inl ErrDispatchPaused
      else if find_job ulid d \<noteq> None then Inl (EText ''duplicate key value violates unique constraint'')
      else if guard_refuses d None (Status j) then Inl ErrDispatchPaused
      else Inr (j, d\<lparr>jobs := jobs d @ [j]\<rparr>))"

text \<open>The columns that \<open>UPDATE jobs SET ... WHERE id=$1\<close> writes; \<open>task\<close> and \<open>created_at\<close> are not among them.\<close>

definition set_columns :: "job \<Rightarrow> job \<Rightarrow> job" where
  "set_columns j r = r\<lparr>DisplayName := DisplayName j, Status := Status j, Question := Question j,
     ResultDigest := ResultDigest j, Error := Error j, HermesSessionID := HermesSessionID j,
     UpdatedAt := UpdatedAt j, FinishedAt := FinishedAt j, HermesRunID := HermesRunID j,
     Approvals := Approvals j, Progress := Progress j, PendingInput := PendingInput j,
     StateVersion := StateVersion j\<rparr>"

definition bump_job :: "instant \<Rightarrow> job \<Rightarrow> job" where
  "bump_job now j0 =
     (let j = j0\<lparr>StateVersion := i64 (StateVersion j0 + 1), UpdatedAt := now\<rparr> in
      if terminal (Status j) \<and> FinishedAt j = None then j\<lparr>FinishedAt := Some now\<rparr> else j)"

definition put_job :: "job \<Rightarrow> db \<Rightarrow> db" where
  "put_job j d = d\<lparr>jobs := map (\<lambda>r. if jID r = jID j then set_columns j r else r) (jobs d)\<rparr>"

definition note_transition :: "job_status \<Rightarrow> job \<Rightarrow> db \<Rightarrow> db" where
  "note_transition old j d =
     (if old = Status j then d
      else case attentionForTransition j of
             None \<Rightarrow> d
           | Some x \<Rightarrow> insert_attention (jID j) (StateVersion j) x (UpdatedAt j) d)"

definition UpdateJobTx ::
  "instant \<Rightarrow> string \<Rightarrow> (job \<Rightarrow> job) \<Rightarrow> db \<Rightarrow> error + (job \<times> db)" where
  "UpdateJobTx now i mut d =
     (case find_job i d of
        None \<Rightarrow> Inl ErrNotFound
      | Some j0 \<Rightarrow>
          let j = bump_job now (mut j0) in
          if guard_refuses d (Some (Status j0)) (Status j) then Inl ErrDispatchPaused
          else Inr (j, note_transition (Status j0) j (put_job j d)))"

text \<open>A transaction of its own: begin, update, commit, and roll back on any error.\<close>

definition UpdateJob ::
  "instant \<Rightarrow> string \<Rightarrow> (job \<Rightarrow> job) \<Rightarrow> db \<Rightarrow> (error + job) \<times> db" where
  "UpdateJob now i mut d =
     (case UpdateJobTx now i mut d of
        Inl e \<Rightarrow> (Inl e, d)
      | Inr (j, d') \<Rightarrow> (Inr j, d'))"

definition CreateJob ::
  "instant \<Rightarrow> string \<Rightarrow> string \<Rightarrow> string \<Rightarrow> db \<Rightarrow> (error + job) \<times> db" where
  "CreateJob now ulid name tsk d =
     (case CreateJobTx now ulid name tsk d of
        Inl e \<Rightarrow> (Inl e, d)
      | Inr (j, d') \<Rightarrow> (Inr j, d'))"

section \<open>Approval authority\<close>

definition pending_match :: "string \<Rightarrow> string \<Rightarrow> job \<Rightarrow> bool" where
  "pending_match aid nonce x \<longleftrightarrow> Status x = NeedsApproval \<and>
     (case Approvals x of
        [a] \<Rightarrow> apID a = aid \<and> DecisionNonce a = nonce \<and> apState a = APending
      | _ \<Rightarrow> False)"

definition claim_mut :: "string \<Rightarrow> string \<Rightarrow> job \<Rightarrow> job" where
  "claim_mut aid nonce x =
     (if pending_match aid nonce x
      then x\<lparr>Approvals := map (\<lambda>a. a\<lparr>apState := ASending\<rparr>) (Approvals x)\<rparr>
      else x)"

definition park_mut :: "string \<Rightarrow> string \<Rightarrow> string \<Rightarrow> instant \<Rightarrow> job \<Rightarrow> job" where
  "park_mut aid nonce reason at x =
     (if pending_match aid nonce x
      then x\<lparr>Status := ParkedApproval,
             Approvals := map (\<lambda>a. a\<lparr>apState := AParked, ParkedAt := Some at, ParkReason := reason\<rparr>)
               (Approvals x),
             Progress := Some \<lparr>prTool = ''approval'',
               prLabel = ''approval parked unresolved; resume requires a fresh authority request'',
               prState = approval_state_text AParked, prUpdatedAt = at\<rparr>\<rparr>
      else x)"

text \<open>
  The closure's flag (\<open>claimed\<close>, \<open>parked\<close>) is what the guard was on the locked row, so it is
  evaluated on the row \<open>UpdateJob\<close> reads.  A refused attempt still commits \<open>UpdateJob\<close>'s version bump.
\<close>

definition on_row :: "string \<Rightarrow> (job \<Rightarrow> bool) \<Rightarrow> db \<Rightarrow> bool" where
  "on_row i p d = (case find_job i d of None \<Rightarrow> False | Some j \<Rightarrow> p j)"

definition ClaimApproval ::
  "instant \<Rightarrow> string \<Rightarrow> string \<Rightarrow> string \<Rightarrow> db \<Rightarrow> (error + job) \<times> db" where
  "ClaimApproval now i aid nonce d =
     (let claimed = on_row i (pending_match aid nonce) d in
      case UpdateJob now i (claim_mut aid nonce) d of
        (Inl e, d') \<Rightarrow> (Inl e, d')
      | (Inr j, d') \<Rightarrow> (if claimed then Inr j else Inl ErrApprovalStale, d'))"

definition ParkApproval ::
  "instant \<Rightarrow> string \<Rightarrow> string \<Rightarrow> string \<Rightarrow> string \<Rightarrow> instant \<Rightarrow> db \<Rightarrow> (error + job) \<times> db" where
  "ParkApproval now i aid nonce reason at d =
     (let parked = on_row i (pending_match aid nonce) d in
      case UpdateJob now i (park_mut aid nonce reason at) d of
        (Inl e, d') \<Rightarrow> (Inl e, d')
      | (Inr j, d') \<Rightarrow> (if parked then Inr j else Inl ErrApprovalStale, d'))"

section \<open>The job table under updates\<close>

text \<open>
  No mutator of the program writes a job's id, task, creation time or version; \<open>keeps_identity\<close>
  says so of one.  \<open>ids_ok\<close> is the primary key.
\<close>

definition keeps_identity :: "(job \<Rightarrow> job) \<Rightarrow> bool" where
  "keeps_identity mut \<longleftrightarrow>
     (\<forall>x. jID (mut x) = jID x \<and> Task (mut x) = Task x \<and> CreatedAt (mut x) = CreatedAt x \<and>
          StateVersion (mut x) = StateVersion x)"

lemma keeps_identityI [intro]:
  "(\<And>x. jID (mut x) = jID x) \<Longrightarrow> (\<And>x. Task (mut x) = Task x) \<Longrightarrow>
   (\<And>x. CreatedAt (mut x) = CreatedAt x) \<Longrightarrow> (\<And>x. StateVersion (mut x) = StateVersion x) \<Longrightarrow>
   keeps_identity mut"
  by (simp add: keeps_identity_def)

definition ids_ok :: "db \<Rightarrow> bool" where
  "ids_ok d \<longleftrightarrow> distinct (map jID (jobs d))"

lemma find_job_Some: "find_job i d = Some j \<Longrightarrow> j \<in> set (jobs d) \<and> jID j = i"
  unfolding find_job_def by (metis (mono_tags, lifting) find_Some_iff nth_mem)

lemma find_job_None: "find_job i d = None \<longleftrightarrow> (\<forall>j\<in>set (jobs d). jID j \<noteq> i)"
  unfolding find_job_def by (auto simp: find_None_iff)

lemma find_job_iff: "ids_ok d \<Longrightarrow> find_job i d = Some j \<longleftrightarrow> j \<in> set (jobs d) \<and> jID j = i"
proof (rule iffI)
  assume ok: "ids_ok d" and j: "j \<in> set (jobs d) \<and> jID j = i"
  then obtain k where k: "find_job i d = Some k" by (metis find_job_None not_None_eq)
  from find_job_Some [OF k] ok j have "k = j"
    unfolding ids_ok_def by (metis distinct_map inj_onD)
  with k show "find_job i d = Some j" by simp
qed (rule find_job_Some)

lemma set_columns_full:
  "jID j = jID r \<Longrightarrow> Task j = Task r \<Longrightarrow> CreatedAt j = CreatedAt r \<Longrightarrow> set_columns j r = j"
  by (cases j, cases r) (simp add: set_columns_def)

lemma jID_set_columns [simp]: "jID (set_columns j r) = jID r"
  by (simp add: set_columns_def)

lemma bump_job_simps [simp]:
  "jID (bump_job now x) = jID x" "Task (bump_job now x) = Task x"
  "CreatedAt (bump_job now x) = CreatedAt x" "Status (bump_job now x) = Status x"
  "Approvals (bump_job now x) = Approvals x" "HermesRunID (bump_job now x) = HermesRunID x"
  "DisplayName (bump_job now x) = DisplayName x" "PendingInput (bump_job now x) = PendingInput x"
  "Question (bump_job now x) = Question x" "Error (bump_job now x) = Error x"
  "ResultDigest (bump_job now x) = ResultDigest x" "Progress (bump_job now x) = Progress x"
  "HermesSessionID (bump_job now x) = HermesSessionID x" "UpdatedAt (bump_job now x) = now"
  "StateVersion (bump_job now x) = i64 (StateVersion x + 1)"
  by (simp_all add: bump_job_def Let_def)

lemma insert_attention_frame [simp]:
  "jobs (insert_attention i v x now d) = jobs d" "river (insert_attention i v x now d) = river d"
  "paused (insert_attention i v x now d) = paused d"
  "denials (insert_attention i v x now d) = denials d"
  "allows (insert_attention i v x now d) = allows d"
  "subs (insert_attention i v x now d) = subs d"
  "deliveries (insert_attention i v x now d) = deliveries d"
  by (simp_all add: insert_attention_def split: prod.split)

lemma note_transition_frame [simp]:
  "jobs (note_transition s j d) = jobs d" "river (note_transition s j d) = river d"
  "paused (note_transition s j d) = paused d" "denials (note_transition s j d) = denials d"
  "allows (note_transition s j d) = allows d" "subs (note_transition s j d) = subs d"
  "deliveries (note_transition s j d) = deliveries d"
  by (simp_all add: note_transition_def split: option.split)

lemma put_job_frame [simp]:
  "river (put_job j d) = river d" "paused (put_job j d) = paused d"
  "denials (put_job j d) = denials d" "allows (put_job j d) = allows d"
  "attentions (put_job j d) = attentions d" "map jID (jobs (put_job j d)) = map jID (jobs d)"
  by (simp_all add: put_job_def)

lemma find_note [simp]: "find_job i (note_transition s j d) = find_job i d"
  by (simp add: find_job_def)

lemma find_put_job:
  "find_job i (put_job j d) =
     (if i = jID j then map_option (set_columns j) (find_job i d) else find_job i d)"
proof -
  have "find (\<lambda>r. jID r = i) (map (\<lambda>r. if jID r = jID j then set_columns j r else r) js) =
      (if i = jID j then map_option (set_columns j) (find (\<lambda>r. jID r = i) js)
       else find (\<lambda>r. jID r = i) js)" for js
    by (induction js) auto
  then show ?thesis by (simp add: find_job_def put_job_def)
qed

lemma UpdateJob_eq:
  "UpdateJob now i mut d =
     (case find_job i d of
        None \<Rightarrow> (Inl ErrNotFound, d)
      | Some j0 \<Rightarrow>
          if guard_refuses d (Some (Status j0)) (Status (mut j0)) then (Inl ErrDispatchPaused, d)
          else (Inr (bump_job now (mut j0)),
                note_transition (Status j0) (bump_job now (mut j0))
                  (put_job (bump_job now (mut j0)) d)))"
  by (simp add: UpdateJob_def UpdateJobTx_def Let_def split: option.split)

lemma UpdateJob_Inl: "UpdateJob now i mut d = (Inl e, d') \<Longrightarrow> d' = d"
  by (auto simp: UpdateJob_eq split: option.splits if_splits)

lemma UpdateJob_Inr:
  assumes "UpdateJob now i mut d = (Inr j, d')" and "keeps_identity mut"
  obtains j0 where "find_job i d = Some j0" "j = bump_job now (mut j0)"
    "d' = note_transition (Status j0) j (put_job j d)" "find_job i d' = Some j"
    "\<And>k. k \<noteq> i \<Longrightarrow> find_job k d' = find_job k d"
    "\<not> guard_refuses d (Some (Status j0)) (Status j)"
proof -
  from assms(1) obtain j0 where j0: "find_job i d = Some j0" "j = bump_job now (mut j0)"
    "d' = note_transition (Status j0) j (put_job j d)"
    "\<not> guard_refuses d (Some (Status j0)) (Status j)"
    by (auto simp: UpdateJob_eq split: option.splits if_splits)
  have i: "jID j0 = i" using find_job_Some [OF j0(1)] by simp
  have "set_columns j j0 = j"
    using assms(2) by (intro set_columns_full) (simp_all add: j0(2) keeps_identity_def)
  then have "find_job i d' = Some j" and "\<And>k. k \<noteq> i \<Longrightarrow> find_job k d' = find_job k d"
    using assms(2) j0 i by (simp_all add: find_put_job keeps_identity_def)
  with j0 show ?thesis using that by blast
qed

lemma UpdateJob_ids: "UpdateJob now i mut d = (r, d') \<Longrightarrow> ids_ok d \<Longrightarrow> ids_ok d'"
  by (auto simp: UpdateJob_eq ids_ok_def split: option.splits if_splits)

end
