(* ===== verification/Job_Laws.thy ===== *)
theory Job_Laws
  imports Jobs
begin

text \<open>
  What the job store promises.  The locale \<open>job_store\<close> is the interface through which the dispatcher
  and the Hermes bridge see it (the Go interface \<open>bridge.JobStore\<close> and the methods of \<open>*store.Store\<close>
  the dispatcher calls): one update is atomic, touches one row and bumps its version; an error leaves
  the database as it was.  Its lemmas are the two shapes of update the clients use, an unconditional
  one and one fenced by a guard on the locked row.  The rest is the invariant of the reachable
  databases and the exclusion between claiming and parking an approval.
\<close>

section \<open>The interface\<close>

definition same_work :: "job \<Rightarrow> job \<Rightarrow> bool" where
  "same_work x y \<longleftrightarrow> Status x = Status y \<and> HermesRunID x = HermesRunID y \<and> Approvals x = Approvals y \<and>
     Error x = Error y \<and> Question x = Question y \<and> PendingInput x = PendingInput y \<and>
     ResultDigest x = ResultDigest y \<and> Progress x = Progress y \<and> DisplayName x = DisplayName y \<and>
     HermesSessionID x = HermesSessionID y"

lemma same_work_refl [simp]: "same_work x x"
  by (simp add: same_work_def)

lemma same_work_bump [simp]: "same_work (bump_job now x) x"
  by (simp add: same_work_def)

locale job_store =
  fixes update :: "instant \<Rightarrow> string \<Rightarrow> (job \<Rightarrow> job) \<Rightarrow> 'd \<Rightarrow> (error + job) \<times> 'd"
    and lookup :: "string \<Rightarrow> 'd \<Rightarrow> job option"
  assumes update_error: "update now i mut d = (Inl e, d') \<Longrightarrow> d' = d"
    and update_row: "keeps_identity mut \<Longrightarrow> update now i mut d = (Inr y, d') \<Longrightarrow>
      \<exists>x. lookup i d = Some x \<and> y = bump_job now (mut x) \<and> lookup i d' = Some y"
    and update_other: "keeps_identity mut \<Longrightarrow> update now i mut d = (r, d') \<Longrightarrow> k \<noteq> i \<Longrightarrow>
      lookup k d' = lookup k d"
begin

text \<open>
  A mutation fenced by \<open>P\<close> changes no job outside \<open>P\<close>: whatever the outcome, a row that did not satisfy
  the fence keeps its status, run, approvals and texts.
\<close>

lemma fenced_update:
  assumes "keeps_identity mut" and "\<And>x. \<not> P x \<Longrightarrow> mut x = x"
    and "update now i mut d = (r, d')" and "lookup k d = Some x" and "\<not> P x"
  shows "\<exists>y. lookup k d' = Some y \<and> same_work y x"
proof (cases r)
  case (Inl e)
  with assms(3,4) update_error show ?thesis by fastforce
next
  case (Inr y)
  show ?thesis
  proof (cases "k = i")
    case True
    from update_row [OF assms(1)] assms(3) Inr obtain x' where
      "lookup i d = Some x'" "y = bump_job now (mut x')" "lookup i d' = Some y" by blast
    with True assms(2,4,5) show ?thesis by auto
  next
    case False
    with update_other [OF assms(1,3)] assms(4) show ?thesis by auto
  qed
qed

lemma update_keeps_rows:
  assumes "keeps_identity mut" and "update now i mut d = (r, d')"
  shows "(lookup k d' = None) = (lookup k d = None)"
proof (cases r)
  case (Inl e)
  with assms(2) update_error show ?thesis by blast
next
  case (Inr y)
  with assms update_row [OF assms(1)] update_other [OF assms(1)] show ?thesis
    by (cases "k = i") fastforce+
qed

end

interpretation js: job_store UpdateJob find_job
proof (unfold_locales, goal_cases)
  case (1 now i mut d e d')
  then show ?case by (rule UpdateJob_Inl)
next
  case (2 mut now i d y d')
  from UpdateJob_Inr [OF 2(2,1)] show ?case by metis
next
  case (3 mut now i d r d' k)
  show ?case
  proof (cases r)
    case (Inl e)
    with 3 UpdateJob_Inl show ?thesis by blast
  next
    case (Inr y)
    with 3(2) have "UpdateJob now i mut d = (Inr y, d')" by simp
    from UpdateJob_Inr [OF this 3(1)] 3(3) show ?thesis by metis
  qed
qed

section \<open>Reachable databases\<close>

definition finished_ok :: "db \<Rightarrow> bool" where
  "finished_ok d \<longleftrightarrow> (\<forall>j\<in>set (jobs d). terminal (Status j) \<longrightarrow> FinishedAt j \<noteq> None)"

text \<open>Attention rows refer to jobs at versions these jobs have had, one row per transition.\<close>

abbreviation att_key :: "attention \<Rightarrow> string \<times> int \<times> job_status" where
  "att_key a \<equiv> (atJob a, atVersion a, atKind a)"

definition attention_ok :: "db \<Rightarrow> bool" where
  "attention_ok d \<longleftrightarrow> distinct (map att_key (attentions d)) \<and>
     (\<forall>a\<in>set (attentions d). \<exists>j. find_job (atJob a) d = Some j \<and> atVersion a \<le> StateVersion j)"

definition versions_ok :: "db \<Rightarrow> bool" where
  "versions_ok d \<longleftrightarrow> (\<forall>j\<in>set (jobs d). 0 \<le> StateVersion j \<and> StateVersion j < 2 ^ 63)"

definition db_ok :: "db \<Rightarrow> bool" where
  "db_ok d \<longleftrightarrow> ids_ok d \<and> finished_ok d \<and> attention_ok d \<and> versions_ok d"

text \<open>The version counter of a row is far from its bound: no row is updated \<open>2^63\<close> times.\<close>

definition version_room :: "string \<Rightarrow> db \<Rightarrow> bool" where
  "version_room i d \<longleftrightarrow> (\<forall>j. find_job i d = Some j \<longrightarrow> StateVersion j < 2 ^ 63 - 1)"

text \<open>The writes to jobs and to the pause; \<open>Store_Laws\<close> adds those of every other table.\<close>

inductive db_step :: "db \<Rightarrow> db \<Rightarrow> bool" where
  db_create: "CreateJob now ulid name tsk d = (r, d') \<Longrightarrow> db_step d d'"
| db_update: "keeps_identity mut \<Longrightarrow> version_room i d \<Longrightarrow> UpdateJob now i mut d = (r, d') \<Longrightarrow>
    db_step d d'"
| db_pause: "db_step d (d\<lparr>paused := b\<rparr>)"

inductive db_reach :: "db \<Rightarrow> bool" where
  db_start: "db_reach empty_db"
| db_next: "db_reach d \<Longrightarrow> db_step d d' \<Longrightarrow> db_reach d'"

inductive_cases db_stepE: "db_step d d'"

lemma noted_rows:
  "attentions (note_transition s j d) =
     (if s = Status j then attentions d
      else case attentionForTransition j of None \<Rightarrow> attentions d
      | Some (kind, txt, ti, bo) \<Rightarrow>
          if \<exists>a\<in>set (attentions d). att_key a = (jID j, StateVersion j, kind) then attentions d
          else attentions d @ [\<lparr>atID = atSeq d, atJob = jID j, atVersion = StateVersion j,
                 atKind = kind, SpeechText = txt, PushTitle = ti, PushBody = bo,
                 atCreated = UpdatedAt j, atToken = '''', atUntil = None, atSpoken = None\<rparr>])"
  by (auto simp: note_transition_def insert_attention_def split: option.split)

lemma attention_kind: "attentionForTransition j = Some (k, x) \<Longrightarrow> k = Status j"
  by (cases "Status j") (auto simp: attentionForTransition_def Let_def)

lemma attention_ok_update:
  assumes up: "UpdateJob now i mut d = (Inr j, d')" and ki: "keeps_identity mut"
    and ok: "attention_ok d" "versions_ok d" and room: "version_room i d"
  shows "attention_ok d'"
proof -
  obtain j0 where j0: "find_job i d = Some j0" "j = bump_job now (mut j0)"
      "d' = note_transition (Status j0) j (put_job j d)" "find_job i d' = Some j"
      "\<And>k. k \<noteq> i \<Longrightarrow> find_job k d' = find_job k d"
    using UpdateJob_Inr [OF up ki] by metis
  have i: "jID j = i" "jID j0 = i"
    using find_job_Some [OF j0(1)] ki by (simp_all add: j0(2) keeps_identity_def)
  have v: "StateVersion j = StateVersion j0 + 1"
    using ok(2) room j0(1) find_job_Some [OF j0(1)] ki
    by (auto simp: j0(2) versions_ok_def version_room_def keeps_identity_def)
  let ?old = "attentions (put_job j d)"
  have old: "\<exists>k. find_job (atJob a) d' = Some k \<and> atVersion a \<le> StateVersion k"
    if "a \<in> set ?old" for a
  proof -
    from ok(1) that obtain k where k: "find_job (atJob a) d = Some k" "atVersion a \<le> StateVersion k"
      by (auto simp: attention_ok_def)
    show ?thesis
      using k j0(1,4,5) v by (cases "atJob a = i") auto
  qed
  moreover have "distinct (map att_key ?old)" using ok(1) by (simp add: attention_ok_def)
  ultimately show ?thesis
    unfolding attention_ok_def unfolding j0(3) noted_rows
    using j0(4) i by (auto simp: j0(3) split: option.split)
qed

lemma find_job_append:
  "find_job i (d\<lparr>jobs := jobs d @ [j]\<rparr>) =
     (case find_job i d of Some x \<Rightarrow> Some x | None \<Rightarrow> if jID j = i then Some j else None)"
proof -
  have "find (\<lambda>x. jID x = i) (js @ [j]) =
      (case find (\<lambda>x. jID x = i) js of Some x \<Rightarrow> Some x | None \<Rightarrow> if jID j = i then Some j else None)"
    for js by (induction js) auto
  then show ?thesis by (simp add: find_job_def)
qed

lemma db_step_ok: "db_step d d' \<Longrightarrow> db_ok d \<Longrightarrow> db_ok d'"
proof (induction rule: db_step.induct)
  case (db_create now ulid name tsk d r d')
  then consider "d' = d"
    | j where "d' = d\<lparr>jobs := jobs d @ [j]\<rparr>" "find_job (jID j) d = None" "Status j = Queued"
        "StateVersion j = 0"
    by (auto simp: CreateJob_def CreateJobTx_def Let_def split: if_splits)
  then show ?case
  proof cases
    case 1
    with db_create.prems show ?thesis by simp
  next
    case 2
    have "attention_ok d'"
      unfolding attention_ok_def
    proof (intro conjI ballI)
      fix a assume "a \<in> set (attentions d')"
      with db_create.prems 2(1) obtain k where "find_job (atJob a) d = Some k" "atVersion a \<le> StateVersion k"
        by (auto simp: db_ok_def attention_ok_def)
      then show "\<exists>j. find_job (atJob a) d' = Some j \<and> atVersion a \<le> StateVersion j"
        by (simp add: 2(1) find_job_append)
    qed (use db_create.prems 2(1) in \<open>simp add: db_ok_def attention_ok_def\<close>)
    with 2 db_create.prems show ?thesis
      by (auto simp: db_ok_def ids_ok_def finished_ok_def versions_ok_def terminal_def find_job_None)
  qed
next
  case (db_update mut i d now r d')
  show ?case
  proof (cases r)
    case (Inl e)
    with db_update UpdateJob_Inl show ?thesis by blast
  next
    case (Inr j)
    with db_update have up: "UpdateJob now i mut d = (Inr j, d')" by simp
    from UpdateJob_Inr [OF this db_update.hyps(1)] obtain j0 where
      j0: "find_job i d = Some j0" "j = bump_job now (mut j0)"
        "d' = note_transition (Status j0) j (put_job j d)" by metis
    have "finished_ok d'"
      using db_update.prems unfolding db_ok_def finished_ok_def j0(3)
      by (auto simp: put_job_def set_columns_def j0(2) bump_job_def Let_def)
    moreover have "versions_ok d'"
      using db_update.prems j0(1) find_job_Some [OF j0(1)] db_update.hyps(1,2)
      unfolding db_ok_def versions_ok_def j0(3) version_room_def keeps_identity_def
      by (auto simp: put_job_def set_columns_def j0(2))
    ultimately show ?thesis
      using db_update.prems UpdateJob_ids [OF up] attention_ok_update [OF up db_update.hyps(1)]
        db_update.hyps(2) by (simp add: db_ok_def)
  qed
next
  case (db_pause d b)
  then show ?case
    by (simp add: db_ok_def ids_ok_def finished_ok_def attention_ok_def versions_ok_def find_job_def)
qed

text \<open>What leaves the jobs and the keys of the attention rows alone.\<close>

lemma db_ok_frame:
  assumes "jobs d' = jobs d" "map att_key (attentions d') = map att_key (attentions d)"
  shows "db_ok d' = db_ok d"
proof -
  have k: "(\<forall>a\<in>set (attentions x). \<exists>j. find_job (atJob a) x = Some j \<and> atVersion a \<le> StateVersion j) \<longleftrightarrow>
      (\<forall>q\<in>set (map att_key (attentions x)). \<exists>j. find_job (fst q) x = Some j \<and> fst (snd q) \<le> StateVersion j)" for x
    by simp
  show ?thesis unfolding db_ok_def attention_ok_def k assms(2)
    by (simp add: assms(1) ids_ok_def finished_ok_def versions_ok_def find_job_def)
qed

lemma db_ok_empty: "db_ok empty_db"
  by (simp add: db_ok_def ids_ok_def finished_ok_def attention_ok_def versions_ok_def empty_db_def)

lemma db_reach_ok: "db_reach d \<Longrightarrow> db_ok d"
  by (induction rule: db_reach.induct) (auto intro: db_ok_empty db_step_ok)

section \<open>Properties of the job table\<close>

definition demo_db :: db where
  "demo_db = snd (UpdateJob 9 ''j1'' (\<lambda>x. x\<lparr>Status := Failed, Error := ''boom''\<rparr>)
     (snd (CreateJob 5 ''j1'' ''disk audit'' ''look'' empty_db)))"

lemmas demo_db_simps = demo_db_def CreateJob_def CreateJobTx_def empty_db_def find_job_def
  guard_refuses_def UpdateJob_eq put_job_def set_columns_def note_transition_def
  attentionForTransition_def insert_attention_def Let_def

lemma demo_reach_db: "db_reach demo_db"
proof -
  have c: "db_reach (snd (CreateJob 5 ''j1'' ''disk audit'' ''look'' empty_db))"
    by (rule db_next [OF db_start], rule db_create, rule prod.collapse [symmetric])
  show ?thesis unfolding demo_db_def
    by (rule db_next [OF c], rule db_update [OF _ _ prod.collapse [symmetric]])
      (auto simp: version_room_def demo_db_simps)
qed

text \<open>
  C33. The attention outbox misses no noteworthy transition and repeats none: an update that takes a
  job into done, failed, needs-input, needs-approval or parked-approval appends exactly one unspoken
  row carrying the new version, and every other update leaves the outbox as it was.
\<close>

theorem attention_exactly_once:
  assumes "db_ok d" and "version_room i d" and "keeps_identity mut"
    and "find_job i d = Some j0" and "UpdateJob now i mut d = (Inr j, d')"
  shows "if Status j \<noteq> Status j0 \<and>
            Status j \<in> {Done, Failed, NeedsInput, NeedsApproval, ParkedApproval}
         then \<exists>a. attentions d' = attentions d @ [a] \<and> att_key a = (i, StateVersion j0 + 1, Status j) \<and>
                atSpoken a = None \<and> atUntil a = None
         else attentions d' = attentions d"
proof -
  obtain j1 where j1: "find_job i d = Some j1" "j = bump_job now (mut j1)"
      "d' = note_transition (Status j1) j (put_job j d)"
    using UpdateJob_Inr [OF assms(5,3)] by metis
  with assms(4) have e: "j1 = j0" by simp
  have i: "jID j = i" using find_job_Some [OF assms(4)] assms(3) by (simp add: j1(2) e keeps_identity_def)
  have v: "StateVersion j = StateVersion j0 + 1"
    using assms(1-4) find_job_Some [OF assms(4)]
    by (auto simp: j1(2) e db_ok_def versions_ok_def version_room_def keeps_identity_def)
  have fresh: "att_key a \<noteq> (jID j, StateVersion j, k)" if "a \<in> set (attentions d)" for a k
    using assms(1,4) that v i by (fastforce simp: db_ok_def attention_ok_def)
  show ?thesis
    unfolding j1(3) noted_rows e using fresh i v
    by (cases "Status j") (auto simp: attentionForTransition_def Let_def)
qed

lemma attention_exactly_once_witness:
  "length (attentions (snd (UpdateJob 12 ''j1'' (\<lambda>x. x\<lparr>Status := Done\<rparr>) demo_db))) = 2"
proof -
  have f: "find_job ''j1'' demo_db \<noteq> None" and l: "length (attentions demo_db) = 1"
    and r: "version_room ''j1'' demo_db"
    and nd: "\<forall>j. find_job ''j1'' demo_db = Some j \<longrightarrow> Status j = Failed"
    by (simp_all add: demo_db_simps version_room_def bump_job_def)
  from f obtain j0 where j0: "find_job ''j1'' demo_db = Some j0" by blast
  have k: "keeps_identity (\<lambda>x. x\<lparr>Status := Done\<rparr>)" by (rule keeps_identityI) simp_all
  have "\<exists>j d'. UpdateJob 12 ''j1'' (\<lambda>x. x\<lparr>Status := Done\<rparr>) demo_db = (Inr j, d') \<and> Status j = Done"
    using j0 by (simp add: UpdateJob_eq guard_refuses_def)
  then obtain j d' where u: "UpdateJob 12 ''j1'' (\<lambda>x. x\<lparr>Status := Done\<rparr>) demo_db = (Inr j, d')"
    and "Status j = Done" by blast
  with attention_exactly_once [OF db_reach_ok [OF demo_reach_db] r k j0 u] nd j0 l
  show ?thesis by auto
qed

text \<open>
  While the deployment pause is set no job is created and none enters queued or running: every
  queued or running row after an update had that status before it.
\<close>

lemma paused_admits_nothing:
  assumes "paused d"
  shows "CreateJob now ulid name tsk d = (Inl ErrDispatchPaused, d) \<and>
    (keeps_identity mut \<longrightarrow> (\<forall>k y. find_job k (snd (UpdateJob now i mut d)) = Some y \<longrightarrow>
       Status y = Queued \<or> Status y = Running \<longrightarrow>
       (\<exists>x. find_job k d = Some x \<and> Status x = Status y)))"
proof (intro conjI impI allI)
  fix k y assume m: "keeps_identity mut"
    and y: "find_job k (snd (UpdateJob now i mut d)) = Some y" "Status y = Queued \<or> Status y = Running"
  show "\<exists>x. find_job k d = Some x \<and> Status x = Status y"
  proof (cases "fst (UpdateJob now i mut d)")
    case (Inl e)
    then have "snd (UpdateJob now i mut d) = d" by (metis UpdateJob_Inl prod.collapse)
    with y show ?thesis by simp
  next
    case (Inr j)
    then have u: "UpdateJob now i mut d = (Inr j, snd (UpdateJob now i mut d))" by (metis prod.collapse)
    obtain x where "find_job i d = Some x" "find_job i (snd (UpdateJob now i mut d)) = Some j"
      "\<And>k. k \<noteq> i \<Longrightarrow> find_job k (snd (UpdateJob now i mut d)) = find_job k d"
      "\<not> guard_refuses d (Some (Status x)) (Status j)"
      using UpdateJob_Inr [OF u m] by metis
    with y assms show ?thesis
      by (cases "k = i") (auto simp: guard_refuses_def split: if_splits)
  qed
qed (use assms in \<open>simp add: CreateJob_def CreateJobTx_def Let_def\<close>)

section \<open>One winner per approval\<close>

text \<open>
  Clients race to claim or to park one approval request; an \<open>attempt\<close> is either call, and
  \<open>run_attempts\<close> executes a history of them and collects which ones succeeded.
\<close>

datatype attempt = TryClaim instant | TryPark instant string

fun do_attempt :: "string \<Rightarrow> string \<Rightarrow> string \<Rightarrow> attempt \<Rightarrow> db \<Rightarrow> (error + job) \<times> db" where
  "do_attempt i aid nonce (TryClaim t) d = ClaimApproval t i aid nonce d"
| "do_attempt i aid nonce (TryPark t reason) d = ParkApproval t i aid nonce reason t d"

fun run_attempts :: "string \<Rightarrow> string \<Rightarrow> string \<Rightarrow> attempt list \<Rightarrow> db \<Rightarrow> bool list" where
  "run_attempts i aid nonce [] d = []"
| "run_attempts i aid nonce (x # xs) d =
     (case do_attempt i aid nonce x d of
        (r, d') \<Rightarrow> (case r of Inl e \<Rightarrow> False | Inr j \<Rightarrow> True) # run_attempts i aid nonce xs d')"

fun attempt_mut :: "string \<Rightarrow> string \<Rightarrow> attempt \<Rightarrow> job \<Rightarrow> job" where
  "attempt_mut aid nonce (TryClaim t) = claim_mut aid nonce"
| "attempt_mut aid nonce (TryPark t reason) = park_mut aid nonce reason t"

fun attempt_time :: "attempt \<Rightarrow> instant" where
  "attempt_time (TryClaim t) = t"
| "attempt_time (TryPark t reason) = t"

lemma attempt_mut_identity: "keeps_identity (attempt_mut aid nonce x)"
  by (cases x) (auto simp: claim_mut_def park_mut_def)

lemma attempt_mut_consumes: "\<not> pending_match aid nonce (attempt_mut aid nonce x j)"
  by (cases x) (auto simp: claim_mut_def park_mut_def pending_match_def split: list.splits)

lemma attempt_mut_fenced: "\<not> pending_match aid nonce j \<Longrightarrow> attempt_mut aid nonce x j = j"
  by (cases x) (simp_all add: claim_mut_def park_mut_def)

lemma pending_match_bump [simp]: "pending_match aid nonce (bump_job now j) = pending_match aid nonce j"
  by (simp add: pending_match_def)

lemma do_attempt_update:
  "do_attempt i aid nonce x d =
     (case UpdateJob (attempt_time x) i (attempt_mut aid nonce x) d of
        (Inl e, d') \<Rightarrow> (Inl e, d')
      | (Inr j, d') \<Rightarrow>
          (if on_row i (pending_match aid nonce) d then Inr j else Inl ErrApprovalStale, d'))"
  by (cases x) (simp_all add: ClaimApproval_def ParkApproval_def Let_def)

lemma do_attempt_consumes:
  assumes "do_attempt i aid nonce x d = (r, d')"
  shows "(\<exists>j. r = Inr j) \<longrightarrow> on_row i (pending_match aid nonce) d \<and> \<not> on_row i (pending_match aid nonce) d'"
    and "\<not> on_row i (pending_match aid nonce) d \<longrightarrow> \<not> on_row i (pending_match aid nonce) d'"
proof -
  obtain r' where u: "UpdateJob (attempt_time x) i (attempt_mut aid nonce x) d = (r', d')"
    and rr: "(\<exists>j. r = Inr j) \<longrightarrow> (\<exists>j. r' = Inr j) \<and> on_row i (pending_match aid nonce) d"
    using assms unfolding do_attempt_update by (auto split: prod.splits sum.splits if_splits)
  have "\<not> on_row i (pending_match aid nonce) d'" if "r' = Inr j" for j
  proof -
    from u that have "UpdateJob (attempt_time x) i (attempt_mut aid nonce x) d = (Inr j, d')" by simp
    from js.update_row [OF attempt_mut_identity this] show ?thesis
      by (auto simp: on_row_def attempt_mut_consumes)
  qed
  moreover have "d' = d" if "r' = Inl e" for e using u that UpdateJob_Inl by blast
  ultimately show "(\<exists>j. r = Inr j) \<longrightarrow> on_row i (pending_match aid nonce) d \<and>
      \<not> on_row i (pending_match aid nonce) d'"
    and "\<not> on_row i (pending_match aid nonce) d \<longrightarrow> \<not> on_row i (pending_match aid nonce) d'"
    using rr by (blast, cases r', auto)
qed

lemma run_attempts_dead:
  "\<not> on_row i (pending_match aid nonce) d \<Longrightarrow> True \<notin> set (run_attempts i aid nonce xs d)"
proof (induction xs arbitrary: d)
  case (Cons x xs)
  obtain r d' where x: "do_attempt i aid nonce x d = (r, d')" by fastforce
  with do_attempt_consumes [OF x] Cons show ?case by (auto split: sum.split)
qed simp

text \<open>
  C34. An approval request is decided or parked at most once: in every history of claim and park
  attempts on one request and nonce, at most one attempt succeeds.
\<close>

theorem approval_single_winner:
  "count_list (run_attempts i aid nonce xs d) True \<le> 1"
proof (induction xs arbitrary: d)
  case (Cons x xs)
  obtain r d' where x: "do_attempt i aid nonce x d = (r, d')" by fastforce
  show ?case
  proof (cases r)
    case (Inr j)
    with do_attempt_consumes(1) [OF x] have "\<not> on_row i (pending_match aid nonce) d'" by blast
    then have "count_list (run_attempts i aid nonce xs d') True = 0"
      using run_attempts_dead by (simp add: count_list_0_iff)
    with x Inr show ?thesis by simp
  qed (use x Cons in simp)
qed simp

text \<open>
  Parking never decides: a successful \<open>ParkApproval\<close> leaves the one request attached, marked
  parked with the reason and time, its recorded decision and nonce untouched, and the job in
  parked-approval; a refused attempt leaves every job's work as it was.
\<close>

lemma park_preserves_evidence:
  assumes "ParkApproval now i aid nonce reason at d = (r, d')"
  shows "case r of
      Inr j \<Rightarrow> Status j = ParkedApproval \<and> find_job i d' = Some j \<and>
        (\<exists>x a. find_job i d = Some x \<and> Approvals x = [a] \<and> apState a = APending \<and>
           Approvals j = [a\<lparr>apState := AParked, ParkedAt := Some at, ParkReason := reason\<rparr>] \<and>
           HermesRunID j = HermesRunID x)
    | Inl e \<Rightarrow> (\<forall>k x. find_job k d = Some x \<longrightarrow> (\<exists>y. find_job k d' = Some y \<and> same_work y x))"
proof -
  let ?m = "park_mut aid nonce reason at"
  have m: "keeps_identity ?m" by (auto simp: park_mut_def)
  obtain r' where u: "UpdateJob now i ?m d = (r', d')" and
    rr: "r = (case r' of Inl e \<Rightarrow> Inl e | Inr j \<Rightarrow>
           if on_row i (pending_match aid nonce) d then Inr j else Inl ErrApprovalStale)"
    using assms by (auto simp: ParkApproval_def Let_def split: prod.splits sum.splits if_splits)
  show ?thesis
  proof (cases r')
    case (Inl e)
    with u rr UpdateJob_Inl show ?thesis by fastforce
  next
    case (Inr j)
    with u have uj: "UpdateJob now i ?m d = (Inr j, d')" by simp
    from js.update_row [OF m this] obtain x where
      x: "find_job i d = Some x" "j = bump_job now (?m x)" "find_job i d' = Some j" by blast
    show ?thesis
    proof (cases "pending_match aid nonce x")
      case True
      with x rr Inr show ?thesis
        by (auto simp: on_row_def park_mut_def pending_match_def split: list.splits)
    next
      case False
      then have "?m x = x" by (simp add: park_mut_def)
      then have "\<exists>y. find_job k d' = Some y \<and> same_work y z" if "find_job k d = Some z" for k z
        using that x js.update_other [OF m uj] by (cases "k = i") auto
      with False x rr Inr show ?thesis by (simp add: on_row_def)
    qed
  qed
qed

definition demo_approval :: approval where
  "demo_approval = \<lparr>apID = ''a1'', ProviderRequestID = ''r1'', DecisionNonce = ''n1'',
     apDecision = '''', apState = APending, Command = ''rm x'', Description = ''cleanup'',
     PatternKeys = [''rm''], AllowPermanent = True, RequestedAt = 3, ParkedAt = None,
     ParkReason = ''''\<rparr>"

text \<open>
  Publishing a job leaks no authority: the redacted copy carries no decision nonce, keeps
  everything else, and redacting twice is redacting once.
\<close>

lemma redaction_complete:
  "map DecisionNonce (Approvals (Redacted j)) = replicate (length (Approvals j)) '''' \<and>
   map (\<lambda>a. a\<lparr>DecisionNonce := ''''\<rparr>) (Approvals (Redacted j)) =
     map (\<lambda>a. a\<lparr>DecisionNonce := ''''\<rparr>) (Approvals j) \<and>
   (Redacted j)\<lparr>Approvals := Approvals j\<rparr> = j \<and> Redacted (Redacted j) = Redacted j"
  by (auto simp: Redacted_def redact_approval_def map_replicate_const [symmetric])

end
