(* ===== verification/Lookup.thy ===== *)
theory Lookup
  imports Jobs "HOL-Library.List_Lexorder" "HOL-Library.Char_ord"
begin

text \<open>
  Reading jobs (\<open>ResolveJob\<close> and the board queries of \<open>src/internal/store/store.go\<close>) and the standing
  approval policies keyed by \<open>ApprovalPatternHash\<close>.  Two services are parameters: the database's
  case mapping of one character, \<open>lc\<close>, and the SHA-256 of a byte string in lower-case hexadecimal,
  \<open>sha\<close>.  SQL \<open>LIKE\<close> with \<open>ESCAPE '\'\<close> is \<open>like_match\<close> on the characters of its operands.
\<close>

section \<open>Board queries\<close>

text \<open>\<open>ORDER BY created_at DESC\<close>; rows with equal times keep their table order.\<close>

definition newest_first :: "job list \<Rightarrow> job list" where
  "newest_first js = sort_key (\<lambda>j. - CreatedAt j) js"

definition active_status :: "job_status \<Rightarrow> bool" where
  "active_status s \<longleftrightarrow> s = Queued \<or> s = Running \<or> s = NeedsInput \<or> s = NeedsApproval \<or> s = ParkedApproval"

definition ActiveJobs :: "db \<Rightarrow> job list" where
  "ActiveJobs d = newest_first (filter (\<lambda>j. active_status (Status j)) (jobs d))"

definition UnresolvedRunJobs :: "db \<Rightarrow> job list" where
  "UnresolvedRunJobs d =
     newest_first (filter (\<lambda>j. Status j = Failed \<and> HermesRunID j \<noteq> '''') (jobs d))"

definition RecentJobs :: "nat \<Rightarrow> db \<Rightarrow> job list" where
  "RecentJobs n d = take n (newest_first (jobs d))"

section \<open>Spoken references\<close>

fun like_match :: "nat list \<Rightarrow> nat list \<Rightarrow> bool" where
  "like_match [] ys = (ys = [])"
| "like_match (p # ps) ys =
     (if p = 37 then like_match ps ys \<or> (case ys of [] \<Rightarrow> False | y # ys' \<Rightarrow> like_match (p # ps) ys')
      else if p = 92 then
        (case ps of [] \<Rightarrow> False
         | q # qs \<Rightarrow> (case ys of [] \<Rightarrow> False | y # ys' \<Rightarrow> y = q \<and> like_match qs ys'))
      else case ys of [] \<Rightarrow> False
         | y # ys' \<Rightarrow> (p = 95 \<or> y = p) \<and> like_match ps ys')"

definition escape_runes :: "nat list \<Rightarrow> nat list" where
  "escape_runes rs = concat (map (\<lambda>r. if r = 37 \<or> r = 95 \<or> r = 92 then [92, r] else [r]) rs)"

definition escapeLikePattern :: "string \<Rightarrow> string" where
  "escapeLikePattern ref = of_runes (escape_runes (runes ref))"

definition ilike :: "(nat \<Rightarrow> nat) \<Rightarrow> string \<Rightarrow> string \<Rightarrow> bool" where
  "ilike lc s pat = like_match (map lc (runes pat)) (map lc (runes s))"

definition lower_eq :: "(nat \<Rightarrow> nat) \<Rightarrow> string \<Rightarrow> string \<Rightarrow> bool" where
  "lower_eq lc s t \<longleftrightarrow> map lc (runes s) = map lc (runes t)"

definition ResolveJob :: "(nat \<Rightarrow> nat) \<Rightarrow> string \<Rightarrow> db \<Rightarrow> error + job" where
  "ResolveJob lc ref0 d =
     (let ref = trim_space ref0 in
      case find_job ref d of
        Some j \<Rightarrow> Inr j
      | None \<Rightarrow>
          (case take 2 (newest_first (filter (\<lambda>j. lower_eq lc (DisplayName j) ref) (jobs d))) of
             [j] \<Rightarrow> Inr j
           | _ # _ # _ \<Rightarrow> Inl ErrAmbiguous
           | [] \<Rightarrow>
              (case take 2 (newest_first (filter
                   (\<lambda>j. ilike lc (DisplayName j) (''%'' @ escapeLikePattern ref @ ''%'') \<and>
                        active_status (Status j)) (jobs d))) of
                 [] \<Rightarrow> Inl ErrNotFound
               | [j] \<Rightarrow> Inr j
               | _ \<Rightarrow> Inl ErrAmbiguous)))"

section \<open>Approval pattern scope\<close>

text \<open>\<open>json.Marshal\<close> of a string list: the escapes of package \<open>encoding/json\<close>, rune by rune.\<close>

definition hex2 :: "nat \<Rightarrow> string" where
  "hex2 b = [hex_digit (b div 16), hex_digit (b mod 16)]"

definition json_rune :: "nat \<Rightarrow> string" where
  "json_rune r =
     (if r = 34 \<or> r = 92 then [CHR 0x5C, char_of r]
      else if r = 8 then [CHR 0x5C, CHR ''b'']
      else if r = 12 then [CHR 0x5C, CHR ''f'']
      else if r = 10 then [CHR 0x5C, CHR ''n'']
      else if r = 13 then [CHR 0x5C, CHR ''r'']
      else if r = 9 then [CHR 0x5C, CHR ''t'']
      else if r < 32 \<or> r = 60 \<or> r = 62 \<or> r = 38 then CHR 0x5C # ''u00'' @ hex2 r
      else if r = 8232 \<or> r = 8233 then CHR 0x5C # ''u202'' @ [hex_digit (r mod 16)]
      else encode_rune r)"

text \<open>A byte that starts no well-formed sequence is written as the escape of \<open>U+FFFD\<close>.\<close>

definition json_string :: "string \<Rightarrow> string" where
  "json_string s = CHR 0x22 #
     concat (map (\<lambda>(r, b). if r = rune_error \<and> length b = 1 then CHR 0x5C # ''ufffd''
                           else json_rune r) (segments s)) @ [CHR 0x22]"

definition json_strings :: "string list \<Rightarrow> string" where
  "json_strings ks = ''['' @ join '','' (map json_string ks) @ '']''"

fun norm_keys :: "string list \<Rightarrow> string list \<Rightarrow> string list" where
  "norm_keys [] seen = []"
| "norm_keys (k # ks) seen =
     (let key = trim_space k in
      if key = '''' then norm_keys ks seen
      else if key \<in> set seen then norm_keys ks seen
      else key # norm_keys ks (key # seen))"

definition ApprovalPatternHash :: "(string \<Rightarrow> string) \<Rightarrow> string list \<Rightarrow> string" where
  "ApprovalPatternHash sha ks =
     (let keys = norm_keys ks [] in
      if keys = [] then '''' else ''v1:'' @ sha (json_strings (sort keys)))"

definition SavePermanentDenials ::
  "(string \<Rightarrow> string) \<Rightarrow> string list \<Rightarrow> string \<Rightarrow> db \<Rightarrow> error option \<times> db" where
  "SavePermanentDenials sha ks src d =
     (let h = ApprovalPatternHash sha ks in
      if h = '''' then (Some (EText ''approval has no reusable pattern keys''), d)
      else (None, d\<lparr>denials := (denials d)(h \<mapsto> src)\<rparr>))"

definition MatchesPermanentDenial :: "(string \<Rightarrow> string) \<Rightarrow> string list \<Rightarrow> db \<Rightarrow> string" where
  "MatchesPermanentDenial sha ks d =
     (let h = ApprovalPatternHash sha ks in
      if h = '''' then '''' else if denials d h = None then '''' else h)"

definition SavePermanentAllows ::
  "(string \<Rightarrow> string) \<Rightarrow> string list \<Rightarrow> string \<Rightarrow> db \<Rightarrow> error option \<times> db" where
  "SavePermanentAllows sha ks src d =
     (let h = ApprovalPatternHash sha ks in
      if h = '''' then (Some (EText ''approval has no reusable pattern keys''), d)
      else (None, d\<lparr>allows := (allows d)(h \<mapsto> src)\<rparr>))"

definition MatchesPermanentAllow :: "(string \<Rightarrow> string) \<Rightarrow> string list \<Rightarrow> db \<Rightarrow> string" where
  "MatchesPermanentAllow sha ks d =
     (let h = ApprovalPatternHash sha ks in
      if h = '''' then '''' else if allows d h = None then '''' else h)"

section \<open>LIKE on escaped text\<close>

declare like_match.simps(2) [simp del]

lemma like_backslash [simp]:
  "like_match (92 # q # qs) ys \<longleftrightarrow> (\<exists>zs. ys = q # zs \<and> like_match qs zs)"
  by (subst like_match.simps(2)) (auto split: list.split)

lemma like_literal:
  "p \<noteq> 37 \<Longrightarrow> p \<noteq> 92 \<Longrightarrow> p \<noteq> 95 \<Longrightarrow>
   like_match (p # ps) ys \<longleftrightarrow> (\<exists>zs. ys = p # zs \<and> like_match ps zs)"
  by (subst like_match.simps(2)) (auto split: list.split)

lemma like_escaped:
  "like_match (escape_runes rs @ ps) ys \<longleftrightarrow> (\<exists>zs. ys = rs @ zs \<and> like_match ps zs)"
proof (induction rs arbitrary: ys)
  case (Cons r rs)
  have "escape_runes (r # rs) = (if r = 37 \<or> r = 95 \<or> r = 92 then [92, r] else [r]) @ escape_runes rs"
    by (simp add: escape_runes_def)
  with Cons show ?case by (auto simp: like_literal)
qed (simp add: escape_runes_def)

lemma like_percent: "like_match (37 # ps) ys \<longleftrightarrow> (\<exists>as zs. ys = as @ zs \<and> like_match ps zs)"
proof (induction ys)
  case Nil
  then show ?case by (subst like_match.simps(2)) simp
next
  case (Cons y ys)
  have "like_match (37 # ps) (y # ys) \<longleftrightarrow> like_match ps (y # ys) \<or> like_match (37 # ps) ys"
    by (subst like_match.simps(2)) simp
  also have "\<dots> \<longleftrightarrow> like_match ps (y # ys) \<or> (\<exists>as zs. ys = as @ zs \<and> like_match ps zs)"
    unfolding Cons.IH ..
  also have "\<dots> \<longleftrightarrow> (\<exists>as zs. y # ys = as @ zs \<and> like_match ps zs)"
    by (metis append_Cons append_Nil list.inject neq_Nil_conv)
  finally show ?case .
qed

lemma like_contains: "like_match (37 # escape_runes rs @ [37]) ys \<longleftrightarrow> sublist rs ys"
proof -
  have e: "like_match [37] zs" for zs
    by (subst like_percent) (rule exI [of _ zs], simp)
  show ?thesis by (subst like_percent) (auto simp: like_escaped e sublist_def)
qed

lemma escape_runes_map:
  assumes "\<forall>r. lc r \<in> {37, 92, 95} \<or> r \<in> {37, 92, 95} \<longrightarrow> lc r = r"
  shows "map lc (escape_runes rs) = escape_runes (map lc rs)"
proof (induction rs)
  case (Cons r rs)
  have "lc 92 = 92" using assms by blast
  moreover have "lc r = 37 \<or> lc r = 95 \<or> lc r = 92 \<longleftrightarrow> r = 37 \<or> r = 95 \<or> r = 92"
    using assms by (metis insertCI)
  ultimately show ?case using Cons by (auto simp: escape_runes_def)
qed (simp add: escape_runes_def)

section \<open>Spoken references, order-free and literal\<close>

text \<open>What the database's case mapping must not do: touch a LIKE metacharacter.\<close>

definition case_mapping :: "(nat \<Rightarrow> nat) \<Rightarrow> bool" where
  "case_mapping lc \<longleftrightarrow> (\<forall>r. lc r \<in> {37, 92, 95} \<or> r \<in> {37, 92, 95} \<longrightarrow> lc r = r)"

definition mentions :: "(nat \<Rightarrow> nat) \<Rightarrow> string \<Rightarrow> string \<Rightarrow> bool" where
  "mentions lc name ref \<longleftrightarrow> sublist (map lc (runes ref)) (map lc (runes name))"

lemma runes_ascii_append: "byte c < 128 \<Longrightarrow> runes (s @ c # t) = runes s @ byte c # runes t"
  by (simp add: runes_def segments_append_ascii)

lemma escape_runes_valid:
  "\<forall>r\<in>set rs. valid_rune r \<Longrightarrow> r \<in> set (escape_runes rs) \<Longrightarrow> valid_rune r"
  by (auto simp: escape_runes_def valid_rune_def split: if_splits)

lemma percent_byte [simp]: "byte CHR ''%'' = 37"
  by (simp add: byte_def)

lemma runes_pattern: "runes (''%'' @ escapeLikePattern ref @ ''%'') = 37 # escape_runes (runes ref) @ [37]"
proof -
  have "runes (escapeLikePattern ref) = escape_runes (runes ref)"
    unfolding escapeLikePattern_def
    by (rule runes_of_runes) (auto intro: escape_runes_valid runes_valid)
  moreover have "runes [] = []" by (simp add: runes_def)
  ultimately show ?thesis
    using runes_ascii_append [of "CHR ''%''" "escapeLikePattern ref" "[]"]
      runes_ascii_append [of "CHR ''%''" "[]" "escapeLikePattern ref @ ''%''"] by simp
qed

lemma spoken_lit:
  assumes "case_mapping lc"
  shows "ilike lc name (''%'' @ escapeLikePattern ref @ ''%'') \<longleftrightarrow> mentions lc name ref"
proof -
  have "lc 37 = 37" using assms by (simp add: case_mapping_def)
  then have "map lc (runes (''%'' @ escapeLikePattern ref @ ''%'')) =
      37 # escape_runes (map lc (runes ref)) @ [37]"
    using assms unfolding runes_pattern by (simp add: case_mapping_def escape_runes_map)
  then show ?thesis unfolding ilike_def mentions_def by (simp only: like_contains)
qed

text \<open>
  A spoken reference is literal text: through the escaped pattern, \<open>ILIKE\<close> accepts a display
  name exactly when the reference occurs in it up to case, whatever \<open>%\<close>, \<open>_\<close> or backslash it contains.
\<close>

lemma spoken_reference_literal:
  assumes "case_mapping lc"
  shows "ilike lc name (''%'' @ escapeLikePattern ref @ ''%'') \<longleftrightarrow> mentions lc name ref"
  using assms by (rule spoken_lit)

lemma newest_first_facts:
  "length (newest_first js) = length js" "set (newest_first js) = set js"
  "newest_first js = [] \<longleftrightarrow> js = []"
  by (auto simp: newest_first_def) (metis length_0_conv length_sort)

lemma take2_newest:
  "take 2 (newest_first js) = [] \<longleftrightarrow> js = []"
  "length js = 1 \<Longrightarrow> take 2 (newest_first js) = js"
  "1 < length js \<Longrightarrow> \<exists>a b. take 2 (newest_first js) = [a, b]"
proof -
  show "take 2 (newest_first js) = [] \<longleftrightarrow> js = []" by (simp add: newest_first_facts)
  show "length js = 1 \<Longrightarrow> take 2 (newest_first js) = js"
    by (cases js) (auto simp: newest_first_def)
  assume "1 < length js"
  then have "length (take 2 (newest_first js)) = 2" by (simp add: newest_first_facts)
  then show "\<exists>a b. take 2 (newest_first js) = [a, b]"
    by (cases "take 2 (newest_first js)" rule: remdups_adj.cases) auto
qed

text \<open>
  C39. Ambiguity is surfaced, never guessed away: \<open>ResolveJob\<close> answers with the exact id; else the only
  job of that name up to case; else the only active job whose name contains the reference; with two
  or more candidates at the first non-empty level it reports ambiguity, and never depends on row order.
\<close>

theorem resolve_never_guesses:
  assumes "case_mapping lc"
  shows "ResolveJob lc ref0 d =
    (let ref = trim_space ref0;
         named = filter (\<lambda>j. lower_eq lc (DisplayName j) ref) (jobs d);
         part = filter (\<lambda>j. mentions lc (DisplayName j) ref \<and> active_status (Status j)) (jobs d) in
     case find_job ref d of
       Some j \<Rightarrow> Inr j
     | None \<Rightarrow>
         if length named = 1 then Inr (hd named)
         else if 1 < length named then Inl ErrAmbiguous
         else if part = [] then Inl ErrNotFound
         else if length part = 1 then Inr (hd part)
         else Inl ErrAmbiguous)"
proof -
  define ref where "ref = trim_space ref0"
  define named where "named = filter (\<lambda>j. lower_eq lc (DisplayName j) ref) (jobs d)"
  define part where
    "part = filter (\<lambda>j. mentions lc (DisplayName j) ref \<and> active_status (Status j)) (jobs d)"
  have r: "ResolveJob lc ref0 d =
      (case find_job ref d of
         Some j \<Rightarrow> Inr j
       | None \<Rightarrow> (case take 2 (newest_first named) of
             [j] \<Rightarrow> Inr j
           | _ # _ # _ \<Rightarrow> Inl ErrAmbiguous
           | [] \<Rightarrow> (case take 2 (newest_first part) of
                 [] \<Rightarrow> Inl ErrNotFound | [j] \<Rightarrow> Inr j | _ \<Rightarrow> Inl ErrAmbiguous)))"
    unfolding ResolveJob_def Let_def ref_def named_def part_def
    by (simp only: spoken_lit [OF assms])
  consider "named = []" | "length named = 1" | "1 < length named" by (cases named) auto
  then show ?thesis
  proof cases
    case 1
    consider "part = []" | "length part = 1" | "1 < length part" by (cases part) auto
    then show ?thesis
      using 1 take2_newest [of part] unfolding r Let_def ref_def [symmetric] named_def [symmetric]
        part_def [symmetric]
      by cases (auto simp: newest_first_def length_Suc_conv split: option.split)
  next
    case 2
    then show ?thesis
      using take2_newest [of named] unfolding r Let_def ref_def [symmetric] named_def [symmetric]
      by (auto simp: length_Suc_conv split: option.split)
  next
    case 3
    then show ?thesis
      using take2_newest [of named] unfolding r Let_def ref_def [symmetric] named_def [symmetric]
      by (auto split: option.split)
  qed
qed

lemma resolve_never_guesses_witness:
  "ResolveJob (\<lambda>r. r) ''nothing'' empty_db = Inl ErrNotFound"
proof -
  have "case_mapping (\<lambda>r. r)" by (simp add: case_mapping_def)
  from resolve_never_guesses [OF this] show ?thesis by (simp add: empty_db_def find_job_def)
qed

end
