(* ===== verification/Policy.thy ===== *)
theory Policy
  imports Lookup
begin

text \<open>
  Standing approval policies: the pattern hash of \<open>src/internal/store/store.go\<close> names one complete
  set of keys.  The JSON text that is hashed is read back rune by rune, so two key sets with the
  same text are equal; the hash function itself is the parameter \<open>sha\<close>.
\<close>

section \<open>JSON strings are prefix-free\<close>

text \<open>The code points \<open>json_rune\<close> writes, and a reader of one rune of a JSON string.\<close>

definition hex_code :: "nat \<Rightarrow> nat" where
  "hex_code n = (if n < 10 then 48 + n else 87 + n)"

definition unhex :: "nat \<Rightarrow> nat" where
  "unhex c = (if c < 58 then c - 48 else c - 87)"

definition json_codes :: "nat \<Rightarrow> nat list" where
  "json_codes r =
     (if r = 34 \<or> r = 92 then [92, r]
      else if r = 8 then [92, 98] else if r = 12 then [92, 102] else if r = 10 then [92, 110]
      else if r = 13 then [92, 114] else if r = 9 then [92, 116]
      else if r < 32 \<or> r = 60 \<or> r = 62 \<or> r = 38 then
        [92, 117, 48, 48, hex_code (r div 16), hex_code (r mod 16)]
      else if r = 8232 \<or> r = 8233 then [92, 117, 50, 48, 50, hex_code (r mod 16)]
      else [r])"

fun json_read :: "nat list \<Rightarrow> nat \<times> nat list" where
  "json_read (c # xs) =
     (if c \<noteq> 92 then (c, xs)
      else case xs of
        a # ys \<Rightarrow>
          if a = 98 then (8, ys) else if a = 102 then (12, ys) else if a = 110 then (10, ys)
          else if a = 114 then (13, ys) else if a = 116 then (9, ys)
          else if a \<noteq> 117 then (a, ys)
          else (case ys of
            h3 # h2 # h1 # h0 # zs \<Rightarrow>
              (unhex h3 * 4096 + unhex h2 * 256 + unhex h1 * 16 + unhex h0, zs)
          | _ \<Rightarrow> (0, []))
      | [] \<Rightarrow> (0, []))"
| "json_read [] = (0, [])"

lemma unhex_code [simp]: "n < 16 \<Longrightarrow> unhex (hex_code n) = n"
  by (auto simp: unhex_def hex_code_def)

lemma unhex_num [simp]: "unhex 48 = 0" "unhex 50 = 2"
  by (simp_all add: unhex_def)

lemma json_read_codes: "json_read (json_codes r @ xs) = (r, xs)"
  by (auto simp: json_codes_def)

lemma json_codes_inject: "json_codes r @ xs = json_codes r' @ ys \<Longrightarrow> r = r' \<and> xs = ys"
  by (metis Pair_inject json_read_codes)

lemma json_codes_hd: "json_codes r \<noteq> []" "hd (json_codes r) \<noteq> 34"
  by (auto simp: json_codes_def)

lemma hex_code_less: "hex_code (n mod 16) < 128"
proof -
  have "n mod 16 < 16" by simp
  then show ?thesis unfolding hex_code_def by arith
qed

lemma json_codes_small: "list_all (\<lambda>c. c = r \<or> c < 128) (json_codes r)"
proof (cases "r < 32")
  case True
  then have "hex_code (r div 16) < 128" by (simp add: hex_code_def)
  then show ?thesis by (simp add: json_codes_def hex_code_less)
next
  case False
  have "hex_code (r div 16) < 128" if "r = 60 \<or> r = 62 \<or> r = 38"
    using that by (auto simp: hex_code_def)
  with False show ?thesis by (simp add: json_codes_def hex_code_less)
qed

lemma json_codes_valid: "valid_rune r \<Longrightarrow> c \<in> set (json_codes r) \<Longrightarrow> valid_rune c"
  using json_codes_small [of r] by (auto simp: list_all_iff valid_rune_def)

lemma encode_ascii: "n < 128 \<Longrightarrow> encode_rune n = [char_of n]"
  by (simp add: encode_rune_def valid_rune_def)

lemma hex_char: "n < 16 \<Longrightarrow> encode_rune (hex_code n) = [hex_digit n]"
  by (subst encode_ascii) (auto simp: hex_code_def hex_digit_def)

lemma json_rune_codes: "json_rune r = of_runes (json_codes r)"
proof -
  have h: "r mod 16 < 16" by simp
  have l: "r < 32 \<Longrightarrow> r div 16 < 16" "r = 60 \<or> r = 62 \<or> r = 38 \<Longrightarrow> r div 16 < 16" by auto
  show ?thesis
    unfolding json_rune_def json_codes_def if_distrib [of of_runes]
    by (intro if_cong refl)
      (auto simp: of_runes_def encode_ascii hex_char [OF h] hex2_def l hex_char char_of_def bit_0)
qed

section \<open>Texts and lists of texts\<close>

text \<open>A text is well-formed UTF-8; every string decoded from JSON is one.\<close>

definition valid_text :: "string \<Rightarrow> bool" where
  "valid_text s \<longleftrightarrow> of_runes (runes s) = s"

lemma json_string_codes:
  assumes "valid_text s"
  shows "json_string s = of_runes (34 # concat (map json_codes (runes s)) @ [34])"
proof -
  have v: "\<forall>r\<in>set (runes s). valid_rune r" by (simp add: runes_valid)
  have seg: "segments s = map (\<lambda>r. (r, encode_rune r)) (runes s)"
    using segments_of_runes [OF v] assms by (simp add: valid_text_def)
  have e: "length (encode_rune rune_error) \<noteq> 1"
    by (simp add: encode_rune_def rune_error_def valid_rune_def)
  have "concat (map (\<lambda>(r, b). if r = rune_error \<and> length b = 1 then CHR 0x5C # ''ufffd''
      else json_rune r) (segments s)) = concat (map json_rune (runes s))"
    unfolding seg map_map using e by (auto intro!: arg_cong [of _ _ concat])
  moreover have "concat (map json_rune rs) = of_runes (concat (map json_codes rs))" for rs
    by (induction rs) (auto simp: of_runes_def json_rune_codes)
  moreover have "[CHR 0x22] = encode_rune 34" by (simp add: encode_ascii char_of_def bit_0)
  ultimately show ?thesis by (simp add: json_string_def of_runes_def)
qed

lemma codes_inject:
  "concat (map json_codes rs) @ 34 # xs = concat (map json_codes qs) @ 34 # ys \<Longrightarrow>
   rs = qs \<and> xs = ys"
proof (induction rs arbitrary: qs)
  case Nil
  show ?case
  proof (cases qs)
    case (Cons q qs')
    then show ?thesis using Nil json_codes_hd [of q] by (cases "json_codes q") auto
  qed (use Nil in simp)
next
  case (Cons r rs)
  show ?case
  proof (cases qs)
    case Nil
    then show ?thesis using Cons.prems json_codes_hd [of r] by (cases "json_codes r") auto
  next
    case (Cons q qs')
    then have "r = q \<and> concat (map json_codes rs) @ 34 # xs = concat (map json_codes qs') @ 34 # ys"
      using Cons.prems by (auto dest!: json_codes_inject)
    then show ?thesis using Cons.IH Cons by blast
  qed
qed

lemma codes_concat_inject:
  "concat (map json_codes rs) = concat (map json_codes qs) \<Longrightarrow> rs = qs"
  using codes_inject [of rs "[]" qs "[]"] by simp

fun list_codes :: "string list \<Rightarrow> nat list" where
  "list_codes [] = [93]"
| "list_codes [s] = 34 # concat (map json_codes (runes s)) @ [34, 93]"
| "list_codes (s # t # ts) = 34 # concat (map json_codes (runes s)) @ [34, 44] @ list_codes (t # ts)"

lemma json_strings_codes:
  "\<forall>s\<in>set ks. valid_text s \<Longrightarrow> json_strings ks = of_runes (91 # list_codes ks)"
proof -
  have c: "''['' = encode_rune 91" "'']'' = encode_rune 93" "'','' = encode_rune 44"
    by (simp_all add: encode_ascii char_of_def bit_0)
  assume "\<forall>s\<in>set ks. valid_text s"
  then have "join (encode_rune 44) (map json_string ks) @ encode_rune 93 = of_runes (list_codes ks)"
    by (induction ks rule: list_codes.induct) (auto simp: json_string_codes of_runes_def)
  then show ?thesis unfolding json_strings_def c by (simp add: of_runes_def)
qed

lemma list_codes_nonempty: "list_codes (s # ss) = 34 # tl (list_codes (s # ss))"
  by (cases ss) auto

lemma list_codes_inject: "list_codes ks = list_codes ls \<Longrightarrow> map runes ks = map runes ls"
proof (induction ks arbitrary: ls rule: list_codes.induct)
  case 1
  then show ?case by (cases ls rule: list_codes.cases) auto
next
  case (2 s)
  then show ?case
    by (cases ls rule: list_codes.cases) (auto dest: codes_inject codes_concat_inject)
next
  case (3 s t ts)
  show ?case
  proof (cases ls rule: list_codes.cases)
    case (3 u v vs)
    with "3.prems" show ?thesis using "3.IH" [of "v # vs"] by (auto dest!: codes_inject)
  qed (use "3.prems" in \<open>auto dest!: codes_inject\<close>)
qed

lemma list_codes_valid: "c \<in> set (list_codes ks) \<Longrightarrow> valid_rune c"
  by (induction ks rule: list_codes.induct)
    (auto simp: valid_rune_def dest: json_codes_valid [OF runes_valid, unfolded valid_rune_def])

lemma json_strings_inject:
  assumes "\<forall>s\<in>set ks \<union> set ls. valid_text s" "json_strings ks = json_strings ls"
  shows "ks = ls"
proof -
  have "of_runes (91 # list_codes ks) = of_runes (91 # list_codes ls)"
    using assms json_strings_codes [of ks] json_strings_codes [of ls] by simp
  then have "runes (of_runes (91 # list_codes ks)) = runes (of_runes (91 # list_codes ls))" by simp
  moreover have "\<forall>c\<in>set (91 # list_codes js). valid_rune c" for js
    using list_codes_valid by (auto simp: valid_rune_def)
  ultimately have "list_codes ks = list_codes ls" by (metis list.inject runes_of_runes)
  then have "map runes ks = map runes ls" by (rule list_codes_inject)
  then have "map (of_runes \<circ> runes) ks = map (of_runes \<circ> runes) ls"
    by (metis map_map)
  moreover have "map (of_runes \<circ> runes) js = js" if "\<forall>s\<in>set js. valid_text s" for js
    using that by (auto simp: valid_text_def intro!: map_idI)
  ultimately show ?thesis using assms(1) by (metis Un_iff)
qed

section \<open>Key sets\<close>

text \<open>The scope of a pattern is its set of trimmed, non-empty keys.\<close>

definition key_scope :: "string list \<Rightarrow> string set" where
  "key_scope ks = trim_space ` set ks - {''''}"

lemma norm_keys_facts:
  "set (norm_keys ks seen) = key_scope ks - set seen" "distinct (norm_keys ks seen)"
  by (induction ks seen rule: norm_keys.induct) (auto simp: key_scope_def Let_def)

lemma runes_concat_snd: "runes s = map fst (segments s)"
  by (simp add: runes_def)

lemma valid_segments:
  "valid_text s \<Longrightarrow> (r, b) \<in> set (segments s) \<Longrightarrow> b = encode_rune r"
  using segments_of_runes [of "runes s"] by (auto simp: valid_text_def runes_valid)

lemma valid_trim: "valid_text s \<Longrightarrow> valid_text (trim_space s)"
proof -
  assume v: "valid_text s"
  have sub: "set (trim_seg (segments s)) \<subseteq> set (segments s)"
    unfolding trim_seg_def by (metis set_dropWhileD set_rev subset_code(1))
  have "map encode_rune (map fst ps) = map snd ps" if "set ps \<subseteq> set (segments s)" for ps
    using that valid_segments [OF v] by (induction ps) auto
  from this [OF sub] have "of_runes (runes (trim_space s)) = concat (map snd (trim_seg (segments s)))"
    by (simp add: runes_def segments_trim of_runes_def del: map_map)
  then show ?thesis by (simp add: valid_text_def trim_space_def)
qed

lemma sorted_keys_eq:
  "sort (norm_keys ks []) = sort (norm_keys ls []) \<longleftrightarrow> key_scope ks = key_scope ls"
proof
  assume "sort (norm_keys ks []) = sort (norm_keys ls [])"
  then have "set (norm_keys ks []) = set (norm_keys ls [])" by (metis set_sort)
  then show "key_scope ks = key_scope ls" by (simp add: norm_keys_facts)
next
  assume "key_scope ks = key_scope ls"
  then have "set (sort (norm_keys ks [])) = set (sort (norm_keys ls []))"
    by (simp add: norm_keys_facts)
  then show "sort (norm_keys ks []) = sort (norm_keys ls [])"
    by (intro sorted_distinct_set_unique) (simp_all add: norm_keys_facts)
qed

lemma hash_empty: "ApprovalPatternHash sha ks = '''' \<longleftrightarrow> key_scope ks = {}"
  using norm_keys_facts(1) [of ks "[]"] by (auto simp: ApprovalPatternHash_def Let_def)

definition hash_text :: "string list \<Rightarrow> string" where
  "hash_text ks = json_strings (sort (norm_keys ks []))"

lemma hash_scope:
  assumes valid: "\<forall>k\<in>set ks \<union> set ls. valid_text k"
    and sha: "sha (hash_text ks) = sha (hash_text ls) \<longrightarrow> hash_text ks = hash_text ls"
  shows "ApprovalPatternHash sha ks = ApprovalPatternHash sha ls \<longleftrightarrow> key_scope ks = key_scope ls"
proof (cases "key_scope ks = {} \<or> key_scope ls = {}")
  case True
  then show ?thesis using hash_empty by metis
next
  case False
  have n: "norm_keys ks [] \<noteq> []" "norm_keys ls [] \<noteq> []"
    using False norm_keys_facts(1) [of _ "[]"] by (metis Diff_empty list.set(1))+
  have "\<forall>s\<in>set (sort (norm_keys ks [])) \<union> set (sort (norm_keys ls [])). valid_text s"
    using valid by (auto simp: norm_keys_facts key_scope_def intro!: valid_trim)
  from json_strings_inject [OF this]
  have "hash_text ks = hash_text ls \<longleftrightarrow> sort (norm_keys ks []) = sort (norm_keys ls [])"
    unfolding hash_text_def by (rule iffI) simp_all
  then have "hash_text ks = hash_text ls \<longleftrightarrow> key_scope ks = key_scope ls"
    by (simp add: sorted_keys_eq)
  moreover have e: "ApprovalPatternHash sha ks = ''v1:'' @ sha (hash_text ks)"
    "ApprovalPatternHash sha ls = ''v1:'' @ sha (hash_text ls)"
    using n by (simp_all add: ApprovalPatternHash_def hash_text_def Let_def)
  moreover have "sha (hash_text ks) = sha (hash_text ls) \<longleftrightarrow> hash_text ks = hash_text ls"
    using sha by (cases "hash_text ks = hash_text ls") simp_all
  ultimately show ?thesis by (simp only: same_append_eq)
qed

text \<open>
  A standing approval covers exactly one complete key set: after \<open>SavePermanentAllows\<close>, a request is
  covered if and only if its keys, trimmed and as a set, equal the saved ones, or it was covered
  before; never a subset or a superset.  No permanent denial changes.  The keys are well-formed text
  and SHA-256 is assumed not to collide on the two texts compared.
\<close>

lemma standing_allow_exact:
  assumes "\<forall>k\<in>set ks \<union> set ls. valid_text k"
    and "sha (hash_text ks) = sha (hash_text ls) \<longrightarrow> hash_text ks = hash_text ls"
    and "SavePermanentAllows sha ks src d = (None, d')"
  shows "(MatchesPermanentAllow sha ls d' \<noteq> '''' \<longleftrightarrow>
      key_scope ls = key_scope ks \<or> MatchesPermanentAllow sha ls d \<noteq> '''') \<and>
    MatchesPermanentDenial sha ls d' = MatchesPermanentDenial sha ls d"
proof
  have h: "ApprovalPatternHash sha ks \<noteq> ''''" and d': "d' = d\<lparr>allows := (allows d)(ApprovalPatternHash sha ks \<mapsto> src)\<rparr>"
    using assms(3) by (auto simp: SavePermanentAllows_def Let_def split: if_splits)
  show "MatchesPermanentAllow sha ls d' \<noteq> '''' \<longleftrightarrow>
      key_scope ls = key_scope ks \<or> MatchesPermanentAllow sha ls d \<noteq> ''''"
    using h hash_scope [OF assms(1,2)] unfolding d' by (auto simp: MatchesPermanentAllow_def Let_def)
  show "MatchesPermanentDenial sha ls d' = MatchesPermanentDenial sha ls d"
    unfolding d' MatchesPermanentDenial_def Let_def by simp
qed

lemma valid_texts [simp]: "valid_text ''net''" "valid_text ''rm''"
  by (simp_all add: valid_text_def runes_def segments.simps decode_rune.simps byte_def of_runes_def
      encode_rune_def valid_rune_def char_of_def bit_0)

end
