(* ===== verification/Bus.thy ===== *)
theory Bus
  imports Prelude Errors
begin

text \<open>
  The event bus (\<open>src/internal/events/bus.go\<close>) and its persister, the event log of
  \<open>src/internal/store/store.go\<close>.

  A channel is the list of its buffered values; a send to a full channel blocks or, in a \<open>select\<close>
  with \<open>default\<close>, is dropped.  The goroutines are separate steps: one receive or one append of
  \<open>persistLoop\<close>, one send or receive of a subscriber's pump.  Publications are serialised by
  \<open>publishMu\<close>; what \<open>persistLoop\<close> does while a synchronous publication waits is the list of outcomes
  the publication takes as an argument, the list ending when the two-second timer fires.
\<close>

section \<open>Events and the event log\<close>

record event =
  evSeq :: int
  evTS :: instant
  evKind :: string
  evJob :: string
  evPayload :: "string option"

record log_row =
  rowSeq :: nat
  rowTS :: instant
  rowKind :: string
  rowJob :: string
  rowPayload :: "string option"

record event_log =
  rows :: "log_row list"
  rowNext :: nat

definition nullableJSON :: "string option \<Rightarrow> string option" where
  "nullableJSON r = (case r of None \<Rightarrow> None | Some t \<Rightarrow> if t = '''' then None else Some t)"

text \<open>The argument is the database's answer: \<open>Some e\<close> when the insert failed.\<close>

definition AppendEvent :: "error option \<Rightarrow> event \<Rightarrow> event_log \<Rightarrow> error option \<times> event_log" where
  "AppendEvent db e l =
     (case db of
        Some err \<Rightarrow> (Some err, l)
      | None \<Rightarrow> (None, l\<lparr>rows := rows l @ [\<lparr>rowSeq = rowNext l, rowTS = evTS e, rowKind = evKind e,
            rowJob = evJob e, rowPayload = nullableJSON (evPayload e)\<rparr>], rowNext := Suc (rowNext l)\<rparr>))"

definition transientEventKinds :: "string list" where
  "transientEventKinds = [''job.progress'', ''job.running'', ''usage'', ''session.state'',
     ''hermes.hook'', ''error.voice'']"

definition PruneTransientEvents :: "instant \<Rightarrow> duration \<Rightarrow> event_log \<Rightarrow> (error + nat) \<times> event_log" where
  "PruneTransientEvents now olderThan l =
     (if olderThan \<le> 0 then (Inl (EText ''event retention window must be positive''), l)
      else let cutoff = time_add now (- olderThan);
               gone = (\<lambda>r. time_before (rowTS r) cutoff \<and> rowKind r \<in> set transientEventKinds) in
        (Inr (length (filter gone (rows l))), l\<lparr>rows := filter (\<lambda>r. \<not> gone r) (rows l)\<rparr>))"

section \<open>State of the bus\<close>

text \<open>
  One subscription: the channel the publisher writes, the rest of the replay, the event the pump
  has received and not yet sent, the channel the reader reads, and what the reader has read.
\<close>

record subscriber =
  subId :: nat
  chan :: "event list"
  backlog :: "event list"
  hand :: "event option"
  outq :: "event list"
  got :: "event list"

record 'p bus =
  bsubs :: "subscriber list"
  nextSub :: nat
  seq :: int
  ring :: "event list"
  hasPersist :: bool
  pstore :: 'p
  persistQ :: "event list"
  inAppend :: "event option"
  persistClosed :: bool

definition chanCap :: nat where "chanCap = 64"
definition ringCap :: nat where "ringCap = 256"
definition persistCap :: nat where "persistCap = 256"

definition NewBus :: "'p option \<Rightarrow> 'p \<Rightarrow> 'p bus" where
  "NewBus p p0 = \<lparr>bsubs = [], nextSub = 0, seq = 0, ring = [], hasPersist = (p \<noteq> None),
     pstore = (case p of None \<Rightarrow> p0 | Some s \<Rightarrow> s), persistQ = [], inAppend = None,
     persistClosed = False\<rparr>"

section \<open>The persistence goroutine\<close>

text \<open>
  \<open>persistLoop\<close> receives an event from the queue, or finishes the append of the one it holds.  The
  append function is the persister's; its error is only logged.
\<close>

definition persistLoop ::
  "(error option \<Rightarrow> event \<Rightarrow> 'p \<Rightarrow> error option \<times> 'p) \<Rightarrow> error option \<Rightarrow> 'p bus \<Rightarrow> 'p bus" where
  "persistLoop ap out b =
     (case inAppend b of
        Some e \<Rightarrow> b\<lparr>pstore := snd (ap out e (pstore b)), inAppend := None\<rparr>
      | None \<Rightarrow> (case persistQ b of
            [] \<Rightarrow> b
          | e # q \<Rightarrow> b\<lparr>persistQ := q, inAppend := Some e\<rparr>))"

fun admit ::
  "(error option \<Rightarrow> event \<Rightarrow> 'p \<Rightarrow> error option \<times> 'p) \<Rightarrow> error option list \<Rightarrow> event \<Rightarrow> 'p bus \<Rightarrow>
   bool \<times> 'p bus" where
  "admit ap outs e b =
     (if length (persistQ b) < persistCap then (True, b\<lparr>persistQ := persistQ b @ [e]\<rparr>)
      else case outs of
        [] \<Rightarrow> (False, b)
      | out # outs' \<Rightarrow> admit ap outs' e (persistLoop ap out b))"

text \<open>The result says whether the caller got a channel to wait on.\<close>

definition enqueuePersistence ::
  "(error option \<Rightarrow> event \<Rightarrow> 'p \<Rightarrow> error option \<times> 'p) \<Rightarrow> error option list \<Rightarrow> event \<Rightarrow> bool \<Rightarrow> 'p bus \<Rightarrow>
   bool \<times> 'p bus" where
  "enqueuePersistence ap outs e synchronous b =
     (if \<not> hasPersist b then (False, b)
      else if persistClosed b then (False, b)
      else if synchronous then admit ap outs e b
      else if length (persistQ b) < persistCap then (False, b\<lparr>persistQ := persistQ b @ [e]\<rparr>)
      else (False, b))"

text \<open>Waiting for the \<open>done\<close> channel: closed once the append of the event has returned.\<close>

definition in_persistence :: "event \<Rightarrow> 'p bus \<Rightarrow> bool" where
  "in_persistence e b \<longleftrightarrow> e \<in> set (persistQ b) \<or> inAppend b = Some e"

fun await_done ::
  "(error option \<Rightarrow> event \<Rightarrow> 'p \<Rightarrow> error option \<times> 'p) \<Rightarrow> error option list \<Rightarrow> event \<Rightarrow> 'p bus \<Rightarrow> 'p bus" where
  "await_done ap [] e b = b"
| "await_done ap (out # outs) e b =
     (if in_persistence e b then await_done ap outs e (persistLoop ap out b) else b)"

text \<open>\<open>Close\<close> waits until the closed queue is drained, or until the list of loop outcomes (the context) ends.\<close>

definition Close ::
  "(error option \<Rightarrow> event \<Rightarrow> 'p \<Rightarrow> error option \<times> 'p) \<Rightarrow> error option list \<Rightarrow> 'p bus \<Rightarrow>
   error option \<times> 'p bus" where
  "Close ap outs b =
     (if \<not> hasPersist b then (None, b)
      else let b' = fold (persistLoop ap) outs (b\<lparr>persistClosed := True\<rparr>) in
        (if persistQ b' = [] \<and> inAppend b' = None then None else Some ErrDeadline, b'))"

section \<open>Publication and subscription\<close>

definition fan_out :: "event \<Rightarrow> subscriber \<Rightarrow> subscriber" where
  "fan_out e s = (if length (chan s) < chanCap then s\<lparr>chan := chan s @ [e]\<rparr> else s)"

definition publish ::
  "(error option \<Rightarrow> event \<Rightarrow> 'p \<Rightarrow> error option \<times> 'p) \<Rightarrow> instant \<Rightarrow> error option list \<Rightarrow> error option list \<Rightarrow>
   string \<Rightarrow> string \<Rightarrow> string option \<Rightarrow> bool \<Rightarrow> 'p bus \<Rightarrow> event \<times> 'p bus" where
  "publish ap now outs outs' kind jobID payload syncPersistence b =
     (let n = i64 (seq b + 1);
          e = \<lparr>evSeq = n, evTS = now, evKind = kind, evJob = jobID, evPayload = payload\<rparr>;
          (persisted, b1) = enqueuePersistence ap outs e syncPersistence (b\<lparr>seq := n\<rparr>);
          b2 = b1\<lparr>ring := keep_last ringCap (ring b1 @ [e]), bsubs := map (fan_out e) (bsubs b1)\<rparr> in
      (e, if persisted then await_done ap outs' e b2 else b2))"

abbreviation Publish where
  "Publish ap now kind jobID payload \<equiv> publish ap now [] [] kind jobID payload False"

abbreviation PublishSync where
  "PublishSync ap now outs outs' kind jobID payload \<equiv>
     publish ap now outs outs' kind jobID payload True"

definition Subscribe :: "bool \<Rightarrow> 'p bus \<Rightarrow> nat \<times> 'p bus" where
  "Subscribe replay b =
     (nextSub b, b\<lparr>nextSub := Suc (nextSub b),
        bsubs := bsubs b @ [\<lparr>subId = nextSub b, chan = [], backlog = (if replay then ring b else []),
          hand = None, outq = [], got = []\<rparr>]\<rparr>)"

text \<open>One step of the pump goroutine; with a full \<open>out\<close> or nothing to receive it waits.\<close>

definition pump :: "subscriber \<Rightarrow> subscriber" where
  "pump s =
     (case backlog s of
        e # es \<Rightarrow> if length (outq s) < chanCap then s\<lparr>backlog := es, outq := outq s @ [e]\<rparr> else s
      | [] \<Rightarrow> (case hand s of
            Some e \<Rightarrow> if length (outq s) < chanCap then s\<lparr>hand := None, outq := outq s @ [e]\<rparr> else s
          | None \<Rightarrow> (case chan s of [] \<Rightarrow> s | e # es \<Rightarrow> s\<lparr>chan := es, hand := Some e\<rparr>)))"

definition receive :: "subscriber \<Rightarrow> subscriber" where
  "receive s = (case outq s of [] \<Rightarrow> s | e # es \<Rightarrow> s\<lparr>outq := es, got := got s @ [e]\<rparr>)"

definition on_sub :: "nat \<Rightarrow> (subscriber \<Rightarrow> subscriber) \<Rightarrow> 'p bus \<Rightarrow> 'p bus" where
  "on_sub i f b = b\<lparr>bsubs := map (\<lambda>s. if subId s = i then f s else s) (bsubs b)\<rparr>"

definition unsubscribe :: "nat \<Rightarrow> 'p bus \<Rightarrow> 'p bus" where
  "unsubscribe i b = b\<lparr>bsubs := filter (\<lambda>s. subId s \<noteq> i) (bsubs b)\<rparr>"

section \<open>Histories\<close>

text \<open>
  \<open>bus_run ap b0 b h\<close>: from the fresh bus \<open>b0\<close> the program reaches \<open>b\<close>, the events published on
  the way being \<open>h\<close> in order.
\<close>

inductive bus_run ::
  "(error option \<Rightarrow> event \<Rightarrow> 'p \<Rightarrow> error option \<times> 'p) \<Rightarrow> 'p bus \<Rightarrow> 'p bus \<Rightarrow> event list \<Rightarrow> bool"
  for ap b0 where
  fresh: "bus_run ap b0 b0 []"
| publish: "bus_run ap b0 b h \<Longrightarrow>
    publish ap now outs outs' kind jobID payload sync b = (e, b') \<Longrightarrow> bus_run ap b0 b' (h @ [e])"
| loop: "bus_run ap b0 b h \<Longrightarrow> bus_run ap b0 (persistLoop ap out b) h"
| close: "bus_run ap b0 b h \<Longrightarrow> bus_run ap b0 (snd (Close ap outs b)) h"
| subscribe: "bus_run ap b0 b h \<Longrightarrow> bus_run ap b0 (snd (Subscribe replay b)) h"
| pump: "bus_run ap b0 b h \<Longrightarrow> bus_run ap b0 (on_sub i pump b) h"
| receive: "bus_run ap b0 b h \<Longrightarrow> bus_run ap b0 (on_sub i receive b) h"
| cancel: "bus_run ap b0 b h \<Longrightarrow> bus_run ap b0 (unsubscribe i b) h"

lemma loop_frame [simp]:
  "bsubs (persistLoop ap out b) = bsubs b" "ring (persistLoop ap out b) = ring b"
  "seq (persistLoop ap out b) = seq b" "nextSub (persistLoop ap out b) = nextSub b"
  "persistClosed (persistLoop ap out b) = persistClosed b"
  "hasPersist (persistLoop ap out b) = hasPersist b"
  by (auto simp: persistLoop_def split: option.split list.split)

lemma admit_frame [simp]:
  "bsubs (snd (admit ap outs e b)) = bsubs b" "ring (snd (admit ap outs e b)) = ring b"
  "seq (snd (admit ap outs e b)) = seq b" "nextSub (snd (admit ap outs e b)) = nextSub b"
  "persistClosed (snd (admit ap outs e b)) = persistClosed b"
  "hasPersist (snd (admit ap outs e b)) = hasPersist b"
  by (induction ap outs e b rule: admit.induct; force split: list.split)+

declare admit.simps [simp del]

lemma admit_cases:
  "length (persistQ b) < persistCap \<Longrightarrow> admit ap outs e b = (True, b\<lparr>persistQ := persistQ b @ [e]\<rparr>)"
  "\<not> length (persistQ b) < persistCap \<Longrightarrow> admit ap [] e b = (False, b)"
  "\<not> length (persistQ b) < persistCap \<Longrightarrow>
     admit ap (out # outs) e b = admit ap outs e (persistLoop ap out b)"
  by (subst admit.simps, simp)+

lemma await_frame [simp]:
  "bsubs (await_done ap outs e b) = bsubs b" "ring (await_done ap outs e b) = ring b"
  "seq (await_done ap outs e b) = seq b" "nextSub (await_done ap outs e b) = nextSub b"
  "persistClosed (await_done ap outs e b) = persistClosed b"
  "hasPersist (await_done ap outs e b) = hasPersist b"
  by (induction ap outs e b rule: await_done.induct) auto

lemma enqueue_frame [simp]:
  "bsubs (snd (enqueuePersistence ap outs e sy b)) = bsubs b"
  "ring (snd (enqueuePersistence ap outs e sy b)) = ring b"
  "seq (snd (enqueuePersistence ap outs e sy b)) = seq b"
  "nextSub (snd (enqueuePersistence ap outs e sy b)) = nextSub b"
  "persistClosed (snd (enqueuePersistence ap outs e sy b)) = persistClosed b"
  "hasPersist (snd (enqueuePersistence ap outs e sy b)) = hasPersist b"
  by (auto simp: enqueuePersistence_def)

lemma loops_frame [simp]:
  "bsubs (fold (persistLoop ap) outs b) = bsubs b"
  "ring (fold (persistLoop ap) outs b) = ring b"
  "seq (fold (persistLoop ap) outs b) = seq b"
  "persistClosed (fold (persistLoop ap) outs b) = persistClosed b"
  by (induction outs arbitrary: b) auto

lemma close_frame [simp]:
  "bsubs (snd (Close ap outs b)) = bsubs b" "ring (snd (Close ap outs b)) = ring b"
  "seq (snd (Close ap outs b)) = seq b"
  by (auto simp: Close_def Let_def)

lemma publish_event:
  "publish ap now outs outs' kind jobID payload sync b = (e, b') \<Longrightarrow>
   e = \<lparr>evSeq = i64 (seq b + 1), evTS = now, evKind = kind, evJob = jobID, evPayload = payload\<rparr> \<and>
   seq b' = i64 (seq b + 1) \<and> ring b' = keep_last ringCap (ring b @ [e]) \<and>
   bsubs b' = map (fan_out e) (bsubs b)"
  using enqueue_frame [of ap outs e sync "b\<lparr>seq := i64 (seq b + 1)\<rparr>"]
  by (auto simp: publish_def Let_def split: prod.splits simp del: enqueue_frame)

lemma side_frame [simp]:
  "ring (on_sub i f b) = ring b" "seq (on_sub i f b) = seq b"
  "ring (unsubscribe i b) = ring b" "seq (unsubscribe i b) = seq b"
  "ring (snd (Subscribe r b)) = ring b" "seq (snd (Subscribe r b)) = seq b"
  by (simp_all add: on_sub_def unsubscribe_def Subscribe_def)

lemma run_ring:
  assumes "bus_run ap b0 b h" "ring b0 = []" "seq b0 = 0" "int (length h) < 2 ^ 63"
  shows "ring b = keep_last 256 h \<and> seq b = int (length h) \<and>
    map evSeq h = map int [1..<Suc (length h)]"
  using assms
proof (induction rule: bus_run.induct)
  case (publish b h now outs outs' kind jobID payload sync e b')
  then have "ring b = keep_last 256 h" "seq b = int (length h)"
    "map evSeq h = map int [1..<Suc (length h)]" "i64 (seq b + 1) = seq b + 1" by auto
  with publish_event [OF publish.hyps(2)] show ?case
    by (simp add: ringCap_def keep_last_snoc_keep_last)
qed (auto simp: keep_last_def)

text \<open>A bus without persister, two publications and a subscription.\<close>

definition demo_bus :: "nat bus" where
  "demo_bus = NewBus None 0"

definition keep_store :: "error option \<Rightarrow> event \<Rightarrow> nat \<Rightarrow> error option \<times> nat" where
  "keep_store out e p = (out, p)"

definition demo_one :: "event \<times> nat bus" where
  "demo_one = Publish keep_store 5 ''usage'' '''' None demo_bus"

lemma publish_run:
  "bus_run ap b0 b h \<Longrightarrow>
   bus_run ap b0 (snd (publish ap now outs outs' kind jobID payload sync b))
     (h @ [fst (publish ap now outs outs' kind jobID payload sync b)])"
  by (rule bus_run.publish) simp_all

lemma demo_run_one: "bus_run keep_store (NewBus None 0) (snd demo_one) [fst demo_one]"
  using publish_run [OF bus_run.fresh [of keep_store demo_bus], of 5 "[]" "[]" "''usage''" "''''" None False]
  by (simp add: demo_one_def demo_bus_def)

text \<open>
  The replay ring always holds exactly the most recent events: after any history of fewer than
  \<open>2 ^ 63\<close> publications it is the last 256 of them in order, and they are numbered 1, 2, 3, ...
  without a gap.
\<close>

lemma ring_is_recent_history:
  assumes "bus_run ap (NewBus p p0) b h" and "int (length h) < 2 ^ 63"
  shows "ring b = keep_last 256 h \<and> map evSeq h = map int [1..<Suc (length h)]"
  using run_ring [OF assms(1)] assms(2) by (simp add: NewBus_def)

section \<open>Subscribers\<close>

text \<open>Everything a subscriber has read or can still read, oldest first.\<close>

definition stream :: "subscriber \<Rightarrow> event list" where
  "stream s = got s @ outq s @ backlog s @ (case hand s of None \<Rightarrow> [] | Some e \<Rightarrow> [e]) @ chan s"

lemma stream_pump [simp]: "stream (pump s) = stream s"
  by (auto simp: stream_def pump_def split: list.split option.split)

lemma stream_receive [simp]: "stream (receive s) = stream s"
  by (auto simp: stream_def receive_def split: list.split)

lemma stream_fan_out:
  "stream (fan_out e s) = (if length (chan s) < chanCap then stream s @ [e] else stream s)"
  by (simp add: stream_def fan_out_def)

lemma fan_out_id [simp]: "subId (fan_out e s) = subId s"
  by (simp add: fan_out_def)

lemma sub_ids [simp]: "subId (pump s) = subId s" "subId (receive s) = subId s"
  by (auto simp: pump_def receive_def split: list.split option.split)

lemma publish_subs:
  "publish ap now outs outs' kind jobID payload sync b = (e, b') \<Longrightarrow>
   bsubs b' = map (fan_out e) (bsubs b)"
  using publish_event by metis

lemma on_sub_streams:
  "s \<in> set (bsubs (on_sub i f b)) \<Longrightarrow> (\<And>s. stream (f s) = stream s) \<Longrightarrow>
   \<exists>s'\<in>set (bsubs b). stream s = stream s'"
  by (auto simp: on_sub_def split: if_splits)

lemma run_streams:
  assumes "bus_run ap b0 b h" "bsubs b0 = []" "ring b0 = []"
  shows "(\<forall>s\<in>set (bsubs b). subseq (stream s) h) \<and> subseq (ring b) h"
  using assms
proof (induction rule: bus_run.induct)
  case (publish b h now outs outs' kind jobID payload sync e b')
  have "subseq (stream (fan_out e s)) (h @ [e])" if "s \<in> set (bsubs b)" for s
    using that publish.IH [OF publish.prems] by (auto simp: stream_fan_out subseq_snoc subseq_snoc2)
  moreover have "subseq (keep_last ringCap (ring b @ [e])) (h @ [e])"
    using subseq_snoc2 [of "ring b" h e] publish.IH [OF publish.prems]
      subseq_order.trans [OF suffix_imp_subseq [OF suffix_keep_last]] by blast
  ultimately show ?case using publish_event [OF publish.hyps(2)] by auto
next
  case (subscribe b h r)
  have "stream \<lparr>subId = i, chan = [], backlog = x, hand = None, outq = [], got = []\<rparr> = x" for i x
    by (simp add: stream_def)
  with subscribe show ?case by (auto simp: Subscribe_def)
next
  case (pump b h i)
  then show ?case using on_sub_streams [of _ i pump b] by (metis side_frame(1) stream_pump)
next
  case (receive b h i)
  then show ?case using on_sub_streams [of _ i receive b] by (metis side_frame(1) stream_receive)
qed (auto simp: unsubscribe_def)

lemma map_int_sorted: "sorted_wrt (<) (map int [1..<n])"
  by (simp add: sorted_wrt_map)

lemma subseq_sorted_wrt: "subseq xs ys \<Longrightarrow> sorted_wrt P ys \<Longrightarrow> sorted_wrt P xs"
  by (induction rule: list_emb.induct) (auto dest: list_emb_set)

text \<open>
  C38. A subscriber never sees an event twice, out of order or invented: what it has read, followed
  by what waits for it in the replay and the channels, is a subsequence of the published events with
  strictly increasing numbers.
\<close>

theorem subscriber_sees_ordered_subsequence:
  assumes "bus_run ap (NewBus p p0) b h" and "s \<in> set (bsubs b)" and "int (length h) < 2 ^ 63"
  shows "subseq (stream s) h \<and> sorted_wrt (<) (map evSeq (stream s))"
proof -
  have s: "subseq (stream s) h" using run_streams [OF assms(1)] assms(2) by (simp add: NewBus_def)
  moreover have "sorted_wrt (<) (map evSeq h)"
    using run_ring [OF assms(1)] assms(3) map_int_sorted [of "Suc (length h)"]
    by (simp add: NewBus_def del: upt_Suc)
  ultimately show ?thesis using subseq_sorted_wrt subseq_map by blast
qed

definition demo_sub :: "nat \<times> nat bus" where
  "demo_sub = Subscribe True (snd demo_one)"

definition demo_two :: "event \<times> nat bus" where
  "demo_two = Publish keep_store 6 ''job.done'' ''j'' None (snd demo_sub)"

lemma demo_values:
  "ring (snd demo_one) = [fst demo_one]"
  "bsubs (snd demo_two) = [\<lparr>subId = 0, chan = [fst demo_two], backlog = [fst demo_one], hand = None,
     outq = [], got = []\<rparr>]" "fst demo_sub = 0"
  by (simp_all add: demo_one_def demo_two_def demo_sub_def demo_bus_def publish_def NewBus_def
      enqueuePersistence_def Subscribe_def Let_def keep_last_def ringCap_def fan_out_def chanCap_def)

lemma demo_run_two:
  "bus_run keep_store (snd demo_sub) (snd demo_two) [fst demo_two]"
  "bus_run keep_store (NewBus None 0) (snd demo_two) [fst demo_one, fst demo_two]"
  using publish_run [OF bus_run.fresh [of keep_store "snd demo_sub"], of 6 "[]" "[]" "''job.done''" "''j''" None False]
    publish_run [OF bus_run.subscribe [OF demo_run_one, of True], of 6 "[]" "[]" "''job.done''" "''j''" None False]
  by (simp_all add: demo_two_def demo_sub_def)

lemma subscriber_sees_ordered_subsequence_witness:
  "sorted_wrt (<) (map evSeq (stream (hd (bsubs (snd demo_two)))))"
  using subscriber_sees_ordered_subsequence [OF demo_run_two(2), of "hd (bsubs (snd demo_two))"]
  by (simp add: demo_values)

lemma sub_chan: "length (chan (pump s)) \<le> length (chan s)" "chan (receive s) = chan s"
  by (auto simp: pump_def receive_def split: list.split option.split)

lemma publish_nextSub [simp]:
  "nextSub (snd (publish ap now outs outs' kind jobID payload sync b)) = nextSub b"
  by (simp add: publish_def Let_def case_prod_beta)

lemma close_nextSub [simp]: "nextSub (snd (Close ap outs b)) = nextSub b"
proof -
  have "nextSub (fold (persistLoop ap) outs c) = nextSub c" for c
    by (induction outs arbitrary: c) auto
  then show ?thesis by (auto simp: Close_def Let_def)
qed

lemma run_ids:
  "bus_run ap b0 b h \<Longrightarrow> \<forall>s\<in>set (bsubs b0). subId s < nextSub b0 \<Longrightarrow>
   nextSub b0 \<le> nextSub b \<and> (\<forall>s\<in>set (bsubs b). subId s < nextSub b)"
proof (induction rule: bus_run.induct)
  case (publish b h now outs outs' kind jobID payload sync e b')
  then show ?case
    using publish_event [OF publish.hyps(2)]
      publish_nextSub [of ap now outs outs' kind jobID payload sync b] by auto
qed (auto simp: Subscribe_def on_sub_def unsubscribe_def less_SucI)

lemma on_sub_next: "nextSub (on_sub j f b) = nextSub b"
  by (simp add: on_sub_def)

lemma on_sub_set:
  "s \<in> set (bsubs (on_sub j f b)) \<Longrightarrow> \<exists>s'\<in>set (bsubs b). s = s' \<or> s = f s'"
  by (auto simp: on_sub_def split: if_splits)

lemma run_new_subscriber:
  assumes "bus_run ap b1 b2 es" "length es \<le> 64"
    and "\<forall>s\<in>set (bsubs b1). subId s = i \<longrightarrow> stream s = back \<and> chan s = []" "i < nextSub b1"
  shows "i < nextSub b2 \<and>
    (\<forall>s\<in>set (bsubs b2). subId s = i \<longrightarrow> stream s = back @ es \<and> length (chan s) \<le> length es)"
  using assms
proof (induction rule: bus_run.induct)
  case (publish b h now outs outs' kind jobID payload sync e b')
  have n: "nextSub b' = nextSub b"
    using publish_nextSub [of ap now outs outs' kind jobID payload sync b] publish.hyps(2) by simp
  have ih: "i < nextSub b" "\<And>s. s \<in> set (bsubs b) \<Longrightarrow> subId s = i \<Longrightarrow>
      stream s = back @ h \<and> length (chan s) \<le> length h" and h: "length h < 64"
    using publish.IH publish.prems by auto
  have "stream (fan_out e s) = back @ h @ [e] \<and> length (chan (fan_out e s)) \<le> Suc (length h)"
    if "s \<in> set (bsubs b)" "subId s = i" for s
    using ih(2) [OF that] h by (simp add: stream_fan_out chanCap_def) (simp add: fan_out_def)
  then have "\<forall>s\<in>set (map (fan_out e) (bsubs b)). subId s = i \<longrightarrow>
      stream s = back @ h @ [e] \<and> length (chan s) \<le> Suc (length h)"
    unfolding set_map ball_simps fan_out_id by blast
  with n ih(1) show ?case unfolding publish_subs [OF publish.hyps(2)] by simp
next
  case (pump b h j)
  have "stream s = back @ h \<and> length (chan s) \<le> length h"
    if m: "s \<in> set (bsubs (on_sub j pump b))" "subId s = i" for s
  proof -
    obtain s' where s': "s' \<in> set (bsubs b)" "s = s' \<or> s = pump s'" using on_sub_set [OF m(1)] by blast
    then have "stream s' = back @ h \<and> length (chan s') \<le> length h"
      using pump.IH [OF pump.prems] m(2) by auto
    with s'(2) sub_chan(1) [of s'] show ?thesis by auto
  qed
  with pump.IH [OF pump.prems] show ?case unfolding on_sub_next by blast
next
  case (receive b h j)
  have "stream s = back @ h \<and> length (chan s) \<le> length h"
    if m: "s \<in> set (bsubs (on_sub j receive b))" "subId s = i" for s
  proof -
    obtain s' where s': "s' \<in> set (bsubs b)" "s = s' \<or> s = receive s'"
      using on_sub_set [OF m(1)] by blast
    then show ?thesis using receive.IH [OF receive.prems] m(2) by (auto simp: sub_chan)
  qed
  with receive.IH [OF receive.prems] show ?case unfolding on_sub_next by blast
qed (auto simp: Subscribe_def unsubscribe_def)

text \<open>
  A late joiner misses nothing of its first 64 events: whatever the pump, the reader and the
  other subscribers do, a subscription with replay has for its reader exactly the ring of that
  moment followed by everything published since, in order.
\<close>

lemma late_joiner_misses_nothing:
  assumes "bus_run ap (NewBus p p0) b h" and "Subscribe True b = (i, b1)"
    and "bus_run ap b1 b2 es" and "length es \<le> 64"
    and "s \<in> set (bsubs b2)" and "subId s = i"
  shows "stream s = ring b @ es"
proof -
  have "subId s \<noteq> nextSub b" if "s \<in> set (bsubs b)" for s
    using run_ids [OF assms(1)] that by (auto simp: NewBus_def)
  then have "\<forall>s\<in>set (bsubs b1). subId s = i \<longrightarrow> stream s = ring b \<and> chan s = []" "i < nextSub b1"
    using assms(2) by (auto simp: Subscribe_def stream_def)
  from run_new_subscriber [OF assms(3,4) this] show ?thesis using assms(5,6) by blast
qed

end
