(* ===== verification/Bus_Log.thy ===== *)
theory Bus_Log
  imports Bus
begin

text \<open>
  The contract between the bus and its persister as a locale, what the bus guarantees on top of
  it, and the event log of the store as its provider.
\<close>

section \<open>Persistence\<close>

text \<open>The accepted events whose append has not returned, oldest first.\<close>

definition pending :: "'p bus \<Rightarrow> event list" where
  "pending b = (case inAppend b of None \<Rightarrow> [] | Some e \<Rightarrow> [e]) @ persistQ b"

lemma in_pending: "in_persistence e b \<longleftrightarrow> e \<in> set (pending b)"
  by (auto simp: in_persistence_def pending_def split: option.splits)

text \<open>With a responsive persister the loop needs two steps per queued event.\<close>

definition backlog_steps :: "'p bus \<Rightarrow> nat" where
  "backlog_steps b = 2 * length (persistQ b) + (if inAppend b = None then 0 else 1)"

definition sealed :: "'p bus \<Rightarrow> bool" where
  "sealed b \<longleftrightarrow> persistClosed b \<and> pending b = []"

text \<open>
  What the bus needs of a persister: a successful append adds one record for the event at the end
  of its log, a failed one changes nothing.
\<close>

locale persister =
  fixes ap :: "error option \<Rightarrow> event \<Rightarrow> 'p \<Rightarrow> error option \<times> 'p"
    and records :: "'p \<Rightarrow> 'r list"
    and row :: "event \<Rightarrow> 'r"
  assumes append_ok: "fst (ap out e p) = None \<Longrightarrow> records (snd (ap out e p)) = records p @ [row e]"
    and append_failed: "fst (ap out e p) \<noteq> None \<Longrightarrow> records (snd (ap out e p)) = records p"
    and responsive: "fst (ap None e p) = None"
begin

lemma loop_success:
  "records (pstore (persistLoop ap None b)) @ map row (pending (persistLoop ap None b)) =
   records (pstore b) @ map row (pending b)"
  using append_ok responsive
  by (auto simp: persistLoop_def pending_def split: option.split list.split)

lemma loop_subseq:
  "subseq (records (pstore (persistLoop ap out b)) @ map row (pending (persistLoop ap out b)))
     (records (pstore b) @ map row (pending b))"
proof (cases "inAppend b")
  case (Some e)
  then show ?thesis
    using append_ok [of out e "pstore b"] append_failed [of out e "pstore b"]
    by (cases "fst (ap out e (pstore b)) = None")
      (auto simp: persistLoop_def pending_def subseq_append' list_emb_append_mono)
qed (auto simp: persistLoop_def pending_def split: list.split)

definition trace_of :: "'p bus \<Rightarrow> 'r list" where
  "trace_of b = records (pstore b) @ map row (pending b)"

lemma loop_trace: "subseq (trace_of (persistLoop ap out b)) (trace_of b)"
  using loop_subseq by (simp add: trace_of_def)

lemma admit_trace:
  "subseq (trace_of (snd (admit ap outs e b))) (trace_of b @ (if fst (admit ap outs e b) then [row e] else []))"
proof (induction outs arbitrary: b)
  case (Cons out outs)
  show ?case
  proof (cases "length (persistQ b) < persistCap")
    case True
    then show ?thesis by (simp add: admit_cases trace_of_def pending_def)
  next
    case False
    then have eq: "admit ap (out # outs) e b = admit ap outs e (persistLoop ap out b)"
      by (simp add: admit_cases)
    have "subseq (trace_of (persistLoop ap out b) @ xs) (trace_of b @ xs)" for xs
      using loop_trace by (rule list_emb_append_mono) simp
    with Cons.IH [of "persistLoop ap out b"] show ?thesis
      unfolding eq by (rule subseq_order.trans)
  qed
qed (simp add: admit.simps trace_of_def pending_def)

lemma await_trace: "subseq (trace_of (await_done ap outs e b)) (trace_of b)"
  by (induction outs arbitrary: b) (auto intro: subseq_order.trans [OF _ loop_trace])

lemma loops_trace: "subseq (trace_of (fold (persistLoop ap) outs b)) (trace_of b)"
  by (induction outs arbitrary: b) (auto intro: subseq_order.trans [OF _ loop_trace])

lemma publish_trace:
  assumes "publish ap now outs outs' kind jobID payload sync b = (e, b')"
  shows "subseq (trace_of b') (trace_of b @ [row e])"
proof -
  have t: "trace_of (c\<lparr>ring := r, bsubs := ss\<rparr>) = trace_of c" "trace_of (c\<lparr>seq := n\<rparr>) = trace_of c" for c r ss n
    by (simp_all add: trace_of_def pending_def)
  have q: "trace_of (c\<lparr>persistQ := persistQ c @ [x]\<rparr>) = trace_of c @ [row x]" for c x
    by (simp add: trace_of_def pending_def)
  have "subseq (trace_of (snd (admit ap outs x c))) (trace_of c @ [row x])" for x c
    using admit_trace [of outs x c] subseq_snoc by (cases "fst (admit ap outs x c)") simp_all
  then have "subseq (trace_of (snd (enqueuePersistence ap outs x sy c))) (trace_of c @ [row x])" for x sy c
    by (simp add: enqueuePersistence_def q subseq_snoc)
  from this [of e sync "b\<lparr>seq := i64 (seq b + 1)\<rparr>"] show ?thesis
    using assms publish_event [OF assms] subseq_order.trans [OF await_trace]
    by (auto simp: publish_def Let_def t split: prod.splits if_splits)
qed

lemma run_trace:
  "bus_run ap b0 b h \<Longrightarrow> subseq (trace_of b) (trace_of b0 @ map row h)"
proof (induction rule: bus_run.induct)
  case (publish b h now outs outs' kind jobID payload sync e b')
  have "subseq (trace_of b @ [row e]) ((trace_of b0 @ map row h) @ [row e])"
    by (rule subseq_snoc2) (rule publish.IH)
  with publish_trace [OF publish.hyps(2)] show ?case by (simp add: subseq_order.trans)
next
  case (close b h outs)
  have "trace_of (b\<lparr>persistClosed := True\<rparr>) = trace_of b" by (simp add: trace_of_def pending_def)
  with close loops_trace [of outs "b\<lparr>persistClosed := True\<rparr>"] show ?case
    by (auto simp: Close_def Let_def intro: subseq_order.trans)
next
  case (loop b h out)
  then show ?case using loop_trace subseq_order.trans by blast
qed (auto simp: trace_of_def pending_def Subscribe_def on_sub_def unsubscribe_def)

lemma stored_in_order:
  "bus_run ap b0 b h \<Longrightarrow> subseq (records (pstore b)) (trace_of b0 @ map row h)"
  using run_trace [of b0 b h] prefix_imp_subseq [of "records (pstore b)" "trace_of b"]
  by (auto simp: trace_of_def intro: subseq_order.trans)

lemma loop_progress:
  "backlog_steps (persistLoop ap None b) = backlog_steps b - 1 \<and>
   trace_of (persistLoop ap None b) = trace_of b"
  using loop_success [of b]
  by (auto simp: backlog_steps_def trace_of_def persistLoop_def split: option.split list.split)

lemma drained: "backlog_steps b = 0 \<longleftrightarrow> pending b = []" "pending b = [] \<Longrightarrow> trace_of b = records (pstore b)"
  by (auto simp: backlog_steps_def pending_def trace_of_def split: option.split)

lemma loops_drain:
  "backlog_steps b \<le> length outs \<Longrightarrow> set outs \<subseteq> {None} \<Longrightarrow>
   pending (fold (persistLoop ap) outs b) = [] \<and> records (pstore (fold (persistLoop ap) outs b)) = trace_of b"
proof (induction outs arbitrary: b)
  case Nil
  then show ?case using drained by simp
next
  case (Cons out outs)
  then show ?case using loop_progress [of b] by simp
qed

lemma await_drains:
  assumes "pending b = xs @ [e]" "e \<notin> set xs" "backlog_steps b \<le> length outs" "set outs \<subseteq> {None}"
  shows "records (pstore (await_done ap outs e b)) = trace_of b"
  using assms
proof (induction outs arbitrary: b xs)
  case Nil
  then show ?case using drained(1) [of b] by simp
next
  case (Cons out outs)
  have e: "in_persistence e b" unfolding in_pending Cons.prems(1) by simp
  let ?b = "persistLoop ap None b"
  have p: "backlog_steps ?b \<le> length outs" "trace_of ?b = trace_of b"
    using loop_progress [of b] Cons.prems(3) by auto
  have "pending ?b = pending b \<or> pending ?b = tl (pending b)"
    by (auto simp: persistLoop_def pending_def split: option.split list.split)
  then consider (more) ys where "pending ?b = ys @ [e]" "e \<notin> set ys" | (empty) "pending ?b = []"
    using Cons.prems(1,2) by (cases xs) auto
  then show ?case
  proof cases
    case more
    then show ?thesis using Cons.IH [of ?b ys] p Cons.prems(4) e by simp
  next
    case empty
    then have "\<not> in_persistence e ?b" unfolding in_pending by simp
    then have "await_done ap outs e ?b = ?b" by (cases outs) auto
    then show ?thesis using e p(2) Cons.prems(4) drained(2) [OF empty] by simp
  qed
qed

lemma close_drains:
  assumes "hasPersist b" "backlog_steps b \<le> length outs" "set outs \<subseteq> {None}"
  shows "\<exists>b'. Close ap outs b = (None, b') \<and> pending b' = [] \<and> records (pstore b') = trace_of b \<and>
    persistClosed b'"
proof -
  let ?c = "b\<lparr>persistClosed := True\<rparr>"
  have "trace_of ?c = trace_of b" "backlog_steps ?c = backlog_steps b"
    by (simp_all add: trace_of_def pending_def backlog_steps_def)
  with loops_drain [of ?c outs] assms(2,3)
  have "pending (fold (persistLoop ap) outs ?c) = []"
    "records (pstore (fold (persistLoop ap) outs ?c)) = trace_of b" by auto
  then show ?thesis using assms(1)
    by (auto simp: Close_def Let_def pending_def split: option.splits)
qed

lemma admit_pending:
  assumes "fst (admit ap outs e b)" "set outs \<subseteq> {None}"
  shows "\<exists>xs. set xs \<subseteq> set (pending b) \<and> pending (snd (admit ap outs e b)) = xs @ [e] \<and>
    trace_of (snd (admit ap outs e b)) = trace_of b @ [row e]"
  using assms
proof (induction outs arbitrary: b)
  case Nil
  then show ?case
    by (cases "length (persistQ b) < persistCap") (auto simp: admit_cases pending_def trace_of_def)
next
  case (Cons out outs)
  show ?case
  proof (cases "length (persistQ b) < persistCap")
    case True
    then show ?thesis by (simp add: admit_cases pending_def trace_of_def)
  next
    case False
    then have eq: "admit ap (out # outs) e b = admit ap outs e (persistLoop ap None b)"
      using Cons.prems(2) by (simp add: admit_cases)
    have "set (pending (persistLoop ap None b)) \<subseteq> set (pending b)"
      by (auto simp: persistLoop_def pending_def split: option.split list.split)
    then show ?thesis
      using Cons.IH [of "persistLoop ap None b"] Cons.prems loop_progress [of b] unfolding eq by auto
  qed
qed

lemma admit_room:
  assumes "length (persistQ b) \<le> persistCap" "2 \<le> length outs" "set outs \<subseteq> {None}"
  shows "fst (admit ap outs e b)"
proof -
  obtain o1 o2 os where o: "outs = o1 # o2 # os" using assms(2) by (cases outs rule: remdups_adj.cases) auto
  show ?thesis
  proof (cases "length (persistQ b) < persistCap \<or> length (persistQ (persistLoop ap o1 b)) < persistCap")
    case True
    then show ?thesis unfolding o by (cases "length (persistQ b) < persistCap") (auto simp: admit_cases)
  next
    case False
    then have "length (persistQ (persistLoop ap o2 (persistLoop ap o1 b))) < persistCap"
      using assms(1) by (auto simp: persistLoop_def persistCap_def split: option.splits list.splits)
    with False show ?thesis unfolding o by (simp add: admit_cases)
  qed
qed

lemma loop_pending:
  "set (pending (persistLoop ap out b)) \<subseteq> set (pending b) \<and>
   length (persistQ (persistLoop ap out b)) \<le> length (persistQ b)"
  by (auto simp: persistLoop_def pending_def split: option.split list.split)

lemma loops_pending:
  "set (pending (fold (persistLoop ap) outs b)) \<subseteq> set (pending b) \<and>
   length (persistQ (fold (persistLoop ap) outs b)) \<le> length (persistQ b)"
proof (induction outs arbitrary: b)
  case (Cons out outs)
  then show ?case using loop_pending [of out b] by (force dest: order_trans)
qed simp

lemma await_pending:
  "set (pending (await_done ap outs e b)) \<subseteq> set (pending b) \<and>
   length (persistQ (await_done ap outs e b)) \<le> length (persistQ b)"
proof (induction outs arbitrary: b)
  case (Cons out outs)
  then show ?case using loop_pending [of out b] by (force dest: order_trans)
qed simp

lemma admit_pending_bound:
  "length (persistQ b) \<le> persistCap \<Longrightarrow>
   set (pending (snd (admit ap outs e b))) \<subseteq> insert e (set (pending b)) \<and>
   length (persistQ (snd (admit ap outs e b))) \<le> persistCap"
proof (induction outs arbitrary: b)
  case Nil
  then show ?case by (cases "length (persistQ b) < persistCap") (auto simp: admit_cases pending_def)
next
  case (Cons out outs)
  show ?case
  proof (cases "length (persistQ b) < persistCap")
    case True
    then show ?thesis by (auto simp: admit_cases pending_def)
  next
    case False
    then have eq: "admit ap (out # outs) e b = admit ap outs e (persistLoop ap out b)"
      by (simp add: admit_cases)
    show ?thesis using Cons loop_pending [of out b] unfolding eq by (meson insert_mono order_trans)
  qed
qed

lemma enqueue_pending_bound:
  "length (persistQ b) \<le> persistCap \<Longrightarrow>
   set (pending (snd (enqueuePersistence ap outs e sy b))) \<subseteq> insert e (set (pending b)) \<and>
   length (persistQ (snd (enqueuePersistence ap outs e sy b))) \<le> persistCap"
  using admit_pending_bound [of b outs e]
  by (auto simp: enqueuePersistence_def pending_def split: if_splits)

lemma publish_pending:
  assumes "publish ap now outs outs' kind jobID payload sync b = (e, b')" "length (persistQ b) \<le> persistCap"
  shows "set (pending b') \<subseteq> insert e (set (pending b)) \<and> length (persistQ b') \<le> persistCap"
proof -
  obtain p b1 where b1: "enqueuePersistence ap outs e sync (b\<lparr>seq := i64 (seq b + 1)\<rparr>) = (p, b1)" by fastforce
  define b2 where "b2 = b1\<lparr>ring := keep_last ringCap (ring b1 @ [e]), bsubs := map (fan_out e) (bsubs b1)\<rparr>"
  have "pending b2 = pending b1" "persistQ b2 = persistQ b1" by (simp_all add: b2_def pending_def)
  moreover have "b' = (if p then await_done ap outs' e b2 else b2)"
    using assms(1) b1 publish_event [OF assms(1)] by (auto simp: publish_def Let_def b2_def)
  moreover have "set (pending b1) \<subseteq> insert e (set (pending b)) \<and> length (persistQ b1) \<le> persistCap"
    using enqueue_pending_bound [of "b\<lparr>seq := i64 (seq b + 1)\<rparr>" outs e sync] assms(2) b1
    by (simp add: pending_def)
  ultimately show ?thesis using await_pending [of outs' e b2] by auto
qed

lemma run_pending:
  "bus_run ap b0 b h \<Longrightarrow> pending b0 = [] \<Longrightarrow> set (pending b) \<subseteq> set h \<and> length (persistQ b) \<le> persistCap"
proof (induction rule: bus_run.induct)
  case (publish b h now outs outs' kind jobID payload sync e b')
  then show ?case using publish_pending [OF publish.hyps(2)] by auto
next
  case (loop b h out)
  then show ?case using loop_pending [of out b] by auto
next
  case (close b h outs)
  have "pending (b\<lparr>persistClosed := True\<rparr>) = pending b" by (simp add: pending_def)
  with close loops_pending [of outs "b\<lparr>persistClosed := True\<rparr>"] show ?case
    by (auto simp: Close_def Let_def)
qed (auto simp: pending_def Subscribe_def on_sub_def unsubscribe_def)

lemma sync_publish:
  assumes "bus_run ap b0 b h" "pending b0 = []" "ring b0 = []" "seq b0 = 0" "int (length h) + 1 < 2 ^ 63"
    and "hasPersist b" "\<not> persistClosed b" "2 \<le> length outs" "513 \<le> length outs'"
    and ok: "set outs \<subseteq> {None}" "set outs' \<subseteq> {None}"
    and pub: "publish ap now outs outs' kind jobID payload True b = (e, b')"
  shows "records (pstore b') = trace_of b @ [row e]"
proof -
  let ?b = "b\<lparr>seq := i64 (seq b + 1)\<rparr>"
  have r: "set (pending b) \<subseteq> set h" "length (persistQ b) \<le> persistCap" using run_pending [OF assms(1,2)] by auto
  have "seq b = int (length h)" "map evSeq h = map int [1..<Suc (length h)]"
    using run_ring [OF assms(1,3,4)] assms(5) by auto
  then have "evSeq e = int (length h) + 1" "set (map evSeq h) = set (map int [1..<Suc (length h)])"
    using publish_event [OF pub] assms(5) by auto
  then have new: "e \<notin> set (pending b)" using r(1) by (force simp del: upt_Suc)
  have adm: "fst (admit ap outs e ?b)" using admit_room [of ?b outs e] r(2) assms(8) ok(1) by simp
  define b1 where "b1 = snd (admit ap outs e ?b)"
  define b2 where "b2 = b1\<lparr>ring := keep_last ringCap (ring b1 @ [e]), bsubs := map (fan_out e) (bsubs b1)\<rparr>"
  have same: "pending ?b = pending b" "trace_of ?b = trace_of b" "pending b2 = pending b1"
    "trace_of b2 = trace_of b1" "persistQ b2 = persistQ b1" "inAppend b2 = inAppend b1"
    by (simp_all add: trace_of_def pending_def b2_def)
  have "enqueuePersistence ap outs e True ?b = (True, b1)"
    using assms(6,7) adm by (simp add: enqueuePersistence_def b1_def prod_eq_iff)
  then have b': "b' = await_done ap outs' e b2"
    using pub publish_event [OF pub] by (auto simp: publish_def Let_def b2_def)
  obtain xs where xs: "set xs \<subseteq> set (pending b)" "pending b2 = xs @ [e]" "trace_of b2 = trace_of b @ [row e]"
    using admit_pending [OF adm ok(1)] same by (auto simp: b1_def)
  have "length (persistQ b1) \<le> persistCap" using admit_pending_bound [of ?b outs e] r(2) by (simp add: b1_def)
  then have "backlog_steps b2 \<le> length outs'"
    using assms(9) same(5,6) by (auto simp: backlog_steps_def persistCap_def)
  from await_drains [OF xs(2) _ this ok(2)] new xs show ?thesis unfolding b' by auto
qed

lemma closed_publish:
  "publish ap now outs outs' kind jobID payload sync b = (e, b') \<Longrightarrow> persistClosed b \<Longrightarrow>
   trace_of b' = trace_of b \<and> pstore b' = pstore b"
  by (auto simp: publish_def Let_def enqueuePersistence_def trace_of_def pending_def split: if_splits)

lemma sealed_loop: "sealed b \<Longrightarrow> persistLoop ap out b = b"
  by (auto simp: sealed_def pending_def persistLoop_def split: option.splits)

lemma sealed_await: "sealed b \<Longrightarrow> await_done ap outs e b = b"
  by (cases outs) (auto simp: sealed_def in_pending)

lemma sealed_publish:
  "publish ap now outs outs' kind jobID payload sync b = (e, b') \<Longrightarrow> sealed b \<Longrightarrow>
   sealed b' \<and> pstore b' = pstore b"
  by (auto simp: publish_def Let_def enqueuePersistence_def sealed_def pending_def split: if_splits)

lemma sealed_close: "sealed b \<Longrightarrow> sealed (snd (Close ap outs b)) \<and> pstore (snd (Close ap outs b)) = pstore b"
proof -
  have "sealed c \<Longrightarrow> fold (persistLoop ap) outs c = c" for c by (induction outs) (auto simp: sealed_loop)
  moreover assume "sealed b"
  moreover from this have "sealed (b\<lparr>persistClosed := True\<rparr>)" by (simp add: sealed_def pending_def)
  ultimately show ?thesis by (simp add: Close_def Let_def)
qed

lemma sealed_run:
  "bus_run ap b1 b h \<Longrightarrow> sealed b1 \<Longrightarrow> sealed b \<and> pstore b = pstore b1"
proof (induction rule: bus_run.induct)
  case (publish b h now outs outs' kind jobID payload sync e b')
  then show ?case using sealed_publish by metis
next
  case (close b h outs)
  then show ?case using sealed_close by metis
next
  case (loop b h out)
  then show ?case using sealed_loop by metis
qed (auto simp: sealed_def pending_def Subscribe_def on_sub_def unsubscribe_def)

end

section \<open>The event log as the bus's persister\<close>

definition row_key :: "log_row \<Rightarrow> instant \<times> string \<times> string \<times> string option" where
  "row_key r = (rowTS r, rowKind r, rowJob r, rowPayload r)"

definition event_key :: "event \<Rightarrow> instant \<times> string \<times> string \<times> string option" where
  "event_key e = (evTS e, evKind e, evJob e, nullableJSON (evPayload e))"

abbreviation log_keys :: "event_log \<Rightarrow> (instant \<times> string \<times> string \<times> string option) list" where
  "log_keys l \<equiv> map row_key (rows l)"

interpretation el: persister AppendEvent log_keys event_key
  by unfold_locales (auto simp: AppendEvent_def row_key_def event_key_def split: option.splits)

lemma new_bus_trace:
  "el.trace_of (NewBus (Some l) p0) = log_keys l" "pending (NewBus (Some l) p0) = []"
  "ring (NewBus (Some l) p0) = []" "seq (NewBus (Some l) p0) = 0"
  by (simp_all add: el.trace_of_def pending_def NewBus_def)

lemma publish_hasPersist:
  "hasPersist (snd (publish ap now outs outs' kind jobID payload sync b)) = hasPersist b"
  by (simp add: publish_def Let_def case_prod_beta)

lemma run_persists: "bus_run ap b0 b h \<Longrightarrow> hasPersist b = hasPersist b0"
proof (induction rule: bus_run.induct)
  case (publish b h now outs outs' kind jobID payload sync e b')
  then show ?case using publish_hasPersist [of ap now outs outs' kind jobID payload sync b] by simp
next
  case (close b h outs)
  have "hasPersist (fold (persistLoop ap) outs c) = hasPersist c" for c
    by (induction outs arbitrary: c) auto
  then show ?case using close by (simp add: Close_def Let_def)
qed (auto simp: Subscribe_def on_sub_def unsubscribe_def)

text \<open>A first publication on a fresh bus with an empty log.\<close>

definition demo_log :: event_log where
  "demo_log = \<lparr>rows = [], rowNext = 1\<rparr>"

definition demo_pub :: "event \<times> event_log bus" where
  "demo_pub = Publish AppendEvent 5 ''usage'' '''' None (NewBus (Some demo_log) demo_log)"

lemma demo_run: "bus_run AppendEvent (NewBus (Some demo_log) demo_log) (snd demo_pub) [fst demo_pub]"
  using bus_run.publish [OF bus_run.fresh, of AppendEvent 5 "[]" "[]" "''usage''" "''''" None False
      "NewBus (Some demo_log) demo_log" "fst demo_pub" "snd demo_pub"]
  by (simp add: demo_pub_def)

lemma demo_log_keys [simp]: "log_keys demo_log = []"
  by (simp add: demo_log_def)



text \<open>
  \<open>PublishSync\<close> is a durability barrier: when the appends succeed and the loop keeps running until
  the waits are over (two steps to make room, 513 to drain a full queue), the event and everything
  accepted before it are in the log, in order, when it returns.
\<close>

lemma publish_sync_is_durable:
  assumes "bus_run AppendEvent (NewBus (Some l) p0) b h" and "int (length h) + 1 < 2 ^ 63"
    and "\<not> persistClosed b"
    and "2 \<le> length outs" and "513 \<le> length outs'" and "set outs \<subseteq> {None}" and "set outs' \<subseteq> {None}"
    and "PublishSync AppendEvent now outs outs' kind jobID payload b = (e, b')"
  shows "log_keys (pstore b') = log_keys (pstore b) @ map event_key (pending b) @ [event_key e] \<and> evKind e = kind \<and> evPayload e = payload"
proof -
  have "hasPersist b" using run_persists [OF assms(1)] by (simp add: NewBus_def)
  from el.sync_publish [OF assms(1) new_bus_trace(2-4) assms(2) this assms(3-8)]
  show ?thesis using publish_event [OF assms(8)] by (simp add: el.trace_of_def)
qed

text \<open>
  Shutdown loses nothing that was accepted and admits nothing more: \<open>Close\<close> drains the queue into
  the log (given steps for it and successful appends) and reports success, and no later publication
  reaches the log.
\<close>

lemma close_drains_and_seals:
  assumes "bus_run AppendEvent (NewBus (Some l) p0) b h"
    and "backlog_steps b \<le> length outs" and "set outs \<subseteq> {None}"
    and "bus_run AppendEvent (snd (Close AppendEvent outs b)) b2 h2"
  shows "fst (Close AppendEvent outs b) = None \<and> log_keys (pstore b2) = log_keys (pstore b) @ map event_key (pending b)"
proof -
  have "hasPersist b" using run_persists [OF assms(1)] by (simp add: NewBus_def)
  from el.close_drains [OF this assms(2,3)] obtain b' where
    b': "Close AppendEvent outs b = (None, b')" "pending b' = []"
      "log_keys (pstore b') = el.trace_of b" "persistClosed b'" by blast
  have "bus_run AppendEvent b' b2 h2" using assms(4) b'(1) by simp
  then have "pstore b2 = pstore b'" using el.sealed_run [of b' b2 h2] b'(2,4) by (simp add: sealed_def)
  then show ?thesis using b' by (simp add: el.trace_of_def)
qed

section \<open>Retention\<close>

text \<open>
  Pruning is not an age sweep: it removes exactly the rows of the mechanical kinds older than the
  window and reports how many; every other row, in particular every authority decision, stays, in
  order, and a non-positive window removes nothing.
\<close>

lemma prune_keeps_judgement:
  "rows (snd (PruneTransientEvents now w l)) =
     filter (\<lambda>r. w \<le> 0 \<or> rowKind r \<notin> set transientEventKinds \<or> \<not> time_before (rowTS r) (now - w)) (rows l) \<and>
   filter (\<lambda>r. rowKind r \<in> {''job.approval_resolved'', ''job.approval_auto_denied'',
       ''job.approval_auto_allowed'', ''job.needs_approval'', ''job.done'', ''job.failed''})
     (rows (snd (PruneTransientEvents now w l))) =
   filter (\<lambda>r. rowKind r \<in> {''job.approval_resolved'', ''job.approval_auto_denied'',
       ''job.approval_auto_allowed'', ''job.needs_approval'', ''job.done'', ''job.failed''}) (rows l) \<and>
   (case fst (PruneTransientEvents now w l) of
      Inl _ \<Rightarrow> w \<le> 0
    | Inr n \<Rightarrow> 0 < w \<and> n + length (rows (snd (PruneTransientEvents now w l))) = length (rows l))"
proof (cases "w \<le> 0")
  case True
  then show ?thesis by (simp add: PruneTransientEvents_def)
next
  case False
  let ?gone = "\<lambda>r. time_before (rowTS r) (now - w) \<and> rowKind r \<in> set transientEventKinds"
  have "PruneTransientEvents now w l =
      (Inr (length (filter ?gone (rows l))), l\<lparr>rows := filter (\<lambda>r. \<not> ?gone r) (rows l)\<rparr>)"
    using False by (simp add: PruneTransientEvents_def Let_def time_add_def)
  moreover have "length (filter ?gone (rows l)) + length (filter (\<lambda>r. \<not> ?gone r) (rows l)) = length (rows l)"
    by (rule sum_length_filter_compl)
  ultimately show ?thesis using False
    by (simp add: conj_commute) (auto simp: transientEventKinds_def intro!: filter_cong)
qed

end
