(* ===== verification/World.thy ===== *)
theory World
  imports Lookup
begin

text \<open>
  The surroundings every operation on jobs runs in: the shared database with the transactions of the
  other goroutines and processes between its own, database faults, the clock, and the events it
  publishes.

  An operation of the program is a function on \<open>world\<close>.  Its \<open>n\<close>-th access to the database first lets
  the others run (\<open>meddle n\<close>), then meets the fault \<open>dbfault n\<close>: the statement or \<open>BEGIN\<close> fails, the
  \<open>COMMIT\<close> fails, or the commit succeeds and its answer is lost.  Everything an operation can observe of
  concurrency and failure is thus an argument of the theorems about it.
\<close>

datatype db_fault = NoFault | FBegin error | FCommit error | FLost error

text \<open>
  Published payloads: a job snapshot, a small map, a job with the decision taken on an approval
  (\<open>approvalOutcome\<close>, \<open>approvalIndeterminateOutcome\<close>), and an automatic decision.
\<close>

datatype payload =
  PJob job
  | PFields "(string \<times> string) list"
  | PDecided job string "approval option"
  | PAuto string string approval

record world =
  wdb :: db
  meddle :: "nat \<Rightarrow> db \<Rightarrow> db"
  dbfault :: "nat \<Rightarrow> db_fault"
  clock :: "nat \<Rightarrow> instant"
  txs :: nat
  freshID :: "nat \<Rightarrow> string"
  lcase :: "nat \<Rightarrow> nat"
  pubs :: "(string \<times> string \<times> payload) list"

definition PublishJob :: "string \<Rightarrow> string \<Rightarrow> payload \<Rightarrow> 'a world_scheme \<Rightarrow> 'a world_scheme" where
  "PublishJob kind i p w = w\<lparr>pubs := pubs w @ [(kind, i, p)]\<rparr>"

text \<open>
  One transaction: the body returns an error, which rolls back, or a value and the new database.
  \<open>wrap\<close> is what the caller makes of a commit error.
\<close>

definition transact ::
  "(error \<Rightarrow> error) \<Rightarrow> (instant \<Rightarrow> db \<Rightarrow> error + ('r \<times> db)) \<Rightarrow> 'a world_scheme \<Rightarrow>
   (error + 'r) \<times> 'a world_scheme" where
  "transact wrap body w =
     (let n = txs w; d = meddle w n (wdb w); w' = w\<lparr>wdb := d, txs := Suc n\<rparr> in
      case dbfault w n of
        FBegin e \<Rightarrow> (Inl e, w')
      | f \<Rightarrow> (case body (clock w n) d of
            Inl e \<Rightarrow> (Inl e, w')
          | Inr (r, d') \<Rightarrow> (case f of
                FCommit e \<Rightarrow> (Inl (wrap e), w')
              | FLost e \<Rightarrow> (Inl (wrap e), w'\<lparr>wdb := d'\<rparr>)
              | _ \<Rightarrow> (Inr r, w'\<lparr>wdb := d'\<rparr>))))"

text \<open>A single statement that only reads.\<close>

definition query :: "(db \<Rightarrow> error + 'r) \<Rightarrow> 'a world_scheme \<Rightarrow> (error + 'r) \<times> 'a world_scheme" where
  "query f w =
     (let n = txs w; d = meddle w n (wdb w); w' = w\<lparr>wdb := d, txs := Suc n\<rparr> in
      case dbfault w n of NoFault \<Rightarrow> (f d, w') | FBegin e \<Rightarrow> (Inl e, w') | FCommit e \<Rightarrow> (Inl e, w')
      | FLost e \<Rightarrow> (Inl e, w'))"

definition lookup_job :: "string \<Rightarrow> 'a world_scheme \<Rightarrow> (error + job) \<times> 'a world_scheme" where
  "lookup_job ref w = query (ResolveJob (lcase w) ref) w"

text \<open>
  \<open>UpdateJob\<close> with a closure: \<open>mut\<close> returns the new row and what the closure notes in the variables it
  captures.
\<close>

definition update_body ::
  "string \<Rightarrow> (job \<Rightarrow> 'n \<times> job) \<Rightarrow> instant \<Rightarrow> db \<Rightarrow> error + (('n \<times> job) \<times> db)" where
  "update_body i mut now d =
     (case UpdateJobTx now i (snd \<circ> mut) d of
        Inl e \<Rightarrow> Inl e
      | Inr (j, d') \<Rightarrow> (case find_job i d of
            None \<Rightarrow> Inl ErrNotFound
          | Some j0 \<Rightarrow> Inr ((fst (mut j0), j), d')))"

definition update_job ::
  "string \<Rightarrow> (job \<Rightarrow> 'n \<times> job) \<Rightarrow> 'a world_scheme \<Rightarrow> (error + 'n \<times> job) \<times> 'a world_scheme" where
  "update_job i mut w = transact (\<lambda>e. e) (update_body i mut) w"

section \<open>Frames\<close>

lemma transact_frame [simp]:
  "pubs (snd (transact wrap body w)) = pubs w" "lcase (snd (transact wrap body w)) = lcase w"
  "meddle (snd (transact wrap body w)) = meddle w" "dbfault (snd (transact wrap body w)) = dbfault w"
  "clock (snd (transact wrap body w)) = clock w" "freshID (snd (transact wrap body w)) = freshID w"
  "txs (snd (transact wrap body w)) = Suc (txs w)"
  "world.more (snd (transact wrap body w)) = world.more w"
  by (auto simp: transact_def Let_def split: db_fault.split sum.split)

lemma query_frame [simp]:
  "pubs (snd (query f w)) = pubs w" "lcase (snd (query f w)) = lcase w"
  "meddle (snd (query f w)) = meddle w" "dbfault (snd (query f w)) = dbfault w"
  "clock (snd (query f w)) = clock w" "freshID (snd (query f w)) = freshID w"
  "txs (snd (query f w)) = Suc (txs w)" "wdb (snd (query f w)) = meddle w (txs w) (wdb w)"
  "world.more (snd (query f w)) = world.more w"
  by (auto simp: query_def Let_def split: db_fault.split)

lemma update_frame [simp]:
  "pubs (snd (update_job i mut w)) = pubs w" "lcase (snd (update_job i mut w)) = lcase w"
  "meddle (snd (update_job i mut w)) = meddle w" "dbfault (snd (update_job i mut w)) = dbfault w"
  "txs (snd (update_job i mut w)) = Suc (txs w)"
  "world.more (snd (update_job i mut w)) = world.more w"
  by (simp_all add: update_job_def)

lemma publish_frame [simp]:
  "wdb (PublishJob k i p w) = wdb w" "pubs (PublishJob k i p w) = pubs w @ [(k, i, p)]"
  "txs (PublishJob k i p w) = txs w" "meddle (PublishJob k i p w) = meddle w"
  "dbfault (PublishJob k i p w) = dbfault w" "lcase (PublishJob k i p w) = lcase w"
  "clock (PublishJob k i p w) = clock w" "freshID (PublishJob k i p w) = freshID w"
  "world.more (PublishJob k i p w) = world.more w"
  by (simp_all add: PublishJob_def)

text \<open>The database a transaction works on, and what it can leave behind.\<close>

abbreviation seen :: "'a world_scheme \<Rightarrow> db" where
  "seen w \<equiv> meddle w (txs w) (wdb w)"

lemma transact_db:
  "wdb (snd (transact wrap body w)) = seen w \<or>
   (\<exists>r d'. body (clock w (txs w)) (seen w) = Inr (r, d') \<and> wdb (snd (transact wrap body w)) = d')"
  by (auto simp: transact_def Let_def split: db_fault.split sum.split)

lemma transact_Inr:
  "transact wrap body w = (Inr r, w') \<Longrightarrow>
   dbfault w (txs w) = NoFault \<and>
   (\<exists>d'. body (clock w (txs w)) (seen w) = Inr (r, d') \<and> w' = w\<lparr>wdb := d', txs := Suc (txs w)\<rparr>)"
  by (auto simp: transact_def Let_def split: db_fault.splits sum.splits)

lemma update_body_UpdateJobTx:
  "update_body i mut now d = Inr ((n, j), d') \<longleftrightarrow>
   (\<exists>j0. find_job i d = Some j0 \<and> n = fst (mut j0)) \<and> UpdateJobTx now i (snd \<circ> mut) d = Inr (j, d')"
  by (auto simp: update_body_def split: sum.splits option.splits)

lemma update_job_Inr:
  "update_job i mut w = (Inr (n, j), w') \<Longrightarrow>
   \<exists>j0. find_job i (seen w) = Some j0 \<and> n = fst (mut j0) \<and>
     UpdateJobTx (clock w (txs w)) i (snd \<circ> mut) (seen w) = Inr (j, wdb w') \<and>
     w' = w\<lparr>wdb := wdb w', txs := Suc (txs w)\<rparr>"
  unfolding update_job_def by (drule transact_Inr) (auto simp: update_body_UpdateJobTx)

lemma update_job_db:
  "wdb (snd (update_job i mut w)) = seen w \<or>
   (\<exists>j. UpdateJobTx (clock w (txs w)) i (snd \<circ> mut) (seen w) = Inr (j, wdb (snd (update_job i mut w))))"
  using transact_db [of "\<lambda>e. e" "update_body i mut" w]
  by (auto simp: update_job_def update_body_UpdateJobTx)

lemma update_job_row:
  assumes "update_job i mut w = (Inr (n, j), w')" and "keeps_identity (snd \<circ> mut)"
  obtains j0 where "find_job i (seen w) = Some j0" "n = fst (mut j0)"
    "j = bump_job (clock w (txs w)) (snd (mut j0))" "find_job i (wdb w') = Some j"
    "\<And>k. k \<noteq> i \<Longrightarrow> find_job k (wdb w') = find_job k (seen w)"
    "\<not> guard_refuses (seen w) (Some (Status j0)) (Status j)" "river (wdb w') = river (seen w)"
proof -
  from update_job_Inr [OF assms(1)] obtain j0 where
    j0: "find_job i (seen w) = Some j0" "n = fst (mut j0)"
      "UpdateJobTx (clock w (txs w)) i (snd \<circ> mut) (seen w) = Inr (j, wdb w')" by blast
  then have u: "UpdateJob (clock w (txs w)) i (snd \<circ> mut) (seen w) = (Inr j, wdb w')"
    by (simp add: UpdateJob_def)
  from UpdateJob_Inr [OF u assms(2)] obtain k where
    k: "find_job i (seen w) = Some k" "j = bump_job (clock w (txs w)) ((snd \<circ> mut) k)"
      "wdb w' = note_transition (Status k) j (put_job j (seen w))" "find_job i (wdb w') = Some j"
      "\<And>m. m \<noteq> i \<Longrightarrow> find_job m (wdb w') = find_job m (seen w)"
      "\<not> guard_refuses (seen w) (Some (Status k)) (Status j)" by metis
  from k(1) j0(1) have "k = j0" by simp
  then show ?thesis using that [OF j0(1,2)] k by simp
qed

text \<open>Every outcome of an update: nothing, or the row rewritten (even when the answer is lost).\<close>

lemma update_job_effect:
  assumes "update_job i mut w = (r, w')" and "keeps_identity (snd \<circ> mut)"
  shows "wdb w' = seen w \<and> (\<forall>p. r \<noteq> Inr p) \<or>
    (\<exists>x. find_job i (seen w) = Some x \<and>
      find_job i (wdb w') = Some (bump_job (clock w (txs w)) (snd (mut x))) \<and>
      (\<forall>k. k \<noteq> i \<longrightarrow> find_job k (wdb w') = find_job k (seen w)) \<and>
      \<not> guard_refuses (seen w) (Some (Status x)) (Status (snd (mut x))) \<and> river (wdb w') = river (seen w) \<and>
      (\<forall>p. r = Inr p \<longrightarrow> p = (fst (mut x), bump_job (clock w (txs w)) (snd (mut x)))))"
proof (cases r)
  case (Inl e)
  from update_job_db [of i mut w] assms(1) consider "wdb w' = seen w"
    | j where "UpdateJobTx (clock w (txs w)) i (snd \<circ> mut) (seen w) = Inr (j, wdb w')" by auto
  then show ?thesis
  proof cases
    case 1
    then show ?thesis by (simp add: Inl)
  next
    case 2
    then have u: "UpdateJob (clock w (txs w)) i (snd \<circ> mut) (seen w) = (Inr j, wdb w')"
      by (simp add: UpdateJob_def)
    from UpdateJob_Inr [OF u assms(2)] obtain k where
      k: "find_job i (seen w) = Some k" "j = bump_job (clock w (txs w)) ((snd \<circ> mut) k)"
        "wdb w' = note_transition (Status k) j (put_job j (seen w))" "find_job i (wdb w') = Some j"
        "\<And>m. m \<noteq> i \<Longrightarrow> find_job m (wdb w') = find_job m (seen w)"
        "\<not> guard_refuses (seen w) (Some (Status k)) (Status j)" by metis
    then have "river (wdb w') = river (seen w)" by simp
    with k Inl show ?thesis by (intro disjI2 exI [of _ k]) simp
  qed
next
  case (Inr p)
  obtain n j where p: "p = (n, j)" by fastforce
  from update_job_row [OF assms(1) [unfolded Inr p] assms(2)] obtain x where
    "find_job i (seen w) = Some x" "n = fst (mut x)"
    "j = bump_job (clock w (txs w)) (snd (mut x))" "find_job i (wdb w') = Some j"
    "\<And>k. k \<noteq> i \<Longrightarrow> find_job k (wdb w') = find_job k (seen w)"
    "\<not> guard_refuses (seen w) (Some (Status x)) (Status j)" "river (wdb w') = river (seen w)" by metis
  then show ?thesis by (intro disjI2 exI [of _ x]) (simp add: Inr p)
qed

section \<open>Sequencing\<close>

text \<open>\<open>if err != nil { return ... }\<close> between two calls.\<close>

definition bindE :: "(error + 'r) \<times> 'w \<Rightarrow> ('r \<Rightarrow> 'w \<Rightarrow> (error + 's) \<times> 'w) \<Rightarrow> (error + 's) \<times> 'w" where
  "bindE m k = (case m of (Inl e, w) \<Rightarrow> (Inl e, w) | (Inr r, w) \<Rightarrow> k r w)"

lemma bindE_simps [simp]: "bindE (Inl e, w) k = (Inl e, w)" "bindE (Inr r, w) k = k r w"
  by (simp_all add: bindE_def)

lemma bindE_split:
  "P (bindE m k) \<longleftrightarrow>
   (\<forall>e w. m = (Inl e, w) \<longrightarrow> P (Inl e, w)) \<and> (\<forall>r w. m = (Inr r, w) \<longrightarrow> P (k r w))"
  by (cases m; cases "fst m") auto

lemma bindE_Inr: "bindE m k = (Inr s, w') \<longleftrightarrow> (\<exists>r w. m = (Inr r, w) \<and> k r w = (Inr s, w'))"
  by (cases m; cases "fst m") auto

end
