(* ===== verification/Dispatch.thy ===== *)
theory Dispatch
  imports World
begin

text \<open>
  The dispatcher (\<open>src/internal/dispatch/dispatch.go\<close>): creating, cancelling, answering, resuming and
  renaming jobs, and the queue worker.  The queue is the argument \<open>q\<close> (its insert, run inside the
  dispatcher's transaction) and the runner's operations are the arguments \<open>rc\<close>, \<open>rr\<close>, \<open>rd\<close> and \<open>run\<close>.
\<close>

section \<open>Names\<close>

definition maxJobNameRunes :: nat where
  "maxJobNameRunes = 120"

definition jobName :: "string \<Rightarrow> error + string" where
  "jobName raw =
     (let name = squash raw in
      if name = '''' then Inl (EText ''job name must contain at least one non-space character'')
      else if maxJobNameRunes < length (runes name)
      then Inr (trim_space (cut_runes maxJobNameRunes name))
      else Inr name)"

section \<open>The queue\<close>

text \<open>River's \<open>InsertTx\<close>: a delivery of the job, or the insert's error \<open>out\<close>.\<close>

definition EnqueueRunTx :: "error option \<Rightarrow> string \<Rightarrow> db \<Rightarrow> error + db" where
  "EnqueueRunTx out i d =
     (case out of Some e \<Rightarrow> Inl e | None \<Rightarrow> Inr (d\<lparr>river := river d @ [i]\<rparr>))"

definition enqueue_or :: "(string \<Rightarrow> db \<Rightarrow> error + db) \<Rightarrow> string \<Rightarrow> 'r \<Rightarrow> string \<Rightarrow> db \<Rightarrow> error + ('r \<times> db)" where
  "enqueue_or q what r i d =
     (case q i d of Inl e \<Rightarrow> Inl (EWrap what e '''') | Inr d' \<Rightarrow> Inr (r, d'))"

section \<open>Operations\<close>

definition publishQueuedJob :: "job \<Rightarrow> 'a world_scheme \<Rightarrow> 'a world_scheme" where
  "publishQueuedJob j w = PublishJob ''job.queued'' (jID j) (PJob (Redacted j)) w"

definition publishCancelledJob :: "job \<Rightarrow> 'a world_scheme \<Rightarrow> 'a world_scheme" where
  "publishCancelledJob j w = PublishJob ''job.cancelled'' (jID j) (PJob (Redacted j)) w"

definition Dispatch ::
  "(string \<Rightarrow> db \<Rightarrow> error + db) \<Rightarrow> string \<Rightarrow> string \<Rightarrow> 'a world_scheme \<Rightarrow> (error + job) \<times> 'a world_scheme" where
  "Dispatch q rawname tsk w =
     (case jobName rawname of
        Inl e \<Rightarrow> (Inl e, w)
      | Inr name \<Rightarrow>
          bindE (transact (\<lambda>e. EWrap ''commit dispatch: '' e '''')
              (\<lambda>now d. case CreateJobTx now (freshID w (txs w)) name tsk d of
                  Inl e \<Rightarrow> Inl e
                | Inr (j, d') \<Rightarrow> enqueue_or q ''enqueue: '' j (jID j) d') w)
            (\<lambda>j w. (Inr j, publishQueuedJob j w)))"

definition describe :: "job \<Rightarrow> string \<Rightarrow> string" where
  "describe j rest = ''job '' @ quoted (DisplayName j) @ rest"

definition cancel_mut :: "job \<Rightarrow> bool \<times> job" where
  "cancel_mut x =
     (if Status x \<noteq> Done \<and> Status x \<noteq> Failed \<and> Status x \<noteq> Cancelled
      then (True, x\<lparr>Status := Cancelled\<rparr>) else (False, x))"

definition Cancel ::
  "(string \<Rightarrow> 'a world_scheme \<Rightarrow> 'a world_scheme) \<Rightarrow> string \<Rightarrow> 'a world_scheme \<Rightarrow>
   (error + job) \<times> 'a world_scheme" where
  "Cancel rc ref w =
     bindE (lookup_job ref w) (\<lambda>j0 w.
     bindE (update_job (jID j0) cancel_mut w) (\<lambda>(cancelled, j) w.
       if \<not> cancelled then (Inl (EText (describe j ('' already '' @ status_text (Status j)))), w)
       else (Inr j, rc (jID j) (publishCancelledJob j w))))"

definition answer_mut :: "string \<Rightarrow> job \<Rightarrow> bool \<times> job" where
  "answer_mut txt x =
     (if Status x = NeedsInput
      then (True, x\<lparr>Status := Queued, Question := '''', PendingInput := txt\<rparr>) else (False, x))"

text \<open>
  A transaction that updates the row, returns (and so rolls back) unless the closure claimed it,
  and enqueues a delivery before the commit.
\<close>

definition claim_and_enqueue ::
  "(string \<Rightarrow> db \<Rightarrow> error + db) \<Rightarrow> string \<Rightarrow> (error \<Rightarrow> error) \<Rightarrow> (job \<Rightarrow> error) \<Rightarrow> string \<Rightarrow>
   (job \<Rightarrow> bool \<times> job) \<Rightarrow> 'a world_scheme \<Rightarrow> (error + job) \<times> 'a world_scheme" where
  "claim_and_enqueue q what wrap refused i mut w =
     transact wrap
       (\<lambda>now d. case update_body i mut now d of
          Inl e \<Rightarrow> Inl e
        | Inr ((claimed, j), d') \<Rightarrow>
            if \<not> claimed then Inl (refused j) else enqueue_or q what j (jID j) d') w"

definition Answer ::
  "(string \<Rightarrow> db \<Rightarrow> error + db) \<Rightarrow> string \<Rightarrow> string \<Rightarrow> 'a world_scheme \<Rightarrow> (error + job) \<times> 'a world_scheme" where
  "Answer q ref txt w =
     bindE (lookup_job ref w) (\<lambda>j0 w.
       if Status j0 \<noteq> NeedsInput
       then (Inl (EText (describe j0 ('' is '' @ status_text (Status j0) @ '', not waiting for input''))), w)
       else bindE (claim_and_enqueue q ''enqueue answered job: '' (\<lambda>e. e)
             (\<lambda>j. EText (''job '' @ DisplayName j @ '' is '' @ status_text (Status j) @ '', not waiting for input''))
             (jID j0) (answer_mut txt) w)
           (\<lambda>j w. (Inr j, publishQueuedJob j w)))"

definition DecideApproval ::
  "(string \<Rightarrow> string \<Rightarrow> string \<Rightarrow> string \<Rightarrow> 'a world_scheme \<Rightarrow> (error + job) \<times> 'a world_scheme) \<Rightarrow>
   string \<Rightarrow> string \<Rightarrow> string \<Rightarrow> string \<Rightarrow> 'a world_scheme \<Rightarrow> (error + job) \<times> 'a world_scheme" where
  "DecideApproval rd ref approvalID nonce decision w =
     bindE (lookup_job ref w) (\<lambda>j w.
       if Status j \<noteq> NeedsApproval \<or> Approvals j = []
       then (Inl (EText (describe j ('' is '' @ status_text (Status j) @ '', not waiting for approval''))), w)
       else rd (jID j) approvalID nonce decision w)"

definition prepareForResume :: "job \<Rightarrow> bool \<times> job" where
  "prepareForResume x =
     (let previous = Status x in
      if previous \<noteq> Failed \<and> previous \<noteq> ParkedApproval then (False, x)
      else (True, x\<lparr>Status := Queued, Question := '''', ResultDigest := '''', HermesRunID := '''',
              Approvals := (if previous = Failed then [] else Approvals x), FinishedAt := None\<rparr>))"

definition resume_mut :: "job_status \<Rightarrow> string \<Rightarrow> job \<Rightarrow> bool \<times> job" where
  "resume_mut expectedStatus expectedRunID x =
     (if Status x = expectedStatus \<and> HermesRunID x = expectedRunID then prepareForResume x
      else (False, x))"

definition Resume ::
  "(string \<Rightarrow> db \<Rightarrow> error + db) \<Rightarrow>
   (string \<Rightarrow> string \<Rightarrow> 'a world_scheme \<Rightarrow> error option \<times> 'a world_scheme) \<Rightarrow>
   string \<Rightarrow> 'a world_scheme \<Rightarrow> (error + job) \<times> 'a world_scheme" where
  "Resume q rr ref w =
     bindE (lookup_job ref w) (\<lambda>j0 w.
       if Status j0 \<noteq> Failed \<and> Status j0 \<noteq> ParkedApproval
       then (Inl (EText (describe j0 ('' is '' @ status_text (Status j0) @
              ''; only failed or parked-approval jobs can be resumed''))), w)
       else let expectedRunID = HermesRunID j0 in
         case (if expectedRunID \<noteq> '''' then rr (jID j0) expectedRunID w else (None, w)) of
           (Some e, w) \<Rightarrow>
             (Inl (EWrap (''release prior Hermes run '' @ expectedRunID @ '': '') e ''''), w)
         | (None, w) \<Rightarrow>
             bindE (claim_and_enqueue q ''resume enqueue: '' (\<lambda>e. EWrap ''commit resume: '' e '''')
                 (\<lambda>j. EText (describe j ('' is '' @ status_text (Status j) @
                    ''; another resume or state transition won the race'')))
                 (jID j0) (resume_mut (Status j0) expectedRunID) w)
               (\<lambda>j w. (Inr j, publishQueuedJob j w)))"

definition Rename :: "string \<Rightarrow> string \<Rightarrow> 'a world_scheme \<Rightarrow> (error + job) \<times> 'a world_scheme" where
  "Rename ref newName w =
     (case jobName newName of
        Inl e \<Rightarrow> (Inl e, w)
      | Inr name \<Rightarrow>
          bindE (lookup_job ref w) (\<lambda>j0 w.
          bindE (update_job (jID j0) (\<lambda>x. ((), x\<lparr>DisplayName := name\<rparr>)) w) (\<lambda>(_, j) w.
            (Inr j, PublishJob ''job.renamed'' (jID j)
               (PFields [(''from'', DisplayName j0), (''to'', name)]) w))))"

section \<open>The queue worker\<close>

text \<open>\<open>Worker.Work\<close>: what River is told; \<open>river.JobCancel\<close> ends the delivery, an error retries it.\<close>

datatype work_result = WorkDone | WorkCancel error | WorkRetry error

definition Work ::
  "(string \<Rightarrow> 'w \<Rightarrow> error option \<times> 'w) \<Rightarrow> string \<Rightarrow> 'w \<Rightarrow> work_result \<times> 'w" where
  "Work run i w =
     (case run i w of
        (None, w') \<Rightarrow> (WorkDone, w')
      | (Some e, w') \<Rightarrow> (if err_no_retry e then WorkCancel e else WorkRetry e, w'))"

text \<open>\<open>Timeout\<close>: -1 disables River's deadline.\<close>

definition work_timeout :: duration where
  "work_timeout = -1"

end
