(* ===== verification/Dispatch_Laws.thy ===== *)
theory Dispatch_Laws
  imports Dispatch Job_Laws
begin

text \<open>
  What the dispatcher guarantees: the form of names, the queue contract and the atomicity of a job
  and its delivery, the authority of a cancellation, and resumption behind a released run.
\<close>

section \<open>Names\<close>

lemma squash_ends:
  "squash s \<noteq> [] \<Longrightarrow> \<not> sp (hd (segments (squash s)))"
  using segments_squash by blast

lemma jobName_Inr:
  assumes "jobName raw = Inr n"
  shows "n \<noteq> '''' \<and> length (runes n) \<le> maxJobNameRunes \<and> squash n = n"
proof (cases "maxJobNameRunes < length (runes (squash raw))")
  case True
  let ?t = "trim_space (cut_runes maxJobNameRunes (squash raw))"
  have n: "n = ?t" "squash raw \<noteq> []"
    using assms True by (auto simp: jobName_def Let_def split: if_splits)
  have "length (runes ?t) \<le> length (runes (cut_runes maxJobNameRunes (squash raw)))"
    by (rule length_runes_trim)
  then have "length (runes ?t) \<le> maxJobNameRunes" by (simp add: min_def split: if_splits)
  moreover have "?t \<noteq> []"
    using n(2) squash_ends by (intro trim_cut_nonempty) (auto simp: maxJobNameRunes_def)
  moreover have "squash ?t = ?t" using segments_squash by (intro squash_trim_cut) blast
  ultimately show ?thesis by (simp add: n(1))
next
  case False
  then show ?thesis using assms by (auto simp: jobName_def Let_def split: if_splits)
qed

lemma jobName_again: "jobName raw = Inr n \<Longrightarrow> jobName n = Inr n"
  using jobName_Inr [of raw n] by (auto simp: jobName_def Let_def)

text \<open>
  A job name is something the operator can say: \<open>jobName\<close> refuses exactly the names without a
  word, and otherwise returns a non-empty name of at most 120 characters, single spaces between its
  words and none around them, on which it is idempotent.
\<close>

lemma job_names_speakable:
  "case jobName raw of
     Inl e \<Rightarrow> Text.fields raw = []
   | Inr n \<Rightarrow> Text.fields raw \<noteq> [] \<and> Text.fields n \<noteq> [] \<and> n = join '' '' (Text.fields n) \<and>
       length (runes n) \<le> 120 \<and> jobName n = Inr n"
proof (cases "jobName raw")
  case (Inl e)
  then show ?thesis using squash_empty by (auto simp: jobName_def Let_def split: if_splits)
next
  case (Inr n)
  then have "Text.fields raw \<noteq> []" using squash_empty by (auto simp: jobName_def Let_def split: if_splits)
  with Inr show ?thesis
    using jobName_Inr [OF Inr] jobName_again [OF Inr] squash_empty [of n]
    by (auto simp: maxJobNameRunes_def squash_def)
qed

section \<open>The queue contract\<close>

text \<open>What the dispatcher needs of the queue's insert: it adds one delivery and touches nothing else.\<close>

locale run_queue =
  fixes q :: "string \<Rightarrow> db \<Rightarrow> error + db"
  assumes enqueued: "q i d = Inr d' \<Longrightarrow> d' = d\<lparr>river := river d @ [i]\<rparr>"
begin

lemma enqueue_or_Inr:
  "enqueue_or q what r i d = Inr (s, d') \<Longrightarrow> s = r \<and> d' = d\<lparr>river := river d @ [i]\<rparr>"
  by (auto simp: enqueue_or_def enqueued split: sum.splits)

lemma dispatch_body:
  assumes "(case CreateJobTx now i name tsk d of Inl e \<Rightarrow> Inl e
      | Inr (j, d') \<Rightarrow> enqueue_or q what j (jID j) d') = Inr (j, d')"
  shows "jobs d' = jobs d @ [j] \<and> river d' = river d @ [jID j] \<and> jID j = i \<and> DisplayName j = name \<and>
    Task j = tsk \<and> Status j = Queued \<and> \<not> paused d \<and> find_job i d = None"
  using assms
  by (auto simp: CreateJobTx_def Let_def split: sum.splits if_splits dest!: enqueue_or_Inr)

lemma dispatch_effect:
  assumes "Dispatch q rawname tsk w = (r, w')"
  shows "\<exists>made. length made \<le> 1 \<and>
      (jobs (wdb w'), river (wdb w')) \<in>
        {(jobs (wdb w) @ made, river (wdb w) @ map jID made),
         (jobs (seen w) @ made, river (seen w) @ map jID made)} \<and>
      (case r of
         Inl e \<Rightarrow> pubs w' = pubs w
       | Inr j \<Rightarrow> made = [j] \<and> Status j = Queued \<and> jobName rawname = Inr (DisplayName j) \<and>
           Task j = tsk \<and> find_job (jID j) (seen w) = None \<and> \<not> paused (seen w) \<and>
           pubs w' = pubs w @ [(''job.queued'', jID j, PJob (Redacted j))])"
proof (cases "jobName rawname")
  case (Inl e)
  then show ?thesis using assms by (auto simp: Dispatch_def intro: exI [of _ "[]"])
next
  case (Inr name)
  let ?body = "\<lambda>now d. case CreateJobTx now (freshID w (txs w)) name tsk d of Inl e \<Rightarrow> Inl e
      | Inr (j, d') \<Rightarrow> enqueue_or q ''enqueue: '' j (jID j) d'"
  let ?t = "transact (\<lambda>e. EWrap ''commit dispatch: '' e '''') ?body w"
  show ?thesis
  proof (cases "fst ?t")
    case (Inl e)
    then have w': "r = Inl e" "w' = snd ?t"
      using assms Inr by (auto simp: Dispatch_def bindE_def split: prod.splits)
    from transact_db [of "\<lambda>e. EWrap ''commit dispatch: '' e ''''" ?body w]
    show ?thesis
    proof
      assume "wdb (snd ?t) = seen w"
      then show ?thesis unfolding w' by (intro exI [of _ "[]"]) simp
    next
      assume "\<exists>j d'. ?body (clock w (txs w)) (seen w) = Inr (j, d') \<and> wdb (snd ?t) = d'"
      then obtain j where "?body (clock w (txs w)) (seen w) = Inr (j, wdb (snd ?t))" by blast
      from dispatch_body [OF this] show ?thesis unfolding w' by (intro exI [of _ "[j]"]) simp
    qed
  next
    case (Inr j)
    then obtain w1 where t: "?t = (Inr j, w1)" by (cases ?t) auto
    from transact_Inr [OF t] obtain d' where d': "?body (clock w (txs w)) (seen w) = Inr (j, d')"
      "w1 = w\<lparr>wdb := d', txs := Suc (txs w)\<rparr>" by blast
    have "(r, w') = (Inr j, publishQueuedJob j w1)"
      using assms \<open>jobName rawname = Inr name\<close> t by (simp add: Dispatch_def)
    with dispatch_body [OF d'(1)] d'(2) \<open>jobName rawname = Inr name\<close> show ?thesis
      by (auto simp: publishQueuedJob_def)
  qed
qed

lemma claim_effect:
  assumes "claim_and_enqueue q what wrap refused i mut w = (r, w')" "keeps_identity (snd \<circ> mut)"
  shows "(wdb w' = seen w \<and> (\<forall>j. r \<noteq> Inr j) \<or>
      (\<exists>j0 j. find_job i (seen w) = Some j0 \<and> fst (mut j0) \<and> j = bump_job (clock w (txs w)) (snd (mut j0)) \<and>
        find_job i (wdb w') = Some j \<and> (\<forall>k. k \<noteq> i \<longrightarrow> find_job k (wdb w') = find_job k (seen w)) \<and>
        \<not> guard_refuses (seen w) (Some (Status j0)) (Status j) \<and>
        river (wdb w') = river (seen w) @ [i] \<and> (\<forall>k. r = Inr k \<longrightarrow> k = j))) \<and> pubs w' = pubs w"
proof -
  let ?now = "clock w (txs w)"
  let ?body = "\<lambda>now d. case update_body i mut now d of Inl e \<Rightarrow> Inl e
      | Inr ((claimed, j), d') \<Rightarrow> if \<not> claimed then Inl (refused j) else enqueue_or q what j (jID j) d'"
  have w': "w' = snd (transact wrap ?body w)" "r = fst (transact wrap ?body w)"
    using assms(1) by (simp_all add: claim_and_enqueue_def)
  have eff: "\<exists>j0. find_job i (seen w) = Some j0 \<and> fst (mut j0) \<and> j = bump_job ?now (snd (mut j0)) \<and>
        find_job i d' = Some j \<and> (\<forall>k. k \<noteq> i \<longrightarrow> find_job k d' = find_job k (seen w)) \<and>
        \<not> guard_refuses (seen w) (Some (Status j0)) (Status j) \<and> river d' = river (seen w) @ [i]"
    if b: "?body ?now (seen w) = Inr (j, d')" for j d'
  proof -
    from b obtain d1 where u: "update_body i mut ?now (seen w) = Inr ((True, j), d1)"
      "enqueue_or q what j (jID j) d1 = Inr (j, d')"
      by (auto split: sum.splits if_splits prod.splits dest: enqueue_or_Inr)
    have d': "d' = d1\<lparr>river := river d1 @ [jID j]\<rparr>" using enqueue_or_Inr [OF u(2)] by simp
    from u(1) have m: "\<exists>j0. find_job i (seen w) = Some j0 \<and> True = fst (mut j0)"
      "UpdateJob ?now i (snd \<circ> mut) (seen w) = (Inr j, d1)"
      by (auto simp: update_body_UpdateJobTx UpdateJob_def)
    from UpdateJob_Inr [OF m(2) assms(2)] obtain k where
      k: "find_job i (seen w) = Some k" "j = bump_job ?now ((snd \<circ> mut) k)"
        "d1 = note_transition (Status k) j (put_job j (seen w))" "find_job i d1 = Some j"
        "\<And>m. m \<noteq> i \<Longrightarrow> find_job m d1 = find_job m (seen w)"
        "\<not> guard_refuses (seen w) (Some (Status k)) (Status j)" by metis
    have "river d1 = river (seen w)" "jID j = i"
      using find_job_Some [OF k(4)] by (simp_all add: k(3))
    moreover have "find_job m d' = find_job m d1" for m by (simp add: d' find_job_def)
    ultimately show ?thesis using k m(1) d' by auto
  qed
  show ?thesis
  proof (cases r)
    case (Inl e)
    from transact_db [of wrap ?body w] eff Inl show ?thesis unfolding w'(1) by auto
  next
    case (Inr j)
    then have "transact wrap ?body w = (Inr j, w')" by (simp add: w' prod_eq_iff)
    from transact_Inr [OF this] obtain d' where "?body ?now (seen w) = Inr (j, d')"
      "w' = w\<lparr>wdb := d', txs := Suc (txs w)\<rparr>" by blast
    with eff [OF this(1)] Inr show ?thesis by auto
  qed
qed

end

interpretation rq: run_queue "EnqueueRunTx out" for out
  by unfold_locales (auto simp: EnqueueRunTx_def split: option.splits)

text \<open>
  C35. Admission is atomic: whatever the database faults, the pause, the queue's answer or the other
  transactions, \<open>Dispatch\<close> leaves either one new queued job together with one delivery of it, or
  neither; it publishes exactly when it reports success, and then the job is the queued one it
  created, under the normalised name and an id nobody had, and dispatch was not paused.
\<close>

theorem dispatch_atomic:
  "case Dispatch (EnqueueRunTx out) rawname tsk w of (r, w') \<Rightarrow>
     \<exists>made. length made \<le> 1 \<and>
      (jobs (wdb w'), river (wdb w')) \<in>
        {(jobs (wdb w) @ made, river (wdb w) @ map jID made),
         (jobs (seen w) @ made, river (seen w) @ map jID made)} \<and>
      (case r of
         Inl e \<Rightarrow> pubs w' = pubs w
       | Inr j \<Rightarrow> made = [j] \<and> Status j = Queued \<and> jobName rawname = Inr (DisplayName j) \<and>
           Task j = tsk \<and> find_job (jID j) (seen w) = None \<and> \<not> paused (seen w) \<and>
           pubs w' = pubs w @ [(''job.queued'', jID j, PJob (Redacted j))])"
  by (cases "Dispatch (EnqueueRunTx out) rawname tsk w") (simp only: prod.case rq.dispatch_effect)

section \<open>Answers\<close>

lemma keeps_mutators:
  "keeps_identity (snd \<circ> cancel_mut)" "keeps_identity (snd \<circ> answer_mut t)"
  "keeps_identity (snd \<circ> resume_mut s r)"
  by (auto simp: cancel_mut_def answer_mut_def resume_mut_def prepareForResume_def Let_def)

lemma publishQueued_wdb [simp]: "wdb (publishQueuedJob j w) = wdb w"
  by (simp add: publishQueuedJob_def)

lemma Answer_cases:
  assumes "Answer q ref txt w = (r, w')"
  obtains (refused) e where "r = Inl e" "wdb w' = seen w" "pubs w' = pubs w"
  | (tried) j0 w1 r1 w2 what wrap f where "lookup_job ref w = (Inr j0, w1)" "Status j0 = NeedsInput"
      "claim_and_enqueue q what wrap f (jID j0) (answer_mut txt) w1 = (r1, w2)"
      "(r, w') = (case r1 of Inl e \<Rightarrow> (Inl e, w2) | Inr j \<Rightarrow> (Inr j, publishQueuedJob j w2))"
proof -
  obtain r0 w1 where l: "lookup_job ref w = (r0, w1)" by fastforce
  have w1: "wdb w1 = seen w" "pubs w1 = pubs w"
    using l query_frame(1,8) [of "ResolveJob (lcase w) ref" w] by (simp_all add: lookup_job_def)
  show ?thesis
  proof (cases r0)
    case (Inl e)
    then show ?thesis using refused [of e] assms l w1 by (simp add: Answer_def)
  next
    case (Inr j0)
    show ?thesis
    proof (cases "Status j0 = NeedsInput")
      case False
      then show ?thesis using refused assms l w1 Inr by (auto simp: Answer_def)
    next
      case True
      obtain r1 w2 where c: "claim_and_enqueue q ''enqueue answered job: '' (\<lambda>e. e)
             (\<lambda>j. EText (''job '' @ DisplayName j @ '' is '' @ status_text (Status j) @ '', not waiting for input''))
             (jID j0) (answer_mut txt) w1 = (r1, w2)" by fastforce
      then show ?thesis using assms l Inr True
        by (intro tried [OF _ True c]) (auto simp: Answer_def bindE_def split: sum.split)
    qed
  qed
qed

lemma answer_effect:
  assumes a: "Answer (EnqueueRunTx out) ref txt w = (r, w')"
  shows "\<exists>d \<in> {seen w, seen (snd (lookup_job ref w))}.
       wdb w' = d \<and> (case r of Inl e \<Rightarrow> pubs w' = pubs w | Inr _ \<Rightarrow> False) \<or>
       (\<exists>x y. find_job (jID x) d = Some x \<and> Status x = NeedsInput \<and> \<not> paused d \<and>
          find_job (jID x) (wdb w') = Some y \<and> Status y = Queued \<and> PendingInput y = txt \<and>
          Question y = '''' \<and> HermesSessionID y = HermesSessionID x \<and>
          river (wdb w') = river d @ [jID x] \<and>
          (case r of Inl e \<Rightarrow> pubs w' = pubs w
           | Inr j \<Rightarrow> j = y \<and> pubs w' = pubs w @ [(''job.queued'', jID y, PJob (Redacted y))]))"
proof (rule Answer_cases [OF a])
  fix e assume "r = Inl e" "wdb w' = seen w" "pubs w' = pubs w"
  then show ?thesis by auto
next
  fix j0 w1 r1 w2 what wrap f
  assume h: "lookup_job ref w = (Inr j0, w1)" "Status j0 = NeedsInput"
    "claim_and_enqueue (EnqueueRunTx out) what wrap f (jID j0) (answer_mut txt) w1 = (r1, w2)"
    "(r, w') = (case r1 of Inl e \<Rightarrow> (Inl e, w2) | Inr j \<Rightarrow> (Inr j, publishQueuedJob j w2))"
  have p1: "pubs w1 = pubs w"
    using h(1) query_frame(1) [of "ResolveJob (lcase w) ref" w] by (simp add: lookup_job_def)
  note eff = rq.claim_effect [OF h(3) keeps_mutators(2)]
  have w': "wdb w' = wdb w2" using h(4) by (auto split: sum.splits)
  from eff consider (no) "wdb w2 = seen w1" "\<forall>j. r1 \<noteq> Inr j" "pubs w2 = pubs w1"
    | (yes) x y where "find_job (jID j0) (seen w1) = Some x" "fst (answer_mut txt x)"
        "y = bump_job (clock w1 (txs w1)) (snd (answer_mut txt x))" "find_job (jID j0) (wdb w2) = Some y"
        "\<not> guard_refuses (seen w1) (Some (Status x)) (Status y)"
        "river (wdb w2) = river (seen w1) @ [jID j0]" "\<forall>k. r1 = Inr k \<longrightarrow> k = y" "pubs w2 = pubs w1"
    by blast
  then show ?thesis
  proof cases
    case no
    then show ?thesis using h(1,4) w' p1 by (auto split: sum.splits)
  next
    case yes
    have x: "jID x = jID j0" "Status x = NeedsInput" "\<not> paused (seen w1)"
      "Status y = Queued" "PendingInput y = txt" "Question y = ''''"
      "HermesSessionID y = HermesSessionID x" "jID y = jID j0"
      using find_job_Some [OF yes(1)] yes(2,3,5)
      by (auto simp: answer_mut_def guard_refuses_def split: if_splits)
    have c: "(case r of Inl e \<Rightarrow> pubs w' = pubs w
        | Inr j \<Rightarrow> j = y \<and> pubs w' = pubs w @ [(''job.queued'', jID y, PJob (Redacted y))])"
      using h(4) yes(7,8) p1 by (auto simp: publishQueuedJob_def split: sum.splits)
    show ?thesis using x yes(1,4,6) c w' h(1)
      by (intro bexI [of _ "seen w1"] disjI2 exI [of _ x] exI [of _ y]) simp_all
  qed
qed

text \<open>
  C36. An answer is delivered once or not at all: \<open>Answer\<close> either changes nothing of the database the
  others left, or moves one job from needs_input to queued with the answer as its pending input and
  its question cleared, and adds exactly one delivery of that job; success means the latter.
\<close>

theorem answer_delivered_once:
  "case Answer (EnqueueRunTx out) ref txt w of (r, w') \<Rightarrow>
     \<exists>d \<in> {seen w, seen (snd (lookup_job ref w))}.
       wdb w' = d \<and> (case r of Inl e \<Rightarrow> pubs w' = pubs w | Inr _ \<Rightarrow> False) \<or>
       (\<exists>x y. find_job (jID x) d = Some x \<and> Status x = NeedsInput \<and> \<not> paused d \<and>
          find_job (jID x) (wdb w') = Some y \<and> Status y = Queued \<and> PendingInput y = txt \<and>
          Question y = '''' \<and> HermesSessionID y = HermesSessionID x \<and>
          river (wdb w') = river d @ [jID x] \<and>
          (case r of Inl e \<Rightarrow> pubs w' = pubs w
           | Inr j \<Rightarrow> j = y \<and> pubs w' = pubs w @ [(''job.queued'', jID y, PJob (Redacted y))]))"
  by (cases "Answer (EnqueueRunTx out) ref txt w") (simp only: prod.case answer_effect)

end
