(* ===== verification/Time_Text.thy ===== *)
theory Time_Text
  imports Lookup
begin

text \<open>
  How the Go library prints durations and instants: \<open>time.Duration.String\<close> and the RFC 3339 form of
  \<open>time.Time.MarshalJSON\<close> in UTC.
\<close>

section \<open>\<open>time.Duration.String\<close>\<close>

fun pad_digits :: "nat \<Rightarrow> nat \<Rightarrow> string" where
  "pad_digits 0 v = ''''"
| "pad_digits (Suc n) v = pad_digits n (v div 10) @ [hex_digit (v mod 10)]"

definition frac_text :: "nat \<Rightarrow> nat \<Rightarrow> string" where
  "frac_text prec v =
     (let ds = rev (dropWhile (\<lambda>c. c = CHR ''0'') (rev (pad_digits prec (v mod 10 ^ prec)))) in
      if ds = '''' then '''' else CHR ''.'' # ds)"

definition micro :: string where
  "micro = [CHR 0xC2, CHR 0xB5]"

definition duration_text :: "duration \<Rightarrow> string" where
  "duration_text d =
     (let u = nat (abs d);
          body =
            (if u = 0 then ''0s''
             else if u < 1000 then nat_text u @ ''ns''
             else if u < 1000000 then nat_text (u div 1000) @ frac_text 3 u @ micro @ ''s''
             else if u < 1000000000 then nat_text (u div 1000000) @ frac_text 6 u @ ''ms''
             else
               (let secs = u div 1000000000; m = secs div 60; h = m div 60;
                    sec = nat_text (secs mod 60) @ frac_text 9 u @ ''s'' in
                if m = 0 then sec
                else if h = 0 then nat_text (m mod 60) @ ''m'' @ sec
                else nat_text h @ ''h'' @ nat_text (m mod 60) @ ''m'' @ sec)) in
      if d < 0 then CHR ''-'' # body else body)"

section \<open>\<open>time.Time.MarshalJSON\<close>\<close>

text \<open>
  The civil date of a day number (day 0 is 1 January of year 1), by 400-year eras that start in March.
\<close>

definition civil_date :: "int \<Rightarrow> int \<times> int \<times> int" where
  "civil_date day =
     (let z = day + 306; era = z div 146097; doe = z mod 146097;
          yoe = (doe - doe div 1460 + doe div 36524 - doe div 146096) div 365;
          doy = doe - (365 * yoe + yoe div 4 - yoe div 100);
          mp = (5 * doy + 2) div 153;
          d = doy - (153 * mp + 2) div 5 + 1;
          m = (if mp < 10 then mp + 3 else mp - 9) in
      (yoe + era * 400 + (if m \<le> 2 then 1 else 0), m, d))"

definition pad_int :: "nat \<Rightarrow> int \<Rightarrow> string" where
  "pad_int n i = pad_digits n (nat i)"

definition rfc3339 :: "instant \<Rightarrow> string" where
  "rfc3339 t =
     (let ns = t mod 1000000000; s = t div 1000000000; (y, m, d) = civil_date (s div 86400);
          tod = s mod 86400 in
      pad_int 4 y @ ''-'' @ pad_int 2 m @ ''-'' @ pad_int 2 d @ ''T'' @
      pad_int 2 (tod div 3600) @ '':'' @ pad_int 2 (tod div 60 mod 60) @ '':'' @ pad_int 2 (tod mod 60) @
      frac_text 9 (nat ns) @ ''Z'')"

text \<open>\<open>None\<close> is the error of a year outside 0 to 9999.\<close>

definition json_time :: "instant \<Rightarrow> string option" where
  "json_time t =
     (let (y, _, _) = civil_date (t div 1000000000 div 86400) in
      if y < 0 \<or> 9999 < y then None else Some (CHR 0x22 # rfc3339 t @ [CHR 0x22]))"

end
