(* ===== verification/Stub.thy ===== *)
theory Stub
  imports Dispatch Time_Text
begin

text \<open>
  The stub runner of \<open>src/internal/dispatch/queue_river.go\<close>: a job that asks one question half-way and
  completes after the answer.  Contexts are numbers; \<open>cancels\<close> maps a job to the context of the
  delivery that owns its cancellation, and \<open>others_own n\<close> is what other goroutines do to that map
  around the \<open>n\<close>-th database access.
\<close>

record stub = world +
  cancels :: "string \<rightharpoonup> nat"
  owners :: nat
  cancelled :: "nat set"
  others_own :: "nat \<Rightarrow> (string \<rightharpoonup> nat) \<Rightarrow> (string \<rightharpoonup> nat)"
  Duration :: duration

section \<open>Run\<close>

definition stub_claim :: "job \<Rightarrow> (bool \<times> bool) \<times> job" where
  "stub_claim x =
     (if Status x = Queued
      then ((True, PendingInput x \<noteq> ''''), x\<lparr>Status := Running, PendingInput := ''''\<rparr>)
      else ((False, False), x))"

definition stub_ask :: "job \<Rightarrow> unit \<times> job" where
  "stub_ask x = ((), x\<lparr>Status := NeedsInput,
     Question := ''Stub checkpoint: proceed with the default approach?''\<rparr>)"

definition stub_finish :: "duration \<Rightarrow> job \<Rightarrow> unit \<times> job" where
  "stub_finish d x = ((), x\<lparr>Status := Done, ResultDigest := ''Stub job completed after '' @ duration_text d @
     ''. (Wire HERMES_BASE_URL for the real thing.)''\<rparr>)"

text \<open>\<open>fires\<close> says which arm of the \<open>select\<close> between the timer and the context wins.\<close>

definition stub_body :: "bool \<Rightarrow> bool \<Rightarrow> string \<Rightarrow> stub \<Rightarrow> error option \<times> stub" where
  "stub_body fires continuing jobID w =
     (case lookup_job jobID w of
        (Inl e, w) \<Rightarrow> (Some e, w)
      | (Inr current, w) \<Rightarrow>
          if Status current \<noteq> Running then (None, w)
          else let w = PublishJob ''job.running'' jobID (PJob current) w in
            if \<not> fires then (None, w)
            else if \<not> continuing then
              (case update_job jobID stub_ask w of
                 (Inl e, w) \<Rightarrow> (Some e, w)
               | (Inr (_, j), w) \<Rightarrow> (None, PublishJob ''job.needs_input'' jobID (PJob j) w))
            else
              (case update_job jobID (stub_finish (Duration w)) w of
                 (Inl e, w) \<Rightarrow> (Some e, w)
               | (Inr (_, j), w) \<Rightarrow> (None, PublishJob ''job.done'' jobID (PJob j) w)))"

text \<open>The deferred cleanup: cancel the own context, and delete the map's entry only if it is its own.\<close>

definition stub_cleanup :: "string \<Rightarrow> nat \<Rightarrow> stub \<Rightarrow> stub" where
  "stub_cleanup jobID owner w =
     (let m = others_own w (txs w) (cancels w) in
      w\<lparr>cancelled := insert owner (cancelled w),
        cancels := (if m jobID = Some owner then m(jobID := None) else m)\<rparr>)"

definition StubRun :: "bool \<Rightarrow> string \<Rightarrow> stub \<Rightarrow> error option \<times> stub" where
  "StubRun fires jobID w =
     (case update_job jobID stub_claim w of
        (Inl e, w) \<Rightarrow> (Some e, w)
      | (Inr ((claimed, continuing), _), w) \<Rightarrow>
          if \<not> claimed then (None, w)
          else let owner = owners w;
                   w = w\<lparr>cancels := (cancels w)(jobID \<mapsto> owner), owners := Suc owner\<rparr>;
                   (r, w) = stub_body fires continuing jobID w in
            (r, stub_cleanup jobID owner w))"

definition StubReleaseRun :: "string \<Rightarrow> string \<Rightarrow> stub \<Rightarrow> error option \<times> stub" where
  "StubReleaseRun i r w = (None, w)"

definition StubDecideApproval ::
  "string \<Rightarrow> string \<Rightarrow> string \<Rightarrow> string \<Rightarrow> stub \<Rightarrow> (error + job) \<times> stub" where
  "StubDecideApproval i a n d w =
     bindE (lookup_job i w) (\<lambda>j w. (Inl (EText ''stub runner has no pending Hermes approval''), w))"

definition StubCancel :: "string \<Rightarrow> stub \<Rightarrow> stub" where
  "StubCancel i w =
     (case cancels w i of None \<Rightarrow> w | Some c \<Rightarrow> w\<lparr>cancelled := insert c (cancelled w)\<rparr>)"

section \<open>Duplicate deliveries\<close>

lemma keeps_stub:
  "keeps_identity (snd \<circ> stub_claim)" "keeps_identity (snd \<circ> stub_ask)"
  "keeps_identity (snd \<circ> stub_finish d)"
  by (auto simp: stub_claim_def stub_ask_def stub_finish_def)

text \<open>
  A duplicate delivery is harmless: when the job is not queued any more, the stub runner returns
  without an event, keeps the job's status, question and pending input, and leaves the registered
  cancellation callback of the delivery that owns the job alone.
\<close>

lemma stub_duplicate_delivery:
  assumes "find_job i (seen w) = Some x" and "Status x \<noteq> Queued" and "StubRun fires i w = (r, w')"
  shows "cancels w' = cancels w \<and> owners w' = owners w \<and> cancelled w' = cancelled w \<and> pubs w' = pubs w \<and>
    (\<exists>y. find_job i (wdb w') = Some y \<and> Status y = Status x \<and> Question y = Question x \<and>
       PendingInput y = PendingInput x \<and> Approvals y = Approvals x)"
proof -
  obtain r1 w1 where u: "update_job i stub_claim w = (r1, w1)" by fastforce
  have m: "world.more w1 = world.more w" "pubs w1 = pubs w"
    using u update_frame(1,6) [of i stub_claim w] by simp_all
  then have f: "cancels w1 = cancels w" "owners w1 = owners w" "cancelled w1 = cancelled w"
    by (cases w1; cases w; simp)+
  have s: "stub_claim x = ((False, False), x)" using assms(2) by (simp add: stub_claim_def)
  note eff = update_job_effect [OF u keeps_stub(1)]
  have "\<exists>y. find_job i (wdb w1) = Some y \<and> Status y = Status x \<and> Question y = Question x \<and>
       PendingInput y = PendingInput x \<and> Approvals y = Approvals x"
    using eff assms(1) s by auto
  moreover have "w' = w1"
    using assms(3) u eff assms(1) s by (auto simp: StubRun_def split: sum.splits)
  ultimately show ?thesis using f m(2) by simp
qed

text \<open>A stub world with one queued job and a board that cancels it before access number \<open>n\<close>.\<close>

definition demo_stub_job :: job where
  "demo_stub_job = \<lparr>jID = ''j'', DisplayName = ''demo'', Task = ''t'', Status = Queued, Question = '''',
     PendingInput = '''', ResultDigest = '''', Error = '''', HermesSessionID = '''',
     HermesRunID = '''', Approvals = [], Progress = None, CreatedAt = 0, UpdatedAt = 0,
     FinishedAt = None, StateVersion = 0\<rparr>"

definition demo_stub :: "nat \<Rightarrow> stub" where
  "demo_stub k = \<lparr>wdb = empty_db\<lparr>jobs := [demo_stub_job]\<rparr>,
     meddle = (\<lambda>n d. if n = k then snd (UpdateJob 7 ''j'' (\<lambda>x. x\<lparr>Status := Cancelled\<rparr>) d) else d),
     dbfault = (\<lambda>_. NoFault), clock = int, txs = 0, freshID = (\<lambda>_. ''k''), lcase = (\<lambda>r. r), pubs = [],
     cancels = Map.empty, owners = 0, cancelled = {}, others_own = (\<lambda>_ m. m), Duration = 10\<rparr>"

text \<open>
  The half-way question is written without looking at the row: a cancellation that commits between
  the timer and this update is overwritten, and the cancelled job waits for input again.
\<close>

lemma stub_overwrites_cancellation:
  "map_option Status (find_job ''j'' (wdb (snd (StubRun True ''j'' (demo_stub 2))))) = Some NeedsInput"
proof -
  have t: "trim_space ''j'' = ''j''"
    by (simp add: trim_space_def trim_seg_def segments.simps decode_rune.simps byte_def is_space_def)
  show ?thesis
    by (simp add: demo_stub_def demo_stub_job_def StubRun_def update_job_def transact_def update_body_def
        UpdateJobTx_def stub_claim_def stub_body_def lookup_job_def query_def ResolveJob_def t find_job_def
        empty_db_def guard_refuses_def note_transition_def put_job_def attentionForTransition_def
        bump_job_def set_columns_def terminal_def stub_ask_def stub_cleanup_def UpdateJob_def Let_def
        insert_attention_def PublishJob_def)
qed

end
