(* ===== verification/Hermes.thy ===== *)
theory Hermes
  imports World
begin

text \<open>
  The Hermes bridge (\<open>src/internal/bridge/hermes.go\<close>): talking to the Runs API, the approval broker and
  the cleanup of upstream runs.  Hermes itself is the argument \<open>http\<close>: the \<open>n\<close>-th request of the
  operation gets the reply \<open>http n\<close>, and every request is recorded in \<open>sent\<close> before its reply is known.
  What the other goroutines do to the bridge's maps before its \<open>n\<close>-th critical section is \<open>stir n\<close>.
\<close>

section \<open>State\<close>

text \<open>
  The maps behind \<open>h.mu\<close>.  An owner of a run is a number; \<open>ownerRun\<close> is its field \<open>runID\<close> and \<open>ended\<close> the
  owners whose context was cancelled.
\<close>

record hmem =
  hcancels :: "string \<rightharpoonup> nat"
  ownerRun :: "nat \<Rightarrow> string"
  ended :: "nat set"
  runIDs :: "string \<Rightarrow> string"
  sessionAllows :: "string \<Rightarrow> string set"
  sessionDenials :: "string \<Rightarrow> string set"

record hermesRunStatus =
  rsRunID :: string
  rsStatus :: string
  rsLastEvent :: string
  rsOutput :: string
  rsError :: string

record chatMsg =
  Role :: string
  Content :: string

text \<open>
  A response body: its text, what \<open>encoding/json\<close> makes of it for the different targets of the bridge,
  and the decoding error for a successful response.  \<open>envelope\<close> is the error object of a failed one.
\<close>

record http_body =
  rawText :: string
  decodeErr :: "error option"
  bResolved :: int
  bStatus :: hermesRunStatus
  bMessages :: "chatMsg list"
  envelope :: "(string \<times> string) option"

datatype http_reply = HTransport error | HReply nat http_body

datatype request_body =
  NoBody
  | EmptyBody
  | ApprovalBody string bool "string option" "string option"
  | RunBody string string string string "chatMsg list"

record hermes = world +
  BaseURL :: string
  hModel :: string
  ApprovalParkAfter :: duration
  StreamIdleAfter :: duration
  mem :: hmem
  stir :: "nat \<Rightarrow> hmem \<Rightarrow> hmem"
  locks :: nat
  http :: "nat \<Rightarrow> http_reply"
  sent :: "(string \<times> string \<times> request_body) list"
  sha256 :: "string \<Rightarrow> string"
  ulids :: "nat \<Rightarrow> string"
  nulid :: nat

text \<open>One critical section of \<open>h.mu\<close>.\<close>

definition with_mu :: "(hmem \<Rightarrow> 'r \<times> hmem) \<Rightarrow> hermes \<Rightarrow> 'r \<times> hermes" where
  "with_mu f w =
     (case f (stir w (locks w) (mem w)) of (r, m) \<Rightarrow> (r, w\<lparr>mem := m, locks := Suc (locks w)\<rparr>))"

definition NewULID :: "hermes \<Rightarrow> string \<times> hermes" where
  "NewULID w = (ulids w (nulid w), w\<lparr>nulid := Suc (nulid w)\<rparr>)"

definition now :: "'a world_scheme \<Rightarrow> instant" where
  "now w = clock w (txs w)"

definition runOwnsState :: "job \<Rightarrow> string \<Rightarrow> bool" where
  "runOwnsState j runID =
     (if HermesRunID j \<noteq> runID then False else Status j = Running \<or> Status j = NeedsApproval)"

definition ownedRunID :: "string \<Rightarrow> hermes \<Rightarrow> string \<times> hermes" where
  "ownedRunID jobID w = with_mu (\<lambda>m. (runIDs m jobID, m)) w"

definition setRunID :: "string \<Rightarrow> nat option \<Rightarrow> string \<Rightarrow> hermes \<Rightarrow> bool \<times> hermes" where
  "setRunID jobID owner runID w =
     with_mu (\<lambda>m.
       case owner of
         None \<Rightarrow> (True, m\<lparr>runIDs := (runIDs m)(jobID := runID)\<rparr>)
       | Some ow \<Rightarrow>
           if hcancels m jobID \<noteq> Some ow then (False, m)
           else (True, m\<lparr>ownerRun := (ownerRun m)(ow := runID), runIDs := (runIDs m)(jobID := runID)\<rparr>)) w"

section \<open>HTTP\<close>

text \<open>\<open>url.PathEscape\<close>.\<close>

definition upper_hex :: "nat \<Rightarrow> char" where
  "upper_hex d = char_of (if d < 10 then 48 + d else 55 + d)"

definition path_safe :: "nat \<Rightarrow> bool" where
  "path_safe b \<longleftrightarrow> 48 \<le> b \<and> b \<le> 57 \<or> 65 \<le> b \<and> b \<le> 90 \<or> 97 \<le> b \<and> b \<le> 122 \<or>
     b \<in> {45, 95, 46, 126, 36, 38, 43, 58, 61, 64}"

definition path_escape :: "string \<Rightarrow> string" where
  "path_escape s = concat (map (\<lambda>c. if path_safe (byte c) then [c]
      else [CHR ''%'', upper_hex (byte c div 16), upper_hex (byte c mod 16)]) s)"

definition run_path :: "string \<Rightarrow> string \<Rightarrow> string" where
  "run_path runID tail = ''/v1/runs/'' @ path_escape runID @ tail"

definition no_status :: hermesRunStatus where
  "no_status = \<lparr>rsRunID = '''', rsStatus = '''', rsLastEvent = '''', rsOutput = '''', rsError = ''''\<rparr>"

definition no_body :: http_body where
  "no_body = \<lparr>rawText = '''', decodeErr = None, bResolved = 0, bStatus = no_status, bMessages = [],
     envelope = None\<rparr>"

definition hermesAPIError :: "nat \<Rightarrow> http_body \<Rightarrow> error" where
  "hermesAPIError status b =
     (let message = trim_space (take 4096 (rawText b)) in
      case envelope b of
        None \<Rightarrow> EApi status '''' message
      | Some (code, msg) \<Rightarrow> EApi status code (if trim_space msg \<noteq> '''' then msg else message))"

text \<open>
  \<open>doJSON\<close>: the error and what was decoded into \<open>out\<close> (the zero value when nothing was); \<open>wants\<close> says
  whether the caller passed an \<open>out\<close>.
\<close>

definition doJSON ::
  "string \<Rightarrow> string \<Rightarrow> request_body \<Rightarrow> bool \<Rightarrow> hermes \<Rightarrow> (error option \<times> http_body) \<times> hermes" where
  "doJSON method path body wants w =
     (let w' = w\<lparr>sent := sent w @ [(method, path, body)]\<rparr> in
      case http w (length (sent w)) of
        HTransport e \<Rightarrow> ((Some e, no_body), w')
      | HReply status b \<Rightarrow>
          if status div 100 \<noteq> 2 then ((Some (hermesAPIError status b), no_body), w')
          else if wants then ((decodeErr b, b), w')
          else ((None, no_body), w'))"

section \<open>Stopping upstream runs\<close>

record terminalCleanup =
  tcInitial :: hermesRunStatus
  tcInitialErr :: "error option"
  tcStopSent :: bool
  tcStopErr :: "error option"
  tcFinal :: hermesRunStatus
  tcFinalErr :: "error option"
  tcTerminal :: bool

definition zero_cleanup :: terminalCleanup where
  "zero_cleanup = \<lparr>tcInitial = no_status, tcInitialErr = None, tcStopSent = False, tcStopErr = None,
     tcFinal = no_status, tcFinalErr = None, tcTerminal = False\<rparr>"

definition cleanup_err :: "terminalCleanup \<Rightarrow> error option" where
  "cleanup_err c =
     (if tcTerminal c then None
      else case tcStopErr c of
        Some e \<Rightarrow> Some e
      | None \<Rightarrow> (case tcFinalErr c of
            Some e \<Rightarrow> (case tcInitialErr c of
                Some e0 \<Rightarrow> Some (EWrap ''stop accepted but terminal Hermes status was not confirmed: '' e
                    ('' (initial status: '' @ err_text e0 @ '')''))
              | None \<Rightarrow> Some (EWrap ''stop accepted but terminal Hermes status was not confirmed: '' e ''''))
          | None \<Rightarrow> Some (EText (''stop accepted but Hermes run remains non-terminal (status='' @
                rsStatus (tcFinal c) @ '')''))))"

definition cleanup_evidence :: "terminalCleanup \<Rightarrow> string" where
  "cleanup_evidence c =
     (if \<not> tcTerminal c then
        ''; upstream stop was not confirmed: '' @ (case cleanup_err c of Some e \<Rightarrow> err_text e | None \<Rightarrow> '''')
      else if \<not> tcStopSent c then ''; upstream was already terminal, so no stop was sent''
      else case tcStopErr c of
        None \<Rightarrow> ''; stop request was accepted and terminal status was confirmed''
      | Some e \<Rightarrow> ''; stop request outcome was not confirmed, but terminal status was confirmed after the stop attempt: ''
          @ err_text e)"

definition terminalHermesRunStatus :: "string \<Rightarrow> bool" where
  "terminalHermesRunStatus s \<longleftrightarrow> s = ''completed'' \<or> s = ''failed'' \<or> s = ''cancelled''"

definition getRunStatus :: "string \<Rightarrow> hermes \<Rightarrow> (hermesRunStatus \<times> error option) \<times> hermes" where
  "getRunStatus runID w =
     (case doJSON ''GET'' (run_path runID '''') NoBody True w of
        ((Some e, b), w) \<Rightarrow> ((bStatus b, Some e), w)
      | ((None, b), w) \<Rightarrow>
          if rsRunID (bStatus b) \<noteq> runID
          then ((bStatus b, Some (EText (''Hermes run status identity mismatch: requested '' @ quoted runID @
                 '', received '' @ quoted (rsRunID (bStatus b))))), w)
          else ((bStatus b, None), w))"

definition stopRun :: "string \<Rightarrow> hermes \<Rightarrow> error option \<times> hermes" where
  "stopRun runID w =
     (if runID = '''' then (None, w)
      else case doJSON ''POST'' (run_path runID ''/stop'') EmptyBody False w of ((e, _), w) \<Rightarrow> (e, w))"

definition stopAndConfirmTerminalOutcome :: "string \<Rightarrow> hermes \<Rightarrow> terminalCleanup \<times> hermes" where
  "stopAndConfirmTerminalOutcome runID w =
     (if runID = '''' then (zero_cleanup\<lparr>tcTerminal := True\<rparr>, w)
      else case getRunStatus runID w of ((st, e), w) \<Rightarrow>
        let c = zero_cleanup\<lparr>tcInitial := st, tcInitialErr := e\<rparr> in
        if e = None \<and> terminalHermesRunStatus (rsStatus st) then (c\<lparr>tcTerminal := True\<rparr>, w)
        else case stopRun runID w of (se, w) \<Rightarrow>
          case getRunStatus runID w of ((st', e'), w) \<Rightarrow>
            (c\<lparr>tcStopSent := True, tcStopErr := se, tcFinal := st', tcFinalErr := e',
               tcTerminal := (e' = None \<and> terminalHermesRunStatus (rsStatus st'))\<rparr>, w))"

definition stopAndConfirmTerminal :: "string \<Rightarrow> hermes \<Rightarrow> error option \<times> hermes" where
  "stopAndConfirmTerminal runID w =
     (case stopAndConfirmTerminalOutcome runID w of (c, w) \<Rightarrow> (cleanup_err c, w))"

text \<open>\<open>cancelOwnedRun\<close>: the predicate and the cancellation in one critical section.\<close>

definition cancelOwnedRun :: "string \<Rightarrow> string \<Rightarrow> hermes \<Rightarrow> hermes" where
  "cancelOwnedRun jobID runID w =
     snd (with_mu (\<lambda>m.
       case hcancels m jobID of
         None \<Rightarrow> ((), m)
       | Some ow \<Rightarrow>
           if ownerRun m ow \<noteq> runIDs m jobID \<or> runID \<noteq> '''' \<and> runIDs m jobID \<noteq> runID then ((), m)
           else ((), m\<lparr>ended := insert ow (ended m)\<rparr>)) w)"

definition ReleaseRun :: "string \<Rightarrow> string \<Rightarrow> hermes \<Rightarrow> error option \<times> hermes" where
  "ReleaseRun jobID runID w =
     (if runID = '''' then (None, w)
      else case stopAndConfirmTerminal runID w of
        (Some e, w) \<Rightarrow> (Some e, w)
      | (None, w) \<Rightarrow> (None, cancelOwnedRun jobID runID w))"

definition HermesCancel :: "string \<Rightarrow> hermes \<Rightarrow> hermes" where
  "HermesCancel jobID w =
     (case ownedRunID jobID w of (r, w) \<Rightarrow>
      case (if r = '''' then (case lookup_job jobID w of (Inr j, w) \<Rightarrow> (HermesRunID j, w) | (Inl e, w) \<Rightarrow> ('''', w))
            else (r, w)) of (runID, w) \<Rightarrow>
      let w = (if runID \<noteq> '''' then snd (doJSON ''POST'' (run_path runID ''/stop'') EmptyBody False w) else w) in
      cancelOwnedRun jobID runID w)"

end
