(* ===== verification/Approvals.thy ===== *)
theory Approvals
  imports Hermes
begin

text \<open>
  The approval broker of \<open>src/internal/bridge/hermes.go\<close>: requests of a running job for authority, the
  operator's decisions, parking, and the record of an outcome nobody can prove.  The lock of an
  approval (\<open>lockApproval\<close>) serialises these operations within a process; across processes only the
  database transitions exclude each other, and the other transactions between them are \<open>meddle\<close>.
\<close>

section \<open>Decisions\<close>

definition DecisionAllowOnce :: string where "DecisionAllowOnce = ''allow_once''"
definition DecisionAllowSession :: string where "DecisionAllowSession = ''allow_session''"
definition DecisionAllowAlways :: string where "DecisionAllowAlways = ''allow_always''"
definition DecisionDenyOnce :: string where "DecisionDenyOnce = ''deny_once''"
definition DecisionDenySession :: string where "DecisionDenySession = ''deny_session''"
definition DecisionDenyAlways :: string where "DecisionDenyAlways = ''deny_always''"
definition DecisionSaferAlternative :: string where "DecisionSaferAlternative = ''use_safer_alternative''"

lemmas decision_defs = DecisionAllowOnce_def DecisionAllowSession_def DecisionAllowAlways_def
  DecisionDenyOnce_def DecisionDenySession_def DecisionDenyAlways_def DecisionSaferAlternative_def

definition api_choice :: "string \<Rightarrow> string option" where
  "api_choice decision =
     (if decision = DecisionAllowOnce then Some ''once''
      else if decision = DecisionAllowSession \<or> decision = DecisionAllowAlways then Some ''once''
      else if decision = DecisionDenyOnce \<or> decision = DecisionDenySession \<or> decision = DecisionDenyAlways
      then Some ''deny''
      else if decision = DecisionSaferAlternative then Some ''safer_alternative''
      else None)"

section \<open>The authority call\<close>

definition approvalRequestBody :: "string \<Rightarrow> bool \<Rightarrow> string \<Rightarrow> string \<Rightarrow> request_body" where
  "approvalRequestBody choice resolveAll requestID idempotencyKey =
     ApprovalBody choice resolveAll (if requestID \<noteq> '''' then Some requestID else None)
       (if idempotencyKey \<noteq> '''' then Some idempotencyKey else None)"

definition postApproval ::
  "string \<Rightarrow> string \<Rightarrow> bool \<Rightarrow> string \<Rightarrow> string \<Rightarrow> hermes \<Rightarrow> error option \<times> hermes" where
  "postApproval runID choice resolveAll requestID idempotencyKey w =
     (case doJSON ''POST'' (run_path runID ''/approval'')
         (approvalRequestBody choice resolveAll requestID idempotencyKey) True w of
        ((Some e, _), w) \<Rightarrow> (Some (EWrap ''resolve Hermes approval: '' e ''''), w)
      | ((None, b), w) \<Rightarrow>
          if bResolved b \<noteq> 1 \<and> \<not> resolveAll
          then (Some (EText (''Hermes resolved '' @ int_text (bResolved b) @ '' approvals, wanted exactly one'')), w)
          else if bResolved b < 1 then (Some (EText ''Hermes reported no approval resolved''), w)
          else (None, w))"

section \<open>Evidence\<close>

definition appendFailureEvidence :: "string \<Rightarrow> job \<Rightarrow> job" where
  "appendFailureEvidence evidence0 j =
     (let evidence = trim_space evidence0 in
      if evidence = '''' \<or> contains (Error j) evidence then j
      else if trim_space (Error j) = '''' then j\<lparr>Error := evidence\<rparr>
      else j\<lparr>Error := Error j @ line_break # ''Previous/resume failure: '' @ evidence\<rparr>)"

text \<open>
  Fencing the approvals of a failed job: the decided one if it is among them, all of them after a lost
  deny-all, else the decided one is added.  The first component is the closure's own copy afterwards.
\<close>

definition mark_indeterminate :: "string \<Rightarrow> approval \<Rightarrow> approval" where
  "mark_indeterminate decision a = a\<lparr>apState := AIndeterminate, apDecision := decision\<rparr>"

definition fence_approvals :: "approval \<Rightarrow> string \<Rightarrow> approval list \<Rightarrow> approval \<times> approval list" where
  "fence_approvals ap decision as =
     (if \<exists>a\<in>set as. apID a = apID ap
      then (ap, map (\<lambda>a. if apID a = apID ap then mark_indeterminate decision a else a) as)
      else if decision = DecisionDenyAlways \<and> as \<noteq> [] then (ap, map (mark_indeterminate decision) as)
      else if apID ap \<noteq> ''''
      then (mark_indeterminate decision ap, as @ [mark_indeterminate decision ap])
      else (ap, as))"

definition record_mut ::
  "string \<Rightarrow> approval \<Rightarrow> string \<Rightarrow> string \<Rightarrow> bool \<Rightarrow> instant \<Rightarrow> job \<Rightarrow> (bool \<times> approval) \<times> job" where
  "record_mut runID ap decision reason terminalOrStopped t x =
     (if \<not> runOwnsState x runID then ((False, ap), x)
      else case fence_approvals ap decision (Approvals x) of (ap', as) \<Rightarrow>
        ((True, ap'), (appendFailureEvidence reason (x\<lparr>Status := Failed\<rparr>))
          \<lparr>Progress := Some \<lparr>prTool = ''approval'',
              prLabel = ''approval outcome indeterminate; resume requires a fresh authority request'',
              prState = approval_state_text AIndeterminate, prUpdatedAt = t\<rparr>,
           Approvals := as,
           HermesRunID := (if terminalOrStopped \<and> HermesRunID x = runID then '''' else HermesRunID x)\<rparr>))"

definition indeterminate_reason :: "string \<Rightarrow> error option \<Rightarrow> terminalCleanup \<Rightarrow> string" where
  "indeterminate_reason decision cause cleanup =
     ''approval outcome indeterminate: authority selected '' @ quoted decision @
     '', but Hermes did not confirm that the decision reached the pending request; no allow or deny was inferred; resume requires a fresh authority request'' @
     (case cause of Some e \<Rightarrow> '': '' @ err_text e | None \<Rightarrow> '''') @
     (if rsStatus (tcInitial cleanup) \<noteq> ''''
      then ''; reconciled Hermes run status='' @ rsStatus (tcInitial cleanup) else '''') @
     (case tcInitialErr cleanup of Some e \<Rightarrow> ''; run status reconciliation failed: '' @ err_text e | None \<Rightarrow> '''') @
     (if rsStatus (tcFinal cleanup) \<noteq> ''''
      then ''; post-stop Hermes run status='' @ rsStatus (tcFinal cleanup) else '''') @
     cleanup_evidence cleanup"

text \<open>
  \<open>recordIndeterminateApproval\<close> returns an error, except that it returns none when the run no longer
  owns the job.
\<close>

definition recordIndeterminateApproval ::
  "string \<Rightarrow> string \<Rightarrow> approval \<Rightarrow> string \<Rightarrow> error option \<Rightarrow> terminalCleanup \<Rightarrow> hermes \<Rightarrow>
   (error + job) \<times> hermes" where
  "recordIndeterminateApproval jobID runID ap decision cause cleanup w =
     (let reason = indeterminate_reason decision cause cleanup in
      case update_job jobID (record_mut runID ap decision reason (tcTerminal cleanup) (now w)) w of
        (Inl e, w) \<Rightarrow> (Inl (EWrap ''record indeterminate approval outcome: '' e ''''), w)
      | (Inr ((transitioned, ap'), j), w) \<Rightarrow>
          if \<not> transitioned then (Inr j, w)
          else (Inl (noRetry (EText reason)),
                PublishJob ''job.failed'' jobID
                  (PDecided (Redacted j) decision (Some ((redact_approval ap')\<lparr>apDecision := decision\<rparr>))) w))"

definition failIndeterminateApproval ::
  "string \<Rightarrow> string \<Rightarrow> approval \<Rightarrow> string \<Rightarrow> error \<Rightarrow> hermes \<Rightarrow> (error + job) \<times> hermes" where
  "failIndeterminateApproval jobID runID ap decision cause w =
     (case stopAndConfirmTerminalOutcome runID w of (cleanup, w) \<Rightarrow>
        recordIndeterminateApproval jobID runID ap decision (Some cause) cleanup w)"

definition failAutomaticApproval ::
  "string \<Rightarrow> string \<Rightarrow> approval \<Rightarrow> string \<Rightarrow> error \<Rightarrow> hermes \<Rightarrow> error option \<times> hermes" where
  "failAutomaticApproval jobID runID ap decision cause w =
     (case failIndeterminateApproval jobID runID ap decision cause w of
        (Inl e, w) \<Rightarrow> (Some e, w)
      | (Inr _, w) \<Rightarrow> (Some (noRetry (EWrap (''automatic approval '' @ quoted decision @
            '' was indeterminate; no allow or deny was inferred: '') cause '''')), w))"

definition reconcileApprovalLifecycleConflict ::
  "string \<Rightarrow> string \<Rightarrow> approval \<Rightarrow> string \<Rightarrow> error \<Rightarrow> hermes \<Rightarrow> (error + job) \<times> hermes" where
  "reconcileApprovalLifecycleConflict jobID runID ap decision apiErr w =
     (case getRunStatus runID w of ((status, statusErr), w) \<Rightarrow>
      case (if statusErr = None \<and> terminalHermesRunStatus (rsStatus status)
            then (zero_cleanup\<lparr>tcInitial := status, tcTerminal := True\<rparr>, w)
            else stopAndConfirmTerminalOutcome runID w) of (cleanup, w) \<Rightarrow>
        recordIndeterminateApproval jobID runID ap decision (Some apiErr) cleanup w)"

section \<open>Parking\<close>

definition ClaimApprovalTx :: "string \<Rightarrow> string \<Rightarrow> string \<Rightarrow> hermes \<Rightarrow> (error + job) \<times> hermes" where
  "ClaimApprovalTx jobID aid nonce w =
     bindE (update_job jobID (\<lambda>x. (pending_match aid nonce x, claim_mut aid nonce x)) w)
       (\<lambda>(claimed, j) w. (if claimed then Inr j else Inl ErrApprovalStale, w))"

definition ParkApprovalTx ::
  "string \<Rightarrow> string \<Rightarrow> string \<Rightarrow> string \<Rightarrow> instant \<Rightarrow> hermes \<Rightarrow> (error + job) \<times> hermes" where
  "ParkApprovalTx jobID aid nonce reason at w =
     bindE (update_job jobID (\<lambda>x. (pending_match aid nonce x, park_mut aid nonce reason at x)) w)
       (\<lambda>(parked, j) w. (if parked then Inr j else Inl ErrApprovalStale, w))"

definition clear_run :: "job_status \<Rightarrow> string \<Rightarrow> job \<Rightarrow> unit \<times> job" where
  "clear_run s runID x =
     ((), if Status x = s \<and> HermesRunID x = runID then x\<lparr>HermesRunID := ''''\<rparr> else x)"

text \<open>The Go function returns the zero job for an empty run id; its callers test the id first.\<close>

definition releaseParkedRunLocked :: "string \<Rightarrow> string \<Rightarrow> hermes \<Rightarrow> (error + job option) \<times> hermes" where
  "releaseParkedRunLocked jobID runID w =
     (if runID = '''' then (Inr None, w)
      else case stopAndConfirmTerminal runID w of
        (Some e, w) \<Rightarrow> (Inl e, w)
      | (None, w) \<Rightarrow>
          bindE (update_job jobID (clear_run ParkedApproval runID) w) (\<lambda>(_, j) w. (Inr (Some j), w)))"

definition parkApprovalLocked ::
  "string \<Rightarrow> string \<Rightarrow> string \<Rightarrow> string \<Rightarrow> string \<Rightarrow> hermes \<Rightarrow> (error + job) \<times> hermes" where
  "parkApprovalLocked jobID runID aid nonce reason w =
     bindE (ParkApprovalTx jobID aid nonce reason (now w) w) (\<lambda>j w.
       case (if runID \<noteq> '''' then
               (case releaseParkedRunLocked jobID runID w of
                  (Inr (Some updated), w) \<Rightarrow> (updated, w)
                | (_, w) \<Rightarrow> (j, w))
             else (j, w)) of (j, w) \<Rightarrow>
         (Inr j, PublishJob ''job.approval_parked'' jobID (PJob (Redacted j)) w))"

text \<open>
  The goroutine \<open>retryParkedRunStop\<close> starts after a failed stop: three delayed attempts (1, 5 and 15
  seconds), each under the run's approval lock.
\<close>

fun retryParkedRunStop :: "nat \<Rightarrow> string \<Rightarrow> string \<Rightarrow> hermes \<Rightarrow> hermes" where
  "retryParkedRunStop 0 jobID runID w = w"
| "retryParkedRunStop (Suc n) jobID runID w =
     (case lookup_job jobID w of
        (Inl e, w) \<Rightarrow> retryParkedRunStop n jobID runID w
      | (Inr j, w) \<Rightarrow>
          if Status j \<noteq> ParkedApproval \<or> HermesRunID j \<noteq> runID then w
          else (case releaseParkedRunLocked jobID runID w of
             (Inr _, w) \<Rightarrow> w
           | (Inl e, w) \<Rightarrow> retryParkedRunStop n jobID runID w))"

end
