(* ===== verification/Broker.thy ===== *)
theory Broker
  imports Approvals Policy
begin

text \<open>
  The two entrances of the approval broker: a request for authority arriving on the event stream
  (\<open>handleApprovalRequest\<close>) and a decision of the operator (\<open>DecideApproval\<close>).
\<close>

section \<open>Standing policies\<close>

definition persistentPolicyKeys :: "hermes \<Rightarrow> string list \<Rightarrow> string list" where
  "persistentPolicyKeys w keys = (''@hermes-instance:'' @ BaseURL w) # keys"

definition matchesSessionAllow :: "string \<Rightarrow> string list \<Rightarrow> hermes \<Rightarrow> string \<times> hermes" where
  "matchesSessionAllow jobID keys w =
     (let hash = ApprovalPatternHash (sha256 w) keys in
      if hash = '''' then ('''', w)
      else with_mu (\<lambda>m. (if hash \<in> sessionAllows m jobID then hash else '''', m)) w)"

definition matchesSessionDenial :: "string \<Rightarrow> string list \<Rightarrow> hermes \<Rightarrow> string \<times> hermes" where
  "matchesSessionDenial jobID keys w =
     (let hash = ApprovalPatternHash (sha256 w) keys in
      if hash = '''' then ('''', w)
      else with_mu (\<lambda>m. (if hash \<in> sessionDenials m jobID then hash else '''', m)) w)"

definition permanent_denial :: "string list \<Rightarrow> hermes \<Rightarrow> (error + string) \<times> hermes" where
  "permanent_denial keys w =
     (if ApprovalPatternHash (sha256 w) keys = '''' then (Inr '''', w)
      else query (\<lambda>d. Inr (MatchesPermanentDenial (sha256 w) keys d)) w)"

definition permanent_allow :: "string list \<Rightarrow> hermes \<Rightarrow> (error + string) \<times> hermes" where
  "permanent_allow keys w =
     (if ApprovalPatternHash (sha256 w) keys = '''' then (Inr '''', w)
      else query (\<lambda>d. Inr (MatchesPermanentAllow (sha256 w) keys d)) w)"

definition save_policy ::
  "((string \<Rightarrow> string) \<Rightarrow> string list \<Rightarrow> string \<Rightarrow> db \<Rightarrow> error option \<times> db) \<Rightarrow> string list \<Rightarrow> string \<Rightarrow>
   hermes \<Rightarrow> error option \<times> hermes" where
  "save_policy save keys jobID w =
     (if ApprovalPatternHash (sha256 w) keys = '''' then (fst (save (sha256 w) keys jobID (wdb w)), w)
      else case transact (\<lambda>e. e) (\<lambda>_ d. case save (sha256 w) keys jobID d of
              (Some e, _) \<Rightarrow> Inl e | (None, d') \<Rightarrow> Inr ((), d')) w of
        (Inl e, w) \<Rightarrow> (Some e, w) | (Inr _, w) \<Rightarrow> (None, w))"

section \<open>A request for authority\<close>

record runEvent =
  reEvent :: string
  reRequestID :: string
  reTool :: string
  rePreview :: string
  reDelta :: string
  reOutput :: string
  reError :: string
  reCommand :: string
  reDescription :: string
  rePatternKey :: string
  rePatternKeys :: "string list"
  reAllowPermanent :: bool

definition request_keys :: "runEvent \<Rightarrow> string list" where
  "request_keys ev =
     (if rePatternKeys ev = [] \<and> rePatternKey ev \<noteq> '''' then [rePatternKey ev] else rePatternKeys ev)"

definition new_approval :: "runEvent \<Rightarrow> hermes \<Rightarrow> approval \<times> hermes" where
  "new_approval ev w =
     (case NewULID w of (i, w) \<Rightarrow> case NewULID w of (nonce, w) \<Rightarrow>
        (\<lparr>apID = i, ProviderRequestID = reRequestID ev, DecisionNonce = nonce, apDecision = '''',
          apState = APending, Command = reCommand ev, Description = reDescription ev,
          PatternKeys = request_keys ev, AllowPermanent = reAllowPermanent ev, RequestedAt = now w,
          ParkedAt = None, ParkReason = ''''\<rparr>, w))"

definition collision_mut :: "string \<Rightarrow> error option \<Rightarrow> job \<Rightarrow> bool \<times> job" where
  "collision_mut runID stopErr x =
     (if \<not> runOwnsState x runID then (False, x)
      else (True, x\<lparr>Status := Failed,
        Error := ''multiple concurrent Hermes approvals could not be correlated safely; all were denied and the run was stopped''
          @ (case stopErr of Some e \<Rightarrow> ''; upstream stop was not confirmed: '' @ err_text e | None \<Rightarrow> ''''),
        Approvals := [],
        HermesRunID := (if stopErr = None then '''' else HermesRunID x)\<rparr>))"

text \<open>
  What a closure noted is known even when the commit then failed; the caller that ignores the error
  of \<open>UpdateJob\<close> still sees it.  \<open>noted\<close> is the note and the row as the closure left it.
\<close>

definition noted :: "string \<Rightarrow> (job \<Rightarrow> 'n \<times> job) \<Rightarrow> hermes \<Rightarrow> ('n \<times> job) option" where
  "noted i mut w =
     (case dbfault w (txs w) of
        FBegin e \<Rightarrow> None
      | _ \<Rightarrow> (case find_job i (seen w) of
            None \<Rightarrow> None
          | Some x \<Rightarrow> Some (fst (mut x), bump_job (now w) (snd (mut x)))))"

definition deny_collision :: "string \<Rightarrow> string \<Rightarrow> approval \<Rightarrow> hermes \<Rightarrow> error option \<times> hermes" where
  "deny_collision jobID runID ap w =
     (case postApproval runID ''deny'' True '''' '''' w of
        (Some denyErr, w) \<Rightarrow> failAutomaticApproval jobID runID ap DecisionDenyAlways denyErr w
      | (None, w) \<Rightarrow>
          (case stopAndConfirmTerminal runID w of (stopErr, w) \<Rightarrow>
           let n = noted jobID (collision_mut runID stopErr) w;
               w = snd (update_job jobID (collision_mut runID stopErr) w);
               w = (case n of
                      Some (True, j) \<Rightarrow> PublishJob ''job.failed'' jobID (PJob (Redacted j)) w
                    | _ \<Rightarrow> w) in
           (Some (noRetry (case stopErr of
              Some e \<Rightarrow> EWrap ''approval collision; all approvals denied but run cleanup was not confirmed: '' e ''''
            | None \<Rightarrow> EText ''approval collision; all approvals denied and run stopped'')), w)))"

text \<open>An automatic decision: the call, and the event once it is confirmed.\<close>

definition auto_decide ::
  "string \<Rightarrow> string \<Rightarrow> approval \<Rightarrow> string \<Rightarrow> string \<Rightarrow> string \<Rightarrow> string \<Rightarrow> hermes \<Rightarrow> error option \<times> hermes" where
  "auto_decide jobID runID ap choice kind decision matched w =
     (case postApproval runID choice False (ProviderRequestID ap) (apID ap) w of
        (Some e, w) \<Rightarrow> failAutomaticApproval jobID runID ap decision e w
      | (None, w) \<Rightarrow> (None, PublishJob kind jobID (PAuto decision matched (redact_approval ap)) w))"

definition admit_mut :: "string \<Rightarrow> approval \<Rightarrow> job \<Rightarrow> bool \<times> job" where
  "admit_mut runID ap x =
     (if runOwnsState x runID
      then (True, x\<lparr>Approvals := Approvals x @ [ap], Status := NeedsApproval, Progress := None\<rparr>)
      else (False, x))"

definition admit_request :: "string \<Rightarrow> string \<Rightarrow> approval \<Rightarrow> hermes \<Rightarrow> error option \<times> hermes" where
  "admit_request jobID runID ap w =
     (case update_job jobID (admit_mut runID ap) w of
        (Inl e, w) \<Rightarrow> (Some e, w)
      | (Inr (admitted, j), w) \<Rightarrow>
          if \<not> admitted then (Some (noRetry ErrRunSuperseded), w)
          else (None, PublishJob ''job.needs_approval'' jobID (PJob (Redacted j)) w))"

text \<open>The second half of \<open>handleApprovalRequest\<close>: standing allows, then the operator.\<close>

definition consult_allows :: "string \<Rightarrow> string \<Rightarrow> runEvent \<Rightarrow> approval \<Rightarrow> hermes \<Rightarrow> error option \<times> hermes" where
  "consult_allows jobID runID ev ap w =
     (let keys = request_keys ev in
      case matchesSessionAllow jobID keys w of (matched, w) \<Rightarrow>
      if matched \<noteq> ''''
      then auto_decide jobID runID ap ''once'' ''job.approval_auto_allowed'' DecisionAllowSession matched w
      else case permanent_allow (persistentPolicyKeys w keys) w of
        (Inl e, w) \<Rightarrow> (Some e, w)
      | (Inr matched, w) \<Rightarrow>
        if matched \<noteq> '''' \<and> reAllowPermanent ev
        then auto_decide jobID runID ap ''once'' ''job.approval_auto_allowed'' DecisionAllowAlways matched w
        else admit_request jobID runID ap w)"

definition handleApprovalRequest :: "string \<Rightarrow> string \<Rightarrow> runEvent \<Rightarrow> hermes \<Rightarrow> error option \<times> hermes" where
  "handleApprovalRequest jobID runID ev w =
     (case new_approval ev w of (ap, w) \<Rightarrow>
      let keys = request_keys ev in
      case lookup_job jobID w of
        (Inl e, w) \<Rightarrow> (Some e, w)
      | (Inr existing, w) \<Rightarrow>
        if Approvals existing \<noteq> [] then deny_collision jobID runID ap w
        else case matchesSessionDenial jobID keys w of (matched, w) \<Rightarrow>
        if matched \<noteq> ''''
        then auto_decide jobID runID ap ''deny'' ''job.approval_auto_denied'' DecisionDenySession matched w
        else case permanent_denial (persistentPolicyKeys w keys) w of
          (Inl e, w) \<Rightarrow> (Some e, w)
        | (Inr matched, w) \<Rightarrow>
          if matched \<noteq> ''''
          then auto_decide jobID runID ap ''deny'' ''job.approval_auto_denied'' DecisionDenyAlways matched w
          else consult_allows jobID runID ev ap w)"

section \<open>A decision of the operator\<close>

definition invalid_decision :: "string \<Rightarrow> error" where
  "invalid_decision d = EText (''invalid approval decision '' @ quoted d)"

definition resolve_mut :: "string \<Rightarrow> string \<Rightarrow> instant \<Rightarrow> job \<Rightarrow> bool \<times> job" where
  "resolve_mut runID decision t x =
     (if \<not> runOwnsState x runID then (False, x)
      else let x = x\<lparr>Approvals := [], Status := Running\<rparr> in
        (True, if decision = DecisionSaferAlternative
               then x\<lparr>Progress := Some \<lparr>prTool = ''approval'',
                  prLabel = ''operator denied the proposed mechanism and requested a safer native or managed alternative'',
                  prState = ''safer_alternative'', prUpdatedAt = t\<rparr>\<rparr>
               else x))"

text \<open>Everything before the claim: the guards on the snapshot read under the approval lock.\<close>

definition reusable_decision :: "string \<Rightarrow> bool" where
  "reusable_decision d \<longleftrightarrow> d = DecisionAllowSession \<or> d = DecisionAllowAlways \<or>
     d = DecisionDenySession \<or> d = DecisionDenyAlways"

definition parked_without_decision :: "job \<Rightarrow> string \<Rightarrow> error" where
  "parked_without_decision j why =
     EText (''job '' @ quoted (DisplayName j) @ '' approval was parked without decision because '' @ why)"

definition validate_decision ::
  "string \<Rightarrow> string \<Rightarrow> string \<Rightarrow> string \<Rightarrow> hermes \<Rightarrow> (error + approval) \<times> hermes" where
  "validate_decision jobID approvalID nonce decision w =
     bindE (lookup_job jobID w) (\<lambda>j0 w.
     bindE (lookup_job jobID w) (\<lambda>j w.
       if HermesRunID j \<noteq> HermesRunID j0
       then (Inl (EText ''approval run changed while waiting for authority lock''), w)
       else if Status j \<noteq> NeedsApproval \<or> length (Approvals j) \<noteq> 1
       then (Inl (EText (''job '' @ quoted (DisplayName j) @ '' does not have exactly one pending approval'')), w)
       else let current = hd (Approvals j) in
       if apID current \<noteq> approvalID \<or> DecisionNonce current \<noteq> nonce \<or> apState current \<noteq> APending
       then (Inl (EText ''stale, replayed, or mismatched approval decision''), w)
       else if HermesRunID j = '''' then
         bindE (parkApprovalLocked jobID '''' approvalID nonce ''approval had no active upstream run'' w)
           (\<lambda>_ w. (Inl (parked_without_decision j ''no active Hermes run remained''), w))
       else case ownedRunID jobID w of (owned, w) \<Rightarrow>
       if owned \<noteq> HermesRunID j then
         bindE (parkApprovalLocked jobID (HermesRunID j) approvalID nonce
             ''approval run was no longer owned by this process'' w)
           (\<lambda>_ w. (Inl (parked_without_decision j ''its run was no longer owned''), w))
       else if reusable_decision decision \<and> ApprovalPatternHash (sha256 w) (PatternKeys current) = ''''
       then (Inl (EText ''this approval has no reusable pattern scope; choose allow_once or deny_once''), w)
       else if decision = DecisionAllowAlways \<and> \<not> AllowPermanent current
       then (Inl (EText ''Hermes marked this request ineligible for permanent approval''), w)
       else (Inr current, w)))"

definition remember_session :: "bool \<Rightarrow> string \<Rightarrow> string list \<Rightarrow> hermes \<Rightarrow> hermes" where
  "remember_session allow jobID keys w =
     (let h = ApprovalPatternHash (sha256 w) keys in
      snd (with_mu (\<lambda>m. ((),
        if allow then m\<lparr>sessionAllows := (sessionAllows m)(jobID := insert h (sessionAllows m jobID))\<rparr>
        else m\<lparr>sessionDenials := (sessionDenials m)(jobID := insert h (sessionDenials m jobID))\<rparr>)) w))"

definition conflict_error :: "error \<Rightarrow> bool" where
  "conflict_error e =
     (case err_api e of
        None \<Rightarrow> False
      | Some (status, code, msg) \<Rightarrow> status = 409 \<and>
          (code = ''approval_not_pending'' \<or> code = ''approval_not_active'' \<or> code = ''approval_request_mismatch''))"

definition finish_decision ::
  "string \<Rightarrow> string \<Rightarrow> approval \<Rightarrow> string \<Rightarrow> error option \<Rightarrow> hermes \<Rightarrow> (error + job) \<times> hermes" where
  "finish_decision jobID runID current decision policyErr w =
     bindE (update_job jobID (resolve_mut runID decision (now w)) w) (\<lambda>(resolved, j) w.
       if \<not> resolved then (Inr j, w)
       else let w = PublishJob ''job.approval_resolved'' jobID
                (PDecided (Redacted j) decision (Some (redact_approval current))) w in
         case policyErr of
           None \<Rightarrow> (Inr j, w)
         | Some e \<Rightarrow>
             (Inl (EWrap (if decision = DecisionAllowAlways
                then ''current request allowed once, but permanent allow policy was not saved: ''
                else ''current request denied, but permanent deny policy was not saved: '') e ''''), w))"

text \<open>After the authority call: reconcile an unconfirmed one, or record the policy and resume the job.\<close>

definition settle_decision ::
  "string \<Rightarrow> string \<Rightarrow> approval \<Rightarrow> string \<Rightarrow> error option \<Rightarrow> error option \<Rightarrow> hermes \<Rightarrow> (error + job) \<times> hermes" where
  "settle_decision jobID runID current decision policyErr res w =
     (case res of
        Some e \<Rightarrow>
          (if conflict_error e
           then reconcileApprovalLifecycleConflict jobID runID current decision
             (case err_api e of Some (st, code, msg) \<Rightarrow> EApi st code msg | None \<Rightarrow> e) w
           else failIndeterminateApproval jobID runID current decision e w)
      | None \<Rightarrow>
          (case (if decision = DecisionAllowAlways
                 then save_policy SavePermanentAllows (persistentPolicyKeys w (PatternKeys current)) jobID w
                 else (policyErr, w)) of (policyErr, w) \<Rightarrow>
           let w = (if decision = DecisionAllowSession
                    then remember_session True jobID (PatternKeys current) w else w) in
           finish_decision jobID runID current decision policyErr w))"

definition HermesDecideApproval ::
  "string \<Rightarrow> string \<Rightarrow> string \<Rightarrow> string \<Rightarrow> hermes \<Rightarrow> (error + job) \<times> hermes" where
  "HermesDecideApproval jobID approvalID nonce decision w =
     (case api_choice decision of
        None \<Rightarrow> (Inl (invalid_decision decision), w)
      | Some apiChoice \<Rightarrow>
          bindE (validate_decision jobID approvalID nonce decision w) (\<lambda>current w.
          bindE (ClaimApprovalTx jobID approvalID nonce w) (\<lambda>j w.
            let w = (if decision = DecisionDenySession
                     then remember_session False jobID (PatternKeys current) w else w) in
            case (if decision = DecisionDenyAlways
                  then save_policy SavePermanentDenials (persistentPolicyKeys w (PatternKeys current)) jobID w
                  else (None, w)) of (policyErr, w) \<Rightarrow>
            case postApproval (HermesRunID j) apiChoice False (ProviderRequestID current) (apID current) w of
              (res, w) \<Rightarrow> settle_decision jobID (HermesRunID j) current decision policyErr res w)))"

end
