(* ===== verification/Broker_Demo.thy ===== *)
theory Broker_Demo
  imports Broker
begin

text \<open>
  Concrete worlds for the theorems about the approval broker, and the rules that evaluate its
  operations on them.
\<close>

definition demo_ap :: approval where
  "demo_ap = \<lparr>apID = ''a'', ProviderRequestID = ''q'', DecisionNonce = ''n'', apDecision = '''',
     apState = APending, Command = ''rm'', Description = ''clean'', PatternKeys = [''rm''],
     AllowPermanent = True, RequestedAt = 1, ParkedAt = None, ParkReason = ''''\<rparr>"

definition demo_run_job :: job where
  "demo_run_job = \<lparr>jID = ''j'', DisplayName = ''demo'', Task = ''t'', Status = NeedsApproval, Question = '''',
     PendingInput = '''', ResultDigest = '''', Error = '''', HermesSessionID = ''j'',
     HermesRunID = ''r'', Approvals = [demo_ap], Progress = None, CreatedAt = 0, UpdatedAt = 0,
     FinishedAt = None, StateVersion = 3\<rparr>"

text \<open>A process that owns run \<open>r\<close> of the job; Hermes confirms every call.\<close>

definition demo_hermes :: hermes where
  "demo_hermes = \<lparr>wdb = empty_db\<lparr>jobs := [demo_run_job]\<rparr>, meddle = (\<lambda>_ d. d), dbfault = (\<lambda>_. NoFault),
     clock = int, txs = 0, freshID = (\<lambda>_. ''k''), lcase = (\<lambda>r. r), pubs = [],
     BaseURL = ''h'', hModel = ''m'', ApprovalParkAfter = 0, StreamIdleAfter = 0,
     mem = \<lparr>hcancels = [''j'' \<mapsto> 0], ownerRun = (\<lambda>_. ''r''), ended = {}, runIDs = (\<lambda>_. ''r''),
       sessionAllows = (\<lambda>_. {}), sessionDenials = (\<lambda>_. {})\<rparr>,
     stir = (\<lambda>_ m. m), locks = 0,
     http = (\<lambda>_. HReply 200 (no_body\<lparr>bResolved := 1,
       bStatus := no_status\<lparr>rsRunID := ''r'', rsStatus := ''completed''\<rparr>\<rparr>)),
     sent = [], sha256 = (\<lambda>t. t), ulids = (\<lambda>n. nat_text n), nulid = 0\<rparr>"

lemma trim_j [simp]: "trim_space ''j'' = ''j''"
  by (simp add: trim_space_def trim_seg_def segments.simps decode_rune.simps byte_def is_space_def)

lemmas store_simps = update_job_def transact_def update_body_def UpdateJobTx_def lookup_job_def query_def
  ResolveJob_def find_job_def empty_db_def guard_refuses_def note_transition_def put_job_def
  attentionForTransition_def bump_job_def set_columns_def terminal_def Let_def insert_attention_def PublishJob_def

lemmas http_simps = doJSON_def no_body_def no_status_def getRunStatus_def stopRun_def

lemmas broker_simps = decision_defs store_simps demo_hermes_def demo_run_job_def demo_ap_def ownedRunID_def
  with_mu_def reusable_decision_def ClaimApprovalTx_def pending_match_def claim_mut_def postApproval_def
  http_simps settle_decision_def finish_decision_def resolve_mut_def runOwnsState_def now_def

lemma demo_decides:
  "\<exists>j w'. HermesDecideApproval ''j'' ''a'' ''n'' DecisionAllowOnce demo_hermes = (Inr j, w') \<and>
     Status j = Running \<and> Approvals j = []"
  by (simp add: HermesDecideApproval_def api_choice_def validate_decision_def broker_simps)

definition demo_event :: runEvent where
  "demo_event = \<lparr>reEvent = ''approval.request'', reRequestID = ''q2'', reTool = '''', rePreview = '''',
     reDelta = '''', reOutput = '''', reError = '''', reCommand = ''rm'', reDescription = '''',
     rePatternKey = ''rm'', rePatternKeys = [], reAllowPermanent = False\<rparr>"

end
