(* ===== verification/Broker_Laws.thy ===== *)
theory Broker_Laws
  imports Broker_Demo Job_Laws
begin

text \<open>
  What the approval broker guarantees: one authority call per consumed nonce, precedence of denials
  over standing allows, no cleared run handle without proof of a terminal upstream run, and no
  transition of a job the run does not own.
\<close>

section \<open>Frames\<close>

lemma more_fields:
  assumes "world.more w' = world.more (w :: hermes)"
  shows "BaseURL w' = BaseURL w" "mem w' = mem w" "stir w' = stir w" "locks w' = locks w"
    "http w' = http w" "sent w' = sent w" "sha256 w' = sha256 w" "ulids w' = ulids w" "nulid w' = nulid w"
    "hModel w' = hModel w"
    "ApprovalParkAfter w' = ApprovalParkAfter w" "StreamIdleAfter w' = StreamIdleAfter w"
  using assms by (cases w; cases w'; simp)+

lemmas query_more [simp] = more_fields [OF query_frame(9)]
lemmas update_more [simp] = more_fields [OF update_frame(6)]
lemmas publish_more [simp] = more_fields [OF publish_frame(9)]
lemmas transact_more [simp] = more_fields [OF transact_frame(8)]

lemma lookup_frame [simp]:
  "pubs (snd (lookup_job ref w)) = pubs w" "lcase (snd (lookup_job ref w)) = lcase w"
  "meddle (snd (lookup_job ref w)) = meddle w" "dbfault (snd (lookup_job ref w)) = dbfault w"
  "clock (snd (lookup_job ref w)) = clock w" "txs (snd (lookup_job ref w)) = Suc (txs w)"
  "wdb (snd (lookup_job ref w)) = seen w" "world.more (snd (lookup_job ref w)) = world.more w"
  by (simp_all add: lookup_job_def)

lemmas lookup_more [simp] = more_fields [OF lookup_frame(8)]

lemma mu_frame [simp]:
  "wdb (snd (with_mu f w)) = wdb w" "txs (snd (with_mu f w)) = txs w" "sent (snd (with_mu f w)) = sent w"
  "pubs (snd (with_mu f w)) = pubs w" "meddle (snd (with_mu f w)) = meddle w"
  "dbfault (snd (with_mu f w)) = dbfault w" "http (snd (with_mu f w)) = http w"
  "sha256 (snd (with_mu f w)) = sha256 w" "BaseURL (snd (with_mu f w)) = BaseURL w"
  "clock (snd (with_mu f w)) = clock w" "lcase (snd (with_mu f w)) = lcase w" "stir (snd (with_mu f w)) = stir w"
  by (simp_all add: with_mu_def split: prod.split)

lemma doJSON_frame [simp]:
  "wdb (snd (doJSON m p b v w)) = wdb w" "txs (snd (doJSON m p b v w)) = txs w"
  "sent (snd (doJSON m p b v w)) = sent w @ [(m, p, b)]" "pubs (snd (doJSON m p b v w)) = pubs w"
  "meddle (snd (doJSON m p b v w)) = meddle w" "dbfault (snd (doJSON m p b v w)) = dbfault w"
  "http (snd (doJSON m p b v w)) = http w" "mem (snd (doJSON m p b v w)) = mem w"
  "stir (snd (doJSON m p b v w)) = stir w" "locks (snd (doJSON m p b v w)) = locks w"
  "clock (snd (doJSON m p b v w)) = clock w" "lcase (snd (doJSON m p b v w)) = lcase w"
  "sha256 (snd (doJSON m p b v w)) = sha256 w" "BaseURL (snd (doJSON m p b v w)) = BaseURL w"
  by (simp_all add: doJSON_def Let_def split: http_reply.split)

text \<open>Operations that only talk to Hermes.\<close>

definition talks :: "hermes \<Rightarrow> hermes \<Rightarrow> bool" where
  "talks w w' \<longleftrightarrow> wdb w' = wdb w \<and> txs w' = txs w \<and> pubs w' = pubs w \<and> meddle w' = meddle w \<and>
     dbfault w' = dbfault w \<and> http w' = http w \<and> clock w' = clock w \<and> lcase w' = lcase w \<and>
     sha256 w' = sha256 w \<and> BaseURL w' = BaseURL w \<and> mem w' = mem w \<and> stir w' = stir w \<and>
     locks w' = locks w \<and> (\<exists>more. sent w' = sent w @ more)"

lemma talks_refl [simp]: "talks w w"
  by (simp add: talks_def)

lemma talks_trans: "talks w w1 \<Longrightarrow> talks w1 w2 \<Longrightarrow> talks w w2"
  by (auto simp: talks_def)

lemma talks_doJSON: "doJSON m p b v w = (r, w') \<Longrightarrow> talks w w' \<and> sent w' = sent w @ [(m, p, b)]"
  using doJSON_frame [of m p b v w] by (simp add: talks_def)

section \<open>Proof of a terminal run\<close>

text \<open>Reply \<open>n\<close> says that run \<open>runID\<close>, by its own id, has ended.\<close>

definition says_terminal :: "hermes \<Rightarrow> nat \<Rightarrow> string \<Rightarrow> bool" where
  "says_terminal w n runID \<longleftrightarrow>
     (case http w n of
        HReply st b \<Rightarrow> st div 100 = 2 \<and> decodeErr b = None \<and> rsRunID (bStatus b) = runID \<and>
          terminalHermesRunStatus (rsStatus (bStatus b))
      | HTransport e \<Rightarrow> False)"

definition confirmed :: "string \<Rightarrow> hermes \<Rightarrow> hermes \<Rightarrow> bool" where
  "confirmed runID w w' \<longleftrightarrow>
     (\<exists>n. length (sent w) \<le> n \<and> n < length (sent w') \<and> sent w' ! n = (''GET'', run_path runID '''', NoBody) \<and>
        says_terminal w n runID)"

lemma getRunStatus_facts:
  assumes "getRunStatus runID w = ((st, e), w')"
  shows "talks w w' \<and> sent w' = sent w @ [(''GET'', run_path runID '''', NoBody)] \<and>
    (e = None \<and> terminalHermesRunStatus (rsStatus st) \<longrightarrow> says_terminal w (length (sent w)) runID)"
  using assms
  by (cases "doJSON ''GET'' (run_path runID '''') NoBody True w")
    (auto simp: getRunStatus_def says_terminal_def doJSON_def Let_def talks_def
      split: option.splits if_splits http_reply.splits)

lemma stopRun_facts:
  assumes "stopRun runID w = (e, w')"
  shows "talks w w' \<and> (sent w' = sent w \<or> sent w' = sent w @ [(''POST'', run_path runID ''/stop'', EmptyBody)])"
  using assms talks_doJSON [of "''POST''" "run_path runID ''/stop''" EmptyBody False w]
  by (auto simp: stopRun_def split: if_splits prod.splits)

text \<open>The requests of a cleanup: status reads and stops, never an approval.\<close>

definition cleanup_request :: "string \<Rightarrow> string \<times> string \<times> request_body \<Rightarrow> bool" where
  "cleanup_request runID q \<longleftrightarrow>
     q = (''GET'', run_path runID '''', NoBody) \<or> q = (''POST'', run_path runID ''/stop'', EmptyBody)"

lemma stop_outcome_facts:
  assumes "stopAndConfirmTerminalOutcome runID w = (c, w')"
  shows "talks w w' \<and> (\<exists>more. sent w' = sent w @ more \<and> list_all (cleanup_request runID) more) \<and>
    (tcTerminal c \<longrightarrow> runID = '''' \<or> confirmed runID w w')"
proof (cases "runID = ''''")
  case True
  then show ?thesis using assms by (auto simp: stopAndConfirmTerminalOutcome_def intro: exI [of _ "[]"])
next
  case False
  obtain st e w1 where g: "getRunStatus runID w = ((st, e), w1)" by (metis prod.collapse)
  note g1 = getRunStatus_facts [OF g]
  show ?thesis
  proof (cases "e = None \<and> terminalHermesRunStatus (rsStatus st)")
    case True
    then have "w' = w1" using assms False g by (auto simp: stopAndConfirmTerminalOutcome_def Let_def)
    then show ?thesis using g1 True
      by (auto simp: confirmed_def cleanup_request_def intro!: exI [of _ "length (sent w)"])
  next
    case nt: False
    obtain se w2 where s: "stopRun runID w1 = (se, w2)" by fastforce
    obtain st' e' w3 where g': "getRunStatus runID w2 = ((st', e'), w3)" by (metis prod.collapse)
    note s1 = stopRun_facts [OF s] and g2 = getRunStatus_facts [OF g']
    have w': "w' = w3" "tcTerminal c = (e' = None \<and> terminalHermesRunStatus (rsStatus st'))"
      using assms False g nt s g' by (auto simp: stopAndConfirmTerminalOutcome_def Let_def)
    have t: "talks w w3" using g1 s1 g2 talks_trans by blast
    have h: "http w2 = http w" using g1 s1 by (simp add: talks_def)
    obtain m where m: "sent w2 = sent w1 @ m" "list_all (cleanup_request runID) m"
      using s1 by (auto simp: cleanup_request_def)
    have s3: "sent w3 = sent w2 @ [(''GET'', run_path runID '''', NoBody)]" using g2 by simp
    have "sent w3 ! length (sent w2) = (''GET'', run_path runID '''', NoBody)"
      unfolding s3 by (rule nth_append_length)
    moreover have "length (sent w) \<le> length (sent w2)" "length (sent w2) < length (sent w3)"
      using g1 m(1) s3 by simp_all
    ultimately have n: "length (sent w) \<le> length (sent w2) \<and> length (sent w2) < length (sent w3) \<and>
      sent w3 ! length (sent w2) = (''GET'', run_path runID '''', NoBody)" by blast
    have "confirmed runID w w3" if "tcTerminal c"
    proof -
      have "says_terminal w2 (length (sent w2)) runID" using that w'(2) g2 by blast
      then have "says_terminal w (length (sent w2)) runID" by (simp add: says_terminal_def h)
      with n show ?thesis unfolding confirmed_def by blast
    qed
    then show ?thesis using t w'(1) g1 g2 m
      by (auto simp: cleanup_request_def)
  qed
qed

lemma cleanup_err_None: "cleanup_err c = None \<longleftrightarrow> tcTerminal c"
  by (auto simp: cleanup_err_def split: option.split)

lemma stop_confirm_facts:
  assumes "stopAndConfirmTerminal runID w = (e, w')"
  shows "talks w w' \<and> (\<exists>more. sent w' = sent w @ more \<and> list_all (cleanup_request runID) more) \<and>
    (e = None \<longrightarrow> runID = '''' \<or> confirmed runID w w')"
proof -
  obtain c where c: "stopAndConfirmTerminalOutcome runID w = (c, w')" "e = cleanup_err c"
    using assms by (auto simp: stopAndConfirmTerminal_def split: prod.splits)
  from stop_outcome_facts [OF c(1)] show ?thesis unfolding c(2) cleanup_err_None .
qed

section \<open>Operations that exercise no authority\<close>

fun is_approval :: "string \<times> string \<times> request_body \<Rightarrow> bool" where
  "is_approval (m, p, ApprovalBody c a r k) = True"
| "is_approval (m, p, b) = False"

text \<open>Same surroundings, and no approval request among the new ones.\<close>

definition noauth :: "hermes \<Rightarrow> hermes \<Rightarrow> bool" where
  "noauth w w' \<longleftrightarrow> meddle w' = meddle w \<and> dbfault w' = dbfault w \<and> http w' = http w \<and> stir w' = stir w \<and>
     sha256 w' = sha256 w \<and> BaseURL w' = BaseURL w \<and> clock w' = clock w \<and> lcase w' = lcase w \<and>
     (\<exists>more. sent w' = sent w @ more \<and> list_all (\<lambda>q. \<not> is_approval q) more)"

lemma noauth_refl [simp]: "noauth w w"
  by (auto simp: noauth_def)

lemma noauth_trans [trans]: "noauth w w1 \<Longrightarrow> noauth w1 w2 \<Longrightarrow> noauth w w2"
  unfolding noauth_def by (elim conjE exE) (intro conjI, simp_all)

lemma noauth_same:
  "world.more w' = world.more w \<Longrightarrow> meddle w' = meddle w \<Longrightarrow> dbfault w' = dbfault w \<Longrightarrow>
   clock w' = clock w \<Longrightarrow> lcase w' = lcase w \<Longrightarrow> noauth w w'"
  using more_fields [of w' w] by (simp add: noauth_def)

lemma update_frame2 [simp]:
  "clock (snd (update_job i mut w)) = clock w" "freshID (snd (update_job i mut w)) = freshID w"
  by (simp_all add: update_job_def)

lemma noauth_update: "update_job i mut w = (r, w') \<Longrightarrow> noauth w w'"
  using update_frame [of i mut w] update_frame2 [of i mut w] by (intro noauth_same) simp_all

lemma noauth_lookup: "lookup_job i w = (r, w') \<Longrightarrow> noauth w w'"
  using lookup_frame [of i w] by (intro noauth_same) simp_all

lemma noauth_query: "query f w = (r, w') \<Longrightarrow> noauth w w'"
  using query_frame [of f w] by (intro noauth_same) simp_all

lemma noauth_transact: "transact wr f w = (r, w') \<Longrightarrow> noauth w w'"
  using transact_frame [of wr f w] by (intro noauth_same) simp_all

lemma noauth_publish [simp]: "noauth w (PublishJob k i p w)"
  by (intro noauth_same) simp_all

lemma noauth_mu: "with_mu f w = (r, w') \<Longrightarrow> noauth w w'"
  using mu_frame [of f w] by (simp add: noauth_def)

lemma noauth_ulid: "NewULID w = (i, w') \<Longrightarrow> noauth w w'"
  by (auto simp: NewULID_def noauth_def)

lemma cleanup_not_approval: "cleanup_request runID q \<Longrightarrow> \<not> is_approval q"
  by (auto simp: cleanup_request_def)

lemma noauth_talks:
  "talks w w' \<Longrightarrow> \<exists>more. sent w' = sent w @ more \<and> list_all (cleanup_request runID) more \<Longrightarrow> noauth w w'"
  by (auto simp: talks_def noauth_def list_all_iff dest: cleanup_not_approval)

lemma noauth_stop_outcome: "stopAndConfirmTerminalOutcome runID w = (c, w') \<Longrightarrow> noauth w w'"
  using stop_outcome_facts noauth_talks by blast

lemma noauth_stop_confirm: "stopAndConfirmTerminal runID w = (c, w') \<Longrightarrow> noauth w w'"
  using stop_confirm_facts noauth_talks by blast

lemma noauth_status: "getRunStatus runID w = (r, w') \<Longrightarrow> noauth w w'"
  using getRunStatus_facts [of runID w "fst r" "snd r" w']
  by (intro noauth_talks [of _ _ runID]) (auto simp: cleanup_request_def)

lemmas noauth_steps = noauth_update noauth_lookup noauth_query noauth_transact noauth_mu noauth_ulid
  noauth_stop_outcome noauth_stop_confirm noauth_status

lemma noauth_record: "recordIndeterminateApproval i r ap d cs c w = (x, w') \<Longrightarrow> noauth w w'"
  by (auto simp: recordIndeterminateApproval_def Let_def split: prod.splits sum.splits if_splits
      dest!: noauth_update intro: noauth_trans)

lemma noauth_fail_indet: "failIndeterminateApproval i r ap d cs w = (x, w') \<Longrightarrow> noauth w w'"
  by (auto simp: failIndeterminateApproval_def split: prod.splits
      dest!: noauth_stop_outcome noauth_record intro: noauth_trans)

lemma noauth_fail_auto: "failAutomaticApproval i r ap d cs w = (x, w') \<Longrightarrow> noauth w w'"
  by (auto simp: failAutomaticApproval_def split: prod.splits sum.splits dest!: noauth_fail_indet)

lemma noauth_conflict: "reconcileApprovalLifecycleConflict i r ap d cs w = (x, w') \<Longrightarrow> noauth w w'"
  by (auto simp: reconcileApprovalLifecycleConflict_def split: prod.splits if_splits
      dest!: noauth_stop_outcome noauth_record noauth_status intro: noauth_trans)

lemma noauth_claim: "ClaimApprovalTx i a n w = (x, w') \<Longrightarrow> noauth w w'"
  by (auto simp: ClaimApprovalTx_def bindE_def split: prod.splits sum.splits dest!: noauth_update)

lemma noauth_release: "releaseParkedRunLocked i r w = (x, w') \<Longrightarrow> noauth w w'"
  by (auto simp: releaseParkedRunLocked_def bindE_def split: prod.splits sum.splits if_splits option.splits
      dest!: noauth_update noauth_stop_confirm intro: noauth_trans)

lemma noauth_park: "parkApprovalLocked i r a n why w = (x, w') \<Longrightarrow> noauth w w'"
  by (auto simp: parkApprovalLocked_def ParkApprovalTx_def bindE_def
      split: prod.splits sum.splits if_splits option.splits dest!: noauth_update noauth_release
      intro: noauth_trans)

lemma noauth_validate: "validate_decision i a n d w = (x, w') \<Longrightarrow> noauth w w'"
  by (auto simp: validate_decision_def ownedRunID_def bindE_def Let_def
      split: prod.splits sum.splits if_splits dest!: noauth_lookup noauth_park noauth_mu
      intro: noauth_trans)

lemma noauth_remember: "noauth w (remember_session b i ks w)"
  unfolding remember_session_def Let_def by (rule noauth_mu) (rule prod.collapse [symmetric])

lemma noauth_policy: "save_policy sv ks i w = (x, w') \<Longrightarrow> noauth w w'"
  by (auto simp: save_policy_def split: prod.splits sum.splits if_splits dest!: noauth_transact)

lemma noauth_finish: "finish_decision i r ap d pe w = (x, w') \<Longrightarrow> noauth w w'"
  by (auto simp: finish_decision_def bindE_def Let_def split: prod.splits sum.splits if_splits option.splits
      dest!: noauth_update intro: noauth_trans)

section \<open>One authority call per nonce\<close>

abbreviation approval_posts :: "hermes \<Rightarrow> (string \<times> string \<times> request_body) list" where
  "approval_posts w \<equiv> filter is_approval (sent w)"

lemma noauth_posts: "noauth w w' \<Longrightarrow> approval_posts w' = approval_posts w"
  by (auto simp: noauth_def list_all_iff)

definition approval_call :: "string \<Rightarrow> string \<Rightarrow> bool \<Rightarrow> string \<Rightarrow> string \<Rightarrow> string \<times> string \<times> request_body" where
  "approval_call runID choice resolveAll requestID key =
     (''POST'', run_path runID ''/approval'', approvalRequestBody choice resolveAll requestID key)"

text \<open>Reply \<open>n\<close> confirms an approval call: success, and exactly one resolved (or any, for deny-all).\<close>

definition confirms :: "hermes \<Rightarrow> nat \<Rightarrow> bool \<Rightarrow> bool" where
  "confirms w n resolveAll \<longleftrightarrow>
     (case http w n of
        HReply st b \<Rightarrow> st div 100 = 2 \<and> decodeErr b = None \<and> 1 \<le> bResolved b \<and>
          (resolveAll \<or> bResolved b = 1)
      | HTransport e \<Rightarrow> False)"

lemma postApproval_facts:
  assumes "postApproval runID choice all req key w = (e, w')"
  shows "talks w w' \<and> sent w' = sent w @ [approval_call runID choice all req key] \<and>
    (e = None \<longleftrightarrow> confirms w (length (sent w)) all)"
  using assms doJSON_frame [of "''POST''" "run_path runID ''/approval''" "approvalRequestBody choice all req key" True w]
  by (auto simp: postApproval_def approval_call_def confirms_def talks_def doJSON_def Let_def
      split: option.splits if_splits http_reply.splits)

lemma approval_call_is [simp]: "is_approval (approval_call r c a q k)"
  by (simp add: approval_call_def approvalRequestBody_def)

lemma settle_facts:
  assumes "settle_decision jobID runID current decision pe e w = (r, w')"
  shows "noauth w w' \<and> (\<forall>j'. r = Inr j' \<and> e \<noteq> None \<longrightarrow>
     (\<exists>c cs wr. recordIndeterminateApproval jobID runID current decision cs c wr = (Inr j', w') \<and> noauth w wr))"
proof (cases e)
  case None
  obtain pe' w4 where p: "(if decision = DecisionAllowAlways
      then save_policy SavePermanentAllows (persistentPolicyKeys w (PatternKeys current)) jobID w
      else (pe, w)) = (pe', w4)" by fastforce
  have n4: "noauth w w4" using p by (auto split: if_splits dest: noauth_policy)
  define w5 where "w5 = (if decision = DecisionAllowSession
      then remember_session True jobID (PatternKeys current) w4 else w4)"
  have n5: "noauth w4 w5" by (simp add: w5_def noauth_remember)
  have f: "finish_decision jobID runID current decision pe' w5 = (r, w')"
    using assms None p by (simp add: settle_decision_def w5_def [symmetric])
  show ?thesis using None noauth_trans [OF noauth_trans [OF n4 n5] noauth_finish [OF f]] by simp
next
  case (Some err)
  show ?thesis
  proof (cases "conflict_error err")
    case True
    then show ?thesis using assms Some
      by (auto simp: settle_decision_def dest: noauth_conflict)
        (auto simp: reconcileApprovalLifecycleConflict_def split: if_splits prod.splits
          dest!: noauth_status noauth_stop_outcome intro: noauth_trans; blast intro: noauth_trans)
  next
    case False
    then show ?thesis using assms Some
      by (auto simp: settle_decision_def dest: noauth_fail_indet)
        (auto simp: failIndeterminateApproval_def split: prod.splits dest!: noauth_stop_outcome)
  qed
qed

text \<open>What happens from the claim on.\<close>

lemma decide_cases:
  assumes "HermesDecideApproval jobID aid nonce decision w = (r, w')"
  obtains (before) "noauth w w'" "\<forall>j. r \<noteq> Inr j"
  | (posted) choice current wv wc j wp e wq where "api_choice decision = Some choice"
      "validate_decision jobID aid nonce decision w = (Inr current, wv)"
      "ClaimApprovalTx jobID aid nonce wv = (Inr j, wc)" "noauth wc wp"
      "postApproval (HermesRunID j) choice False (ProviderRequestID current) (apID current) wp = (e, wq)"
      "noauth wq w'" "\<forall>j'. r = Inr j' \<and> e \<noteq> None \<longrightarrow>
         (\<exists>c cs wr. recordIndeterminateApproval jobID (HermesRunID j) current decision cs c wr = (Inr j', w') \<and>
            noauth wq wr)"
proof (cases "api_choice decision")
  case None
  then show ?thesis using assms before by (auto simp: HermesDecideApproval_def)
next
  case (Some choice)
  obtain rv wv where v: "validate_decision jobID aid nonce decision w = (rv, wv)" by fastforce
  note nv = noauth_validate [OF v]
  show ?thesis
  proof (cases rv)
    case (Inl e)
    then show ?thesis using assms Some v nv before by (auto simp: HermesDecideApproval_def)
  next
    case (Inr current)
    obtain rc wc where c: "ClaimApprovalTx jobID aid nonce wv = (rc, wc)" by fastforce
    note nc = noauth_claim [OF c]
    show ?thesis
    proof (cases rc)
      case (Inl e)
      then show ?thesis using assms Some v c nv nc before noauth_trans [OF nv nc] Inr
        by (auto simp: HermesDecideApproval_def)
    next
      case rc: (Inr j)
      define w1 where "w1 = (if decision = DecisionDenySession
                     then remember_session False jobID (PatternKeys current) wc else wc)"
      have n1: "noauth wc w1" by (simp add: w1_def noauth_remember)
      obtain pe w2 where p: "(if decision = DecisionDenyAlways
                  then save_policy SavePermanentDenials (persistentPolicyKeys w1 (PatternKeys current)) jobID w1
                  else (None, w1)) = (pe, w2)" by fastforce
      have n2: "noauth w1 w2" using p by (auto split: if_splits dest: noauth_policy)
      obtain e w3 where q: "postApproval (HermesRunID j) choice False (ProviderRequestID current) (apID current) w2 = (e, w3)"
        by fastforce
      note n12 = noauth_trans [OF n1 n2]
      have f: "settle_decision jobID (HermesRunID j) current decision pe e w3 = (r, w')"
        using assms Some v Inr c rc p q by (simp add: HermesDecideApproval_def w1_def [symmetric])
      from settle_facts [OF f] show ?thesis
        using posted [OF Some v [unfolded Inr] c [unfolded rc] n12 q] by blast
    qed
  qed
qed

lemma validate_facts:
  assumes "validate_decision jobID aid nonce decision w = (Inr current, w')"
  shows "apID current = aid \<and> DecisionNonce current = nonce \<and> apState current = APending \<and>
    (reusable_decision decision \<longrightarrow> ApprovalPatternHash (sha256 w) (PatternKeys current) \<noteq> '''') \<and>
    (decision = DecisionAllowAlways \<longrightarrow> AllowPermanent current)"
proof -
  obtain w1 j0 w2 j where s: "lookup_job jobID w = (Inr j0, w1)" "lookup_job jobID w1 = (Inr j, w2)"
    using assms by (auto simp: validate_decision_def bindE_Inr)
  have sh: "sha256 w2 = sha256 w"
    using s noauth_lookup noauth_trans by (metis noauth_def)
  show ?thesis using assms s sh
    by (auto simp: validate_decision_def ownedRunID_def Let_def bindE_def
        split: if_splits prod.splits sum.splits dest!: noauth_mu) (simp_all add: noauth_def)
qed

lemma keeps_claim: "keeps_identity (claim_mut a n)"
  by (auto simp: claim_mut_def)

lemma claim_facts:
  assumes "ClaimApprovalTx jobID aid nonce w = (Inr j, w')"
  obtains x where "find_job jobID (seen w) = Some x" "pending_match aid nonce x"
    "find_job jobID (wdb w') = Some j" "Status j = NeedsApproval"
    "map apState (Approvals j) = [ASending]" "HermesRunID j = HermesRunID x"
proof -
  let ?m = "\<lambda>x. (pending_match aid nonce x, claim_mut aid nonce x)"
  have u: "update_job jobID ?m w = (Inr (True, j), w')"
    using assms by (auto simp: ClaimApprovalTx_def bindE_def split: prod.splits sum.splits if_splits)
  have k: "keeps_identity (snd \<circ> ?m)" using keeps_claim by (simp add: comp_def)
  obtain x where x: "find_job jobID (seen w) = Some x" "pending_match aid nonce x"
    "j = bump_job (clock w (txs w)) (claim_mut aid nonce x)" "find_job jobID (wdb w') = Some j"
    using update_job_row [OF u k] by auto
  then obtain a where "Approvals x = [a]" "Status x = NeedsApproval"
    by (auto simp: pending_match_def split: list.splits)
  with x show ?thesis using that [of x] by (simp add: claim_mut_def)
qed

text \<open>
  C4. One consumed nonce, one authority call: a decision sends at most one approval request, never a
  deny-all, with the choice its name stands for, to the run of the job and under the approval's id;
  and it sends it only after an atomic claim found that very approval pending under that nonce and
  left it \<open>sending\<close>, so no other decision or parking can win it again.
\<close>

theorem at_most_one_authority_call:
  assumes "HermesDecideApproval jobID aid nonce decision w = (r, w')"
  shows "approval_posts w' = approval_posts w \<or>
    (\<exists>choice req x j wv wc.
       api_choice decision = Some choice \<and>
       approval_posts w' = approval_posts w @ [approval_call (HermesRunID j) choice False req aid] \<and>
       ClaimApprovalTx jobID aid nonce wv = (Inr j, wc) \<and> approval_posts wc = approval_posts w \<and>
       find_job jobID (seen wv) = Some x \<and> pending_match aid nonce x \<and> HermesRunID x = HermesRunID j \<and>
       find_job jobID (wdb wc) = Some j \<and> map apState (Approvals j) = [ASending])"
proof (rule decide_cases [OF assms])
  assume "noauth w w'"
  then show ?thesis using noauth_posts by blast
next
  fix choice current wv wc j wp e wq
  assume h: "api_choice decision = Some choice"
    "validate_decision jobID aid nonce decision w = (Inr current, wv)"
    "ClaimApprovalTx jobID aid nonce wv = (Inr j, wc)" "noauth wc wp"
    "postApproval (HermesRunID j) choice False (ProviderRequestID current) (apID current) wp = (e, wq)"
    "noauth wq w'"
  have c: "approval_posts wc = approval_posts w"
    using noauth_posts [OF noauth_trans [OF noauth_validate [OF h(2)] noauth_claim [OF h(3)]]] .
  have "approval_posts w' = approval_posts wc @
      [approval_call (HermesRunID j) choice False (ProviderRequestID current) (apID current)]"
    using noauth_posts [OF h(4)] noauth_posts [OF h(6)] postApproval_facts [OF h(5)] by simp
  moreover have "apID current = aid" using validate_facts [OF h(2)] by blast
  ultimately show ?thesis using c h(1,3) claim_facts [OF h(3)] by metis
qed

lemma at_most_one_authority_call_witness:
  "length (approval_posts (snd (HermesDecideApproval ''j'' ''a'' ''n'' DecisionAllowOnce demo_hermes))) \<le> 1"
proof -
  have "approval_posts demo_hermes = []" by (simp add: demo_hermes_def)
  with at_most_one_authority_call [OF prod.collapse [symmetric], of "''j''" "''a''" "''n''" DecisionAllowOnce
      demo_hermes] show ?thesis by auto
qed

lemma confirms_http: "http w' = http w \<Longrightarrow> confirms w' n a = confirms w n a"
  by (simp add: confirms_def)

lemma evidence_frame [simp]:
  "jID (appendFailureEvidence e j) = jID j" "Task (appendFailureEvidence e j) = Task j"
  "CreatedAt (appendFailureEvidence e j) = CreatedAt j" "Status (appendFailureEvidence e j) = Status j"
  "StateVersion (appendFailureEvidence e j) = StateVersion j"
  "HermesRunID (appendFailureEvidence e j) = HermesRunID j"
  "Approvals (appendFailureEvidence e j) = Approvals j"
  by (simp_all add: appendFailureEvidence_def Let_def)

lemma record_mut_row:
  "fst (fst (record_mut r a d re tm t x)) = runOwnsState x r"
  "\<not> runOwnsState x r \<Longrightarrow> snd (record_mut r a d re tm t x) = x"
  "runOwnsState x r \<Longrightarrow> snd (record_mut r a d re tm t x) =
     (appendFailureEvidence re (x\<lparr>Status := Failed\<rparr>))\<lparr>Progress := Some \<lparr>prTool = ''approval'',
        prLabel = ''approval outcome indeterminate; resume requires a fresh authority request'',
        prState = approval_state_text AIndeterminate, prUpdatedAt = t\<rparr>,
      Approvals := snd (fence_approvals a d (Approvals x)),
      HermesRunID := (if tm \<and> HermesRunID x = r then '''' else HermesRunID x)\<rparr>"
  by (simp_all add: record_mut_def case_prod_beta)

lemma keeps_record: "keeps_identity (snd \<circ> record_mut r a d re tm t)"
proof (rule keeps_identityI)
  fix x
  show "jID ((snd \<circ> record_mut r a d re tm t) x) = jID x"
    "Task ((snd \<circ> record_mut r a d re tm t) x) = Task x"
    "CreatedAt ((snd \<circ> record_mut r a d re tm t) x) = CreatedAt x"
    "StateVersion ((snd \<circ> record_mut r a d re tm t) x) = StateVersion x"
    by (cases "runOwnsState x r"; simp add: record_mut_row)+
qed

lemma record_Inr:
  assumes "recordIndeterminateApproval jobID runID ap d cs c w = (Inr j, w')"
  shows "\<not> runOwnsState j runID \<and> find_job jobID (wdb w') = Some j"
proof -
  have u: "\<exists>a. update_job jobID (record_mut runID ap d (indeterminate_reason d cs c) (tcTerminal c) (now w)) w =
      (Inr ((False, a), j), w')"
    using assms by (auto simp: recordIndeterminateApproval_def Let_def
        split: prod.splits sum.splits if_splits)
  then obtain a where u: "update_job jobID (record_mut runID ap d (indeterminate_reason d cs c) (tcTerminal c) (now w)) w =
      (Inr ((False, a), j), w')" by blast
  from update_job_row [OF u keeps_record] obtain x where
    x: "(False, a) = fst (record_mut runID ap d (indeterminate_reason d cs c) (tcTerminal c) (now w) x)"
      "j = bump_job (clock w (txs w)) (snd (record_mut runID ap d (indeterminate_reason d cs c) (tcTerminal c) (now w) x))"
      "find_job jobID (wdb w') = Some j" by metis
  have "\<not> runOwnsState x runID" using x(1) record_mut_row(1) by (metis fst_conv)
  then have "j = bump_job (clock w (txs w)) x" using x(2) by (simp add: record_mut_row)
  with \<open>\<not> runOwnsState x runID\<close> x(3) show ?thesis by (auto simp: runOwnsState_def split: if_splits)
qed

text \<open>
  C9. A decision that Hermes did not confirm is never reported as carried out while the job is still
  its run's: \<open>DecideApproval\<close> succeeds only after a reply that resolved exactly one approval, or when the
  job has meanwhile left the run (cancelled, parked, failed or taken over), whose row is then returned.
\<close>

theorem unconfirmed_decision_not_successful:
  assumes "HermesDecideApproval jobID aid nonce decision w = (Inr j', w')"
  shows "\<exists>n choice runID req. length (sent w) \<le> n \<and> n < length (sent w') \<and>
    sent w' ! n = approval_call runID choice False req aid \<and> api_choice decision = Some choice \<and>
    (confirms w n False \<or> \<not> runOwnsState j' runID \<and> find_job jobID (wdb w') = Some j')"
proof (rule decide_cases [OF assms])
  assume "\<forall>j. Inr j' \<noteq> (Inr j :: error + job)"
  then show ?thesis by blast
next
  fix choice current wv wc j wp e wq
  assume h: "api_choice decision = Some choice"
    "validate_decision jobID aid nonce decision w = (Inr current, wv)"
    "ClaimApprovalTx jobID aid nonce wv = (Inr j, wc)" "noauth wc wp"
    "postApproval (HermesRunID j) choice False (ProviderRequestID current) (apID current) wp = (e, wq)"
    "noauth wq w'"
    "\<forall>ja. Inr j' = Inr ja \<and> e \<noteq> None \<longrightarrow>
       (\<exists>c cs wr. recordIndeterminateApproval jobID (HermesRunID j) current decision cs c wr = (Inr ja, w') \<and>
          noauth wq wr)"
  have n: "noauth w wp"
    using noauth_trans [OF noauth_trans [OF noauth_validate [OF h(2)] noauth_claim [OF h(3)]] h(4)] .
  then obtain m where m: "sent wp = sent w @ m" "http wp = http w" by (auto simp: noauth_def)
  obtain m' where m': "sent w' = sent wq @ m'" using h(6) by (auto simp: noauth_def)
  note p = postApproval_facts [OF h(5)]
  have a: "apID current = aid" using validate_facts [OF h(2)] by blast
  have s: "sent w' ! length (sent wp) = approval_call (HermesRunID j) choice False (ProviderRequestID current) aid"
    using p a unfolding m' by (simp add: nth_append)
  have l: "length (sent w) \<le> length (sent wp)" "length (sent wp) < length (sent w')"
    using m(1) p m' by simp_all
  have "confirms w (length (sent wp)) False \<or> \<not> runOwnsState j' (HermesRunID j) \<and> find_job jobID (wdb w') = Some j'"
  proof (cases e)
    case None
    then show ?thesis using p confirms_http [OF m(2)] by simp
  next
    case (Some err)
    then show ?thesis using h(7) record_Inr by blast
  qed
  with s l h(1) show ?thesis by blast
qed

lemma unconfirmed_decision_not_successful_witness:
  "\<exists>n choice runID req.
     sent (snd (HermesDecideApproval ''j'' ''a'' ''n'' DecisionAllowOnce demo_hermes)) ! n =
       approval_call runID choice False req ''a''"
proof -
  obtain j w' where d: "HermesDecideApproval ''j'' ''a'' ''n'' DecisionAllowOnce demo_hermes = (Inr j, w')"
    using demo_decides by blast
  from unconfirmed_decision_not_successful [OF d] show ?thesis unfolding d by auto
qed

end
