(* ===== verification/Broker_Safety.thy ===== *)
theory Broker_Safety
  imports Broker_Laws
begin

text \<open>
  Safety of the approval broker: automatic decisions follow the standing policies with denials
  first, run handles are cleared only on proof, and a cancelled job stays cancelled.
\<close>

section \<open>Automatic decisions\<close>

lemma auto_posts:
  assumes "auto_decide jobID runID ap choice kind decision matched w = (r, w')"
  shows "approval_posts w' = approval_posts w @ [approval_call runID choice False (ProviderRequestID ap) (apID ap)]"
proof -
  obtain e w1 where p: "postApproval runID choice False (ProviderRequestID ap) (apID ap) w = (e, w1)" by fastforce
  have n: "noauth w1 w'" using assms p
    by (auto simp: auto_decide_def split: option.splits dest: noauth_fail_auto)
  show ?thesis using noauth_posts [OF n] postApproval_facts [OF p] by simp
qed

lemma collision_posts:
  assumes "deny_collision jobID runID ap w = (r, w')"
  shows "approval_posts w' = approval_posts w @ [approval_call runID ''deny'' True '''' '''']"
proof -
  obtain e w1 where p: "postApproval runID ''deny'' True '''' '''' w = (e, w1)" by fastforce
  have u: "noauth v (snd (update_job jobID m v))" for v and m :: "job \<Rightarrow> bool \<times> job"
    by (rule noauth_update) (rule prod.collapse [symmetric])
  have n: "noauth w1 w'"
  proof (cases e)
    case None
    obtain se w2 where s: "stopAndConfirmTerminal runID w1 = (se, w2)" by fastforce
    have "noauth (snd (update_job jobID (collision_mut runID se) w2)) w'"
      using assms p None s by (auto simp: deny_collision_def Let_def split: option.split bool.split)
    then show ?thesis using noauth_stop_confirm [OF s] u noauth_trans by blast
  next
    case (Some err)
    then show ?thesis using assms p by (auto simp: deny_collision_def dest: noauth_fail_auto)
  qed
  show ?thesis using noauth_posts [OF n] postApproval_facts [OF p] by simp
qed

lemma admit_posts:
  "admit_request jobID runID ap w = (r, w') \<Longrightarrow> approval_posts w' = approval_posts w"
  by (rule noauth_posts) (auto simp: admit_request_def split: prod.splits sum.splits if_splits
      dest!: noauth_update intro: noauth_trans)

lemma trim_at: "trim_space (CHR ''@'' # t) \<noteq> ''''"
proof -
  have "byte CHR ''@'' = 64" by (simp add: byte_def)
  then have "segments (CHR ''@'' # t) = (64, [CHR ''@'']) # segments t"
    using segments_ascii [of "CHR ''@''" t] by simp
  then have "trim_seg (segments (CHR ''@'' # t)) \<noteq> []"
    by (simp add: trim_seg_def is_space_def dropWhile_append)
  then show ?thesis using segments_eq_Nil segments_trim by metis
qed

lemma instance_scope: "ApprovalPatternHash sha (persistentPolicyKeys w keys) \<noteq> ''''"
  using trim_at [of "''hermes-instance:'' @ BaseURL w"]
  by (auto simp: hash_empty key_scope_def persistentPolicyKeys_def)

text \<open>What the broker looks at, in its order: database and memory at each look.\<close>

abbreviation first_look :: "hermes \<Rightarrow> db" where
  "first_look w \<equiv> seen w"

definition second_look :: "hermes \<Rightarrow> db" where
  "second_look w = meddle w (Suc (txs w)) (first_look w)"

definition third_look :: "hermes \<Rightarrow> db" where
  "third_look w = meddle w (Suc (Suc (txs w))) (second_look w)"

definition first_mem :: "hermes \<Rightarrow> hmem" where
  "first_mem w = stir w (locks w) (mem w)"

definition second_mem :: "hermes \<Rightarrow> hmem" where
  "second_mem w = stir w (Suc (locks w)) (first_mem w)"

definition in_scope :: "(string \<Rightarrow> string) \<Rightarrow> string list \<Rightarrow> string set \<Rightarrow> bool" where
  "in_scope sha keys s \<longleftrightarrow> ApprovalPatternHash sha keys \<noteq> '''' \<and> ApprovalPatternHash sha keys \<in> s"

lemma session_denial_facts:
  "matchesSessionDenial jobID keys w = (m, w') \<Longrightarrow>
   noauth w w' \<and> wdb w' = wdb w \<and> txs w' = txs w \<and>
   (m \<noteq> '''' \<longleftrightarrow> in_scope (sha256 w) keys (sessionDenials (first_mem w) jobID)) \<and>
   (ApprovalPatternHash (sha256 w) keys \<noteq> '''' \<longrightarrow> mem w' = first_mem w \<and> locks w' = Suc (locks w))"
  by (auto simp: matchesSessionDenial_def Let_def in_scope_def first_mem_def with_mu_def noauth_def
      split: if_splits)

lemma session_allow_facts:
  "matchesSessionAllow jobID keys w = (m, w') \<Longrightarrow>
   noauth w w' \<and> wdb w' = wdb w \<and> txs w' = txs w \<and>
   (m \<noteq> '''' \<longleftrightarrow> in_scope (sha256 w) keys (sessionAllows (first_mem w) jobID))"
  by (auto simp: matchesSessionAllow_def Let_def in_scope_def first_mem_def with_mu_def noauth_def
      split: if_splits)

lemma permanent_denial_facts:
  "permanent_denial (persistentPolicyKeys v keys) w = (r, w') \<Longrightarrow>
   noauth w w' \<and> wdb w' = seen w \<and> txs w' = Suc (txs w) \<and> mem w' = mem w \<and> locks w' = locks w \<and>
   (\<forall>m. r = Inr m \<longrightarrow> m = MatchesPermanentDenial (sha256 w) (persistentPolicyKeys v keys) (seen w))"
  using instance_scope [of "sha256 w" v keys] query_frame [of _ w]
  by (auto simp: permanent_denial_def dest: noauth_query) (auto simp: query_def Let_def split: db_fault.splits)

lemma permanent_allow_facts:
  "permanent_allow (persistentPolicyKeys v keys) w = (r, w') \<Longrightarrow>
   noauth w w' \<and>
   (\<forall>m. r = Inr m \<longrightarrow> m = MatchesPermanentAllow (sha256 w) (persistentPolicyKeys v keys) (seen w))"
  using instance_scope [of "sha256 w" v keys]
  by (auto simp: permanent_allow_def dest: noauth_query) (auto simp: query_def Let_def split: db_fault.splits)

lemma new_approval_facts:
  "new_approval ev w = (ap, w') \<Longrightarrow>
   noauth w w' \<and> wdb w' = wdb w \<and> txs w' = txs w \<and> mem w' = mem w \<and> locks w' = locks w \<and>
   ProviderRequestID ap = reRequestID ev \<and> apState ap = APending \<and> PatternKeys ap = request_keys ev \<and>
   Command ap = reCommand ev \<and> apID ap = ulids w (nulid w) \<and> DecisionNonce ap = ulids w (Suc (nulid w)) \<and>
   AllowPermanent ap = reAllowPermanent ev"
  by (auto simp: new_approval_def NewULID_def noauth_def)

text \<open>The outcomes of the second half, seen from the world it starts in.\<close>

lemma consult_cases:
  assumes "consult_allows jobID runID ev ap w = (r, w')"
  defines "keys \<equiv> request_keys ev"
  obtains (failed) "noauth w w'" "r \<noteq> None"
  | (allow) wl kind d m where "noauth w wl" "auto_decide jobID runID ap ''once'' kind d m wl = (r, w')"
      "in_scope (sha256 w) keys (sessionAllows (first_mem w) jobID) \<or>
       reAllowPermanent ev \<and> MatchesPermanentAllow (sha256 w) (persistentPolicyKeys w keys) (seen w) \<noteq> ''''"
  | (ask) wl where "noauth w wl" "admit_request jobID runID ap wl = (r, w')"
proof -
  obtain ma w5 where sa: "matchesSessionAllow jobID keys w = (ma, w5)" by fastforce
  note s5 = session_allow_facts [OF sa]
  show ?thesis
  proof (cases "ma = ''''")
    case False
    then show ?thesis using allow [of w5] s5 assms(1) sa
      by (simp add: consult_allows_def keys_def [symmetric] Let_def)
  next
    case ma: True
    have pk: "persistentPolicyKeys w5 keys = persistentPolicyKeys w keys" "sha256 w5 = sha256 w" "seen w5 = seen w"
      using s5 by (simp_all add: persistentPolicyKeys_def noauth_def)
    obtain ra w6 where pa: "permanent_allow (persistentPolicyKeys w5 keys) w5 = (ra, w6)" by fastforce
    note p6 = permanent_allow_facts [OF pa]
    have n6: "noauth w w6" using s5 p6 noauth_trans by blast
    show ?thesis
    proof (cases ra)
      case (Inl e)
      then show ?thesis using failed n6 assms(1) sa ma pa
        by (auto simp: consult_allows_def keys_def [symmetric] Let_def)
    next
      case ra: (Inr y)
      have y: "y = MatchesPermanentAllow (sha256 w) (persistentPolicyKeys w keys) (seen w)"
        using p6 pk ra by simp
      show ?thesis
      proof (cases "y \<noteq> '''' \<and> reAllowPermanent ev")
        case True
        then show ?thesis using allow [OF n6] y assms(1) sa ma pa ra
          by (simp add: consult_allows_def keys_def [symmetric] Let_def)
      next
        case False
        then have "admit_request jobID runID ap w6 = (r, w')"
          using assms(1) sa ma pa ra
          by (simp add: consult_allows_def keys_def [symmetric] Let_def split: if_splits)
        then show ?thesis using ask [OF n6] by simp
      qed
    qed
  qed
qed

text \<open>The first half: where the request ends before the allows are consulted, or the world it reaches.\<close>

lemma handle_cases:
  assumes "handleApprovalRequest jobID runID ev w = (r, w')"
  defines "keys \<equiv> request_keys ev" and "pkeys \<equiv> persistentPolicyKeys w (request_keys ev)"
    and "sha \<equiv> sha256 w"
  obtains (failed) "noauth w w'" "r \<noteq> None"
  | (collision) ap wl j where "ResolveJob (lcase w) jobID (first_look w) = Inr j" "Approvals j \<noteq> []"
      "noauth w wl" "deny_collision jobID runID ap wl = (r, w')"
  | (deny) ap wl kind d m where "noauth w wl"
      "in_scope sha keys (sessionDenials (first_mem w) jobID) \<or>
       MatchesPermanentDenial sha pkeys (second_look w) \<noteq> ''''"
      "auto_decide jobID runID ap ''deny'' kind d m wl = (r, w')" "ProviderRequestID ap = reRequestID ev"
  | (consult) ap w1 wl where "new_approval ev w = (ap, w1)" "noauth w wl"
      "\<not> in_scope sha keys (sessionDenials (first_mem w) jobID)"
      "MatchesPermanentDenial sha pkeys (second_look w) = ''''"
      "consult_allows jobID runID ev ap wl = (r, w')"
      "wdb wl = second_look w" "txs wl = Suc (Suc (txs w))"
      "ApprovalPatternHash sha keys \<noteq> '''' \<longrightarrow> first_mem wl = second_mem w"
proof -
  obtain ap w1 where n: "new_approval ev w = (ap, w1)" by fastforce
  note n1 = new_approval_facts [OF n]
  have e1: "meddle w1 = meddle w" "lcase w1 = lcase w"
    using n1 by (simp_all add: noauth_def)
  obtain rl w2 where l: "lookup_job jobID w1 = (rl, w2)" by fastforce
  have n2: "noauth w w2" using n1 noauth_lookup [OF l] noauth_trans by blast
  have e2: "wdb w2 = first_look w" "txs w2 = Suc (txs w)" "mem w2 = mem w" "locks w2 = locks w"
    using n1 e1 lookup_frame [of jobID w1] lookup_more [of jobID w1] l by (simp_all add: noauth_def)
  have e2': "meddle w2 = meddle w" "stir w2 = stir w" "sha256 w2 = sha"
    using n2 by (simp_all add: noauth_def sha_def)
  show ?thesis
  proof (cases rl)
    case (Inl e)
    then show ?thesis using failed n2 assms(1) n l by (auto simp: handleApprovalRequest_def)
  next
    case rl: (Inr j)
    have rj: "ResolveJob (lcase w) jobID (first_look w) = Inr j"
      using l rl n1 e1 by (auto simp: lookup_job_def query_def Let_def split: db_fault.splits)
    show ?thesis
    proof (cases "Approvals j = []")
      case False
      then show ?thesis using collision [OF rj False n2] assms(1) n l rl
        by (simp add: handleApprovalRequest_def)
    next
      case none: True
      obtain m w3 where sd: "matchesSessionDenial jobID keys w2 = (m, w3)" by fastforce
      note s3 = session_denial_facts [OF sd]
      have n3: "noauth w w3" using n2 s3 noauth_trans by blast
      have fm: "first_mem w2 = first_mem w" using e2 e2' by (simp add: first_mem_def)
      have m: "m \<noteq> '''' \<longleftrightarrow> in_scope sha keys (sessionDenials (first_mem w) jobID)" using s3 fm e2' by simp
      have run: "(if m \<noteq> ''''
          then auto_decide jobID runID ap ''deny'' ''job.approval_auto_denied'' DecisionDenySession m w3
          else case permanent_denial (persistentPolicyKeys w3 keys) w3 of
            (Inl e, w) \<Rightarrow> (Some e, w)
          | (Inr x, w) \<Rightarrow> if x \<noteq> ''''
              then auto_decide jobID runID ap ''deny'' ''job.approval_auto_denied'' DecisionDenyAlways x w
              else consult_allows jobID runID ev ap w) = (r, w')"
        using assms(1) n l rl none sd unfolding keys_def
        by (simp add: handleApprovalRequest_def Let_def split del: if_split)
      have pk: "persistentPolicyKeys w3 keys = pkeys"
        using n3 by (simp add: persistentPolicyKeys_def pkeys_def keys_def noauth_def)
      obtain rp w4 where pd: "permanent_denial pkeys w3 = (rp, w4)" by fastforce
      note p4 = permanent_denial_facts [OF pd [unfolded pkeys_def]]
      have n4: "noauth w w4" using n3 p4 noauth_trans by blast
      have sl: "seen w3 = second_look w" "sha256 w3 = sha"
        using s3 e2 n3 by (simp_all add: second_look_def noauth_def sha_def)
      then have mp: "rp = Inr x \<Longrightarrow> x = MatchesPermanentDenial sha pkeys (second_look w)" for x
        using p4 by (simp add: pkeys_def)
      have "ApprovalPatternHash sha keys \<noteq> '''' \<longrightarrow> first_mem w4 = second_mem w"
        using s3 p4 e2 e2' fm n4 by (simp add: first_mem_def second_mem_def noauth_def)
      then show ?thesis
        using run failed n4 deny [OF n3, of ap] deny [OF n4, of ap] consult [OF n n4] m mp p4 s3 sl e2 n1 pd pk
        by (cases "m = ''''"; cases rp) (auto split: if_splits)
    qed
  qed
qed

text \<open>
  C8. Denials come first and nothing is granted on its own: the requests for authority that handling
  one approval request can send are none; a deny-all when another approval was already open; a single
  denial when the complete key set is under a session or permanent denial; or a single one-time grant
  when no denial covers it and the complete key set is under a session allow, or under a permanent
  allow that this request permits to reuse.
\<close>

theorem denials_before_allows:
  assumes "handleApprovalRequest jobID runID ev w = (r, w')"
  defines "keys \<equiv> request_keys ev" and "pkeys \<equiv> persistentPolicyKeys w (request_keys ev)"
    and "sha \<equiv> sha256 w"
  shows "\<exists>calls. approval_posts w' = approval_posts w @ calls \<and>
     (calls = [] \<or>
      calls = [approval_call runID ''deny'' True '''' ''''] \<and>
        (\<exists>j. ResolveJob (lcase w) jobID (first_look w) = Inr j \<and> Approvals j \<noteq> []) \<or>
      (\<exists>key. calls = [approval_call runID ''deny'' False (reRequestID ev) key]) \<and>
        (in_scope sha keys (sessionDenials (first_mem w) jobID) \<or>
         MatchesPermanentDenial sha pkeys (second_look w) \<noteq> '''') \<or>
      (\<exists>key. calls = [approval_call runID ''once'' False (reRequestID ev) key]) \<and>
        \<not> in_scope sha keys (sessionDenials (first_mem w) jobID) \<and>
        MatchesPermanentDenial sha pkeys (second_look w) = '''' \<and>
        (in_scope sha keys (sessionAllows (second_mem w) jobID) \<or>
         reAllowPermanent ev \<and> MatchesPermanentAllow sha pkeys (third_look w) \<noteq> ''''))"
proof (rule handle_cases [OF assms(1), folded keys_def pkeys_def sha_def])
  assume "noauth w w'"
  from noauth_posts [OF this] show ?thesis by (intro exI [of _ "[]"]) simp
next
  fix ap wl j
  assume "ResolveJob (lcase w) jobID (first_look w) = Inr j" "Approvals j \<noteq> []" "noauth w wl"
    "deny_collision jobID runID ap wl = (r, w')"
  then show ?thesis using noauth_posts [of w wl] collision_posts by fastforce
next
  fix ap wl kind d m
  assume "noauth w wl" "auto_decide jobID runID ap ''deny'' kind d m wl = (r, w')"
    "ProviderRequestID ap = reRequestID ev"
    "in_scope sha keys (sessionDenials (first_mem w) jobID) \<or> MatchesPermanentDenial sha pkeys (second_look w) \<noteq> ''''"
  then show ?thesis using noauth_posts [of w wl] auto_posts by fastforce
next
  fix ap w1 wl
  assume h: "new_approval ev w = (ap, w1)" "noauth w wl"
    "\<not> in_scope sha keys (sessionDenials (first_mem w) jobID)"
    "MatchesPermanentDenial sha pkeys (second_look w) = ''''" "consult_allows jobID runID ev ap wl = (r, w')"
    "wdb wl = second_look w" "txs wl = Suc (Suc (txs w))"
    "ApprovalPatternHash sha keys \<noteq> '''' \<longrightarrow> first_mem wl = second_mem w"
  have e: "sha256 wl = sha" "seen wl = third_look w" "persistentPolicyKeys wl keys = pkeys"
    "approval_posts wl = approval_posts w"
    using h(2,6,7) noauth_posts [OF h(2)]
    by (simp_all add: noauth_def sha_def third_look_def persistentPolicyKeys_def pkeys_def keys_def)
  show ?thesis
  proof (rule consult_cases [OF h(5), folded keys_def])
    assume "noauth wl w'"
    from noauth_posts [OF this] e(4) show ?thesis by (intro exI [of _ "[]"]) simp
  next
    fix w2 kind d m
    assume a: "noauth wl w2" "auto_decide jobID runID ap ''once'' kind d m w2 = (r, w')"
      "in_scope (sha256 wl) keys (sessionAllows (first_mem wl) jobID) \<or>
       reAllowPermanent ev \<and> MatchesPermanentAllow (sha256 wl) (persistentPolicyKeys wl keys) (seen wl) \<noteq> ''''"
    have "in_scope sha keys (sessionAllows (second_mem w) jobID) \<or>
         reAllowPermanent ev \<and> MatchesPermanentAllow sha pkeys (third_look w) \<noteq> ''''"
      using a(3) e h(8) by (auto simp: in_scope_def)
    moreover have "approval_posts w' = approval_posts w @ [approval_call runID ''once'' False (reRequestID ev) (apID ap)]"
      using auto_posts [OF a(2)] noauth_posts [OF a(1)] e(4) new_approval_facts [OF h(1)] by simp
    ultimately show ?thesis using h(3,4) by blast
  next
    fix w2
    assume "noauth wl w2" "admit_request jobID runID ap w2 = (r, w')"
    then show ?thesis using admit_posts noauth_posts e(4) by (intro exI [of _ "[]"]) simp
  qed
qed

lemma denials_before_allows_witness:
  "length (approval_posts (snd (handleApprovalRequest ''j'' ''r'' demo_event demo_hermes))) \<le> 1"
proof -
  have "approval_posts demo_hermes = []" by (simp add: demo_hermes_def)
  with denials_before_allows [OF prod.collapse [symmetric], of "''j''" "''r''" demo_event demo_hermes]
  show ?thesis by auto
qed

end
