(* ===== verification/Hermes_Run.thy ===== *)
theory Hermes_Run
  imports Broker Hermes_Text
begin

text \<open>
  One turn of a Hermes run, from its start request to the end of its event stream, the delivery of a
  job that contains it (\<open>Run\<close>), and the reconciliation at process start (\<open>ReconcileOrphans\<close>), all in
  \<open>src/internal/bridge/hermes.go\<close>.

  What the \<open>select\<close> of the turn receives is a list of inputs in any order, each with the instant at which it is
  received: the end of the context, the two timers, an event, and the closed stream.  A turn whose inputs run
  out is still waiting; its result is then \<open>None\<close>.  The two timers are the instants at which they fire; \<open>on_time\<close>
  says of a history that the timers were the ones the turn had armed.
\<close>

section \<open>Starting a run\<close>

text \<open>A request whose response the caller reads itself.\<close>

definition http_do :: "string \<Rightarrow> string \<Rightarrow> request_body \<Rightarrow> hermes \<Rightarrow> http_reply \<times> hermes" where
  "http_do method path body w =
     (http w (length (sent w)), w\<lparr>sent := sent w @ [(method, path, body)]\<rparr>)"

definition stop_and_fail :: "string \<Rightarrow> error \<Rightarrow> hermes \<Rightarrow> (error + 'r) \<times> hermes" where
  "stop_and_fail runID e w = (Inl (noRetry e), snd (stopRun runID w))"

definition persist_mut :: "string \<Rightarrow> job \<Rightarrow> bool \<times> job" where
  "persist_mut runID x =
     (if runOwnsState x ''''
      then (True, x\<lparr>HermesRunID := runID, Status := Running, PendingInput := ''''\<rparr>)
      else (False, x))"

definition post_run :: "job \<Rightarrow> string \<Rightarrow> chatMsg list \<Rightarrow> hermes \<Rightarrow> (error + string) \<times> hermes" where
  "post_run j input history w =
     (case doJSON ''POST'' ''/v1/runs'' (RunBody (hModel w) input (systemHeader j) (jID j) history) True w of
        ((Some e, _), w) \<Rightarrow>
          (Inl (noRetry (EWrap ''Hermes run start outcome is indeterminate and will not be retried: '' e '''')), w)
      | ((None, b), w) \<Rightarrow>
          if rsRunID (bStatus b) = ''''
          then (Inl (noRetry (EText ''Hermes did not return a run_id; start outcome will not be retried'')), w)
          else (Inr (rsRunID (bStatus b)), w))"

definition own_run :: "string \<Rightarrow> nat option \<Rightarrow> string \<Rightarrow> hermes \<Rightarrow> (error + unit) \<times> hermes" where
  "own_run jobID owner runID w =
     (case setRunID jobID owner runID w of (ours, w) \<Rightarrow>
      if \<not> ours then stop_and_fail runID ErrRunSuperseded w
      else case update_job jobID (persist_mut runID) w of
        (Inl e, w) \<Rightarrow> stop_and_fail runID (EWrap ''persist Hermes run identity; run stopped: '' e '''') w
      | (Inr (persisted, updated), w) \<Rightarrow>
          if \<not> persisted then stop_and_fail runID ErrRunSuperseded w
          else (Inr (), PublishJob ''job.running'' jobID (PJob updated) w))"

definition subscribe :: "string \<Rightarrow> hermes \<Rightarrow> (error + unit) \<times> hermes" where
  "subscribe runID w =
     (case http_do ''GET'' (run_path runID ''/events'') NoBody w of
        (HTransport e, w) \<Rightarrow>
          stop_and_fail runID (EWrap ''Hermes event subscription failed; run stopped: '' e '''') w
      | (HReply status b, w) \<Rightarrow>
          if status div 100 \<noteq> 2
          then stop_and_fail runID (EText (''Hermes events http '' @ nat_text status @ ''; run stopped: '' @
                 take 2048 (rawText b))) w
          else (Inr (), w))"

definition start_run ::
  "job \<Rightarrow> string \<Rightarrow> chatMsg list \<Rightarrow> nat option \<Rightarrow> hermes \<Rightarrow> (error + string) \<times> hermes" where
  "start_run j input history owner w =
     bindE (post_run j input history w) (\<lambda>runID w.
     bindE (own_run (jID j) owner runID w) (\<lambda>_ w.
     bindE (subscribe runID w) (\<lambda>_ w. (Inr runID, w))))"

section \<open>The event loop\<close>

text \<open>
  \<open>reError\<close> of an event is what \<open>eventError\<close> makes of its error value.  Only events that were decoded arrive here;
  the comments that keep the connection alive do not.
\<close>

datatype turn_input =
  CtxDone error
  | IdleFired
  | ParkFired
  | Event runEvent
  | StreamClosed "error option" "error option"

type_synonym wake = "instant \<times> turn_input"

text \<open>
  The local variables of the loop: \<open>idleFor\<close> is \<open>idleAfter\<close>, \<open>idleAt\<close> the instant at which \<open>idleTimer\<close> fires, and \<open>parkC\<close> that
  of \<open>parkTimer\<close>, or \<open>None\<close> for the nil channel.  A case of the loop takes no time between its wake and the arming of a timer.
\<close>

record turn =
  tOutput :: string
  tTerminal :: bool
  parkC :: "instant option"
  idleAt :: instant
  idleFor :: duration

datatype turn_next = Continue turn | Return "error + string"

definition defaultApprovalParkAfter :: duration where "defaultApprovalParkAfter = minutes 15"
definition defaultStreamIdleAfter :: duration where "defaultStreamIdleAfter = minutes 20"

definition idleAfter :: "hermes \<Rightarrow> duration" where
  "idleAfter w = (if StreamIdleAfter w \<le> 0 then defaultStreamIdleAfter else StreamIdleAfter w)"

definition resetIdle :: "instant \<Rightarrow> turn \<Rightarrow> turn" where
  "resetIdle at t = t\<lparr>idleAt := at + idleFor t\<rparr>"

definition armParking :: "instant \<Rightarrow> duration \<Rightarrow> turn \<Rightarrow> turn" where
  "armParking at after t = t\<lparr>parkC := Some (at + (if after \<le> 0 then defaultApprovalParkAfter else after))\<rparr>"

definition one_pending :: "job \<Rightarrow> bool" where
  "one_pending j \<longleftrightarrow> Status j = NeedsApproval \<and> length (Approvals j) = 1 \<and>
     apState (hd (Approvals j)) = APending"

definition progress_mut :: "string \<Rightarrow> progress \<Rightarrow> job \<Rightarrow> bool \<times> job" where
  "progress_mut runID p x =
     (if runOwnsState x runID then (True, x\<lparr>Progress := Some p\<rparr>) else (False, x))"

definition updateProgress :: "string \<Rightarrow> string \<Rightarrow> string \<Rightarrow> string \<Rightarrow> hermes \<Rightarrow> hermes" where
  "updateProgress jobID tool label state w =
     (let p = \<lparr>prTool = tool, prLabel = label, prState = state, prUpdatedAt = now w\<rparr> in
      case ownedRunID jobID w of (runID, w) \<Rightarrow>
      case update_job jobID (progress_mut runID p) w of
        (Inl e, w) \<Rightarrow> w
      | (Inr (transitioned, j), w) \<Rightarrow>
          if transitioned then PublishJob ''job.progress'' jobID (PJob j) w else w)"

definition park_fired :: "instant \<Rightarrow> string \<Rightarrow> string \<Rightarrow> turn \<Rightarrow> hermes \<Rightarrow> turn_next \<times> hermes" where
  "park_fired at jobID runID t w =
     (case lookup_job jobID w of
        (Inl e, w) \<Rightarrow> (Continue (armParking at (minutes 1) t), w)
      | (Inr current, w) \<Rightarrow>
          if \<not> one_pending current then (Continue (t\<lparr>parkC := None\<rparr>), w)
          else let a = hd (Approvals current) in
            case parkApprovalLocked jobID runID (apID a) (DecisionNonce a)
                ''operator was silent past the approval resource threshold'' w of
              (Inl e, w) \<Rightarrow>
                if err_is ErrApprovalStale e then (Continue (t\<lparr>parkC := None\<rparr>), w)
                else (Continue (armParking at (minutes 1) t), w)
            | (Inr _, w) \<Rightarrow> (Return (Inl ErrApprovalParked), w))"

definition approval_event :: "instant \<Rightarrow> string \<Rightarrow> string \<Rightarrow> runEvent \<Rightarrow> turn \<Rightarrow> hermes \<Rightarrow> turn_next \<times> hermes" where
  "approval_event at jobID runID ev t w =
     (case handleApprovalRequest jobID runID ev w of
        (Some e, w) \<Rightarrow> (Return (Inl e), w)
      | (None, w) \<Rightarrow>
          (case lookup_job jobID w of
             (Inl e, w) \<Rightarrow> (Return (Inl e), w)
           | (Inr pending, w) \<Rightarrow>
               (Continue (if one_pending pending then armParking at (ApprovalParkAfter w) t else t), w)))"

definition turn_event :: "instant \<Rightarrow> string \<Rightarrow> string \<Rightarrow> runEvent \<Rightarrow> turn \<Rightarrow> hermes \<Rightarrow> turn_next \<times> hermes" where
  "turn_event at jobID runID ev t w =
     (if reEvent ev = ''message.delta'' then (Continue (t\<lparr>tOutput := tOutput t @ reDelta ev\<rparr>), w)
      else if reEvent ev = ''tool.started''
      then (Continue t, updateProgress jobID (reTool ev) (rePreview ev) ''running'' w)
      else if reEvent ev = ''tool.completed''
      then (Continue t, updateProgress jobID (reTool ev) (reTool ev @ '' completed'') ''completed'' w)
      else if reEvent ev = ''approval.request'' then approval_event at jobID runID ev t w
      else if reEvent ev = ''run.completed''
      then (Continue (t\<lparr>tTerminal := True,
              tOutput := (if trim_space (reOutput ev) \<noteq> '''' then reOutput ev else tOutput t)\<rparr>), w)
      else if reEvent ev = ''run.failed''
      then (Return (Inl (EText (''Hermes run failed: '' @ reError ev))), w)
      else if reEvent ev = ''run.cancelled''
      then (Return (Inl (noRetry (EText ''Hermes run cancelled after a fail-closed stop''))), w)
      else (Continue t, w))"

definition returning :: "(error + string) \<times> hermes \<Rightarrow> turn_next \<times> hermes" where
  "returning = (\<lambda>(r, w). (Return r, w))"

definition context_ended :: "error \<Rightarrow> error" where
  "context_ended e = EWrap ''Hermes run context ended; run stopped: '' e ''''"

definition turn_step :: "string \<Rightarrow> string \<Rightarrow> wake \<Rightarrow> turn \<Rightarrow> hermes \<Rightarrow> turn_next \<times> hermes" where
  "turn_step jobID runID wake t w =
     (case snd wake of
        CtxDone e \<Rightarrow> returning (stop_and_fail runID (context_ended e) w)
      | IdleFired \<Rightarrow> returning (stop_and_fail runID (EText (''Hermes event stream silent for '' @
            duration_text (idleFor t) @ ''; run stopped fail-closed'')) w)
      | ParkFired \<Rightarrow> if parkC t = None then (Continue t, w) else park_fired (fst wake) jobID runID t w
      | Event ev \<Rightarrow> turn_event (fst wake) jobID runID ev (resetIdle (fst wake) t) w
      | StreamClosed scanErr ctxErr \<Rightarrow>
          (case scanErr of
             Some e \<Rightarrow> returning (stop_and_fail runID (case ctxErr of
                 Some ce \<Rightarrow> context_ended ce
               | None \<Rightarrow> EWrap ''Hermes event stream lost; run stopped fail-closed: '' e '''') w)
           | None \<Rightarrow>
               if \<not> tTerminal t
               then returning (stop_and_fail runID (EText
                 ''Hermes event stream closed before a terminal event; run stopped fail-closed'') w)
               else (Return (Inr (tOutput t)), w)))"

fun drive ::
  "string \<Rightarrow> string \<Rightarrow> wake list \<Rightarrow> turn \<Rightarrow> hermes \<Rightarrow> (error + string) option \<times> hermes" where
  "drive jobID runID [] t w = (None, w)"
| "drive jobID runID (i # ins) t w =
     (case turn_step jobID runID i t w of
        (Continue t', w) \<Rightarrow> drive jobID runID ins t' w
      | (Return r, w) \<Rightarrow> (Some r, w))"

definition new_turn :: "instant \<Rightarrow> duration \<Rightarrow> turn" where
  "new_turn start idle = \<lparr>tOutput = '''', tTerminal = False, parkC = None, idleAt = start + idle, idleFor = idle\<rparr>"

text \<open>
  \<open>start\<close> is the instant at which the loop is entered.  \<open>newRequest\<close> for the subscription cannot fail: the start request
  before it had the same base address, and an escaped id is a path.
\<close>

definition runTurnOwned ::
  "job \<Rightarrow> string \<Rightarrow> chatMsg list \<Rightarrow> nat option \<Rightarrow> instant \<times> wake list \<Rightarrow> hermes \<Rightarrow>
   (error + string) option \<times> hermes" where
  "runTurnOwned j input history owner ins w =
     (case start_run j input history owner w of
        (Inl e, w) \<Rightarrow> (Some (Inl e), w)
      | (Inr runID, w) \<Rightarrow> drive (jID j) runID (snd ins) (new_turn (fst ins) (idleAfter w)) w)"

section \<open>The timers\<close>

text \<open>
  What the runtime guarantees of a \<open>select\<close> entered at \<open>since\<close> that returns \<open>wake\<close>: time does not go back, the \<open>select\<close> does
  not sleep past a timer that is armed, and a timer is received only when it has fired.  When several cases are ready
  any of them may be chosen.
\<close>

definition timers_hold :: "instant \<Rightarrow> turn \<Rightarrow> wake \<Rightarrow> bool" where
  "timers_hold since t wake \<longleftrightarrow> since \<le> fst wake \<and> fst wake \<le> max since (idleAt t) \<and>
     (case parkC t of None \<Rightarrow> snd wake \<noteq> ParkFired
      | Some d \<Rightarrow> fst wake \<le> max since d \<and> (snd wake = ParkFired \<longrightarrow> d \<le> fst wake)) \<and>
     (snd wake = IdleFired \<longrightarrow> idleAt t \<le> fst wake)"

fun on_time :: "string \<Rightarrow> string \<Rightarrow> instant \<Rightarrow> wake list \<Rightarrow> turn \<Rightarrow> hermes \<Rightarrow> bool" where
  "on_time jobID runID since [] t w = True"
| "on_time jobID runID since (i # ins) t w =
     (timers_hold since t i \<and>
      (case turn_step jobID runID i t w of
         (Continue t', w) \<Rightarrow> on_time jobID runID (fst i) ins t' w
       | (Return r, w) \<Rightarrow> True))"

definition turn_on_time ::
  "job \<Rightarrow> string \<Rightarrow> chatMsg list \<Rightarrow> nat option \<Rightarrow> instant \<times> wake list \<Rightarrow> hermes \<Rightarrow> bool" where
  "turn_on_time j input history owner ins w =
     (case start_run j input history owner w of
        (Inl e, w) \<Rightarrow> True
      | (Inr runID, w) \<Rightarrow> on_time (jID j) runID (fst ins) (snd ins) (new_turn (fst ins) (idleAfter w)) w)"

end
