(* ===== verification/Hermes_Job.thy ===== *)
theory Hermes_Job
  imports Hermes_Run
begin

text \<open>
  A delivery of a job to the Hermes bridge: \<open>Run\<close>, its recovery when the turn fails or its context ends,
  and \<open>ReconcileOrphans\<close> at process start (\<open>src/internal/bridge/hermes.go\<close>).

  What the delivery meets is \<open>run_env\<close>: the pointer its owner is known by, the error of its context
  when the history could not be read and when the turn has returned, and the inputs of the turn.
\<close>

record run_env =
  reOwner :: nat
  reHistoryCtx :: "error option"
  reTurnCtx :: "error option"
  reInputs :: "instant \<times> wake list"

section \<open>Claiming the delivery\<close>

definition start_mut :: "string \<Rightarrow> bool \<Rightarrow> job \<Rightarrow> bool \<times> job" where
  "start_mut jobID resuming x =
     (if Status x = Queued
      then (True, x\<lparr>Status := Running, HermesSessionID := jobID, HermesRunID := '''', Question := '''',
             Approvals := [], Error := (if resuming then Error x else '''')\<rparr>)
      else (False, x))"

definition register_owner :: "string \<Rightarrow> nat \<Rightarrow> hermes \<Rightarrow> hermes" where
  "register_owner jobID owner w =
     snd (with_mu (\<lambda>m. ((), m\<lparr>hcancels := (hcancels m)(jobID \<mapsto> owner), runIDs := (runIDs m)(jobID := ''''),
       ownerRun := (ownerRun m)(owner := ''''),
       sessionAllows := (sessionAllows m)(jobID := {}), sessionDenials := (sessionDenials m)(jobID := {})\<rparr>)) w)"

definition reset_sessions :: "string \<Rightarrow> hermes \<Rightarrow> hermes" where
  "reset_sessions jobID w =
     snd (with_mu (\<lambda>m. ((), m\<lparr>sessionAllows := (sessionAllows m)(jobID := {}),
       sessionDenials := (sessionDenials m)(jobID := {})\<rparr>)) w)"

text \<open>The deferred cleanup: the maps are only touched while this delivery still owns the job.\<close>

definition release_owner :: "string \<Rightarrow> nat \<Rightarrow> hermes \<Rightarrow> hermes" where
  "release_owner jobID owner w =
     snd (with_mu (\<lambda>m.
       let m = m\<lparr>ended := insert owner (ended m)\<rparr> in
       if hcancels m jobID = Some owner
       then ((), m\<lparr>hcancels := (hcancels m)(jobID := None),
              runIDs := (if runIDs m jobID = ownerRun m owner then (runIDs m)(jobID := '''') else runIDs m),
              sessionAllows := (sessionAllows m)(jobID := {}),
              sessionDenials := (sessionDenials m)(jobID := {})\<rparr>)
       else ((), m)) w)"

section \<open>After the turn\<close>

definition fail_mut :: "string \<Rightarrow> string \<Rightarrow> job \<Rightarrow> bool \<times> job" where
  "fail_mut runID txt x =
     (if runOwnsState x runID
      then (True, (appendFailureEvidence txt (x\<lparr>Status := Failed\<rparr>))\<lparr>Approvals := []\<rparr>)
      else (False, x))"

text \<open>\<open>failed, _ := UpdateJob(...)\<close>: the error is dropped and the note of the closure decides.\<close>

definition fail_job ::
  "string \<Rightarrow> string \<Rightarrow> string \<Rightarrow> (job \<Rightarrow> error) \<Rightarrow> hermes \<Rightarrow> error option \<times> hermes" where
  "fail_job jobID runID txt answer w =
     (let n = noted jobID (fail_mut runID txt) w; w = snd (update_job jobID (fail_mut runID txt) w) in
      case n of
        Some (True, failed) \<Rightarrow>
          (Some (answer failed), PublishJob ''job.failed'' jobID (PJob (Redacted failed)) w)
      | _ \<Rightarrow> (None, w))"

definition turn_interrupted :: "string \<Rightarrow> string \<Rightarrow> error \<Rightarrow> hermes \<Rightarrow> error option \<times> hermes" where
  "turn_interrupted jobID runID ctxErr w =
     (let fail = fail_job jobID runID
            (''job execution context ended; active Hermes run was stopped: '' @ err_text ctxErr)
            (\<lambda>failed. noRetry (EText (Error failed))) in
      case lookup_job jobID w of
        (Inl e, w) \<Rightarrow> fail w
      | (Inr current, w) \<Rightarrow>
          if Status current = Cancelled \<or> Status current = ParkedApproval then (None, w)
          else if one_pending current then
            (let a = hd (Approvals current) in
             case parkApprovalLocked jobID (HermesRunID current) (apID a) (DecisionNonce a)
                 ''worker context ended while approval was pending'' w of
               (Inr _, w) \<Rightarrow> (None, w)
             | (Inl parkErr, w) \<Rightarrow>
                 (Some (noRetry (EWrap ''approval remained pending for startup reconciliation: '' parkErr '''')), w))
          else fail w)"

definition turn_failed ::
  "string \<Rightarrow> string \<Rightarrow> error \<Rightarrow> error option \<Rightarrow> hermes \<Rightarrow> error option \<times> hermes" where
  "turn_failed jobID runID err ctxErr w =
     (if err_is ErrApprovalParked err then (None, w)
      else case ctxErr of
        Some ce \<Rightarrow> turn_interrupted jobID runID ce w
      | None \<Rightarrow> fail_job jobID runID (err_text err) (\<lambda>failed. EWrap ''hermes run: '' err '''') w)"

definition question_mut :: "string \<Rightarrow> string \<Rightarrow> job \<Rightarrow> bool \<times> job" where
  "question_mut runID q x =
     (if runOwnsState x runID
      then (True, x\<lparr>Status := NeedsInput, Question := q, HermesRunID := '''', Progress := None\<rparr>)
      else (False, x))"

definition done_mut :: "string \<Rightarrow> string \<Rightarrow> job \<Rightarrow> bool \<times> job" where
  "done_mut runID digest x =
     (if runOwnsState x runID
      then (True, x\<lparr>Status := Done, ResultDigest := digest, Approvals := [], Progress := None\<rparr>)
      else (False, x))"

definition conclude :: "string \<Rightarrow> string \<Rightarrow> (job \<Rightarrow> bool \<times> job) \<Rightarrow> hermes \<Rightarrow> error option \<times> hermes" where
  "conclude jobID kind mut w =
     (case update_job jobID mut w of
        (Inl e, w) \<Rightarrow> (Some e, w)
      | (Inr (transitioned, jj), w) \<Rightarrow>
          (None, if transitioned then PublishJob kind jobID (PJob jj) w else w))"

definition turn_replied :: "string \<Rightarrow> string \<Rightarrow> string \<Rightarrow> hermes \<Rightarrow> error option \<times> hermes" where
  "turn_replied jobID runID reply w =
     (case trailingQuestion reply of (q, isQ) \<Rightarrow>
      if isQ then conclude jobID ''job.needs_input'' (question_mut runID q) w
      else conclude jobID ''job.done'' (done_mut runID (digest_of reply)) w)"

definition finish_turn ::
  "string \<Rightarrow> error option \<Rightarrow> (error + string) \<Rightarrow> hermes \<Rightarrow> error option \<times> hermes" where
  "finish_turn jobID ctxErr res w =
     (case ownedRunID jobID w of (runID, w) \<Rightarrow>
      case res of
        Inl err \<Rightarrow> turn_failed jobID runID err ctxErr w
      | Inr reply \<Rightarrow> turn_replied jobID runID reply w)"

section \<open>Run\<close>

text \<open>The result \<open>None\<close> is a turn that has not returned yet.\<close>

definition run_turn ::
  "string \<Rightarrow> run_env \<Rightarrow> job \<Rightarrow> string \<Rightarrow> chatMsg list \<Rightarrow> hermes \<Rightarrow> error option option \<times> hermes" where
  "run_turn jobID env j initial recovered w =
     (let w = reset_sessions jobID w in
      case runTurnOwned j initial recovered (Some (reOwner env)) (reInputs env) w of
        (None, w) \<Rightarrow> (None, w)
      | (Some res, w) \<Rightarrow> (case finish_turn jobID (reTurnCtx env) res w of (e, w) \<Rightarrow> (Some e, w)))"

definition has_input :: "job \<Rightarrow> bool" where
  "has_input j \<longleftrightarrow> trim_space (PendingInput j) \<noteq> ''''"

definition run_owned ::
  "string \<Rightarrow> run_env \<Rightarrow> job \<Rightarrow> job \<Rightarrow> hermes \<Rightarrow> error option option \<times> hermes" where
  "run_owned jobID env before j w =
     (let initial = (if has_input before then PendingInput before else Task before) in
      case lookup_job jobID w of
        (Inl e, w) \<Rightarrow> (Some (Some e), w)
      | (Inr current, w) \<Rightarrow>
          if Status current \<noteq> Running \<or> HermesRunID current \<noteq> '''' then (Some None, w)
          else let w = PublishJob ''job.running'' jobID (PJob current) w in
            if HermesSessionID before = '''' then run_turn jobID env j initial [] w
            else case loadSessionHistory jobID w of (hist, w) \<Rightarrow>
              if (\<exists>e. hist = Inl e) \<and> reHistoryCtx env \<noteq> None then (Some None, w)
              else let recovered = (case hist of Inr h \<Rightarrow> h | Inl _ \<Rightarrow> []) in
                run_turn jobID env j
                  (if has_input before then initial else resumePrompt before (length recovered)) recovered w)"

definition orphaned_text :: string where
  "orphaned_text = ''orphaned by process restart''"

definition HermesRun :: "string \<Rightarrow> run_env \<Rightarrow> hermes \<Rightarrow> error option option \<times> hermes" where
  "HermesRun jobID env w =
     (case lookup_job jobID w of
        (Inl e, w) \<Rightarrow> (Some (Some e), w)
      | (Inr before, w) \<Rightarrow>
          if Status before = ParkedApproval then (Some None, w)
          else if Status before = Failed \<and> contains (Error before) orphaned_text
          then (Some (Some (noRetry (EText (Error before)))), w)
          else if Status before \<noteq> Queued then (Some None, w)
          else case update_job jobID (start_mut jobID (HermesSessionID before \<noteq> '''')) w of
            (Inl e, w) \<Rightarrow> (Some (Some e), w)
          | (Inr (claimed, j), w) \<Rightarrow>
              if \<not> claimed then (Some None, w)
              else case run_owned jobID env before j (register_owner jobID (reOwner env) w) of
                (None, w) \<Rightarrow> (None, w)
              | (Some r, w) \<Rightarrow> (Some r, release_owner jobID (reOwner env) w))"

section \<open>Reconciliation at start\<close>

definition orphan_mut :: "job \<Rightarrow> error option \<Rightarrow> job \<Rightarrow> bool \<times> job" where
  "orphan_mut j cleanupErr x =
     (if Status x \<noteq> Status j \<or> HermesRunID x \<noteq> HermesRunID j \<or> StateVersion x \<noteq> StateVersion j
      then (False, x)
      else let x1 = (case cleanupErr of
            None \<Rightarrow> (appendFailureEvidence (orphaned_text @ ''; stale Hermes run cleanup was confirmed; job can be safely resumed'')
                (x\<lparr>Status := Failed\<rparr>))\<lparr>HermesRunID := ''''\<rparr>
          | Some e \<Rightarrow> appendFailureEvidence (orphaned_text @
                ''; stale Hermes run cleanup was not confirmed; upstream run ID was retained for reconciliation: '' @
                err_text e) (x\<lparr>Status := Failed\<rparr>)) in
        (True, case Approvals x of
            [a] \<Rightarrow> if apState a = ASending then x1\<lparr>Approvals := [a\<lparr>apState := AIndeterminate\<rparr>]\<rparr>
                    else x1\<lparr>Approvals := []\<rparr>
          | _ \<Rightarrow> x1\<lparr>Approvals := []\<rparr>))"

definition clear_after :: "job_status \<Rightarrow> job \<Rightarrow> hermes \<Rightarrow> error option \<times> hermes" where
  "clear_after s j w =
     (case update_job (jID j) (clear_run s (HermesRunID j)) w of
        (Inl e, w) \<Rightarrow> (Some e, w) | (Inr _, w) \<Rightarrow> (None, w))"

definition reconcile_failed :: "job \<Rightarrow> hermes \<Rightarrow> error option \<times> hermes" where
  "reconcile_failed j w =
     (case stopAndConfirmTerminal (HermesRunID j) w of
        (Some e, w) \<Rightarrow> (None, w)
      | (None, w) \<Rightarrow> clear_after Failed j w)"

definition reconcile_input :: "job \<Rightarrow> hermes \<Rightarrow> error option \<times> hermes" where
  "reconcile_input j w =
     (if HermesRunID j = '''' then (None, w)
      else case ReleaseRun (jID j) (HermesRunID j) w of
        (Some e, w) \<Rightarrow> (Some (EWrap (''release stale input run '' @ HermesRunID j @ '': '') e ''''), w)
      | (None, w) \<Rightarrow> clear_after NeedsInput j w)"

definition reconcile_parked :: "job \<Rightarrow> hermes \<Rightarrow> error option \<times> hermes" where
  "reconcile_parked j w =
     (None, if HermesRunID j = '''' then w else snd (releaseParkedRunLocked (jID j) (HermesRunID j) w))"

definition reconcile_orphan :: "job \<Rightarrow> hermes \<Rightarrow> error option \<times> hermes" where
  "reconcile_orphan j w =
     (case (if HermesRunID j \<noteq> '''' then stopAndConfirmTerminal (HermesRunID j) w else (None, w)) of
        (cleanupErr, w) \<Rightarrow>
      case update_job (jID j) (orphan_mut j cleanupErr) w of
        (Inl e, w) \<Rightarrow> (Some e, w)
      | (Inr (reconciled, failed), w) \<Rightarrow>
          (None, if reconciled then PublishJob ''job.failed'' (jID j) (PJob (Redacted failed)) w else w))"

text \<open>
  One job of the snapshot.  The goroutine a failed release of a parked run starts is
  \<open>Approvals.retryParkedRunStop\<close>.
\<close>

definition reconcile_one :: "job \<Rightarrow> hermes \<Rightarrow> error option \<times> hermes" where
  "reconcile_one j w =
     (if Status j = Failed \<and> HermesRunID j \<noteq> '''' then reconcile_failed j w
      else if Status j = NeedsInput then reconcile_input j w
      else if Status j = ParkedApproval then reconcile_parked j w
      else if Status j \<noteq> Running \<and> Status j \<noteq> NeedsApproval then (None, w)
      else if one_pending j then
        (case parkApprovalLocked (jID j) (HermesRunID j) (apID (hd (Approvals j)))
            (DecisionNonce (hd (Approvals j))) ''process restarted while approval was pending'' w of
           (Inl e, w) \<Rightarrow> (Some e, w) | (Inr _, w) \<Rightarrow> (None, w))
      else reconcile_orphan j w)"

fun reconcile_jobs :: "job list \<Rightarrow> hermes \<Rightarrow> error option \<times> hermes" where
  "reconcile_jobs [] w = (None, w)"
| "reconcile_jobs (j # js) w =
     (case reconcile_one j w of
        (Some e, w) \<Rightarrow> (Some e, w)
      | (None, w) \<Rightarrow> reconcile_jobs js w)"

definition ReconcileOrphans :: "hermes \<Rightarrow> error option \<times> hermes" where
  "ReconcileOrphans w =
     (case query (\<lambda>d. Inr (ActiveJobs d)) w of
        (Inl e, w) \<Rightarrow> (Some e, w)
      | (Inr active, w) \<Rightarrow>
          (case query (\<lambda>d. Inr (UnresolvedRunJobs d)) w of
             (Inl e, w) \<Rightarrow> (Some e, w)
           | (Inr failed, w) \<Rightarrow> reconcile_jobs (active @ failed) w))"

end
