(* ===== verification/Walk.thy ===== *)
theory Walk
  imports Broker_Laws Hermes_Job
begin

text \<open>
  One argument for every operation of the bridge.  Each is a sequence of a few primitives: an update of a
  job row, a read, a stored policy, a publication, a critical section, a request to Hermes.  The locale
  \<open>bridge_walk\<close> is the contract a relation between worlds has to satisfy on these primitives to hold across
  the broker, the reconciliation and the cleanup; \<open>delivery_walk\<close> extends it to whole deliveries.
\<close>

section \<open>What an update does to a row\<close>

definition final_status :: "job_status \<Rightarrow> bool" where
  "final_status s \<longleftrightarrow> s = Done \<or> s = Cancelled"

text \<open>A row that is done or cancelled is left alone.\<close>

definition respects_final :: "(job \<Rightarrow> job) \<Rightarrow> bool" where
  "respects_final m \<longleftrightarrow> (\<forall>x. final_status (Status x) \<longrightarrow> m x = x)"

text \<open>Of all handles on upstream runs, the update drops at most \<open>r\<close>.\<close>

definition drops_only :: "string \<Rightarrow> (job \<Rightarrow> job) \<Rightarrow> bool" where
  "drops_only r m \<longleftrightarrow> (\<forall>x. HermesRunID x \<noteq> r \<longrightarrow> HermesRunID x \<noteq> '''' \<longrightarrow> HermesRunID (m x) = HermesRunID x)"

definition row_mut :: "(job \<Rightarrow> job) \<Rightarrow> bool" where
  "row_mut m \<longleftrightarrow> keeps_identity m \<and> respects_final m"

lemma row_mutI:
  "(\<And>x. jID (m x) = jID x \<and> Task (m x) = Task x \<and> CreatedAt (m x) = CreatedAt x \<and>
      StateVersion (m x) = StateVersion x \<and> (final_status (Status x) \<longrightarrow> m x = x)) \<Longrightarrow> row_mut m"
  by (auto simp: row_mut_def respects_final_def)

lemma owner_not_final: "runOwnsState x r \<Longrightarrow> \<not> final_status (Status x)"
  by (auto simp: runOwnsState_def final_status_def split: if_splits)

lemma pending_not_final: "pending_match a n x \<Longrightarrow> \<not> final_status (Status x)"
  by (auto simp: pending_match_def final_status_def)

lemma row_muts:
  "row_mut (claim_mut a n)" "row_mut (park_mut a n why at)" "row_mut (snd \<circ> admit_mut r ap)"
  "row_mut (snd \<circ> resolve_mut r d at)" "row_mut (snd \<circ> collision_mut r se)"
  "row_mut (snd \<circ> progress_mut r p)" "row_mut (snd \<circ> fail_mut r txt)" "row_mut (snd \<circ> done_mut r dg)"
  "row_mut (snd \<circ> question_mut r q)" "row_mut (snd \<circ> persist_mut r)" "row_mut (snd \<circ> start_mut i b)"
  by (rule row_mutI, auto simp: claim_mut_def park_mut_def admit_mut_def resolve_mut_def collision_mut_def
      progress_mut_def fail_mut_def done_mut_def question_mut_def persist_mut_def start_mut_def Let_def
      final_status_def dest: owner_not_final pending_not_final)+

lemma row_mut_record: "row_mut (snd \<circ> record_mut r ap d re tm t)"
  unfolding row_mut_def
proof
  show "respects_final (snd \<circ> record_mut r ap d re tm t)"
    by (auto simp: respects_final_def dest: owner_not_final intro!: record_mut_row(2))
qed (rule keeps_record)

lemma row_mut_orphan: "\<not> final_status (Status j) \<Longrightarrow> row_mut (snd \<circ> orphan_mut j ce)"
  by (rule row_mutI) (auto simp: orphan_mut_def Let_def split: option.split list.split)

lemma row_mut_clear: "\<not> final_status s \<Longrightarrow> row_mut (snd \<circ> clear_run s r)"
  by (rule row_mutI) (auto simp: clear_run_def)

lemma drops_nothing:
  "drops_only '''' (claim_mut a n)" "drops_only '''' (park_mut a n why at)"
  "drops_only '''' (snd \<circ> admit_mut r ap)" "drops_only '''' (snd \<circ> resolve_mut r d at)"
  "drops_only '''' (snd \<circ> collision_mut r (Some e))" "drops_only '''' (snd \<circ> progress_mut r p)"
  "drops_only '''' (snd \<circ> fail_mut r txt)" "drops_only '''' (snd \<circ> done_mut r dg)"
  "drops_only '''' (snd \<circ> persist_mut r)" "drops_only '''' (snd \<circ> orphan_mut j (Some e))"
  by (auto simp: drops_only_def claim_mut_def park_mut_def admit_mut_def resolve_mut_def collision_mut_def
      progress_mut_def fail_mut_def done_mut_def persist_mut_def orphan_mut_def Let_def runOwnsState_def
      split: if_splits option.splits list.splits)

lemma drops_record: "drops_only (if tm then r else '''') (snd \<circ> record_mut r ap d re tm t)"
proof -
  have "HermesRunID (snd (record_mut r ap d re tm t x)) = HermesRunID x"
    if "HermesRunID x \<noteq> (if tm then r else '''')" "HermesRunID x \<noteq> ''''" for x
    using that by (cases "runOwnsState x r") (auto simp: record_mut_row split: if_splits)
  then show ?thesis by (simp add: drops_only_def)
qed

lemma drops_own:
  "drops_only r (snd \<circ> clear_run s r)" "drops_only r (snd \<circ> collision_mut r se)"
  "drops_only (HermesRunID j) (snd \<circ> orphan_mut j ce)"
  by (auto simp: drops_only_def clear_run_def collision_mut_def runOwnsState_def orphan_mut_def Let_def
      split: if_splits option.splits list.splits)

section \<open>Publications\<close>

text \<open>No decision nonce in a published value.\<close>

fun clean :: "payload \<Rightarrow> bool" where
  "clean (PJob j) = list_all (\<lambda>a. DecisionNonce a = '''') (Approvals j)"
| "clean (PFields fs) = True"
| "clean (PDecided j d ao) = (list_all (\<lambda>a. DecisionNonce a = '''') (Approvals j) \<and>
     (case ao of None \<Rightarrow> True | Some a \<Rightarrow> DecisionNonce a = ''''))"
| "clean (PAuto d m a) = (DecisionNonce a = '''')"

lemma redacted_clean [simp]:
  "list_all (\<lambda>a. DecisionNonce a = '''') (Approvals (Redacted j))"
  "DecisionNonce (redact_approval a) = ''''"
  "DecisionNonce ((redact_approval a)\<lparr>apDecision := d\<rparr>) = ''''"
  by (auto simp: Redacted_def redact_approval_def list_all_iff)

section \<open>The contract\<close>

lemma update_job_snd: "snd (update_job i mut w) = snd (update_job i (\<lambda>x. ((), snd (mut x))) w)"
  by (auto simp: update_job_def transact_def update_body_def Let_def comp_def
      split: db_fault.split sum.split option.split)

lemma query_snd: "snd (query f w) = w\<lparr>wdb := seen w, txs := Suc (txs w)\<rparr>"
  by (auto simp: query_def Let_def split: db_fault.split)

lemma with_mu_snd: "snd (with_mu f w) = snd (with_mu (\<lambda>m. ((), snd (f m))) w)"
  by (simp add: with_mu_def split: prod.split)

locale bridge_walk =
  fixes R :: "hermes \<Rightarrow> hermes \<Rightarrow> bool"
  assumes walk_refl: "R w w"
    and walk_trans: "R w w1 \<Longrightarrow> R w1 w2 \<Longrightarrow> R w w2"
    and walk_update: "row_mut m \<Longrightarrow> drops_only '''' m \<Longrightarrow> R w (snd (update_job i (\<lambda>x. ((), m x)) w))"
    and walk_update_after: "R w w1 \<Longrightarrow> confirmed r w w1 \<Longrightarrow> row_mut m \<Longrightarrow> drops_only r m \<Longrightarrow>
      R w (snd (update_job i (\<lambda>x. ((), m x)) w1))"
    and walk_query: "R w (w\<lparr>wdb := seen w, txs := Suc (txs w)\<rparr>)"
    and walk_policy: "(\<And>t d u d'. f t d = Inr (u, d') \<Longrightarrow> jobs d' = jobs d \<and> attentions d' = attentions d) \<Longrightarrow>
      R w (snd (transact (\<lambda>e. e) (f :: instant \<Rightarrow> db \<Rightarrow> error + (unit \<times> db)) w))"
    and walk_publish: "clean p \<Longrightarrow> R w (PublishJob k i p w)"
    and walk_mu: "R w (snd (with_mu (\<lambda>m. ((), g m)) w))"
    and walk_http: "R w (w\<lparr>sent := sent w @ [q]\<rparr>)"
    and walk_ulid: "R w (w\<lparr>nulid := Suc (nulid w)\<rparr>)"

locale delivery_walk = bridge_walk +
  assumes walk_any_update: "row_mut m \<Longrightarrow> R w (snd (update_job i (\<lambda>x. ((), m x)) w))"
    and walk_any_publish: "R w (PublishJob k i p w)"

section \<open>The walk\<close>

context bridge_walk
begin

lemma w_update:
  assumes "update_job i mut w = (x, w')" "row_mut (snd \<circ> mut)" "drops_only '''' (snd \<circ> mut)"
  shows "R w w'"
proof -
  have "w' = snd (update_job i (\<lambda>y. ((), (snd \<circ> mut) y)) w)"
    using arg_cong [OF assms(1), of snd] update_job_snd [of i mut w] by simp
  then show ?thesis using walk_update [OF assms(2,3)] by simp
qed

lemma w_update_after:
  assumes "update_job i mut w1 = (x, w')" "R w w1" "confirmed r w w1" "row_mut (snd \<circ> mut)"
    "drops_only r (snd \<circ> mut)"
  shows "R w w'"
proof -
  have "w' = snd (update_job i (\<lambda>y. ((), (snd \<circ> mut) y)) w1)"
    using arg_cong [OF assms(1), of snd] update_job_snd [of i mut w1] by simp
  then show ?thesis using walk_update_after [OF assms(2-5)] by simp
qed

lemma w_query: "query f w = (x, w') \<Longrightarrow> R w w'"
  using walk_query [of w] query_snd [of f w] by simp

lemma w_lookup: "lookup_job i w = (x, w') \<Longrightarrow> R w w'"
  unfolding lookup_job_def by (rule w_query)

lemma w_mu: "with_mu f w = (x, w') \<Longrightarrow> R w w'"
  using walk_mu [of w "\<lambda>m. snd (f m)"] with_mu_snd [of f w] by simp

lemma w_doJSON: "doJSON m p b v w = (x, w') \<Longrightarrow> R w w'"
  using walk_http [of w "(m, p, b)"]
  by (auto simp: doJSON_def Let_def split: http_reply.splits if_splits)

lemma w_http_do: "http_do m p b w = (x, w') \<Longrightarrow> R w w'"
  using walk_http [of w "(m, p, b)"] by (auto simp: http_do_def)

lemma w_ulid: "NewULID w = (x, w') \<Longrightarrow> R w w'"
  using walk_ulid [of w] by (auto simp: NewULID_def)

lemma w_publish: "R w w1 \<Longrightarrow> clean p \<Longrightarrow> R w (PublishJob k i p w1)"
  using walk_publish walk_trans by blast

lemma w_stopRun: "stopRun r w = (x, w') \<Longrightarrow> R w w'"
  by (auto simp: stopRun_def walk_refl split: if_splits prod.splits dest!: w_doJSON)

lemma w_status: "getRunStatus r w = (x, w') \<Longrightarrow> R w w'"
  by (auto simp: getRunStatus_def split: if_splits prod.splits option.splits dest!: w_doJSON)

lemma w_stop_outcome: "stopAndConfirmTerminalOutcome r w = (c, w') \<Longrightarrow> R w w'"
  by (auto simp: stopAndConfirmTerminalOutcome_def Let_def walk_refl split: if_splits prod.splits
      dest!: w_stopRun w_status intro: walk_trans)

lemma w_stop_confirm: "stopAndConfirmTerminal r w = (c, w') \<Longrightarrow> R w w'"
  by (auto simp: stopAndConfirmTerminal_def split: prod.splits dest!: w_stop_outcome)

lemmas w_row_updates =
  w_update [where mut = "\<lambda>x. (pending_match a n x, claim_mut a n x)" for a n, unfolded comp_def snd_conv,
    OF _ row_muts(1) drops_nothing(1)]
  w_update [where mut = "\<lambda>x. (pending_match a n x, park_mut a n why at x)" for a n why at,
    unfolded comp_def snd_conv, OF _ row_muts(2) drops_nothing(2)]
  w_update [OF _ row_muts(3) drops_nothing(3)]
  w_update [OF _ row_muts(4) drops_nothing(4)]
  w_update [OF _ row_muts(5) drops_nothing(5)]
  w_update [OF _ row_muts(6) drops_nothing(6)]
  w_update [OF _ row_muts(7) drops_nothing(7)]
  w_update [OF _ row_muts(8) drops_nothing(8)]
  w_update [OF _ row_muts(10) drops_nothing(9)]

lemmas w_steps = w_row_updates w_query w_lookup w_mu w_doJSON w_http_do w_ulid w_stopRun w_status
  w_stop_outcome w_stop_confirm

end

end
