(* ===== verification/Walk_Ops.thy ===== *)
theory Walk_Ops
  imports Walk
begin

text \<open>
  The contract \<open>bridge_walk\<close> holds across every operation of the approval broker, the cleanup of parked runs
  and the reconciliation at start; \<open>delivery_walk\<close> across a whole delivery.
\<close>

section \<open>Unproven outcomes\<close>

context bridge_walk
begin

lemma w_record:
  assumes "recordIndeterminateApproval i r ap d cs c w1 = (x, w')" "R w w1"
    "tcTerminal c \<longrightarrow> r = '''' \<or> confirmed r w w1"
  shows "R w w'"
proof -
  let ?m = "record_mut r ap d (indeterminate_reason d cs c) (tcTerminal c) (now w1)"
  obtain y w2 where u: "update_job i ?m w1 = (y, w2)" by fastforce
  have "R w w2"
  proof (cases "tcTerminal c \<and> r \<noteq> ''''")
    case True
    then have "confirmed r w w1" using assms(3) by blast
    moreover have "drops_only r (snd \<circ> ?m)" using drops_record [of "tcTerminal c" r] True by simp
    ultimately show ?thesis using w_update_after [OF u assms(2) _ row_mut_record] by blast
  next
    case False
    then have "drops_only '''' (snd \<circ> ?m)" using drops_record [of "tcTerminal c" r] by (auto split: if_splits)
    then show ?thesis using w_update [OF u row_mut_record] walk_trans [OF assms(2)] by blast
  qed
  then show ?thesis using assms(1) u
    by (auto simp: recordIndeterminateApproval_def Let_def split: sum.splits if_splits prod.splits
        intro!: w_publish)
qed

lemma w_fail_indet:
  assumes "failIndeterminateApproval i r ap d cs w = (x, w')"
  shows "R w w'"
proof -
  obtain c w1 where c: "stopAndConfirmTerminalOutcome r w = (c, w1)" by fastforce
  then have "recordIndeterminateApproval i r ap d (Some cs) c w1 = (x, w')"
    using assms by (simp add: failIndeterminateApproval_def)
  then show ?thesis using w_record w_stop_outcome [OF c] stop_outcome_facts [OF c] by blast
qed

lemma w_fail_auto: "failAutomaticApproval i r ap d cs w = (x, w') \<Longrightarrow> R w w'"
  by (auto simp: failAutomaticApproval_def split: prod.splits sum.splits dest!: w_fail_indet)

lemma confirmed_later:
  assumes "talks w w1" "confirmed r w1 w2"
  shows "confirmed r w w2"
proof -
  from assms(1) obtain m where m: "sent w1 = sent w @ m" and h: "http w1 = http w" by (auto simp: talks_def)
  from assms(2) obtain n where n: "length (sent w1) \<le> n" "n < length (sent w2)"
    "sent w2 ! n = (''GET'', run_path r '''', NoBody)" "says_terminal w1 n r"
    by (auto simp: confirmed_def)
  have "says_terminal w n r" using n(4) h by (simp add: says_terminal_def)
  then show ?thesis using n m unfolding confirmed_def by (intro exI [of _ n]) simp
qed

lemma status_confirmed:
  assumes "getRunStatus r w = ((st, None), w1)" "terminalHermesRunStatus (rsStatus st)"
  shows "confirmed r w w1"
  using getRunStatus_facts [OF assms(1)] assms(2) unfolding confirmed_def
  by (intro exI [of _ "length (sent w)"]) auto

lemma w_conflict:
  assumes "reconcileApprovalLifecycleConflict i r ap d cs w = (x, w')"
  shows "R w w'"
proof -
  obtain st se w1 where g: "getRunStatus r w = ((st, se), w1)" by (metis prod.collapse)
  show ?thesis
  proof (cases "se = None \<and> terminalHermesRunStatus (rsStatus st)")
    case True
    then have "recordIndeterminateApproval i r ap d (Some cs)
        (zero_cleanup\<lparr>tcInitial := st, tcTerminal := True\<rparr>) w1 = (x, w')"
      using assms g by (simp add: reconcileApprovalLifecycleConflict_def)
    then show ?thesis using w_record w_status [OF g] status_confirmed g True by blast
  next
    case False
    obtain c w2 where c: "stopAndConfirmTerminalOutcome r w1 = (c, w2)" by fastforce
    then have "recordIndeterminateApproval i r ap d (Some cs) c w2 = (x, w')"
      using assms g False by (auto simp: reconcileApprovalLifecycleConflict_def)
    moreover have "tcTerminal c \<longrightarrow> r = '''' \<or> confirmed r w w2"
      using stop_outcome_facts [OF c] confirmed_later getRunStatus_facts [OF g] by blast
    ultimately show ?thesis using w_record walk_trans [OF w_status [OF g] w_stop_outcome [OF c]] by blast
  qed
qed

section \<open>Parking\<close>

lemma w_claim: "ClaimApprovalTx i a n w = (x, w') \<Longrightarrow> R w w'"
  by (auto simp: ClaimApprovalTx_def bindE_def split: prod.splits sum.splits dest!: w_row_updates)

lemma w_release_parked:
  assumes "releaseParkedRunLocked i r w = (x, w')"
  shows "R w w'"
proof (cases "r = ''''")
  case True
  then show ?thesis using assms by (simp add: releaseParkedRunLocked_def walk_refl)
next
  case False
  obtain e w1 where s: "stopAndConfirmTerminal r w = (e, w1)" by fastforce
  note R1 = w_stop_confirm [OF s]
  show ?thesis
  proof (cases e)
    case None
    obtain y w2 where u: "update_job i (clear_run ParkedApproval r) w1 = (y, w2)" by fastforce
    have "confirmed r w w1" using stop_confirm_facts [OF s] None False by blast
    then have "R w w2"
      using w_update_after [OF u R1 _ row_mut_clear drops_own(1)] by (simp add: final_status_def)
    then show ?thesis using assms False s None u
      by (cases y) (auto simp: releaseParkedRunLocked_def)
  qed (use assms False s R1 in \<open>auto simp: releaseParkedRunLocked_def\<close>)
qed

lemma w_park: "parkApprovalLocked i r a n why w = (x, w') \<Longrightarrow> R w w'"
  by (auto simp: parkApprovalLocked_def ParkApprovalTx_def bindE_def
      split: prod.splits sum.splits if_splits option.splits dest!: w_row_updates w_release_parked
      intro!: w_publish intro: walk_trans)

lemma w_retry: "R w (retryParkedRunStop n i r w)"
proof (induction n arbitrary: w)
  case (Suc n)
  obtain y w1 where l: "lookup_job i w = (y, w1)" by fastforce
  obtain z w2 where p: "releaseParkedRunLocked i r w1 = (z, w2)" by fastforce
  note R1 = w_lookup [OF l]
  note R2 = walk_trans [OF R1 w_release_parked [OF p]]
  show ?case
    using l p R1 R2 walk_trans [OF R1 Suc] walk_trans [OF R2 Suc] by (simp split: sum.split)
qed (simp add: walk_refl)

section \<open>Decisions\<close>

lemma w_policy_denials: "save_policy SavePermanentDenials ks i w = (x, w') \<Longrightarrow> R w w'"
  using walk_policy [where f = "\<lambda>_ d. case SavePermanentDenials (sha256 w) ks i d of
      (Some e, _) \<Rightarrow> Inl e | (None, d') \<Rightarrow> Inr ((), d')" and w = w]
  by (auto simp: save_policy_def SavePermanentDenials_def Let_def walk_refl
      split: prod.splits sum.splits if_splits)

lemma w_policy_allows: "save_policy SavePermanentAllows ks i w = (x, w') \<Longrightarrow> R w w'"
  using walk_policy [where f = "\<lambda>_ d. case SavePermanentAllows (sha256 w) ks i d of
      (Some e, _) \<Rightarrow> Inl e | (None, d') \<Rightarrow> Inr ((), d')" and w = w]
  by (auto simp: save_policy_def SavePermanentAllows_def Let_def walk_refl
      split: prod.splits sum.splits if_splits)

lemma w_post: "postApproval r ch all q k w = (e, w') \<Longrightarrow> R w w'"
  by (auto simp: postApproval_def split: prod.splits option.splits if_splits dest!: w_doJSON)

lemma w_remember: "R w (remember_session b i ks w)"
  unfolding remember_session_def Let_def by (rule w_mu) (rule prod.collapse [symmetric])

lemma w_owned: "ownedRunID i w = (x, w') \<Longrightarrow> R w w'"
  unfolding ownedRunID_def by (rule w_mu)

lemma w_validate: "validate_decision i a n d w = (x, w') \<Longrightarrow> R w w'"
  by (auto simp: validate_decision_def bindE_def Let_def split: prod.splits sum.splits if_splits
      dest!: w_lookup w_park w_owned intro: walk_trans)

lemma w_finish: "finish_decision i r ap d pe w = (x, w') \<Longrightarrow> R w w'"
  by (auto simp: finish_decision_def bindE_def Let_def split: prod.splits sum.splits if_splits option.splits
      dest!: w_row_updates intro!: w_publish)

lemma w_settle:
  assumes "settle_decision i r ap d pe e w = (x, w')"
  shows "R w w'"
proof (cases e)
  case None
  obtain pe' w1 where p: "(if d = DecisionAllowAlways
      then save_policy SavePermanentAllows (persistentPolicyKeys w (PatternKeys ap)) i w
      else (pe, w)) = (pe', w1)" by fastforce
  obtain w2 where w2: "(if d = DecisionAllowSession
      then remember_session True i (PatternKeys ap) w1 else w1) = w2" by blast
  have r1: "R w w1" using p walk_refl w_policy_allows by (auto split: if_splits)
  have r2: "R w1 w2" using w2 w_remember walk_refl by (auto split: if_splits)
  have "finish_decision i r ap d pe' w2 = (x, w')"
    using assms by (simp add: settle_decision_def None p w2 Let_def)
  from walk_trans [OF walk_trans [OF r1 r2] w_finish [OF this]] show ?thesis .
next
  case (Some er)
  then show ?thesis using assms w_conflict w_fail_indet by (auto simp: settle_decision_def split: if_splits)
qed

lemma w_decide:
  assumes "HermesDecideApproval i a n d w = (x, w')"
  shows "R w w'"
proof (cases "api_choice d")
  case None
  then show ?thesis using assms by (auto simp: HermesDecideApproval_def walk_refl)
next
  case (Some ch)
  obtain y w1 where v: "validate_decision i a n d w = (y, w1)" by fastforce
  note R1 = w_validate [OF v]
  show ?thesis
  proof (cases y)
    case (Inl e)
    then show ?thesis using assms Some v R1 by (simp add: HermesDecideApproval_def)
  next
    case (Inr current)
    obtain z w2 where c: "ClaimApprovalTx i a n w1 = (z, w2)" by fastforce
    note R2 = walk_trans [OF R1 w_claim [OF c]]
    show ?thesis
    proof (cases z)
      case (Inl e)
      then show ?thesis using assms Some v c \<open>y = Inr current\<close> R2 by (simp add: HermesDecideApproval_def)
    next
      case j: (Inr j)
      obtain w3 where w3: "(if d = DecisionDenySession
          then remember_session False i (PatternKeys current) w2 else w2) = w3" by blast
      obtain pe w4 where p: "(if d = DecisionDenyAlways
          then save_policy SavePermanentDenials (persistentPolicyKeys w3 (PatternKeys current)) i w3
          else (None, w3)) = (pe, w4)" by fastforce
      obtain res w5 where q: "postApproval (HermesRunID j) ch False (ProviderRequestID current)
          (apID current) w4 = (res, w5)" by fastforce
      have r3: "R w2 w3" using w3 w_remember walk_refl by (auto split: if_splits)
      have r4: "R w3 w4" using p walk_refl w_policy_denials by (auto split: if_splits)
      have "settle_decision i (HermesRunID j) current d pe res w5 = (x, w')"
        using assms unfolding HermesDecideApproval_def
        by (simp only: Some v c \<open>y = Inr current\<close> j option.case prod.case bindE_simps w3 p q Let_def)
      from walk_trans [OF walk_trans [OF walk_trans [OF R2 r3] r4] walk_trans [OF w_post [OF q] w_settle [OF this]]]
      show ?thesis .
    qed
  qed
qed

section \<open>Requests\<close>

lemma w_auto: "auto_decide i r ap ch k d m w = (x, w') \<Longrightarrow> R w w'"
  by (auto simp: auto_decide_def split: prod.splits option.splits dest!: w_post w_fail_auto
      intro!: w_publish intro: walk_trans)

lemma w_admit: "admit_request i r ap w = (x, w') \<Longrightarrow> R w w'"
  by (auto simp: admit_request_def split: prod.splits sum.splits if_splits dest!: w_row_updates
      intro!: w_publish)

lemma w_collision:
  assumes "deny_collision i r ap w = (x, w')"
  shows "R w w'"
proof -
  obtain de w1 where p: "postApproval r ''deny'' True '''' '''' w = (de, w1)" by fastforce
  note R1 = w_post [OF p]
  show ?thesis
  proof (cases de)
    case (Some e)
    then show ?thesis using assms p walk_trans [OF R1 w_fail_auto] by (simp add: deny_collision_def)
  next
    case None
    obtain se w2 where s: "stopAndConfirmTerminal r w1 = (se, w2)" by fastforce
    note R2 = w_stop_confirm [OF s]
    obtain y w3 where u: "update_job i (collision_mut r se) w2 = (y, w3)" by fastforce
    have "R w1 w3"
    proof (cases se)
      case (Some e)
      then show ?thesis using w_row_updates(5) [OF u [unfolded Some]] walk_trans [OF R2] by blast
    next
      case n: None
      then have c: "r = '''' \<or> confirmed r w1 w2" using stop_confirm_facts [OF s] by blast
      have m: "row_mut (snd \<circ> collision_mut r se)" "drops_only r (snd \<circ> collision_mut r se)"
        by (rule row_muts drops_own)+
      from c show ?thesis
        using w_update_after [OF u R2 _ m] w_update [OF u m(1)] m(2) walk_trans [OF R2] by blast
    qed
    moreover have "w' = w3 \<or> (\<exists>j. w' = PublishJob ''job.failed'' i (PJob (Redacted j)) w3)"
      using assms p s u None
      by (auto simp: deny_collision_def Let_def split: option.splits prod.splits bool.splits)
    ultimately show ?thesis using walk_trans [OF R1] w_publish [of w w3] by auto
  qed
qed

lemma w_new: "new_approval ev w = (x, w') \<Longrightarrow> R w w'"
  by (auto simp: new_approval_def split: prod.splits dest!: w_ulid intro: walk_trans)

lemma w_allows: "consult_allows i r ev ap w = (x, w') \<Longrightarrow> R w w'"
  by (auto simp: consult_allows_def matchesSessionAllow_def permanent_allow_def Let_def
      split: prod.splits sum.splits if_splits dest!: w_auto w_admit w_query w_mu intro: walk_trans)

lemma w_handle:
  assumes "handleApprovalRequest i r ev w = (x, w')"
  shows "R w w'"
  using assms
  by (auto simp: handleApprovalRequest_def matchesSessionDenial_def permanent_denial_def Let_def
      split: prod.splits sum.splits if_splits
      dest!: w_new w_collision w_lookup w_auto w_allows w_query w_mu)
    (metis walk_trans)+

section \<open>Cleanup and reconciliation\<close>

lemma w_cancel_owned: "R w (cancelOwnedRun i r w)"
  unfolding cancelOwnedRun_def by (rule w_mu) (rule prod.collapse [symmetric])

lemma confirmed_cancel_owned: "confirmed r w (cancelOwnedRun i r' w1) = confirmed r w w1"
  by (simp add: confirmed_def cancelOwnedRun_def)

lemma w_cancel: "R w (HermesCancel i w)"
proof -
  obtain o' w1 where o: "ownedRunID i w = (o', w1)" by fastforce
  obtain r w2 where l: "(if o' = '''' then (case lookup_job i w1 of (Inr j, w) \<Rightarrow> (HermesRunID j, w)
      | (Inl e, w) \<Rightarrow> ('''', w)) else (o', w1)) = (r, w2)" by fastforce
  obtain w3 where d: "(if r \<noteq> '''' then snd (doJSON ''POST'' (run_path r ''/stop'') EmptyBody False w2)
      else w2) = w3" by blast
  have r2: "R w1 w2"
    using l by (auto simp: walk_refl split: if_splits prod.splits sum.splits dest!: w_lookup)
  have r3: "R w2 w3"
    using d w_doJSON [OF prod.collapse [symmetric]] walk_refl by (auto split: if_splits)
  have "HermesCancel i w = cancelOwnedRun i r w3"
    by (simp only: HermesCancel_def o l d prod.case Let_def)
  with walk_trans [OF walk_trans [OF walk_trans [OF w_owned [OF o] r2] r3] w_cancel_owned] show ?thesis
    by simp
qed

lemma release_facts:
  assumes "ReleaseRun i r w = (e, w')"
  shows "R w w' \<and> (e = None \<longrightarrow> r = '''' \<or> confirmed r w w')"
proof (cases "r = ''''")
  case True
  then show ?thesis using assms by (simp add: ReleaseRun_def walk_refl)
next
  case False
  obtain se w1 where s: "stopAndConfirmTerminal r w = (se, w1)" by fastforce
  have "w' = (case se of None \<Rightarrow> cancelOwnedRun i r w1 | Some _ \<Rightarrow> w1)" "e = se"
    using assms False s by (auto simp: ReleaseRun_def split: option.splits)
  then show ?thesis
    using stop_confirm_facts [OF s] w_stop_confirm [OF s] walk_trans [OF w_stop_confirm [OF s] w_cancel_owned]
    by (auto simp: confirmed_cancel_owned split: option.split)
qed

lemma w_clear_after:
  assumes "clear_after s j w1 = (e, w')" "R w w1" "confirmed (HermesRunID j) w w1" "\<not> final_status s"
  shows "R w w'"
proof -
  obtain y w2 where u: "update_job (jID j) (clear_run s (HermesRunID j)) w1 = (y, w2)" by fastforce
  have "w' = w2" using assms(1) u by (auto simp: clear_after_def split: sum.splits)
  then show ?thesis using w_update_after [OF u assms(2,3) row_mut_clear [OF assms(4)] drops_own(1)] by simp
qed

lemma w_reconcile_failed:
  assumes "reconcile_failed j w = (e, w')" "HermesRunID j \<noteq> ''''"
  shows "R w w'"
proof -
  obtain se w1 where s: "stopAndConfirmTerminal (HermesRunID j) w = (se, w1)" by fastforce
  show ?thesis
    using assms s w_stop_confirm [OF s] stop_confirm_facts [OF s]
      w_clear_after [of Failed j w1 e w' w]
    by (cases se) (auto simp: reconcile_failed_def final_status_def)
qed

lemma w_reconcile_input:
  assumes "reconcile_input j w = (e, w')"
  shows "R w w'"
proof (cases "HermesRunID j = ''''")
  case True
  then show ?thesis using assms by (simp add: reconcile_input_def walk_refl)
next
  case False
  obtain se w1 where s: "ReleaseRun (jID j) (HermesRunID j) w = (se, w1)" by fastforce
  show ?thesis
    using assms s release_facts [OF s] False w_clear_after [of NeedsInput j w1 e w' w]
    by (cases se) (auto simp: reconcile_input_def final_status_def)
qed

lemma w_reconcile_parked: "reconcile_parked j w = (e, w') \<Longrightarrow> R w w'"
  using w_release_parked [OF prod.collapse [symmetric]] walk_refl by (auto simp: reconcile_parked_def)

lemma w_reconcile_orphan:
  assumes "reconcile_orphan j w = (e, w')" "\<not> final_status (Status j)"
  shows "R w w'"
proof -
  obtain ce w1 where s: "(if HermesRunID j \<noteq> '''' then stopAndConfirmTerminal (HermesRunID j) w
      else (None, w)) = (ce, w1)" by fastforce
  obtain y w2 where u: "update_job (jID j) (orphan_mut j ce) w1 = (y, w2)" by fastforce
  note m = row_mut_orphan [OF assms(2), of ce]
  have R1: "R w w1" using s w_stop_confirm walk_refl by (auto split: if_splits)
  have "R w w2"
  proof (cases ce)
    case (Some x)
    then show ?thesis using w_update [OF u m] drops_nothing(10) walk_trans [OF R1] by simp
  next
    case None
    have c: "HermesRunID j = '''' \<or> confirmed (HermesRunID j) w w1"
      using s None stop_confirm_facts by (auto split: if_splits)
    show ?thesis
    proof (cases "HermesRunID j = ''''")
      case True
      then show ?thesis using w_update [OF u m] drops_own(3) [of j ce] walk_trans [OF R1] by simp
    next
      case False
      with c w_update_after [OF u R1 _ m drops_own(3)] show ?thesis by blast
    qed
  qed
  moreover have "w' = w2 \<or> (\<exists>x. w' = PublishJob ''job.failed'' (jID j) (PJob (Redacted x)) w2)"
    using assms(1) s u by (auto simp: reconcile_orphan_def split: sum.splits prod.splits if_splits)
  ultimately show ?thesis using w_publish [of w w2] by auto
qed

lemma w_reconcile_one:
  assumes "reconcile_one j w = (e, w')"
  shows "R w w'"
  using assms
  by (auto simp: reconcile_one_def walk_refl final_status_def split: if_splits prod.splits sum.splits
      dest: w_reconcile_failed w_reconcile_input w_reconcile_parked w_park w_reconcile_orphan)

lemma w_reconcile_jobs: "reconcile_jobs js w = (e, w') \<Longrightarrow> R w w'"
proof (induction js arbitrary: w)
  case (Cons j js)
  obtain x w1 where o: "reconcile_one j w = (x, w1)" by fastforce
  show ?case
    using Cons.prems o w_reconcile_one [OF o] walk_trans [OF w_reconcile_one [OF o] Cons.IH]
    by (cases x) auto
qed (simp add: walk_refl)

lemma w_reconcile:
  assumes "ReconcileOrphans w = (e, w')"
  shows "R w w'"
proof -
  obtain y w1 where a: "query (\<lambda>d. Inr (ActiveJobs d)) w = (y, w1)" by fastforce
  obtain z w2 where f: "query (\<lambda>d. Inr (UnresolvedRunJobs d)) w1 = (z, w2)" by fastforce
  note r = w_query [OF a] walk_trans [OF w_query [OF a] w_query [OF f]]
  show ?thesis
    using assms a f r walk_trans [OF r(2) w_reconcile_jobs]
    by (cases y; cases z) (auto simp: ReconcileOrphans_def)
qed

end

section \<open>Deliveries\<close>

context delivery_walk
begin

lemma w_any: "update_job i mut w = (x, w') \<Longrightarrow> row_mut (snd \<circ> mut) \<Longrightarrow> R w w'"
  using walk_any_update [of "snd \<circ> mut" w i] update_job_snd [of i mut w] by simp

lemma w_pub: "R w w1 \<Longrightarrow> R w (PublishJob k i p w1)"
  using walk_any_publish walk_trans by blast

lemmas w_run_updates = w_any [OF _ row_muts(7)] w_any [OF _ row_muts(8)] w_any [OF _ row_muts(9)]
  w_any [OF _ row_muts(10)] w_any [OF _ row_muts(11)] w_any [OF _ row_muts(6)]

lemma w_progress: "R w (updateProgress i tool label st w)"
  by (auto simp: updateProgress_def Let_def split: prod.splits sum.splits if_splits
      dest!: w_run_updates w_owned intro!: w_pub intro: walk_trans)

lemma w_stop_and_fail: "stop_and_fail r e w = (x, w') \<Longrightarrow> R w w'"
  using w_stopRun [OF prod.collapse [symmetric]] by (auto simp: stop_and_fail_def)

lemma w_set_run: "setRunID i ow r w = (x, w') \<Longrightarrow> R w w'"
  unfolding setRunID_def by (rule w_mu)

lemma w_post_run: "post_run j inp h w = (x, w') \<Longrightarrow> R w w'"
  by (auto simp: post_run_def split: prod.splits option.splits if_splits dest!: w_doJSON)

lemma w_own_run: "own_run i ow r w = (x, w') \<Longrightarrow> R w w'"
  by (auto simp: own_run_def split: prod.splits sum.splits if_splits
      dest!: w_run_updates w_stop_and_fail w_set_run intro!: w_pub intro: walk_trans)

lemma w_subscribe: "subscribe r w = (x, w') \<Longrightarrow> R w w'"
  by (auto simp: subscribe_def split: prod.splits http_reply.splits if_splits
      dest!: w_http_do w_stop_and_fail intro: walk_trans)

lemma w_start: "start_run j inp h ow w = (x, w') \<Longrightarrow> R w w'"
  by (auto simp: start_run_def bindE_def split: prod.splits sum.splits
      dest!: w_post_run w_own_run w_subscribe intro: walk_trans)

lemma w_park_fired: "park_fired at i r t w = (x, w') \<Longrightarrow> R w w'"
  by (auto simp: park_fired_def Let_def split: prod.splits sum.splits if_splits
      dest!: w_lookup w_park intro: walk_trans)

lemma w_approval_event: "approval_event at i r ev t w = (x, w') \<Longrightarrow> R w w'"
  by (auto simp: approval_event_def split: prod.splits sum.splits option.splits
      dest!: w_lookup w_handle intro: walk_trans)

lemma w_turn_event: "turn_event at i r ev t w = (x, w') \<Longrightarrow> R w w'"
  by (auto simp: turn_event_def walk_refl w_progress split: if_splits dest!: w_approval_event)

lemma w_turn_step: "turn_step i r inp t w = (x, w') \<Longrightarrow> R w w'"
  by (auto simp: turn_step_def returning_def walk_refl
      split: turn_input.splits option.splits if_splits prod.splits
      dest!: w_stop_and_fail w_park_fired w_turn_event)

lemma w_drive: "drive i r ins t w = (x, w') \<Longrightarrow> R w w'"
proof (induction ins arbitrary: t w)
  case (Cons inp ins)
  obtain y w1 where s: "turn_step i r inp t w = (y, w1)" by fastforce
  show ?case
    using Cons.prems s w_turn_step [OF s] walk_trans [OF w_turn_step [OF s] Cons.IH] by (cases y) auto
qed (simp add: walk_refl)

lemma w_turn: "runTurnOwned j inp h ow ins w = (x, w') \<Longrightarrow> R w w'"
  by (auto simp: runTurnOwned_def split: prod.splits sum.splits dest!: w_start w_drive intro: walk_trans)

lemma w_fail_job: "fail_job i r txt f w = (x, w') \<Longrightarrow> R w w'"
  using w_run_updates(1) [OF prod.collapse [symmetric]]
  by (auto simp: fail_job_def Let_def split: option.splits prod.splits bool.splits intro!: w_pub)

lemma w_interrupted:
  assumes "turn_interrupted i r ce w = (x, w')"
  shows "R w w'"
  using assms
  by (auto simp: turn_interrupted_def Let_def split: prod.splits sum.splits if_splits
      dest!: w_fail_job w_park w_lookup intro: walk_trans)

lemma w_failed: "turn_failed i r e ce w = (x, w') \<Longrightarrow> R w w'"
  by (auto simp: turn_failed_def walk_refl split: if_splits option.splits dest!: w_interrupted w_fail_job)

lemma w_conclude: "conclude i k mut w = (x, w') \<Longrightarrow> row_mut (snd \<circ> mut) \<Longrightarrow> R w w'"
  by (auto simp: conclude_def split: prod.splits sum.splits if_splits dest!: w_any intro!: w_pub)

lemma w_replied: "turn_replied i r rep w = (x, w') \<Longrightarrow> R w w'"
  using row_muts(8,9)
  by (auto simp: turn_replied_def split: prod.splits if_splits dest: w_conclude)

lemma w_finish_turn: "finish_turn i ce res w = (x, w') \<Longrightarrow> R w w'"
  by (auto simp: finish_turn_def split: prod.splits sum.splits
      dest!: w_owned w_failed w_replied intro: walk_trans)

lemma w_maps: "R w (reset_sessions i w)" "R w (register_owner i ow w)" "R w (release_owner i ow w)"
  unfolding reset_sessions_def register_owner_def release_owner_def
  by (rule w_mu, rule prod.collapse [symmetric])+

lemma w_run_turn: "run_turn i env j inp h w = (x, w') \<Longrightarrow> R w w'"
  by (auto simp: run_turn_def Let_def split: prod.splits option.splits
      dest!: w_turn w_finish_turn intro: walk_trans [OF w_maps(1)] walk_trans)

lemma w_history: "loadSessionHistory i w = (x, w') \<Longrightarrow> R w w'"
  by (auto simp: loadSessionHistory_def split: prod.splits option.splits dest!: w_doJSON)

lemma w_run_owned:
  assumes "run_owned i env before j w = (x, w')"
  shows "R w w'"
proof -
  obtain y w1 where l: "lookup_job i w = (y, w1)" by fastforce
  note R1 = w_lookup [OF l]
  show ?thesis
  proof (cases y)
    case (Inl e)
    then show ?thesis using assms l R1 by (simp add: run_owned_def Let_def)
  next
    case (Inr current)
    note R2 = w_pub [OF R1, of "''job.running''" i "PJob current"]
    obtain h w3 where h: "loadSessionHistory i (PublishJob ''job.running'' i (PJob current) w1) = (h, w3)"
      by fastforce
    note R3 = walk_trans [OF R2 w_history [OF h]]
    show ?thesis
      using assms l Inr R1 R2 R3 h walk_trans [OF R2 w_run_turn] walk_trans [OF R3 w_run_turn]
      by (auto simp: run_owned_def Let_def split: if_splits)
  qed
qed

lemma w_run:
  assumes "HermesRun i env w = (x, w')"
  shows "R w w'"
proof -
  obtain y w1 where l: "lookup_job i w = (y, w1)" by fastforce
  note R1 = w_lookup [OF l]
  show ?thesis
  proof (cases y)
    case (Inl e)
    then show ?thesis using assms l R1 by (simp add: HermesRun_def)
  next
    case (Inr before)
    obtain z w2 where u: "update_job i (start_mut i (HermesSessionID before \<noteq> '''')) w1 = (z, w2)"
      by fastforce
    note R2 = walk_trans [OF R1 w_any [OF u row_muts(11)]]
    obtain c w4 where o: "run_owned i env before (snd (projr z)) (register_owner i (reOwner env) w2) = (c, w4)"
      by fastforce
    note R4 = walk_trans [OF walk_trans [OF R2 w_maps(2)] w_run_owned [OF o]]
    show ?thesis
      using assms l Inr R1 R2 R4 u o walk_trans [OF R4 w_maps(3)]
      by (cases z) (auto simp: HermesRun_def split: if_splits option.splits)
  qed
qed

end

end
