(* ===== verification/Walk_Safety.thy ===== *)
theory Walk_Safety
  imports Walk_Ops
begin

text \<open>
  The contract of the walk for three relations: a job that is done or cancelled stays so, a handle on an
  upstream run is only dropped on Hermes' own word that the run has ended, and no decision nonce is
  published.
\<close>

section \<open>What holds of the table\<close>

definition others_keep :: "(db \<Rightarrow> bool) \<Rightarrow> hermes \<Rightarrow> bool" where
  "others_keep Q w \<longleftrightarrow> (\<forall>n d. Q d \<longrightarrow> Q (meddle w n d))"

definition at_status :: "string \<Rightarrow> job_status \<Rightarrow> db \<Rightarrow> bool" where
  "at_status k s d \<longleftrightarrow> (case find_job k d of None \<Rightarrow> False | Some x \<Rightarrow> Status x = s)"

definition holds_run :: "string \<Rightarrow> string \<Rightarrow> db \<Rightarrow> bool" where
  "holds_run k r d \<longleftrightarrow> (case find_job k d of None \<Rightarrow> False | Some x \<Rightarrow> HermesRunID x = r)"

definition keeps_status :: "string \<Rightarrow> job_status \<Rightarrow> hermes \<Rightarrow> hermes \<Rightarrow> bool" where
  "keeps_status k s w w' \<longleftrightarrow> meddle w' = meddle w \<and>
     (final_status s \<longrightarrow> others_keep (at_status k s) w \<longrightarrow> at_status k s (wdb w) \<longrightarrow> at_status k s (wdb w'))"

text \<open>Every request to Hermes stays on record, so a confirmation stays found.\<close>

definition keeps_run :: "string \<Rightarrow> string \<Rightarrow> hermes \<Rightarrow> hermes \<Rightarrow> bool" where
  "keeps_run k r w w' \<longleftrightarrow> meddle w' = meddle w \<and> http w' = http w \<and> prefix (sent w) (sent w') \<and>
     (r \<noteq> '''' \<longrightarrow> others_keep (holds_run k r) w \<longrightarrow> holds_run k r (wdb w) \<longrightarrow>
        holds_run k r (wdb w') \<or> confirmed r w w')"

definition keeps_clean :: "hermes \<Rightarrow> hermes \<Rightarrow> bool" where
  "keeps_clean w w' \<longleftrightarrow>
     (list_all (\<lambda>(k, i, p). clean p) (pubs w) \<longrightarrow> list_all (\<lambda>(k, i, p). clean p) (pubs w'))"

section \<open>The primitives\<close>

lemma find_job_jobs: "jobs d' = jobs d \<Longrightarrow> find_job k d' = find_job k d"
  by (simp add: find_job_def)

lemma update_cases:
  assumes "row_mut m"
  obtains "wdb (snd (update_job i (\<lambda>x. ((), m x)) w)) = seen w"
  | x where "find_job i (seen w) = Some x"
      "find_job i (wdb (snd (update_job i (\<lambda>x. ((), m x)) w))) = Some (bump_job (clock w (txs w)) (m x))"
      "\<And>k. k \<noteq> i \<Longrightarrow> find_job k (wdb (snd (update_job i (\<lambda>x. ((), m x)) w))) = find_job k (seen w)"
proof -
  have "keeps_identity (snd \<circ> (\<lambda>x. ((), m x)))" using assms by (simp add: row_mut_def comp_def)
  from update_job_effect [OF prod.collapse [symmetric] this, of i w] show ?thesis using that by auto
qed

lemma policy_jobs:
  assumes "\<And>t d u d'. f t d = Inr (u, d') \<Longrightarrow> jobs d' = jobs d \<and> attentions d' = attentions d"
  shows "find_job k (wdb (snd (transact wr f w))) = find_job k (seen w)"
  using transact_db [of wr f w]
proof
  assume "\<exists>u d'. f (clock w (txs w)) (seen w) = Inr (u, d') \<and> wdb (snd (transact wr f w)) = d'"
  then obtain u d' where d': "f (clock w (txs w)) (seen w) = Inr (u, d')" "wdb (snd (transact wr f w)) = d'"
    by blast
  from find_job_jobs [OF assms [OF d'(1), THEN conjunct1]] d'(2) show ?thesis by simp
qed simp

lemma at_status_update:
  assumes "row_mut m" "final_status s" "at_status k s (seen w)"
  shows "at_status k s (wdb (snd (update_job i (\<lambda>x. ((), m x)) w)))"
  using assms(1)
proof (rule update_cases [of m i w])
  fix x
  assume h: "find_job i (seen w) = Some x"
    "find_job i (wdb (snd (update_job i (\<lambda>x. ((), m x)) w))) = Some (bump_job (clock w (txs w)) (m x))"
    "\<And>k. k \<noteq> i \<Longrightarrow> find_job k (wdb (snd (update_job i (\<lambda>x. ((), m x)) w))) = find_job k (seen w)"
  show ?thesis
  proof (cases "k = i")
    case True
    then have "Status x = s" using h(1) assms(3) by (simp add: at_status_def)
    then have "m x = x" using assms(1,2) by (auto simp: row_mut_def respects_final_def)
    then show ?thesis using True h(2) \<open>Status x = s\<close> by (simp add: at_status_def)
  next
    case False
    then show ?thesis using h(3) assms(3) by (simp add: at_status_def)
  qed
qed (use assms(3) in simp)

lemma holds_run_update:
  assumes "row_mut m" "drops_only r' m" "r' \<noteq> r" "r \<noteq> ''''" "holds_run k r (seen w)"
  shows "holds_run k r (wdb (snd (update_job i (\<lambda>x. ((), m x)) w)))"
  using assms(1)
proof (rule update_cases [of m i w])
  fix x
  assume h: "find_job i (seen w) = Some x"
    "find_job i (wdb (snd (update_job i (\<lambda>x. ((), m x)) w))) = Some (bump_job (clock w (txs w)) (m x))"
    "\<And>k. k \<noteq> i \<Longrightarrow> find_job k (wdb (snd (update_job i (\<lambda>x. ((), m x)) w))) = find_job k (seen w)"
  show ?thesis
  proof (cases "k = i")
    case True
    then have "HermesRunID x = r" using h(1) assms(5) by (simp add: holds_run_def)
    then have "HermesRunID (m x) = r" using assms(2-4) by (auto simp: drops_only_def)
    then show ?thesis using True h(2) by (simp add: holds_run_def)
  next
    case False
    then show ?thesis using h(3) assms(5) by (simp add: holds_run_def)
  qed
qed (use assms(5) in simp)

lemma confirmed_prefix:
  assumes "confirmed r w w1" "prefix (sent w1) (sent w2)"
  shows "confirmed r w w2"
proof -
  from assms(1) obtain n where n: "length (sent w) \<le> n" "n < length (sent w1)"
    "sent w1 ! n = (''GET'', run_path r '''', NoBody)" "says_terminal w n r" by (auto simp: confirmed_def)
  from assms(2) obtain q where "sent w2 = sent w1 @ q" by (auto simp: prefix_def)
  with n show ?thesis unfolding confirmed_def by (intro exI [of _ n]) (simp add: nth_append)
qed

lemma confirmed_suffix:
  assumes "confirmed r w1 w2" "prefix (sent w) (sent w1)" "http w1 = http w"
  shows "confirmed r w w2"
  using assms prefix_length_le [OF assms(2)] unfolding confirmed_def says_terminal_def
  by (auto intro: order_trans)

section \<open>Interpretations\<close>

interpretation fin: delivery_walk "keeps_status k s" for k s
proof (unfold_locales, goal_cases)
  case (3 m w i)
  then show ?case using at_status_update [of m s k w i] by (auto simp: keeps_status_def others_keep_def)
next
  case (4 w w1 r m i)
  then show ?case using at_status_update [of m s k w1 i] by (auto simp: keeps_status_def others_keep_def)
next
  case (6 f w)
  then show ?case using policy_jobs [of f k "\<lambda>e. e" w]
    by (auto simp: keeps_status_def others_keep_def at_status_def)
next
  case (11 m w i)
  then show ?case using at_status_update [of m s k w i] by (auto simp: keeps_status_def others_keep_def)
qed (auto simp: keeps_status_def others_keep_def)

lemma keeps_run_trans:
  assumes "keeps_run k r w w1" "keeps_run k r w1 w2"
  shows "keeps_run k r w w2"
proof -
  have s: "meddle w2 = meddle w" "http w2 = http w" "prefix (sent w) (sent w2)"
    using assms prefix_order.trans by (auto simp: keeps_run_def)
  have "holds_run k r (wdb w2) \<or> confirmed r w w2"
    if "r \<noteq> ''''" "others_keep (holds_run k r) w" "holds_run k r (wdb w)"
  proof -
    from assms(1) that have "holds_run k r (wdb w1) \<or> confirmed r w w1" by (simp add: keeps_run_def)
    then show ?thesis
    proof
      assume h: "holds_run k r (wdb w1)"
      have "others_keep (holds_run k r) w1" using that(2) assms(1) by (simp add: keeps_run_def others_keep_def)
      with h assms(2) that(1) have "holds_run k r (wdb w2) \<or> confirmed r w1 w2" by (simp add: keeps_run_def)
      then show ?thesis using confirmed_suffix assms(1) by (auto simp: keeps_run_def)
    qed (use assms(2) confirmed_prefix in \<open>auto simp: keeps_run_def\<close>)
  qed
  with s show ?thesis by (simp add: keeps_run_def)
qed

lemma keeps_run_update:
  assumes "row_mut m" "drops_only r' m" "r' = r \<longrightarrow> r = ''''"
  shows "keeps_run k r w (snd (update_job i (\<lambda>x. ((), m x)) w))"
  using holds_run_update [OF assms(1,2), of r k w i] assms(3)
  by (auto simp: keeps_run_def others_keep_def)

interpretation hr: bridge_walk "keeps_run k r" for k r
proof (unfold_locales, goal_cases)
  case (2 w w1 w2)
  then show ?case by (rule keeps_run_trans)
next
  case (3 m w i)
  then show ?case by (intro keeps_run_update) auto
next
  case (4 w w1 r' m i)
  show ?case
  proof (cases "r' = r")
    case True
    with 4(2) have "confirmed r w (snd (update_job i (\<lambda>x. ((), m x)) w1))" by (simp add: confirmed_def)
    with 4(1) show ?thesis by (simp add: keeps_run_def)
  next
    case False
    with 4 show ?thesis using keeps_run_trans [OF 4(1) keeps_run_update [OF 4(3,4)]] by simp
  qed
next
  case (6 f w)
  then show ?case using policy_jobs [of f k "\<lambda>e. e" w]
    by (auto simp: keeps_run_def others_keep_def holds_run_def)
qed (auto simp: keeps_run_def others_keep_def)

interpretation pc: bridge_walk keeps_clean
  by unfold_locales (auto simp: keeps_clean_def)

section \<open>Sequences of operations\<close>

text \<open>The operations of the bridge but for a delivery, in any order; and with deliveries.\<close>

inductive bridge_op :: "hermes \<Rightarrow> hermes \<Rightarrow> bool" where
  op_decide: "HermesDecideApproval i a n d w = (x, w') \<Longrightarrow> bridge_op w w'"
| op_request: "handleApprovalRequest i r ev w = (e, w') \<Longrightarrow> bridge_op w w'"
| op_park: "parkApprovalLocked i r a n why w = (y, w') \<Longrightarrow> bridge_op w w'"
| op_cancel: "bridge_op w (HermesCancel i w)"
| op_release: "ReleaseRun i r w = (e, w') \<Longrightarrow> bridge_op w w'"
| op_retry: "bridge_op w (retryParkedRunStop m i r w)"
| op_reconcile: "ReconcileOrphans w = (e, w') \<Longrightarrow> bridge_op w w'"

inductive bridge_step :: "hermes \<Rightarrow> hermes \<Rightarrow> bool" where
  step_op: "bridge_op w w' \<Longrightarrow> bridge_step w w'"
| step_run: "HermesRun i env w = (x, w') \<Longrightarrow> bridge_step w w'"

context bridge_walk
begin

lemma w_op: "bridge_op w w' \<Longrightarrow> R w w'"
  by (induction rule: bridge_op.induct)
    (erule w_decide w_handle w_park w_reconcile release_facts [THEN conjunct1] | rule w_cancel w_retry)+

lemma w_ops: "bridge_op\<^sup>*\<^sup>* w w' \<Longrightarrow> R w w'"
  by (induction rule: rtranclp_induct) (auto intro: walk_refl walk_trans w_op)

end

context delivery_walk
begin

lemma w_step: "bridge_step w w' \<Longrightarrow> R w w'"
  by (induction rule: bridge_step.induct) (auto intro: w_op w_run)

lemma w_bridge_steps: "bridge_step\<^sup>*\<^sup>* w w' \<Longrightarrow> R w w'"
  by (induction rule: rtranclp_induct) (auto intro: walk_refl walk_trans w_step)

end

section \<open>Properties\<close>

text \<open>
  C6. Nothing the bridge does brings a finished job back: through any sequence of deliveries, decisions,
  requests for approval, cancellations, releases, retries and reconciliations, and whatever the faults
  and the replies of Hermes, a job that is done or cancelled in the database stays done or cancelled,
  provided the transactions of the others leave it so.
\<close>

theorem final_jobs_stay_final:
  assumes "bridge_step\<^sup>*\<^sup>* w w'" and "final_status s" and "others_keep (at_status k s) w"
    and "at_status k s (wdb w)"
  shows "at_status k s (wdb w')"
  using fin.w_bridge_steps [OF assms(1), of k s] assms(2-4) by (simp add: keeps_status_def)

definition demo_cancelled :: hermes where
  "demo_cancelled = demo_hermes\<lparr>wdb := empty_db\<lparr>jobs := [demo_run_job\<lparr>Status := Cancelled\<rparr>]\<rparr>\<rparr>"

lemma final_jobs_stay_final_witness:
  "at_status ''j'' Cancelled (wdb (snd (ReconcileOrphans (snd (HermesRun ''j''
     \<lparr>reOwner = 1, reHistoryCtx = None, reTurnCtx = None, reInputs = (0, [])\<rparr> demo_cancelled)))))"
proof (rule final_jobs_stay_final)
  show "bridge_step\<^sup>*\<^sup>* demo_cancelled (snd (ReconcileOrphans (snd (HermesRun ''j''
     \<lparr>reOwner = 1, reHistoryCtx = None, reTurnCtx = None, reInputs = (0, [])\<rparr> demo_cancelled))))"
    by (rule converse_rtranclp_into_rtranclp, rule step_run, rule prod.collapse [symmetric],
        rule r_into_rtranclp, rule step_op, rule op_reconcile, rule prod.collapse [symmetric])
  show "final_status Cancelled" by (simp add: final_status_def)
  show "others_keep (at_status ''j'' Cancelled) demo_cancelled"
    by (simp add: others_keep_def demo_cancelled_def demo_hermes_def)
  show "at_status ''j'' Cancelled (wdb demo_cancelled)"
    by (simp add: at_status_def demo_cancelled_def find_job_def empty_db_def demo_run_job_def)
qed

text \<open>
  C5. A handle on an upstream run is a debt: the bridge clears the run id of a job, by a decision, a
  request, a park, a release, a retry or the reconciliation at start, only after a status read of that
  run to which Hermes itself answered, under the same id, that the run has ended.  A failed stop, a lost
  reply or a database fault keeps the handle.
\<close>

theorem run_handle_needs_proof:
  assumes "bridge_op\<^sup>*\<^sup>* w w'" and "r \<noteq> ''''" and "others_keep (holds_run k r) w"
    and "holds_run k r (wdb w)" and "\<not> holds_run k r (wdb w')"
  shows "\<exists>n st b. length (sent w) \<le> n \<and> n < length (sent w') \<and>
    sent w' ! n = (''GET'', run_path r '''', NoBody) \<and> http w n = HReply st b \<and> st div 100 = 2 \<and>
    decodeErr b = None \<and> rsRunID (bStatus b) = r \<and> terminalHermesRunStatus (rsStatus (bStatus b))"
proof -
  have "confirmed r w w'" using hr.w_ops [OF assms(1), of k r] assms(2-5) by (simp add: keeps_run_def)
  then obtain n where n: "length (sent w) \<le> n" "n < length (sent w')"
    "sent w' ! n = (''GET'', run_path r '''', NoBody)" "says_terminal w n r" by (auto simp: confirmed_def)
  then show ?thesis by (cases "http w n") (auto simp: says_terminal_def)
qed

definition demo_parked :: hermes where
  "demo_parked = demo_hermes\<lparr>wdb := empty_db\<lparr>jobs := [demo_run_job\<lparr>Status := ParkedApproval\<rparr>]\<rparr>\<rparr>"

lemma run_handle_needs_proof_witness:
  "\<exists>n. n < length (sent (retryParkedRunStop (Suc 0) ''j'' ''r'' demo_parked)) \<and>
     sent (retryParkedRunStop (Suc 0) ''j'' ''r'' demo_parked) ! n = (''GET'', run_path ''r'' '''', NoBody)"
proof -
  have op: "bridge_op\<^sup>*\<^sup>* demo_parked (retryParkedRunStop (Suc 0) ''j'' ''r'' demo_parked)"
    by (rule r_into_rtranclp, rule op_retry)
  have o: "others_keep (holds_run ''j'' ''r'') demo_parked"
    by (simp add: others_keep_def demo_parked_def demo_hermes_def)
  have h: "holds_run ''j'' ''r'' (wdb demo_parked)"
    by (simp add: holds_run_def demo_parked_def find_job_def empty_db_def demo_run_job_def)
  have "\<not> holds_run ''j'' ''r'' (wdb (retryParkedRunStop (Suc 0) ''j'' ''r'' demo_parked))"
    by (simp add: demo_parked_def holds_run_def releaseParkedRunLocked_def stopAndConfirmTerminal_def
        stopAndConfirmTerminalOutcome_def terminalHermesRunStatus_def cleanup_err_def zero_cleanup_def
        clear_run_def broker_simps)
  from run_handle_needs_proof [OF op _ o h this] show ?thesis by auto
qed

text \<open>
  C29. The broker publishes no decision nonce: whatever it is asked to do and whatever fails, the jobs and
  approvals it puts on the bus, and so into the event log, carry none.
\<close>

theorem no_nonce_published:
  assumes "bridge_op\<^sup>*\<^sup>* w w'" and "list_all (\<lambda>(kind, i, p). clean p) (pubs w)"
  shows "list_all (\<lambda>(kind, i, p). clean p) (pubs w')"
  using pc.w_ops [OF assms(1)] assms(2) by (simp add: keeps_clean_def)

lemma no_nonce_published_witness:
  "list_all (\<lambda>(kind, i, p). clean p)
     (pubs (snd (HermesDecideApproval ''j'' ''a'' ''n'' DecisionAllowOnce demo_hermes)))"
  by (rule no_nonce_published [where w = demo_hermes], rule r_into_rtranclp, rule op_decide,
      rule prod.collapse [symmetric]) (simp add: demo_hermes_def)

text \<open>
  The progress of a run does publish one: a tool event that arrives while an approval is pending puts
  the whole job on the bus, with the nonce that decides the approval.
\<close>

lemma progress_publishes_nonce:
  "\<exists>j. (''job.progress'', ''j'', PJob j) \<in> set (pubs (updateProgress ''j'' ''t'' ''l'' ''running'' demo_hermes)) \<and>
     map DecisionNonce (Approvals j) = [''n''] \<and> map apState (Approvals j) = [APending]"
  by (simp add: updateProgress_def progress_mut_def broker_simps)

end
