(* ===== verification/Run_Laws.thy ===== *)
theory Run_Laws
  imports Broker_Laws Hermes_Job
begin

text \<open>
  What a delivery guarantees: it touches nothing unless it claimed a queued row, its turn returns at every
  way the stream can end and then with Hermes told to stop, it answers only after the run reported its
  completion, and what it stores of the answer and of failures stays readable.
\<close>

section \<open>A delivery\<close>

lemma lookup_sent: "lookup_job i (w :: hermes) = (x, w') \<Longrightarrow> sent w' = sent w \<and> pubs w' = pubs w \<and> mem w' = mem w"
  using lookup_more(2,6) [of i w] lookup_frame(1) [of i w] by simp

lemma start_mut_identity: "keeps_identity (snd \<circ> start_mut i resuming)"
  by (rule keeps_identityI) (simp_all add: start_mut_def)

text \<open>
  What a delivery that claimed the job has done to its row: from queued to running, without a run, approvals or
  question, in one transaction.
\<close>

definition claimed_from :: "string \<Rightarrow> hermes \<Rightarrow> job \<Rightarrow> hermes \<Rightarrow> bool" where
  "claimed_from i w1 j w2 \<longleftrightarrow>
     (\<exists>y. find_job i (seen w1) = Some y \<and> Status y = Queued \<and> find_job i (wdb w2) = Some j \<and> Status j = Running \<and>
        HermesRunID j = '''' \<and> Approvals j = [] \<and> Question j = '''' \<and> HermesSessionID j = i \<and>
        PendingInput j = PendingInput y)"

lemma start_claims:
  assumes "update_job i (start_mut i resuming) w1 = (Inr (True, j), w2)"
  shows "claimed_from i w1 j w2"
proof -
  from update_job_row [OF assms start_mut_identity] obtain y where
    y: "find_job i (seen w1) = Some y" "True = fst (start_mut i resuming y)"
      "j = bump_job (clock w1 (txs w1)) (snd (start_mut i resuming y))" "find_job i (wdb w2) = Some j" by metis
  then have "Status y = Queued" by (auto simp: start_mut_def split: if_splits)
  with y show ?thesis unfolding claimed_from_def
    by (intro exI [of _ y]) (simp add: start_mut_def bump_job_def Let_def)
qed

text \<open>
  What a delivery without a claim may have done to the database \<open>d\<close> it saw: nothing; or, if the row was no longer
  queued when it was locked, the version and the instants of this one row have moved, as every committed update moves
  them; or, if the answer of the commit was lost, the row is claimed after all.
\<close>

definition unclaimed :: "string \<Rightarrow> bool \<Rightarrow> instant \<Rightarrow> db \<Rightarrow> db \<Rightarrow> bool \<Rightarrow> bool" where
  "unclaimed i resuming at d d' failed \<longleftrightarrow>
     d' = d \<or>
     (\<forall>k. k \<noteq> i \<longrightarrow> find_job k d' = find_job k d) \<and> river d' = river d \<and>
     (\<exists>y. find_job i d = Some y \<and>
        (Status y \<noteq> Queued \<and> find_job i d' = Some (bump_job at y) \<or>
         failed \<and> Status y = Queued \<and> find_job i d' = Some (bump_job at (snd (start_mut i resuming y)))))"

lemma start_refused:
  assumes "update_job i (start_mut i resuming) w1 = (z, w2)" and "\<forall>j. z \<noteq> Inr (True, j)"
  shows "unclaimed i resuming (clock w1 (txs w1)) (seen w1) (wdb w2) (\<exists>e. z = Inl e)"
proof -
  from update_job_effect [OF assms(1) start_mut_identity] consider "wdb w2 = seen w1"
    | y where "find_job i (seen w1) = Some y"
        "find_job i (wdb w2) = Some (bump_job (clock w1 (txs w1)) (snd (start_mut i resuming y)))"
        "\<forall>k. k \<noteq> i \<longrightarrow> find_job k (wdb w2) = find_job k (seen w1)" "river (wdb w2) = river (seen w1)"
        "\<forall>p. z = Inr p \<longrightarrow> p = (fst (start_mut i resuming y), bump_job (clock w1 (txs w1)) (snd (start_mut i resuming y)))"
    by blast
  then show ?thesis
  proof cases
    case 2
    show ?thesis
    proof (cases "Status y = Queued")
      case True
      then have "\<exists>e. z = Inl e" using 2(5) assms(2) by (cases z) (auto simp: start_mut_def)
      with 2 True show ?thesis by (auto simp: unclaimed_def)
    next
      case False
      then have "snd (start_mut i resuming y) = y" by (simp add: start_mut_def)
      with 2 False show ?thesis by (auto simp: unclaimed_def)
    qed
  qed (simp add: unclaimed_def)
qed


definition demo_queued :: hermes where
  "demo_queued = demo_hermes\<lparr>wdb := empty_db\<lparr>jobs := [demo_run_job\<lparr>Status := Queued, HermesRunID := '''',
     HermesSessionID := '''', Approvals := []\<rparr>]\<rparr>\<rparr>"

definition demo_env :: "wake list \<Rightarrow> run_env" where
  "demo_env ins = \<lparr>reOwner = 1, reHistoryCtx = None, reTurnCtx = None, reInputs = (0, ins)\<rparr>"

lemmas run_simps = HermesRun_def start_mut_def register_owner_def run_owned_def has_input_def run_turn_def
  reset_sessions_def runTurnOwned_def start_run_def post_run_def own_run_def setRunID_def persist_mut_def
  subscribe_def http_do_def bindE_def demo_env_def demo_queued_def new_turn_def release_owner_def


section \<open>The turn\<close>

fun ends_turn :: "turn_input \<Rightarrow> bool" where
  "ends_turn (CtxDone e) = True"
| "ends_turn IdleFired = True"
| "ends_turn (StreamClosed se ce) = True"
| "ends_turn ParkFired = False"
| "ends_turn (Event ev) = False"

lemma ends_returns: "ends_turn (snd i) \<Longrightarrow> \<exists>r w'. turn_step jobID runID i t w = (Return r, w')"
  by (cases "snd i") (auto simp: turn_step_def returning_def stop_and_fail_def split: option.split)

text \<open>A run up to a point at which the turn still waits.\<close>

fun waits :: "string \<Rightarrow> string \<Rightarrow> wake list \<Rightarrow> turn \<Rightarrow> hermes \<Rightarrow> (turn \<times> hermes) option" where
  "waits jobID runID [] t w = Some (t, w)"
| "waits jobID runID (i # ins) t w =
     (case turn_step jobID runID i t w of (Continue t', w) \<Rightarrow> waits jobID runID ins t' w | (Return r, w) \<Rightarrow> None)"

lemma drive_waits: "fst (drive jobID runID ins t w) = None \<longleftrightarrow> waits jobID runID ins t w \<noteq> None"
  by (induction ins arbitrary: t w) (auto split: prod.split turn_next.split)

lemma waits_append:
  "waits jobID runID (a @ b) t w = (case waits jobID runID a t w of None \<Rightarrow> None | Some (t', w') \<Rightarrow> waits jobID runID b t' w')"
  by (induction a arbitrary: t w) (auto split: prod.split turn_next.split)

lemma on_time_append:
  "waits jobID runID a t w = Some (t', w') \<Longrightarrow>
   on_time jobID runID since (a @ b) t w \<longleftrightarrow>
   on_time jobID runID since a t w \<and> on_time jobID runID (last (since # map fst a)) b t' w'"
  by (induction a arbitrary: since t w) (auto split: prod.splits turn_next.splits)

text \<open>The instant of the last event, or the start of the loop.\<close>

fun last_heard :: "instant \<Rightarrow> wake list \<Rightarrow> instant" where
  "last_heard h [] = h"
| "last_heard h ((at, i) # ins) = last_heard (case i of Event ev \<Rightarrow> at | _ \<Rightarrow> h) ins"

text \<open>An event starts the idle timer again, nothing else touches it, and the loop never waits less than a minute for parking.\<close>

lemma step_idle:
  assumes "turn_step jobID runID i t w = (Continue t', w')"
  shows "idleFor t' = idleFor t \<and> idleAt t' = (case snd i of Event ev \<Rightarrow> fst i + idleFor t | _ \<Rightarrow> idleAt t)"
  using assms
  by (cases "snd i") (auto simp: turn_step_def returning_def stop_and_fail_def turn_event_def park_fired_def
      approval_event_def armParking_def resetIdle_def Let_def
      split: option.splits if_splits prod.splits sum.splits)

lemma step_park:
  assumes "turn_step jobID runID (at, i) t w = (Continue t', w')" "\<forall>ev. i \<noteq> Event ev"
  shows "i = ParkFired \<and> (parkC t \<noteq> None \<longrightarrow> parkC t' = None \<or> parkC t' = Some (at + minutes 1))"
  using assms
  by (cases i) (auto simp: turn_step_def returning_def stop_and_fail_def park_fired_def armParking_def Let_def minutes_def
      split: option.splits if_splits prod.splits sum.splits)

lemma idle_armed:
  assumes "waits jobID runID ins t w = Some (t', w')" "on_time jobID runID since ins t w"
    and "idleAt t = h + idleFor t" "since \<le> idleAt t" "0 \<le> idleFor t"
  shows "idleFor t' = idleFor t \<and> idleAt t' = last_heard h ins + idleFor t \<and> last (since # map fst ins) \<le> idleAt t'"
  using assms
proof (induction ins arbitrary: since t w h)
  case (Cons i ins)
  obtain at inp where i: "i = (at, inp)" by fastforce
  obtain t1 w1 where s: "turn_step jobID runID i t w = (Continue t1, w1)"
    using Cons.prems(1) by (auto split: prod.splits turn_next.splits)
  have k: "idleFor t1 = idleFor t" "idleAt t1 = (case inp of Event ev \<Rightarrow> at | _ \<Rightarrow> h) + idleFor t1"
    using step_idle [OF s] Cons.prems(3) by (auto simp: i split: turn_input.splits)
  have "timers_hold since t i" using Cons.prems(2) by simp
  then have "fst i \<le> idleAt t1"
    using step_idle [OF s] Cons.prems(4,5) by (auto simp: timers_hold_def split: turn_input.split)
  moreover have "waits jobID runID ins t1 w1 = Some (t', w')" "on_time jobID runID (fst i) ins t1 w1"
    using Cons.prems(1,2) s by simp_all
  ultimately show ?case using Cons.IH [of t1 w1 at "case inp of Event ev \<Rightarrow> at | _ \<Rightarrow> h"] k Cons.prems(5)
    by (simp add: i)
qed simp

lemma quiet_wakes:
  assumes "waits jobID runID ins t w \<noteq> None" "on_time jobID runID since ins t w" "\<forall>(at, i)\<in>set ins. \<forall>ev. i \<noteq> Event ev"
    and "\<forall>d. parkC t = Some d \<longrightarrow> since + minutes 1 \<le> d" "since \<le> idleAt t"
  shows "int (length ins) * minutes 1 \<le> idleAt t - since"
  using assms
proof (induction ins arbitrary: since t w)
  case (Cons i ins)
  obtain at inp where i: "i = (at, inp)" by fastforce
  obtain t1 w1 where s: "turn_step jobID runID (at, inp) t w = (Continue t1, w1)"
    using Cons.prems(1) i by (auto split: prod.splits turn_next.splits)
  have p: "inp = ParkFired" "parkC t \<noteq> None \<longrightarrow> parkC t1 = None \<or> parkC t1 = Some (at + minutes 1)"
    using step_park [OF s] Cons.prems(3) i by auto
  have h: "timers_hold since t (at, ParkFired)" using Cons.prems(2) i p by simp
  then obtain d where d: "parkC t = Some d" "d \<le> at" by (auto simp: timers_hold_def split: option.splits)
  have "at \<le> idleAt t" using h Cons.prems(5) by (simp add: timers_hold_def)
  moreover have "idleAt t1 = idleAt t" using step_idle [OF s] p by simp
  ultimately have "int (length ins) * minutes 1 \<le> idleAt t - at"
    using Cons.IH [of t1 w1 at] Cons.prems(1-3) s i p d by auto
  moreover have "since + minutes 1 \<le> at" using Cons.prems(4) d by fastforce
  ultimately show ?case by (simp add: algebra_simps)
qed simp

lemma heard_before:
  "waits jobID runID ins t w = Some (t', w') \<Longrightarrow> on_time jobID runID since ins t w \<Longrightarrow> h \<le> since \<Longrightarrow>
   last_heard h ins \<le> last (since # map fst ins)"
proof (induction ins arbitrary: since t w h)
  case (Cons i ins)
  obtain at inp where i: "i = (at, inp)" by fastforce
  obtain t1 w1 where s: "turn_step jobID runID i t w = (Continue t1, w1)"
    using Cons.prems(1) by (auto split: prod.splits turn_next.splits)
  have "since \<le> at" using Cons.prems(2) by (simp add: timers_hold_def i)
  then have "(case inp of Event ev \<Rightarrow> at | _ \<Rightarrow> h) \<le> at" using Cons.prems(3) by (auto split: turn_input.split)
  with Cons.IH [of t1 w1 at] Cons.prems(1,2) s show ?case by (simp add: i)
qed simp

lemma first_quiet:
  assumes "waits jobID runID ins t w \<noteq> None" "on_time jobID runID since ins t w" "\<forall>(at, i)\<in>set ins. \<forall>ev. i \<noteq> Event ev"
    and "since \<le> idleAt t"
  shows "int (length ins) * minutes 1 \<le> idleAt t - since + minutes 1"
proof (cases ins)
  case (Cons i rest)
  obtain at inp where i: "i = (at, inp)" by fastforce
  obtain t1 w1 where s: "turn_step jobID runID (at, inp) t w = (Continue t1, w1)"
    using assms(1) Cons i by (auto split: prod.splits turn_next.splits)
  have p: "inp = ParkFired" "parkC t \<noteq> None \<longrightarrow> parkC t1 = None \<or> parkC t1 = Some (at + minutes 1)"
    using step_park [OF s] assms(3) Cons i by auto
  have h: "timers_hold since t (at, ParkFired)" using assms(2) Cons i p by simp
  then have d: "parkC t \<noteq> None" "since \<le> at" "at \<le> idleAt t"
    using assms(4) by (auto simp: timers_hold_def split: option.splits)
  moreover have "idleAt t1 = idleAt t" using step_idle [OF s] p by simp
  ultimately have "int (length rest) * minutes 1 \<le> idleAt t - at"
    using quiet_wakes [of jobID runID rest t1 w1 at] assms(1-3) s Cons i p by auto
  then show ?thesis using d Cons by (simp add: algebra_simps)
qed (use assms(4) in \<open>simp add: minutes_def\<close>)

lemma idle_positive: "0 < idleAfter w"
  by (simp add: idleAfter_def defaultStreamIdleAfter_def minutes_def)

lemma mu_idle [simp]: "StreamIdleAfter (snd (with_mu f w)) = StreamIdleAfter w"
  by (simp add: with_mu_def split: prod.split)

lemma setRunID_idle: "StreamIdleAfter (snd (setRunID i ow r w)) = StreamIdleAfter w"
  unfolding setRunID_def by (rule mu_idle)

lemma doJSON_idle [simp]: "StreamIdleAfter (snd (doJSON m p b v w)) = StreamIdleAfter w"
  by (simp add: doJSON_def Let_def split: http_reply.split)

lemma start_idle:
  assumes "start_run j input history owner w = (Inr runID, w')"
  shows "idleAfter w' = idleAfter w"
proof -
  have p: "StreamIdleAfter w1 = StreamIdleAfter w" if q: "post_run j input history w = (x, w1)" for x w1
  proof -
    obtain y w2 where d: "doJSON ''POST'' ''/v1/runs'' (RunBody (hModel w) input (systemHeader j) (jID j) history) True w = (y, w2)"
      by fastforce
    then have "StreamIdleAfter w2 = StreamIdleAfter w" by (metis doJSON_idle snd_conv)
    then show ?thesis using q d by (auto simp: post_run_def split: prod.splits option.splits if_splits)
  qed
  have o: "StreamIdleAfter w2 = StreamIdleAfter w1" if "own_run i ow r w1 = (Inr u, w2)" for i ow r u w1 w2
  proof -
    obtain b w3 where s: "setRunID i ow r w1 = (b, w3)" by fastforce
    then have "StreamIdleAfter w3 = StreamIdleAfter w1" using setRunID_idle [of i ow r w1] by simp
    moreover obtain z w4 where u: "update_job i (persist_mut r) w3 = (z, w4)" by fastforce
    moreover have "StreamIdleAfter w4 = StreamIdleAfter w3" using update_more(12) [of i "persist_mut r" w3] u by simp
    moreover have "StreamIdleAfter w2 = StreamIdleAfter w4"
      using that s u by (cases z) (auto simp: own_run_def stop_and_fail_def split: if_splits)
    ultimately show ?thesis by simp
  qed
  have q: "StreamIdleAfter w2 = StreamIdleAfter w1" if "subscribe r w1 = (Inr u, w2)" for r u w1 w2
    using that by (auto simp: subscribe_def http_do_def stop_and_fail_def split: http_reply.splits if_splits)
  show ?thesis using assms by (auto simp: start_run_def bindE_Inr idleAfter_def dest!: p o q)
qed

text \<open>
  C13. A turn does not wait for ever, and does not give up on a run that talks.  With \<open>T\<close> the instant of the last event
  received, or of the start of the loop: (i) a turn that still waits has received no end of its context or stream, and
  not a fired idle timer; (ii) it cannot still wait after \<open>T\<close> plus the idle limit; (iii) without events it is woken at most
  once a minute, plus once, so it has returned after finitely many wakes; and (iv) it gives the run up as silent only
  when the whole idle limit has passed since \<open>T\<close>.  This holds whatever fails on the way, for every choice among ready
  cases, if only the timers fire when they were set to.
\<close>

theorem turn_returns:
  assumes "turn_on_time j input history owner (start, ins) w"
  shows "(fst (runTurnOwned j input history owner (start, ins) w) = None \<longrightarrow>
      \<not> list_ex (ends_turn \<circ> snd) ins \<and>
      last (start # map fst ins) \<le> last_heard start ins + idleAfter w \<and>
      (\<forall>before quiet. ins = before @ quiet \<and> (\<forall>(at, i)\<in>set quiet. \<forall>ev. i \<noteq> Event ev) \<longrightarrow>
         int (length quiet) * minutes 1 \<le> idleAfter w + minutes 1)) \<and>
    (\<forall>before at rest. ins = before @ (at, IdleFired) # rest \<and>
       fst (runTurnOwned j input history owner (start, before) w) = None \<longrightarrow> last_heard start before + idleAfter w \<le> at)"
proof (cases "start_run j input history owner w")
  case (Pair x w1)
  show ?thesis
  proof (cases x)
    case (Inl e)
    then show ?thesis using Pair by (simp add: runTurnOwned_def)
  next
    case (Inr runID)
    let ?t = "new_turn start (idleAfter w)"
    have e: "idleAfter w1 = idleAfter w" using start_idle Pair Inr by blast
    have r: "fst (runTurnOwned j input history owner (start, l) w) = None \<longleftrightarrow> waits (jID j) runID l ?t w1 \<noteq> None" for l
      using Pair Inr e drive_waits by (simp add: runTurnOwned_def)
    have o: "on_time (jID j) runID start ins ?t w1" using assms Pair Inr e by (simp add: turn_on_time_def)
    have t: "idleAt ?t = start + idleFor ?t" "idleFor ?t = idleAfter w" "start \<le> idleAt ?t" "0 \<le> idleFor ?t"
      using idle_positive [of w] by (simp_all add: new_turn_def)
    show ?thesis
    proof (intro conjI impI allI; (elim conjE)?)
      assume n: "fst (runTurnOwned j input history owner (start, ins) w) = None"
      have "waits (jID j) runID l a b \<noteq> None \<Longrightarrow> \<not> list_ex (ends_turn \<circ> snd) l" for l a b
      proof (induction l arbitrary: a b)
        case (Cons i l)
        then show ?case using ends_returns [of i "jID j" runID a b] by (auto split: prod.splits turn_next.splits)
      qed simp
      then show "\<not> list_ex (ends_turn \<circ> snd) ins" using n r by blast
    next
      assume "fst (runTurnOwned j input history owner (start, ins) w) = None"
      then obtain t' w' where "waits (jID j) runID ins ?t w1 = Some (t', w')" using r by fastforce
      from idle_armed [OF this o t(1,3,4)] t(2) show "last (start # map fst ins) \<le> last_heard start ins + idleAfter w" by simp
    next
      fix before quiet
      assume n: "fst (runTurnOwned j input history owner (start, ins) w) = None" and q: "ins = before @ quiet"
        "\<forall>(at, i)\<in>set quiet. \<forall>ev. i \<noteq> Event ev"
      obtain t2 w2 where b: "waits (jID j) runID before ?t w1 = Some (t2, w2)" "waits (jID j) runID quiet t2 w2 \<noteq> None"
        using n r q by (auto simp: waits_append split: option.splits)
      have ob: "on_time (jID j) runID start before ?t w1"
        "on_time (jID j) runID (last (start # map fst before)) quiet t2 w2"
        using o on_time_append [OF b(1)] q(1) by simp_all
      show "int (length quiet) * minutes 1 \<le> idleAfter w + minutes 1"
        using first_quiet [OF b(2) ob(2) q(2)] idle_armed [OF b(1) ob(1) t(1,3,4)] t(2) heard_before [OF b(1) ob(1) order_refl]
        by linarith
    next
      fix before at rest
      assume q: "ins = before @ (at, IdleFired) # rest" and n: "fst (runTurnOwned j input history owner (start, before) w) = None"
      then obtain t2 w2 where b: "waits (jID j) runID before ?t w1 = Some (t2, w2)" using r by fastforce
      have ob: "on_time (jID j) runID start before ?t w1" "idleAt t2 \<le> at"
        using o on_time_append [OF b] q by (auto simp: timers_hold_def)
      from idle_armed [OF b ob(1) t(1,3,4)] t(2) ob(2) show "last_heard start before + idleAfter w \<le> at" by simp
    qed
  qed
qed

lemma stop_sent:
  "runID \<noteq> '''' \<Longrightarrow> sent (snd (stopRun runID w)) = sent w @ [(''POST'', run_path runID ''/stop'', EmptyBody)]"
  using doJSON_frame(3) [of "''POST''" "run_path runID ''/stop''" EmptyBody False w]
  by (cases "doJSON ''POST'' (run_path runID ''/stop'') EmptyBody False w") (auto simp: stopRun_def)

lemma drive_last:
  "drive jobID runID ins t w = (Some r, w') \<Longrightarrow>
   \<exists>before i rest t1 w1. ins = before @ i # rest \<and> waits jobID runID before t w = Some (t1, w1) \<and>
     turn_step jobID runID i t1 w1 = (Return r, w')"
proof (induction ins arbitrary: t w)
  case (Cons i ins)
  obtain y w1 where s: "turn_step jobID runID i t w = (y, w1)" by fastforce
  show ?case
  proof (cases y)
    case (Continue t1)
    then obtain b k rest t2 w2 where "ins = b @ k # rest" "waits jobID runID b t1 w1 = Some (t2, w2)"
      "turn_step jobID runID k t2 w2 = (Return r, w')" using Cons.IH [of t1 w1] Cons.prems s by auto
    then show ?thesis using s Continue by (intro exI [of _ "i # b"] exI [of _ k] exI [of _ rest] exI [of _ t2] exI [of _ w2]) simp
  next
    case (Return q)
    then show ?thesis using Cons.prems s by (intro exI [of _ "[]"] exI [of _ i] exI [of _ ins] exI [of _ t] exI [of _ w]) simp
  qed
qed simp

text \<open>Every return of the loop, by the case that was chosen.\<close>

lemma step_returns:
  assumes "turn_step jobID runID (at, i) t w = (Return r, w')"
  shows "(case i of
       Event ev \<Rightarrow> (\<exists>e. r = Inl e) \<and> reEvent ev \<in> {''run.failed'', ''run.cancelled'', ''approval.request''}
     | ParkFired \<Rightarrow> r = Inl ErrApprovalParked
     | StreamClosed scanErr ctxErr \<Rightarrow> scanErr = None \<and> tTerminal t \<and> (\<exists>out. r = Inr out)
     | _ \<Rightarrow> False) \<or> (\<exists>e0. stop_and_fail runID e0 w = (r, w'))"
  using assms
  by (cases i) (auto simp: turn_step_def returning_def turn_event_def approval_event_def park_fired_def Let_def
      split: option.splits if_splits prod.splits sum.splits)

lemma waits_terminal:
  "waits jobID runID ins t w = Some (t', w') \<Longrightarrow> tTerminal t' \<Longrightarrow>
   tTerminal t \<or> (\<exists>ev. Event ev \<in> snd ` set ins \<and> reEvent ev = ''run.completed'')"
proof (induction ins arbitrary: t w)
  case (Cons i ins)
  obtain t1 w1 where s: "turn_step jobID runID i t w = (Continue t1, w1)"
    using Cons.prems(1) by (auto split: prod.splits turn_next.splits)
  have "tTerminal t1 \<Longrightarrow> tTerminal t \<or> (\<exists>ev. snd i = Event ev \<and> reEvent ev = ''run.completed'')"
    using s by (cases "snd i") (auto simp: turn_step_def returning_def stop_and_fail_def turn_event_def park_fired_def
        approval_event_def armParking_def resetIdle_def Let_def split: option.splits if_splits prod.splits sum.splits)
  moreover have "tTerminal t1 \<or> (\<exists>ev. Event ev \<in> snd ` set ins \<and> reEvent ev = ''run.completed'')"
    using Cons.IH [of t1 w1] Cons.prems s by simp
  moreover obtain at inp where i: "i = (at, inp)" by fastforce
  ultimately show ?case by (auto simp: i)
qed simp

definition demo_running :: hermes where
  "demo_running = demo_hermes\<lparr>wdb := empty_db\<lparr>jobs := [demo_run_job\<lparr>Status := Running, HermesRunID := ''''\<rparr>]\<rparr>\<rparr>"

text \<open>One delta five seconds into the run, then silence: the timer fires twenty minutes after the delta.\<close>

definition demo_silence :: "wake list" where
  "demo_silence = [(5000000000, Event (demo_event\<lparr>reEvent := ''message.delta'', reDelta := ''ok''\<rparr>)),
     (1205000000000, IdleFired)]"

lemma turn_returns_witness:
  "turn_on_time demo_run_job ''t'' [] None (0, demo_silence) demo_running \<and>
   fst (runTurnOwned demo_run_job ''t'' [] None (0, demo_silence) demo_running) \<noteq> None"
proof -
  have t: "turn_on_time demo_run_job ''t'' [] None (0, demo_silence) demo_running"
    by (simp add: turn_on_time_def run_simps demo_running_def demo_silence_def demo_event_def turn_step_def turn_event_def
        timers_hold_def resetIdle_def idleAfter_def defaultStreamIdleAfter_def minutes_def returning_def stop_and_fail_def
        broker_simps)
  with turn_returns [OF t] show ?thesis by (auto simp: demo_silence_def)
qed

text \<open>
  C11. A turn never abandons a run it has started.  Once Hermes has answered the start with a run id, a turn that
  returns does so in one of four ways: with the answer, after the run has reported its completion and its stream was
  closed cleanly; with an error, on an event of the run -- failed, cancelled, or a request for approval that could not
  be handled; because a waiting approval was parked; or else -- superseded, not recorded, no subscription, context
  over, silent, stream lost or closed early -- with an error that the queue does not retry, and then the last thing
  sent is the request to stop exactly this run.
\<close>

theorem abandoned_run_is_stopped:
  assumes "runTurnOwned j input history owner (start, ins) w = (Some r, w')"
    and "post_run j input history w = (Inr runID, w1)"
  shows "(\<exists>e. r = Inl e \<and> err_no_retry e) \<and> sent w' \<noteq> [] \<and>
      last (sent w') = (''POST'', run_path runID ''/stop'', EmptyBody) \<or>
    (\<exists>before at i rest. ins = before @ (at, i) # rest \<and>
       fst (runTurnOwned j input history owner (start, before) w) = None \<and>
       (case i of
          Event ev \<Rightarrow> (\<exists>e. r = Inl e) \<and> reEvent ev \<in> {''run.failed'', ''run.cancelled'', ''approval.request''}
        | ParkFired \<Rightarrow> r = Inl ErrApprovalParked
        | StreamClosed scanErr ctxErr \<Rightarrow> scanErr = None \<and> (\<exists>out. r = Inr out) \<and>
            (\<exists>ev. Event ev \<in> snd ` set before \<and> reEvent ev = ''run.completed'')
        | _ \<Rightarrow> False))"
proof -
  have ne: "runID \<noteq> ''''" using assms(2) by (auto simp: post_run_def split: prod.splits option.splits if_splits)
  have stop: "err_no_retry e' \<and> sent w3 \<noteq> [] \<and> last (sent w3) = (''POST'', run_path runID ''/stop'', EmptyBody)"
    if "stop_and_fail runID e w2 = (Inl e', w3)" for e e' w2 w3
    using that stop_sent [OF ne, of w2] by (auto simp: stop_and_fail_def noRetry_def)
  show ?thesis
  proof (cases "start_run j input history owner w")
    case (Pair x w2)
    show ?thesis
    proof (cases x)
      case (Inl e)
      then have r: "r = Inl e" "w' = w2" using assms(1) Pair by (simp_all add: runTurnOwned_def)
      have "\<exists>e0 w0. stop_and_fail runID e0 w0 = (Inl e, w2)"
        using Pair Inl assms(2)
        by (auto simp: start_run_def bindE_def own_run_def subscribe_def stop_and_fail_def
            split: prod.splits sum.splits if_splits http_reply.splits)
      then show ?thesis using stop r by blast
    next
      case (Inr rid)
      have rid: "rid = runID" using Pair Inr assms(2) by (auto simp: start_run_def bindE_Inr)
      let ?t = "new_turn start (idleAfter w2)"
      have d: "drive (jID j) runID ins ?t w2 = (Some r, w')" using assms(1) Pair Inr rid by (simp add: runTurnOwned_def)
      have n: "fst (runTurnOwned j input history owner (start, l) w) = None \<longleftrightarrow> waits (jID j) runID l ?t w2 \<noteq> None" for l
        using Pair Inr rid drive_waits by (simp add: runTurnOwned_def)
      from drive_last [OF d] obtain before i rest t3 w3 where
        b: "ins = before @ i # rest" "waits (jID j) runID before ?t w2 = Some (t3, w3)"
          "turn_step (jID j) runID i t3 w3 = (Return r, w')" by blast
      obtain at inp where i: "i = (at, inp)" by fastforce
      have fin: "tTerminal t3 \<Longrightarrow> \<exists>ev. Event ev \<in> snd ` set before \<and> reEvent ev = ''run.completed''"
        using waits_terminal [OF b(2)] by (simp add: new_turn_def)
      have k: "(case inp of
          Event ev \<Rightarrow> (\<exists>e. r = Inl e) \<and> reEvent ev \<in> {''run.failed'', ''run.cancelled'', ''approval.request''}
        | ParkFired \<Rightarrow> r = Inl ErrApprovalParked
        | StreamClosed scanErr ctxErr \<Rightarrow> scanErr = None \<and> tTerminal t3 \<and> (\<exists>out. r = Inr out)
        | _ \<Rightarrow> False) \<or> (\<exists>e0. stop_and_fail runID e0 w3 = (r, w'))"
        by (rule step_returns [OF b(3) [unfolded i]])
      show ?thesis
      proof (cases "\<exists>e0. stop_and_fail runID e0 w3 = (r, w')")
        case True
        then obtain e0 where "stop_and_fail runID e0 w3 = (r, w')" by blast
        moreover then obtain e' where "r = Inl e'" by (auto simp: stop_and_fail_def)
        ultimately show ?thesis using stop by blast
      next
        case False
        with k fin have "case inp of
            Event ev \<Rightarrow> (\<exists>e. r = Inl e) \<and> reEvent ev \<in> {''run.failed'', ''run.cancelled'', ''approval.request''}
          | ParkFired \<Rightarrow> r = Inl ErrApprovalParked
          | StreamClosed scanErr ctxErr \<Rightarrow> scanErr = None \<and> (\<exists>out. r = Inr out) \<and>
              (\<exists>ev. Event ev \<in> snd ` set before \<and> reEvent ev = ''run.completed'')
          | _ \<Rightarrow> False" by (cases inp) simp_all
        moreover have "fst (runTurnOwned j input history owner (start, before) w) = None" using n b(2) by simp
        ultimately show ?thesis using b(1) i
          by (intro disjI2 exI [of _ before] exI [of _ at] exI [of _ inp] exI [of _ rest]) simp
      qed
    qed
  qed
qed

lemma abandoned_run_is_stopped_witness:
  "last (sent (snd (runTurnOwned demo_run_job ''t'' [] None (0, demo_silence) demo_running))) =
     (''POST'', run_path ''r'' ''/stop'', EmptyBody)"
proof -
  obtain w1 where p: "post_run demo_run_job ''t'' [] demo_running = (Inr ''r'', w1)"
    by (simp add: post_run_def demo_running_def broker_simps)
  have "fst (runTurnOwned demo_run_job ''t'' [] None (0, demo_silence) demo_running) \<noteq> None"
    by (simp add: run_simps demo_running_def demo_silence_def demo_event_def turn_step_def turn_event_def
        returning_def stop_and_fail_def broker_simps)
  then obtain r w' where r: "runTurnOwned demo_run_job ''t'' [] None (0, demo_silence) demo_running = (Some r, w')"
    by (metis option.exhaust prod.collapse)
  from abandoned_run_is_stopped [OF r p] r show ?thesis
    by (auto simp: demo_silence_def Cons_eq_append_conv demo_event_def)
qed

section \<open>The answer\<close>

text \<open>
  What the events of a run say, newest first: the text of the last completion that has one and the deltas
  after it, or all deltas.
\<close>

fun spoken :: "turn_input list \<Rightarrow> string" where
  "spoken [] = ''''"
| "spoken (Event ev # ins) =
     (if reEvent ev = ''message.delta'' then spoken ins @ reDelta ev
      else if reEvent ev = ''run.completed'' \<and> trim_space (reOutput ev) \<noteq> '''' then reOutput ev
      else spoken ins)"
| "spoken (i # ins) = spoken ins"

definition completed_in :: "turn_input list \<Rightarrow> bool" where
  "completed_in ins \<longleftrightarrow> (\<exists>ev. Event ev \<in> set ins \<and> reEvent ev = ''run.completed'')"

lemma step_spoken:
  assumes "turn_step jobID runID i t w = (Continue t', w')" "tOutput t = spoken past"
    "tTerminal t = completed_in past"
  shows "tOutput t' = spoken (snd i # past) \<and> tTerminal t' = completed_in (snd i # past)"
  using assms
  by (cases "snd i") (auto simp: turn_step_def returning_def completed_in_def turn_event_def park_fired_def
      approval_event_def armParking_def resetIdle_def Let_def
      split: option.splits if_splits prod.splits sum.splits)

lemma drive_spoken:
  assumes "drive jobID runID ins t w = (Some (Inr out), w')" "tOutput t = spoken past"
    "tTerminal t = completed_in past"
  shows "\<exists>before at ce rest. ins = before @ (at, StreamClosed None ce) # rest \<and>
    out = spoken (rev (map snd before) @ past) \<and> completed_in (rev (map snd before) @ past)"
  using assms
proof (induction ins arbitrary: t w past)
  case (Cons i ins)
  obtain y w1 where s: "turn_step jobID runID i t w = (y, w1)" by fastforce
  show ?case
  proof (cases y)
    case (Continue t')
    have "drive jobID runID ins t' w1 = (Some (Inr out), w')" using Cons.prems(1) s Continue by simp
    from Cons.IH [OF this] step_spoken [OF s [unfolded Continue] Cons.prems(2,3)] obtain b at ce rest where
      "ins = b @ (at, StreamClosed None ce) # rest" "out = spoken (rev (map snd b) @ snd i # past)"
      "completed_in (rev (map snd b) @ snd i # past)" by blast
    then show ?thesis by (intro exI [of _ "i # b"] exI [of _ at] exI [of _ ce] exI [of _ rest]) simp
  next
    case (Return r)
    then have r: "turn_step jobID runID i t w = (Return (Inr out), w')" using Cons.prems(1) s by simp
    obtain at inp where i: "i = (at, inp)" by fastforce
    have "\<exists>ce. inp = StreamClosed None ce \<and> tTerminal t \<and> out = tOutput t"
      using step_returns [of jobID runID at inp t w "Inr out" w'] r
      by (cases inp) (auto simp: i turn_step_def returning_def stop_and_fail_def split: option.splits if_splits)
    then show ?thesis using Cons.prems(2,3) i by (intro exI [of _ "[]"]) auto
  qed
qed simp

text \<open>
  C12. An answer is the run's own: a turn returns text only after a clean end of a stream that reported the
  completion of the run, and the text is exactly what the events up to then say, whatever progress,
  approval requests and timers came between.
\<close>

theorem answer_is_what_the_run_said:
  assumes "runTurnOwned j input history owner (start, ins) w = (Some (Inr out), w')"
  shows "\<exists>before at ce rest. ins = before @ (at, StreamClosed None ce) # rest \<and> out = spoken (rev (map snd before)) \<and>
    completed_in (rev (map snd before))"
  using assms drive_spoken [of "jID j" _ ins "new_turn start _" _ out w' "[]"]
  by (auto simp: runTurnOwned_def new_turn_def completed_in_def split: prod.splits sum.splits)

definition demo_events :: "wake list" where
  "demo_events = [(1, Event (demo_event\<lparr>reEvent := ''message.delta'', reDelta := ''ok''\<rparr>)),
     (2, Event (demo_event\<lparr>reEvent := ''run.completed''\<rparr>)), (3, StreamClosed None None)]"

lemma trim_empty [simp]: "trim_space '''' = ''''"
  by (simp add: trim_space_def trim_seg_def segments.simps)

lemma answer_is_what_the_run_said_witness:
  "fst (runTurnOwned demo_run_job ''t'' [] None (0, demo_events) demo_running) = Some (Inr ''ok'') \<and>
   (\<exists>before at ce rest. demo_events = before @ (at, StreamClosed None ce) # rest \<and> spoken (rev (map snd before)) = ''ok'')"
proof -
  have r: "fst (runTurnOwned demo_run_job ''t'' [] None (0, demo_events) demo_running) = Some (Inr ''ok'')"
    by (simp add: run_simps demo_running_def demo_events_def demo_event_def turn_step_def turn_event_def resetIdle_def
        broker_simps)
  obtain w' where "runTurnOwned demo_run_job ''t'' [] None (0, demo_events) demo_running = (Some (Inr ''ok''), w')"
    using r by (cases "runTurnOwned demo_run_job ''t'' [] None (0, demo_events) demo_running") auto
  from answer_is_what_the_run_said [OF this] r show ?thesis by fastforce
qed

section \<open>What is stored\<close>

text \<open>
  A stored digest is at most 700 characters of the reply and an ellipsis, cut between characters, so
  it can be spoken: no character of it is half of one.
\<close>

lemma digest_whole_characters:
  "runes (digest_of reply) =
     (if length (runes reply) \<le> 700 then runes reply else take 700 (runes reply) @ [8230])"
proof (cases "length (runes reply) \<le> 700")
  case False
  have "digest_of reply = of_runes (take 700 (runes reply) @ [8230])"
    using False by (simp add: digest_of_def cut_runes_def of_runes_def ellipsis_def)
  also have "runes \<dots> = take 700 (runes reply) @ [8230]"
    by (rule runes_of_runes) (use runes_valid in
        \<open>auto dest!: in_set_takeD simp: valid_rune_def [of 8230]\<close>)
  finally show ?thesis using False by simp
qed (simp add: digest_of_def)

lemma contains_append: "contains s p \<Longrightarrow> contains (q @ s) p"
  by (induction q) auto

lemma contains_self: "contains (p @ q) p"
  by (cases "p @ q") (simp, metis append_eq_conv_conj contains.simps(2) has_prefix_def)

lemma contains_suffix: "contains (q @ p) p"
  using contains_append [OF contains_self [of p "[]"]] by simp

text \<open>
  Failure evidence accumulates and never repeats: what was recorded stays, the new evidence is there,
  and recording the same failure again, as retried deliveries do, changes nothing.
\<close>

lemma evidence_accumulates:
  "let j' = appendFailureEvidence ev j in
     (trim_space (Error j) = '''' \<or> prefix (Error j) (Error j')) \<and>
     (trim_space ev = '''' \<or> contains (Error j') (trim_space ev)) \<and>
     appendFailureEvidence ev j' = j'"
proof -
  have c: "contains (l # ''Previous/resume failure: '' @ e) e" for l e
    using contains_suffix [of "l # ''Previous/resume failure: ''" e] by simp
  have "contains e e" for e using contains_suffix [of "[]" e] by simp
  then show ?thesis
    using c contains_append by (auto simp: appendFailureEvidence_def Let_def simp del: contains.simps)
qed

end
