(* ===== verification/Outbox.thy ===== *)
theory Outbox
  imports Job_Laws
begin

text \<open>
  The two outboxes of the store (\<open>src/internal/store/store.go\<close>): attention rows, to be spoken once to the
  operator, and Web Push deliveries of them.  Both are leased: a claim stamps rows with a token and a
  time until which others leave them alone.

  \<open>now\<close> is PostgreSQL's clock at the start of the transaction and \<open>t\<close> the clock of the process.  \<open>busy\<close> are
  the rows that concurrent transactions have locked and \<open>SKIP LOCKED\<close> passes over.  The rows an
  \<open>UPDATE ... RETURNING\<close> or a cross join yields are listed in id order; SQL leaves the order open, and no
  theorem uses it.
\<close>

section \<open>Claims\<close>

definition claim_limit :: "int \<Rightarrow> nat" where
  "claim_limit limit = (if limit \<le> 0 \<or> 100 < limit then 20 else nat limit)"

text \<open>\<open>SELECT id ... WHERE ready ORDER BY id FOR UPDATE SKIP LOCKED LIMIT n\<close>.\<close>

definition candidates :: "('r \<Rightarrow> nat) \<Rightarrow> ('r \<Rightarrow> bool) \<Rightarrow> nat set \<Rightarrow> nat \<Rightarrow> 'r list \<Rightarrow> nat list" where
  "candidates ident ready busy n rows =
     take n (sort (map ident (filter (\<lambda>r. ready r \<and> ident r \<notin> busy) rows)))"

definition lease_free :: "instant \<Rightarrow> instant option \<Rightarrow> bool" where
  "lease_free now u = (case u of None \<Rightarrow> True | Some x \<Rightarrow> x < now)"

definition attention_ready :: "instant \<Rightarrow> attention \<Rightarrow> bool" where
  "attention_ready now a \<longleftrightarrow> atSpoken a = None \<and> lease_free now (atUntil a)"

definition ClaimPendingAttention ::
  "string \<Rightarrow> int \<Rightarrow> duration \<Rightarrow> instant \<Rightarrow> instant \<Rightarrow> nat set \<Rightarrow> db \<Rightarrow> error + (attention list \<times> db)" where
  "ClaimPendingAttention token limit lease t now busy d =
     (if token = '''' then Inl (EText ''attention claim token is required'')
      else let ids = candidates atID (attention_ready now) busy (claim_limit limit) (attentions d);
               rows = map (\<lambda>a. if atID a \<in> set ids
                  then a\<lparr>atToken := token, atUntil := Some (time_add t lease)\<rparr> else a) (attentions d) in
        Inr (filter (\<lambda>a. atID a \<in> set ids) rows, d\<lparr>attentions := rows\<rparr>))"

definition held_attention :: "string \<Rightarrow> attention \<Rightarrow> bool" where
  "held_attention token a \<longleftrightarrow> atToken a = token \<and> atSpoken a = None"

definition ReleaseAttentionClaim :: "string \<Rightarrow> db \<Rightarrow> db" where
  "ReleaseAttentionClaim token d =
     (if token = '''' then d
      else d\<lparr>attentions := map (\<lambda>a. if held_attention token a then a\<lparr>atToken := '''', atUntil := None\<rparr> else a)
              (attentions d)\<rparr>)"

definition MarkAttentionSpoken :: "string \<Rightarrow> nat list \<Rightarrow> instant \<Rightarrow> db \<Rightarrow> nat \<times> db" where
  "MarkAttentionSpoken token ids now d =
     (if token = '''' \<or> ids = [] then (0, d)
      else let hit = (\<lambda>a. held_attention token a \<and> atID a \<in> set ids) in
        (length (filter hit (attentions d)),
         d\<lparr>attentions := map (\<lambda>a. if hit a then a\<lparr>atSpoken := Some now, atToken := '''', atUntil := None\<rparr> else a)
             (attentions d)\<rparr>))"

section \<open>Subscriptions\<close>

definition with_endpoint :: "string \<Rightarrow> db \<Rightarrow> push_sub option" where
  "with_endpoint e d = find (\<lambda>s. Endpoint s = e) (subs d)"

definition set_keys :: "string \<Rightarrow> string \<Rightarrow> instant \<Rightarrow> push_sub \<Rightarrow> push_sub" where
  "set_keys p auth now s = s\<lparr>P256DH := p, Auth := auth, psUpdated := now\<rparr>"

text \<open>
  \<open>between\<close> is what other transactions do between the locking read, which found nothing to lock, and the
  insert: its \<open>ON CONFLICT\<close> then updates the row they inserted.
\<close>

definition insert_sub :: "string \<Rightarrow> string \<Rightarrow> string \<Rightarrow> instant \<Rightarrow> db \<Rightarrow> db" where
  "insert_sub e p auth now d =
     (if with_endpoint e d \<noteq> None
      then d\<lparr>subs := map (\<lambda>s. if Endpoint s = e then set_keys p auth now s else s) (subs d), psSeq := Suc (psSeq d)\<rparr>
      else d\<lparr>subs := subs d @ [\<lparr>psID = psSeq d, Endpoint = e, P256DH = p, Auth = auth, psCreated = now,
               psUpdated = now, psDisabled = None\<rparr>], psSeq := Suc (psSeq d)\<rparr>)"

definition UpsertPushSubscription ::
  "(db \<Rightarrow> db) \<Rightarrow> string \<Rightarrow> string \<Rightarrow> string \<Rightarrow> instant \<Rightarrow> db \<Rightarrow> db" where
  "UpsertPushSubscription between e p auth now d =
     (case with_endpoint e d of
        None \<Rightarrow> insert_sub e p auth now (between d)
      | Some s \<Rightarrow>
          if psDisabled s \<noteq> None
          then d\<lparr>deliveries := filter (\<lambda>r. \<not> (pdSub r = psID s \<and> pdSent r = None)) (deliveries d),
                 subs := map (\<lambda>x. if psID x = psID s
                   then (set_keys p auth now x)\<lparr>psCreated := now, psDisabled := None\<rparr> else x) (subs d)\<rparr>
          else d\<lparr>subs := map (\<lambda>x. if psID x = psID s then set_keys p auth now x else x) (subs d)\<rparr>)"

text \<open>The deletion cascades to the deliveries.\<close>

definition DeletePushSubscription :: "string \<Rightarrow> db \<Rightarrow> db" where
  "DeletePushSubscription e d =
     (let gone = map psID (filter (\<lambda>s. Endpoint s = e) (subs d)) in
      d\<lparr>subs := filter (\<lambda>s. Endpoint s \<noteq> e) (subs d),
        deliveries := filter (\<lambda>r. pdSub r \<notin> set gone) (deliveries d)\<rparr>)"

definition DisablePushSubscription :: "nat \<Rightarrow> instant \<Rightarrow> db \<Rightarrow> db" where
  "DisablePushSubscription i now d =
     d\<lparr>subs := map (\<lambda>s. if psID s = i then s\<lparr>psDisabled := Some now, psUpdated := now\<rparr> else s) (subs d)\<rparr>"

section \<open>Push deliveries\<close>

record push_delivery =
  pID :: nat
  pSub :: nat
  pEndpoint :: string
  pP256DH :: string
  pAuth :: string
  pTitle :: string
  pBody :: string
  pAttention :: nat
  pAttempts :: nat

definition wants_push :: "attention \<Rightarrow> push_sub \<Rightarrow> bool" where
  "wants_push a s \<longleftrightarrow> atSpoken a = None \<and> psDisabled s = None \<and> psCreated s \<le> atCreated a"

definition insert_delivery :: "instant \<Rightarrow> nat \<times> nat \<Rightarrow> db \<Rightarrow> db" where
  "insert_delivery now = (\<lambda>(a, s) d.
     if \<exists>r\<in>set (deliveries d). pdAttention r = a \<and> pdSub r = s then d\<lparr>pdSeq := Suc (pdSeq d)\<rparr>
     else d\<lparr>deliveries := deliveries d @ [\<lparr>pdID = pdSeq d, pdAttention = a, pdSub = s, pdAttempts = 0,
              pdNext = now, pdToken = '''', pdUntil = None, pdSent = None, pdFailed = None, pdError = ''''\<rparr>],
            pdSeq := Suc (pdSeq d)\<rparr>)"

definition enroll_deliveries :: "instant \<Rightarrow> db \<Rightarrow> db" where
  "enroll_deliveries now d =
     fold (insert_delivery now)
       (concat (map (\<lambda>a. map (\<lambda>s. (atID a, psID s)) (filter (wants_push a) (subs d))) (attentions d))) d"

definition find_attention :: "nat \<Rightarrow> db \<Rightarrow> attention option" where
  "find_attention i d = find (\<lambda>a. atID a = i) (attentions d)"

definition find_sub :: "nat \<Rightarrow> db \<Rightarrow> push_sub option" where
  "find_sub i d = find (\<lambda>s. psID s = i) (subs d)"

definition push_ready :: "instant \<Rightarrow> db \<Rightarrow> push_row \<Rightarrow> bool" where
  "push_ready now d r \<longleftrightarrow> pdSent r = None \<and> pdFailed r = None \<and>
     (case find_attention (pdAttention r) d of None \<Rightarrow> False | Some a \<Rightarrow> atSpoken a = None) \<and>
     (case find_sub (pdSub r) d of None \<Rightarrow> False | Some s \<Rightarrow> psDisabled s = None) \<and>
     pdNext r \<le> now \<and> lease_free now (pdUntil r)"

definition push_result :: "db \<Rightarrow> push_row \<Rightarrow> push_delivery option" where
  "push_result d r =
     (case (find_attention (pdAttention r) d, find_sub (pdSub r) d) of
        (Some a, Some s) \<Rightarrow> Some \<lparr>pID = pdID r, pSub = pdSub r, pEndpoint = Endpoint s, pP256DH = P256DH s,
          pAuth = Auth s, pTitle = PushTitle a, pBody = PushBody a, pAttention = atID a,
          pAttempts = pdAttempts r\<rparr>
      | _ \<Rightarrow> None)"

definition ClaimPushDeliveries ::
  "string \<Rightarrow> int \<Rightarrow> duration \<Rightarrow> instant \<Rightarrow> instant \<Rightarrow> nat set \<Rightarrow> db \<Rightarrow> error + (push_delivery list \<times> db)" where
  "ClaimPushDeliveries token limit lease t now busy d0 =
     (if token = '''' then Inl (EText ''push claim token is required'')
      else let d = enroll_deliveries now d0;
               ids = candidates pdID (push_ready now d) busy (claim_limit limit) (deliveries d);
               rows = map (\<lambda>r. if pdID r \<in> set ids
                  then r\<lparr>pdToken := token, pdUntil := Some (time_add t lease), pdAttempts := Suc (pdAttempts r)\<rparr>
                  else r) (deliveries d) in
        Inr (List.map_filter (push_result d) (filter (\<lambda>r. pdID r \<in> set ids) rows), d\<lparr>deliveries := rows\<rparr>))"

definition ReleasePushClaim :: "string \<Rightarrow> db \<Rightarrow> db" where
  "ReleasePushClaim token d =
     (if token = '''' then d
      else d\<lparr>deliveries := map (\<lambda>r. if pdToken r = token \<and> pdSent r = None
                then r\<lparr>pdToken := '''', pdUntil := None\<rparr> else r) (deliveries d)\<rparr>)"

definition MarkPushDelivered :: "string \<Rightarrow> nat \<Rightarrow> instant \<Rightarrow> db \<Rightarrow> db" where
  "MarkPushDelivered token i now d =
     d\<lparr>deliveries := map (\<lambda>r. if pdID r = i \<and> pdToken r = token \<and> pdSent r = None
        then r\<lparr>pdSent := Some now, pdToken := '''', pdUntil := None, pdError := ''''\<rparr> else r) (deliveries d)\<rparr>"

definition MarkPushFailed :: "string \<Rightarrow> nat \<Rightarrow> instant \<Rightarrow> string \<Rightarrow> db \<Rightarrow> db" where
  "MarkPushFailed token i retryAt message0 d =
     (let message = compactAttentionText message0 300 in
      d\<lparr>deliveries := map (\<lambda>r. if pdID r = i \<and> pdToken r = token \<and> pdSent r = None
        then r\<lparr>pdNext := retryAt, pdToken := '''', pdUntil := None, pdError := message\<rparr> else r) (deliveries d)\<rparr>)"

definition MarkPushAbandoned :: "string \<Rightarrow> nat \<Rightarrow> string \<Rightarrow> instant \<Rightarrow> db \<Rightarrow> db" where
  "MarkPushAbandoned token i message0 now d =
     (let message = compactAttentionText message0 300 in
      d\<lparr>deliveries := map (\<lambda>r. if pdID r = i \<and> pdToken r = token \<and> pdSent r = None \<and> pdFailed r = None
        then r\<lparr>pdFailed := Some now, pdToken := '''', pdUntil := None, pdError := message\<rparr> else r) (deliveries d)\<rparr>)"

end
