(* ===== verification/Outbox_Laws.thy ===== *)
theory Outbox_Laws
  imports Outbox
begin

text \<open>
  Invariants of the outboxes and the contract of a lease: what a claim holds, the operations of other
  claimants leave alone until the lease has run out.
\<close>

section \<open>Well-formed tables\<close>

definition opted_in :: "db \<Rightarrow> push_row \<Rightarrow> bool" where
  "opted_in d r \<longleftrightarrow> (\<forall>a\<in>set (attentions d). \<forall>s\<in>set (subs d).
     atID a = pdAttention r \<and> psID s = pdSub r \<longrightarrow> psCreated s \<le> atCreated a)"

definition outbox_ok :: "db \<Rightarrow> bool" where
  "outbox_ok d \<longleftrightarrow>
     distinct (map atID (attentions d)) \<and> (\<forall>a\<in>set (attentions d). atID a < atSeq d) \<and>
     distinct (map psID (subs d)) \<and> (\<forall>s\<in>set (subs d). psID s < psSeq d) \<and>
     distinct (map Endpoint (subs d)) \<and>
     distinct (map pdID (deliveries d)) \<and> (\<forall>r\<in>set (deliveries d). pdID r < pdSeq d) \<and>
     distinct (map (\<lambda>r. (pdAttention r, pdSub r)) (deliveries d)) \<and>
     (\<forall>r\<in>set (deliveries d). pdAttention r < atSeq d \<and> pdSub r < psSeq d) \<and>
     (\<forall>r\<in>set (deliveries d). pdSent r = None \<longrightarrow> opted_in d r)"

text \<open>Updates that keep keys and instants of creation.\<close>

lemma ok_map_attentions:
  assumes "outbox_ok d" "\<And>a. atID (f a) = atID a" "\<And>a. atCreated (f a) = atCreated a"
  shows "outbox_ok (d\<lparr>attentions := map f (attentions d)\<rparr>)"
proof -
  have "map atID (map f (attentions d)) = map atID (attentions d)" using assms(2) by simp
  then show ?thesis using assms unfolding outbox_ok_def opted_in_def by (auto simp: comp_def)
qed

lemma ok_map_subs:
  assumes "outbox_ok d" "\<And>s. psID (f s) = psID s" "\<And>s. Endpoint (f s) = Endpoint s"
    "\<And>s. psCreated (f s) = psCreated s"
  shows "outbox_ok (d\<lparr>subs := map f (subs d)\<rparr>)"
proof -
  have "map psID (map f (subs d)) = map psID (subs d)" "map Endpoint (map f (subs d)) = map Endpoint (subs d)"
    using assms(2,3) by simp_all
  then show ?thesis using assms unfolding outbox_ok_def opted_in_def by (auto simp: comp_def)
qed

lemma ok_map_deliveries:
  assumes "outbox_ok d" "\<And>r. pdID (f r) = pdID r" "\<And>r. pdAttention (f r) = pdAttention r"
    "\<And>r. pdSub (f r) = pdSub r" "\<And>r. pdSent (f r) = None \<Longrightarrow> pdSent r = None"
  shows "outbox_ok (d\<lparr>deliveries := map f (deliveries d)\<rparr>)"
proof -
  have "map pdID (map f (deliveries d)) = map pdID (deliveries d)"
    "map (\<lambda>r. (pdAttention r, pdSub r)) (map f (deliveries d)) = map (\<lambda>r. (pdAttention r, pdSub r)) (deliveries d)"
    using assms(2-4) by simp_all
  then show ?thesis using assms unfolding outbox_ok_def opted_in_def by (auto simp: comp_def)
qed

lemma ok_filter:
  assumes "outbox_ok d"
  shows "outbox_ok (d\<lparr>deliveries := filter P (deliveries d)\<rparr>)"
    "outbox_ok (d\<lparr>subs := filter Q (subs d)\<rparr>)"
  using assms unfolding outbox_ok_def opted_in_def by (auto intro: distinct_map_filter)

lemma ok_seqs:
  assumes "outbox_ok d"
  shows "outbox_ok (d\<lparr>psSeq := Suc (psSeq d)\<rparr>)" "outbox_ok (d\<lparr>pdSeq := Suc (pdSeq d)\<rparr>)"
    "outbox_ok (d\<lparr>atSeq := Suc (atSeq d)\<rparr>)"
  using assms unfolding outbox_ok_def opted_in_def by (auto intro: less_SucI)

lemma ok_tables:
  "attentions d' = attentions d \<Longrightarrow> atSeq d' = atSeq d \<Longrightarrow> subs d' = subs d \<Longrightarrow> psSeq d' = psSeq d \<Longrightarrow>
   deliveries d' = deliveries d \<Longrightarrow> pdSeq d' = pdSeq d \<Longrightarrow> outbox_ok d' = outbox_ok d"
  by (simp add: outbox_ok_def opted_in_def)

section \<open>Every operation keeps them\<close>

lemma ok_claim_attention:
  "outbox_ok d \<Longrightarrow> ClaimPendingAttention token limit lease t now busy d = Inr (xs, d') \<Longrightarrow> outbox_ok d'"
  by (auto simp: ClaimPendingAttention_def Let_def split: if_splits intro!: ok_map_attentions)

lemma ok_release_attention: "outbox_ok d \<Longrightarrow> outbox_ok (ReleaseAttentionClaim token d)"
  by (auto simp: ReleaseAttentionClaim_def intro!: ok_map_attentions)

lemma ok_spoken: "outbox_ok d \<Longrightarrow> outbox_ok (snd (MarkAttentionSpoken token ids now d))"
  by (auto simp: MarkAttentionSpoken_def Let_def intro!: ok_map_attentions)

lemma ok_insert_attention:
  assumes "outbox_ok d"
  shows "outbox_ok (insert_attention i v x now d)"
proof (cases x)
  case (fields kind speech title body)
  show ?thesis
  proof (cases "\<exists>a\<in>set (attentions d). atJob a = i \<and> atVersion a = v \<and> atKind a = kind")
    case True
    then show ?thesis using ok_seqs(3) [OF assms] by (simp add: insert_attention_def fields)
  next
    case False
    have fresh: "\<And>r. r \<in> set (deliveries d) \<Longrightarrow> pdAttention r \<noteq> atSeq d"
      "\<And>a. a \<in> set (attentions d) \<Longrightarrow> atID a \<noteq> atSeq d"
      using assms by (auto simp: outbox_ok_def)
    with False assms show ?thesis
      by (auto simp: insert_attention_def fields outbox_ok_def opted_in_def less_SucI)
  qed
qed

lemma ok_update:
  assumes "outbox_ok d" "UpdateJob now i mut d = (r, d')"
  shows "outbox_ok d'"
proof -
  have p: "outbox_ok (put_job j d)" for j
    using assms(1) ok_tables [of "put_job j d" d] by (simp add: put_job_def)
  then have "outbox_ok (note_transition s j (put_job j d))" for s j
    using ok_insert_attention [OF p] by (auto simp: note_transition_def split: option.split)
  with assms show ?thesis by (auto simp: UpdateJob_eq split: option.splits if_splits)
qed

lemma ok_insert_sub:
  assumes "outbox_ok d"
  shows "outbox_ok (insert_sub e p auth now d)"
proof (cases "with_endpoint e d = None")
  case True
  then have e: "\<And>s. s \<in> set (subs d) \<Longrightarrow> Endpoint s \<noteq> e" by (auto simp: with_endpoint_def find_None_iff)
  have fresh: "\<And>r. r \<in> set (deliveries d) \<Longrightarrow> pdSub r \<noteq> psSeq d"
    "\<And>s. s \<in> set (subs d) \<Longrightarrow> psID s \<noteq> psSeq d"
    using assms by (auto simp: outbox_ok_def)
  with True e assms show ?thesis by (auto simp: insert_sub_def outbox_ok_def opted_in_def less_SucI)
next
  case False
  have "outbox_ok (d\<lparr>subs := map (\<lambda>s. if Endpoint s = e then set_keys p auth now s else s) (subs d)\<rparr>)"
    by (rule ok_map_subs [OF assms]) (auto simp: set_keys_def)
  from ok_seqs(1) [OF this] show ?thesis using False by (simp add: insert_sub_def)
qed

text \<open>Reactivation: the new epoch starts with no delivery pending.\<close>

lemma ok_reactivate:
  assumes "outbox_ok d" "\<And>x. psID (f x) = psID x \<and> Endpoint (f x) = Endpoint x"
    "\<And>x. psID x \<noteq> i \<Longrightarrow> f x = x"
  shows "outbox_ok (d\<lparr>deliveries := filter (\<lambda>r. \<not> (pdSub r = i \<and> pdSent r = None)) (deliveries d),
    subs := map f (subs d)\<rparr>)"
proof -
  have m: "map psID (map f (subs d)) = map psID (subs d)" "map Endpoint (map f (subs d)) = map Endpoint (subs d)"
    using assms(2) by simp_all
  have "opted_in (d\<lparr>deliveries := ds, subs := map f (subs d)\<rparr>) r"
    if "opted_in d r" "pdSub r \<noteq> i" for r ds
  proof -
    have "f x = x \<and> psID x = pdSub r" if "psID (f x) = pdSub r" for x
      using that assms(2,3) \<open>pdSub r \<noteq> i\<close> by metis
    note same = this
    have "psCreated (f s) \<le> atCreated a"
      if "a \<in> set (attentions d)" "s \<in> set (subs d)" "atID a = pdAttention r" "psID (f s) = pdSub r" for a s
      using that same [OF that(4)] \<open>opted_in d r\<close> by (simp add: opted_in_def)
    then show ?thesis by (auto simp: opted_in_def)
  qed
  with m assms(1,2) show ?thesis unfolding outbox_ok_def by (auto simp: comp_def intro: distinct_map_filter)
qed

lemma ok_upsert:
  assumes "outbox_ok d" "outbox_ok (between d)"
  shows "outbox_ok (UpsertPushSubscription between e p auth now d)"
  using ok_insert_sub [OF assms(2)] ok_reactivate [OF assms(1)] ok_map_subs [OF assms(1)]
  by (auto simp: UpsertPushSubscription_def set_keys_def split: option.split)

lemma ok_delete: "outbox_ok d \<Longrightarrow> outbox_ok (DeletePushSubscription e d)"
  using ok_filter(1) [OF ok_filter(2)] by (auto simp: DeletePushSubscription_def Let_def)

lemma ok_disable: "outbox_ok d \<Longrightarrow> outbox_ok (DisablePushSubscription i now d)"
  by (auto simp: DisablePushSubscription_def intro!: ok_map_subs)

lemma ok_insert_delivery:
  assumes "outbox_ok d" "a \<in> set (attentions d)" "s \<in> set (subs d)" "psCreated s \<le> atCreated a"
  shows "outbox_ok (insert_delivery now (atID a, psID s) d)"
proof (cases "\<exists>r\<in>set (deliveries d). pdAttention r = atID a \<and> pdSub r = psID s")
  case True
  then show ?thesis using ok_seqs(2) [OF assms(1)] by (simp add: insert_delivery_def)
next
  case False
  have uniq: "a' = a" if "a' \<in> set (attentions d)" "atID a' = atID a" for a'
    using that assms(1,2) by (auto simp: outbox_ok_def distinct_map inj_on_def)
  have uniq': "s' = s" if "s' \<in> set (subs d)" "psID s' = psID s" for s'
    using that assms(1,3) by (auto simp: outbox_ok_def distinct_map inj_on_def)
  have fresh: "\<And>r. r \<in> set (deliveries d) \<Longrightarrow> pdID r \<noteq> pdSeq d" using assms(1) by (auto simp: outbox_ok_def)
  have lt: "atID a < atSeq d" "psID s < psSeq d" using assms(1-3) by (auto simp: outbox_ok_def)
  show ?thesis using False assms fresh lt
    by (auto simp: insert_delivery_def outbox_ok_def opted_in_def less_SucI dest: uniq uniq')
qed

lemma insert_delivery_frame [simp]:
  "attentions (insert_delivery now p d) = attentions d" "subs (insert_delivery now p d) = subs d"
  by (simp_all add: insert_delivery_def case_prod_beta)

lemma ok_enroll:
  assumes "outbox_ok d"
  shows "outbox_ok (enroll_deliveries now d)"
proof -
  have all: "outbox_ok (fold (insert_delivery now) ps d)"
    if "outbox_ok d" "\<forall>p\<in>set ps. \<exists>a\<in>set (attentions d). \<exists>s\<in>set (subs d). p = (atID a, psID s) \<and> psCreated s \<le> atCreated a"
    for ps d
    using that
  proof (induction ps arbitrary: d)
    case (Cons p ps)
    then obtain a s where "a \<in> set (attentions d)" "s \<in> set (subs d)" "p = (atID a, psID s)"
      "psCreated s \<le> atCreated a" by auto
    then have "outbox_ok (insert_delivery now p d)" using ok_insert_delivery [OF Cons.prems(1)] by simp
    then show ?case using Cons by simp
  qed simp
  show ?thesis unfolding enroll_deliveries_def by (rule all [OF assms]) (auto simp: wants_push_def)
qed

lemma ok_claim_push:
  assumes "outbox_ok d" "ClaimPushDeliveries token limit lease t now busy d = Inr (xs, d')"
  shows "outbox_ok d'"
  using assms(2) ok_enroll [OF assms(1), of now]
  by (auto simp: ClaimPushDeliveries_def Let_def split: if_splits intro!: ok_map_deliveries)

lemma ok_marks:
  assumes "outbox_ok d"
  shows "outbox_ok (ReleasePushClaim token d)" "outbox_ok (MarkPushDelivered token i now d)"
    "outbox_ok (MarkPushFailed token i at msg d)" "outbox_ok (MarkPushAbandoned token i msg now d)"
  using assms
  by (auto simp: ReleasePushClaim_def MarkPushDelivered_def MarkPushFailed_def MarkPushAbandoned_def Let_def
      intro!: ok_map_deliveries split: if_splits)

end
