(* ===== verification/Outbox_Lease.thy ===== *)
theory Outbox_Lease
  imports Outbox_Laws
begin

text \<open>
  Claimants side by side.  \<open>outbox_step\<close> is one operation on the outboxes by the holder of a token at a
  time of the database; the locale \<open>leased_table\<close> is the contract under which a lease excludes other
  claimants, interpreted on both tables.
\<close>

section \<open>Operations in sequence\<close>

inductive outbox_step :: "string \<Rightarrow> instant \<Rightarrow> db \<Rightarrow> db \<Rightarrow> bool" where
  os_claim: "ClaimPendingAttention token limit lease t now busy d = Inr (xs, d') \<Longrightarrow> outbox_step token now d d'"
| os_release: "outbox_step token now d (ReleaseAttentionClaim token d)"
| os_spoken: "MarkAttentionSpoken token ids now d = (n, d') \<Longrightarrow> outbox_step token now d d'"
| os_job: "UpdateJob now i mut d = (r, d') \<Longrightarrow> outbox_step token now d d'"
| os_subscribe: "outbox_step token now d (UpsertPushSubscription (\<lambda>d. d) e p auth now d)"
| os_unsubscribe: "outbox_step token now d (DeletePushSubscription e d)"
| os_disable: "outbox_step token now d (DisablePushSubscription i now d)"
| os_push: "ClaimPushDeliveries token limit lease t now busy d = Inr (ps, d') \<Longrightarrow> outbox_step token now d d'"
| os_release_push: "outbox_step token now d (ReleasePushClaim token d)"
| os_delivered: "outbox_step token now d (MarkPushDelivered token i now d)"
| os_failed: "outbox_step token now d (MarkPushFailed token i at msg d)"
| os_abandoned: "outbox_step token now d (MarkPushAbandoned token i msg now d)"

lemma step_ok: "outbox_step token now d d' \<Longrightarrow> outbox_ok d \<Longrightarrow> outbox_ok d'"
proof (induction rule: outbox_step.induct)
  case (os_spoken token ids now d n d')
  then show ?case using ok_spoken by (metis snd_conv)
qed (auto intro: ok_claim_attention ok_release_attention ok_update ok_upsert ok_delete ok_disable ok_claim_push
    ok_marks)

inductive outbox_reach :: "db \<Rightarrow> bool" where
  reach_start: "outbox_reach empty_db"
| reach_create: "outbox_reach d \<Longrightarrow> CreateJob now i name tsk d = (r, d') \<Longrightarrow> outbox_reach d'"
| reach_step: "outbox_reach d \<Longrightarrow> outbox_step token now d d' \<Longrightarrow> outbox_reach d'"

lemma reach_ok: "outbox_reach d \<Longrightarrow> outbox_ok d"
proof (induction rule: outbox_reach.induct)
  case reach_start
  show ?case by (simp add: outbox_ok_def empty_db_def)
next
  case (reach_create d now i name tsk r d')
  then show ?case using ok_tables [of d' d]
    by (auto simp: CreateJob_def CreateJobTx_def Let_def split: if_splits)
qed (rule step_ok)

section \<open>Leases\<close>

locale leased_table =
  fixes held :: "nat \<Rightarrow> string \<Rightarrow> instant \<Rightarrow> db \<Rightarrow> bool"
    and claim :: "string \<Rightarrow> instant \<Rightarrow> instant \<Rightarrow> db \<Rightarrow> nat list \<Rightarrow> db \<Rightarrow> bool"
  assumes foreign: "outbox_step t' now d d' \<Longrightarrow> t' \<noteq> t \<Longrightarrow> now \<le> u \<Longrightarrow> held i t u d \<Longrightarrow> held i t u d'"
    and taken: "claim t now u d ids d' \<Longrightarrow> outbox_ok d \<Longrightarrow> i \<in> set ids \<Longrightarrow> held i t u d'"
    and excluded: "claim t' now u' d ids d' \<Longrightarrow> now \<le> u \<Longrightarrow> held i t u d \<Longrightarrow> i \<notin> set ids"
begin

lemma held_while:
  assumes "(\<lambda>d d'. \<exists>t' now. outbox_step t' now d d' \<and> t' \<noteq> t \<and> now \<le> u)\<^sup>*\<^sup>* d d'" "held i t u d"
  shows "held i t u d'"
  using assms by (induction rule: rtranclp_induct) (auto dest: foreign)

lemma exclusive:
  assumes "claim t now u d ids d1" "outbox_ok d"
    "(\<lambda>d d'. \<exists>t' now. outbox_step t' now d d' \<and> t' \<noteq> t \<and> now \<le> u)\<^sup>*\<^sup>* d1 d2"
    "claim t' now' u' d2 ids' d3" "now' \<le> u"
  shows "set ids \<inter> set ids' = {}"
  using taken [OF assms(1,2)] held_while [OF assms(3)] excluded [OF assms(4,5)] by blast

end

definition held_attention_id :: "nat \<Rightarrow> string \<Rightarrow> instant \<Rightarrow> db \<Rightarrow> bool" where
  "held_attention_id i t u d \<longleftrightarrow> i < atSeq d \<and>
     (\<forall>a\<in>set (attentions d). atID a = i \<longrightarrow> atToken a = t \<and> atUntil a = Some u \<and> atSpoken a = None)"

definition held_push_id :: "nat \<Rightarrow> string \<Rightarrow> instant \<Rightarrow> db \<Rightarrow> bool" where
  "held_push_id i t u d \<longleftrightarrow> i < pdSeq d \<and>
     (\<forall>r\<in>set (deliveries d). pdID r = i \<longrightarrow> pdToken r = t \<and> pdUntil r = Some u)"

definition attention_claim :: "string \<Rightarrow> instant \<Rightarrow> instant \<Rightarrow> db \<Rightarrow> nat list \<Rightarrow> db \<Rightarrow> bool" where
  "attention_claim token now u d ids d' \<longleftrightarrow>
     (\<exists>limit lease t busy xs. ClaimPendingAttention token limit lease t now busy d = Inr (xs, d') \<and>
        u = time_add t lease \<and> ids = map atID xs)"

definition push_claim :: "string \<Rightarrow> instant \<Rightarrow> instant \<Rightarrow> db \<Rightarrow> nat list \<Rightarrow> db \<Rightarrow> bool" where
  "push_claim token now u d ids d' \<longleftrightarrow>
     (\<exists>limit lease t busy ps. ClaimPushDeliveries token limit lease t now busy d = Inr (ps, d') \<and>
        u = time_add t lease \<and> ids = map pID ps)"

lemma candidates_ready:
  "i \<in> set (candidates ident ready busy n rows) \<Longrightarrow> \<exists>r\<in>set rows. ident r = i \<and> ready r \<and> i \<notin> busy"
  unfolding candidates_def by (auto dest!: in_set_takeD)

lemma fold_insert_delivery_frame [simp]:
  "attentions (fold (insert_delivery now) ps d) = attentions d"
  "subs (fold (insert_delivery now) ps d) = subs d"
  by (induction ps arbitrary: d) simp_all

lemma enroll_frame [simp]:
  "attentions (enroll_deliveries now d) = attentions d" "subs (enroll_deliveries now d) = subs d"
  "find_attention i (enroll_deliveries now d) = find_attention i d"
  "find_sub i (enroll_deliveries now d) = find_sub i d"
  by (simp_all add: enroll_deliveries_def find_attention_def find_sub_def)

lemma insert_delivery_held: "held_push_id i t u d \<Longrightarrow> held_push_id i t u (insert_delivery now p d)"
  by (auto simp: held_push_id_def insert_delivery_def split: prod.splits)

lemma enroll_held: "held_push_id i t u d \<Longrightarrow> held_push_id i t u (enroll_deliveries now d)"
proof -
  have "held_push_id i t u d \<Longrightarrow> held_push_id i t u (fold (insert_delivery now) ps d)" for ps
    by (induction ps arbitrary: d) (auto intro: insert_delivery_held)
  then show "held_push_id i t u d \<Longrightarrow> ?thesis" by (simp add: enroll_deliveries_def)
qed

lemma attention_seq_frame [simp]:
  "atSeq (insert_delivery now p d) = atSeq d" "atSeq (enroll_deliveries now d) = atSeq d"
proof -
  show i: "atSeq (insert_delivery now p d) = atSeq d" for p d
    by (simp add: insert_delivery_def case_prod_beta)
  have "atSeq (fold (insert_delivery now) ps d) = atSeq d" for ps
    by (induction ps arbitrary: d) (simp_all add: i)
  then show "atSeq (enroll_deliveries now d) = atSeq d" by (simp add: enroll_deliveries_def)
qed

text \<open>What a job update leaves of the outboxes.\<close>

lemma update_attentions:
  assumes "UpdateJob now i mut d = (r, d')"
  shows "deliveries d' = deliveries d \<and> subs d' = subs d \<and> pdSeq d' = pdSeq d \<and>
    (\<exists>new. attentions d' = attentions d @ new \<and> list_all (\<lambda>a. atID a = atSeq d) new) \<and> atSeq d \<le> atSeq d'"
  using assms
  by (auto simp: UpdateJob_eq put_job_def note_transition_def insert_attention_def
      split: option.splits if_splits)

lemma held_attention_job:
  assumes "UpdateJob now i mut d = (r, d')" "held_attention_id k t u d"
  shows "held_attention_id k t u d'"
  using update_attentions [OF assms(1)] assms(2) by (auto simp: held_attention_id_def list_all_iff)

interpretation att: leased_table held_attention_id attention_claim
proof (unfold_locales, goal_cases)
  case (1 t' now d d' t u i)
  then show ?case
  proof (induction rule: outbox_step.induct)
    case (os_claim token limit lease ti now busy d xs d')
    then have "\<not> (\<exists>a\<in>set (attentions d). atID a = i \<and> attention_ready now a)"
      by (auto simp: held_attention_id_def attention_ready_def lease_free_def)
    then have "i \<notin> set (candidates atID (attention_ready now) busy (claim_limit limit) (attentions d))"
      using candidates_ready by metis
    with os_claim show ?case
      by (auto simp: ClaimPendingAttention_def held_attention_id_def Let_def split: if_splits)
  next
    case (os_job now j mut d r d' token)
    then show ?case using held_attention_job by blast
  qed (auto simp: held_attention_id_def ReleaseAttentionClaim_def MarkAttentionSpoken_def held_attention_def
      UpsertPushSubscription_def insert_sub_def DeletePushSubscription_def DisablePushSubscription_def
      ClaimPushDeliveries_def ReleasePushClaim_def MarkPushDelivered_def MarkPushFailed_def
      MarkPushAbandoned_def Let_def split: if_splits option.splits)
next
  case (2 t now u d ids d' i)
  then obtain limit lease ti busy xs where c: "ClaimPendingAttention t limit lease ti now busy d = Inr (xs, d')"
    "u = time_add ti lease" "ids = map atID xs" by (auto simp: attention_claim_def)
  let ?c = "candidates atID (attention_ready now) busy (claim_limit limit) (attentions d)"
  have i: "i \<in> set ?c" using c 2(3) by (auto simp: ClaimPendingAttention_def Let_def split: if_splits)
  have ready: "attention_ready now a" if "a \<in> set (attentions d)" "atID a = i" for a
  proof -
    obtain b where b: "b \<in> set (attentions d)" "atID b = i" "attention_ready now b"
      using candidates_ready [OF i] by blast
    then have "b = a" using that 2(2) by (auto simp: outbox_ok_def distinct_map inj_on_def)
    then show ?thesis using b by simp
  qed
  have "i < atSeq d" using candidates_ready [OF i] 2(2) by (auto simp: outbox_ok_def)
  moreover have "atSeq d' = atSeq d" "attentions d' = map (\<lambda>a. if atID a \<in> set ?c
      then a\<lparr>atToken := t, atUntil := Some u\<rparr> else a) (attentions d)"
    using c(1,2) by (auto simp: ClaimPendingAttention_def Let_def split: if_splits)
  moreover have "atSpoken a = None" if "a \<in> set (attentions d)" "atID a = i" for a
    using ready [OF that] by (simp add: attention_ready_def)
  ultimately show ?case using i by (auto simp: held_attention_id_def)
next
  case (3 t' now u' d ids d' u i t)
  then obtain limit lease ti busy xs where c: "ClaimPendingAttention t' limit lease ti now busy d = Inr (xs, d')"
    "ids = map atID xs" by (auto simp: attention_claim_def)
  show ?case
  proof
    assume "i \<in> set ids"
    then have "i \<in> set (candidates atID (attention_ready now) busy (claim_limit limit) (attentions d))"
      using c by (auto simp: ClaimPendingAttention_def Let_def split: if_splits)
    from candidates_ready [OF this] show False
      using 3 by (auto simp: held_attention_id_def attention_ready_def lease_free_def)
  qed
qed

lemma push_result_id: "push_result d r = Some p \<Longrightarrow> pID p = pdID r"
  by (auto simp: push_result_def split: option.splits)

lemma claimed_ids:
  assumes "ClaimPushDeliveries t limit lease ti now busy d = Inr (ps, d')" "p \<in> set ps"
  shows "pID p \<in> set (candidates pdID (push_ready now (enroll_deliveries now d)) busy (claim_limit limit)
    (deliveries (enroll_deliveries now d)))"
  using assms
  by (auto simp: ClaimPushDeliveries_def Let_def map_filter_def push_result_id split: if_splits)

interpretation pus: leased_table held_push_id push_claim
proof (unfold_locales, goal_cases)
  case (1 t' now d d' t u i)
  then show ?case
  proof (induction rule: outbox_step.induct)
    case (os_push token limit lease ti now busy d ps d')
    let ?d = "enroll_deliveries now d"
    have h: "held_push_id i t u ?d" using enroll_held os_push by blast
    then have "\<not> (\<exists>r\<in>set (deliveries ?d). pdID r = i \<and> push_ready now ?d r)"
      using os_push by (auto simp: held_push_id_def push_ready_def lease_free_def)
    then have "i \<notin> set (candidates pdID (push_ready now ?d) busy (claim_limit limit) (deliveries ?d))"
      using candidates_ready by metis
    with os_push h show ?case
      by (auto simp: ClaimPushDeliveries_def held_push_id_def Let_def split: if_splits)
  next
    case (os_job now j mut d r d' token)
    then show ?case using update_attentions [OF os_job(1)] by (auto simp: held_push_id_def)
  qed (auto simp: held_push_id_def ReleaseAttentionClaim_def MarkAttentionSpoken_def
      UpsertPushSubscription_def insert_sub_def DeletePushSubscription_def DisablePushSubscription_def
      ClaimPendingAttention_def ReleasePushClaim_def MarkPushDelivered_def MarkPushFailed_def
      MarkPushAbandoned_def Let_def split: if_splits option.splits)
next
  case (2 t now u d ids d' i)
  then obtain limit lease ti busy ps where c: "ClaimPushDeliveries t limit lease ti now busy d = Inr (ps, d')"
    "u = time_add ti lease" "ids = map pID ps" by (auto simp: push_claim_def)
  from c 2(3) obtain p where "p \<in> set ps" "pID p = i" by auto
  with claimed_ids [OF c(1)] have i: "i \<in> set (candidates pdID (push_ready now (enroll_deliveries now d)) busy
      (claim_limit limit) (deliveries (enroll_deliveries now d)))" by blast
  have "i < pdSeq (enroll_deliveries now d)"
    using candidates_ready [OF i] ok_enroll [OF 2(2), of now] by (auto simp: outbox_ok_def)
  then show ?case using c i
    by (auto simp: ClaimPushDeliveries_def held_push_id_def Let_def split: if_splits)
next
  case (3 t' now u' d ids d' u i t)
  then obtain limit lease ti busy ps where c: "ClaimPushDeliveries t' limit lease ti now busy d = Inr (ps, d')"
    "ids = map pID ps" by (auto simp: push_claim_def)
  show ?case
  proof
    assume "i \<in> set ids"
    with c obtain p where "p \<in> set ps" "pID p = i" by auto
    from claimed_ids [OF c(1) this(1)] this(2) candidates_ready obtain r where
      "r \<in> set (deliveries (enroll_deliveries now d))" "pdID r = i" "push_ready now (enroll_deliveries now d) r"
      by metis
    moreover have "held_push_id i t u (enroll_deliveries now d)" using enroll_held 3(3) by blast
    ultimately show False using 3(2) by (auto simp: held_push_id_def push_ready_def lease_free_def)
  qed
qed

end
