(* ===== verification/Outbox_Safety.thy ===== *)
theory Outbox_Safety
  imports Outbox_Lease
begin

text \<open>What the two outboxes promise.\<close>

section \<open>Attention\<close>

text \<open>
  Two claimants never hold the same attention: what one has claimed no other claim returns while the
  lease lasts, whatever operations of other tokens come between.
\<close>

lemma attention_claims_exclusive:
  assumes "outbox_reach d"
    and "ClaimPendingAttention t limit lease clk now busy d = Inr (xs, d1)"
    and "(\<lambda>a b. \<exists>t' at. outbox_step t' at a b \<and> t' \<noteq> t \<and> at \<le> time_add clk lease)\<^sup>*\<^sup>* d1 d2"
    and "ClaimPendingAttention t' limit' lease' clk' now' busy' d2 = Inr (ys, d3)"
    and "now' \<le> time_add clk lease"
  shows "atID ` set xs \<inter> atID ` set ys = {}"
proof -
  have "attention_claim t now (time_add clk lease) d (map atID xs) d1"
    "attention_claim t' now' (time_add clk' lease') d2 (map atID ys) d3"
    using assms(2,4) unfolding attention_claim_def by blast+
  from att.exclusive [OF this(1) reach_ok [OF assms(1)] assms(3) this(2) assms(5)] show ?thesis by simp
qed

definition spoken_row :: "attention \<Rightarrow> db \<Rightarrow> bool" where
  "spoken_row a d \<longleftrightarrow> a \<in> set (attentions d) \<and> atSpoken a \<noteq> None"

lemma spoken_claim:
  assumes "ClaimPendingAttention token limit lease t now busy d = Inr (xs, d')" "outbox_ok d" "spoken_row a d"
  shows "spoken_row a d' \<and> a \<notin> set xs \<and> atID a \<notin> atID ` set xs"
proof -
  let ?ids = "candidates atID (attention_ready now) busy (claim_limit limit) (attentions d)"
  have n: "atID a \<notin> set ?ids"
  proof
    assume "atID a \<in> set ?ids"
    from candidates_ready [OF this] obtain b where "b \<in> set (attentions d)" "atID b = atID a" "atSpoken b = None"
      by (auto simp: attention_ready_def)
    with assms(2,3) show False by (auto simp: spoken_row_def outbox_ok_def distinct_map inj_on_def)
  qed
  then have "a \<in> set (attentions d')"
    using assms(1,3) by (force simp: ClaimPendingAttention_def Let_def spoken_row_def split: if_splits)
  moreover have "atID a \<notin> atID ` set xs"
    using n assms(1) by (auto simp: ClaimPendingAttention_def Let_def split: if_splits)
  ultimately show ?thesis using assms(3) by (auto simp: spoken_row_def)
qed

lemma spoken_step: "outbox_step t now d d' \<Longrightarrow> outbox_ok d \<Longrightarrow> spoken_row a d \<Longrightarrow> spoken_row a d'"
proof (induction rule: outbox_step.induct)
  case (os_claim token limit lease t now busy d xs d')
  then show ?case using spoken_claim by blast
next
  case (os_job now i mut d r d' token)
  then show ?case using update_attentions [OF os_job(1)] by (auto simp: spoken_row_def)
next
  case (os_release token now d)
  then show ?case by (force simp: spoken_row_def ReleaseAttentionClaim_def held_attention_def)
next
  case (os_spoken token ids now d n d')
  then show ?case by (force simp: spoken_row_def MarkAttentionSpoken_def held_attention_def Let_def split: if_splits)
next
  case (os_push token limit lease t now busy d ps d')
  then show ?case by (auto simp: spoken_row_def ClaimPushDeliveries_def Let_def split: if_splits)
qed (auto simp: spoken_row_def UpsertPushSubscription_def insert_sub_def DeletePushSubscription_def
    DisablePushSubscription_def ReleasePushClaim_def MarkPushDelivered_def MarkPushFailed_def
    MarkPushAbandoned_def Let_def split: option.splits)

text \<open>
  Spoken is final: once an attention is marked spoken no operation changes its row again and no claim
  returns it, so it is neither spoken nor pushed a second time.
\<close>

lemma spoken_is_final:
  assumes "outbox_reach d" and "MarkAttentionSpoken t ids now d = (n, d1)" and "a \<in> set (attentions d1)"
    and "atSpoken a \<noteq> None" and "(\<lambda>x y. \<exists>t' at. outbox_step t' at x y)\<^sup>*\<^sup>* d1 d2"
    and "ClaimPendingAttention t' limit lease clk at busy d2 = Inr (ys, d3)"
  shows "a \<in> set (attentions d3) \<and> atID a \<notin> atID ` set ys"
proof -
  have ok: "outbox_ok d1" using step_ok [OF os_spoken [OF assms(2)] reach_ok [OF assms(1)]] .
  from assms(5) have "spoken_row a d2 \<and> outbox_ok d2"
  proof (induction rule: rtranclp_induct)
    case base
    then show ?case using assms(3,4) ok by (simp add: spoken_row_def)
  next
    case (step y z)
    then show ?case using spoken_step step_ok by blast
  qed
  then show ?thesis using spoken_claim [OF assms(6)] by (auto simp: spoken_row_def)
qed

text \<open>
  An acknowledgement counts what it acknowledged: it marks exactly the unspoken rows among the given
  ids that its own token holds, clears their lease and reports their number.
\<close>

lemma acknowledgement_counts:
  "case MarkAttentionSpoken t ids now d of (n, d') \<Rightarrow>
     n = length (filter (\<lambda>a. t \<noteq> '''' \<and> atToken a = t \<and> atSpoken a = None \<and> atID a \<in> set ids) (attentions d)) \<and>
     attentions d' = map (\<lambda>a. if t \<noteq> '''' \<and> atToken a = t \<and> atSpoken a = None \<and> atID a \<in> set ids
        then a\<lparr>atSpoken := Some now, atToken := '''', atUntil := None\<rparr> else a) (attentions d) \<and>
     d'\<lparr>attentions := attentions d\<rparr> = d"
  by (auto simp: MarkAttentionSpoken_def held_attention_def Let_def map_idI conj_assoc)

section \<open>Push\<close>

text \<open>
  C30. A notification reaches only who asked for it in time: every delivery a claim returns is of an
  attention not yet spoken, to a subscription that is enabled and was (re)activated no later than the
  attention was created, under the subscription's own endpoint and keys, with the attempt counted.
\<close>

theorem push_respects_opt_in:
  assumes "outbox_reach d" and "ClaimPushDeliveries t limit lease clk now busy d = Inr (ps, d')" and "p \<in> set ps"
  shows "\<exists>a s r. a \<in> set (attentions d) \<and> s \<in> set (subs d) \<and> pAttention p = atID a \<and> pSub p = psID s \<and>
    atSpoken a = None \<and> psDisabled s = None \<and> psCreated s \<le> atCreated a \<and>
    pEndpoint p = Endpoint s \<and> pP256DH p = P256DH s \<and> pAuth p = Auth s \<and> pTitle p = PushTitle a \<and>
    pBody p = PushBody a \<and> r \<in> set (deliveries d') \<and> pdID r = pID p \<and> pdToken r = t \<and>
    pdSent r = None \<and> pdFailed r = None \<and> pAttempts p = pdAttempts r \<and> 0 < pdAttempts r"
proof -
  let ?d = "enroll_deliveries now d"
  let ?ids = "candidates pdID (push_ready now ?d) busy (claim_limit limit) (deliveries ?d)"
  let ?f = "\<lambda>r. if pdID r \<in> set ?ids
      then r\<lparr>pdToken := t, pdUntil := Some (time_add clk lease), pdAttempts := Suc (pdAttempts r)\<rparr> else r"
  have ok: "outbox_ok ?d" using ok_enroll [OF reach_ok [OF assms(1)]] .
  have ps: "ps = List.map_filter (push_result ?d) (filter (\<lambda>r. pdID r \<in> set ?ids) (map ?f (deliveries ?d)))"
    "d' = ?d\<lparr>deliveries := map ?f (deliveries ?d)\<rparr>"
    using assms(2) by (auto simp: ClaimPushDeliveries_def Let_def split: if_splits)
  from assms(3) obtain r0 where r0: "r0 \<in> set (deliveries ?d)" "pdID r0 \<in> set ?ids"
    "push_result ?d (?f r0) = Some p"
    unfolding ps(1) by (auto simp: map_filter_def split: if_splits)
  obtain r1 where "r1 \<in> set (deliveries ?d)" "pdID r1 = pdID r0" "push_ready now ?d r1"
    using candidates_ready [OF r0(2)] by blast
  moreover then have "r1 = r0" using ok r0(1) by (auto simp: outbox_ok_def distinct_map inj_on_def)
  ultimately have ready: "push_ready now ?d r0" by simp
  then obtain a s where a: "find_attention (pdAttention r0) d = Some a" "atSpoken a = None"
    and s: "find_sub (pdSub r0) d = Some s" "psDisabled s = None"
    by (auto simp: push_ready_def split: option.splits)
  then have as: "a \<in> set (attentions d)" "atID a = pdAttention r0" "s \<in> set (subs d)" "psID s = pdSub r0"
    by (auto simp: find_attention_def find_sub_def find_Some_iff)
  have "pdSent r0 = None" "pdFailed r0 = None" using ready by (auto simp: push_ready_def)
  then have "psCreated s \<le> atCreated a" using ok r0(1) as by (auto simp: outbox_ok_def opted_in_def)
  moreover have "p = \<lparr>pID = pdID r0, pSub = pdSub r0, pEndpoint = Endpoint s, pP256DH = P256DH s,
      pAuth = Auth s, pTitle = PushTitle a, pBody = PushBody a, pAttention = atID a,
      pAttempts = Suc (pdAttempts r0)\<rparr>"
    using r0(2,3) a(1) s(1) by (simp add: push_result_def)
  moreover have "?f r0 \<in> set (deliveries d')" unfolding ps(2) using r0(1) by simp
  ultimately show ?thesis using a s as r0(2) \<open>pdSent r0 = None\<close> \<open>pdFailed r0 = None\<close>
    by (intro exI [of _ a] exI [of _ s] exI [of _ "?f r0"]) simp
qed

text \<open>
  Two workers never push the same delivery side by side: the deliveries of one claim and of any other
  before the lease has run out are disjoint.
\<close>

lemma push_claims_exclusive:
  assumes "outbox_reach d"
    and "ClaimPushDeliveries t limit lease clk now busy d = Inr (ps, d1)"
    and "(\<lambda>a b. \<exists>t' at. outbox_step t' at a b \<and> t' \<noteq> t \<and> at \<le> time_add clk lease)\<^sup>*\<^sup>* d1 d2"
    and "ClaimPushDeliveries t' limit' lease' clk' now' busy' d2 = Inr (qs, d3)"
    and "now' \<le> time_add clk lease"
  shows "pID ` set ps \<inter> pID ` set qs = {}"
proof -
  have "push_claim t now (time_add clk lease) d (map pID ps) d1"
    "push_claim t' now' (time_add clk' lease') d2 (map pID qs) d3"
    using assms(2,4) unfolding push_claim_def by blast+
  from pus.exclusive [OF this(1) reach_ok [OF assms(1)] assms(3) this(2) assms(5)] show ?thesis by simp
qed

end
