(* ===== verification/Store_Laws.thy ===== *)
theory Store_Laws
  imports Outbox_Safety Dispatch
begin

text \<open>
  The whole database: every operation of the store on it, as one step relation, and what its reachable
  states keep.  The second half has the promises of the outboxes on a concrete database: one finished job,
  one subscriber.
\<close>

section \<open>Every write\<close>

text \<open>
  One committed write, by whichever goroutine or process.  The second subscription step is the insert of
  an \<open>UpsertPushSubscription\<close> between whose locking read and insert others have written; \<open>ws_queue\<close> is the queue library,
  which takes deliveries from its table and puts retries back.
\<close>

inductive store_step :: "db \<Rightarrow> db \<Rightarrow> bool" where
  ws_job: "db_step d d' \<Longrightarrow> store_step d d'"
| ws_claim_approval: "version_room i d \<Longrightarrow> ClaimApproval now i aid nonce d = (r, d') \<Longrightarrow> store_step d d'"
| ws_park_approval: "version_room i d \<Longrightarrow> ParkApproval now i aid nonce reason at d = (r, d') \<Longrightarrow> store_step d d'"
| ws_claim: "ClaimPendingAttention token limit lease t now busy d = Inr (xs, d') \<Longrightarrow> store_step d d'"
| ws_release: "store_step d (ReleaseAttentionClaim token d)"
| ws_spoken: "MarkAttentionSpoken token ids now d = (n, d') \<Longrightarrow> store_step d d'"
| ws_subscribe: "store_step d (UpsertPushSubscription (\<lambda>d. d) e p auth now d)"
| ws_subscribe_late: "store_step d (insert_sub e p auth now d)"
| ws_unsubscribe: "store_step d (DeletePushSubscription e d)"
| ws_disable: "store_step d (DisablePushSubscription k now d)"
| ws_push: "ClaimPushDeliveries token limit lease t now busy d = Inr (ps, d') \<Longrightarrow> store_step d d'"
| ws_release_push: "store_step d (ReleasePushClaim token d)"
| ws_delivered: "store_step d (MarkPushDelivered token k now d)"
| ws_failed: "store_step d (MarkPushFailed token k at msg d)"
| ws_abandoned: "store_step d (MarkPushAbandoned token k msg now d)"
| ws_deny: "SavePermanentDenials sha ks src d = (e, d') \<Longrightarrow> store_step d d'"
| ws_allow: "SavePermanentAllows sha ks src d = (e, d') \<Longrightarrow> store_step d d'"
| ws_enqueue: "EnqueueRunTx out i d = Inr d' \<Longrightarrow> store_step d d'"
| ws_queue: "store_step d (d\<lparr>river := q\<rparr>)"

inductive store_reach :: "db \<Rightarrow> bool" where
  store_start: "store_reach empty_db"
| store_next: "store_reach d \<Longrightarrow> store_step d d' \<Longrightarrow> store_reach d'"

definition store_ok :: "db \<Rightarrow> bool" where
  "store_ok d \<longleftrightarrow> db_ok d \<and> outbox_ok d"

lemma claim_mut_identity: "keeps_identity (claim_mut aid nonce)"
  by (rule keeps_identityI) (simp_all add: claim_mut_def)

lemma park_mut_identity: "keeps_identity (park_mut aid nonce reason at)"
  by (rule keeps_identityI) (simp_all add: park_mut_def)

lemma job_step_ok: "db_step d d' \<Longrightarrow> store_ok d \<Longrightarrow> store_ok d'"
proof (unfold store_ok_def, elim conjE, intro conjI)
  assume s: "db_step d d'" and b: "db_ok d" and o: "outbox_ok d"
  show "db_ok d'" by (rule db_step_ok [OF s b])
  from s o show "outbox_ok d'"
  proof (cases rule: db_step.cases)
    case (db_create now ulid name tsk r)
    then show ?thesis using o ok_tables [of d' d]
      by (auto simp: CreateJob_def CreateJobTx_def Let_def split: if_splits)
  next
    case (db_update mut i now r)
    then show ?thesis using ok_update o by blast
  next
    case (db_pause b)
    then show ?thesis using o ok_tables [of d' d] by simp
  qed
qed

text \<open>The outboxes, the policies and the queue leave jobs and attention keys alone.\<close>

lemma frame_step_ok: "jobs d' = jobs d \<Longrightarrow> map att_key (attentions d') = map att_key (attentions d) \<Longrightarrow> outbox_ok d' \<Longrightarrow>
    store_ok d \<Longrightarrow> store_ok d'"
  using db_ok_frame [of d' d] by (simp add: store_ok_def)

lemma enroll_jobs [simp]: "jobs (enroll_deliveries now d) = jobs d"
proof -
  have "jobs (fold (insert_delivery now) ps x) = jobs x" for ps x
    by (induction ps arbitrary: x) (auto simp: insert_delivery_def split: if_splits)
  then show ?thesis by (simp add: enroll_deliveries_def)
qed

lemma push_claim_frame:
  "ClaimPushDeliveries token limit lease t now busy d = Inr (ps, d') \<Longrightarrow> jobs d' = jobs d \<and> attentions d' = attentions d"
  by (auto simp: ClaimPushDeliveries_def Let_def split: if_splits)

lemma attention_claim_frame:
  "ClaimPendingAttention token limit lease t now busy d = Inr (xs, d') \<Longrightarrow>
   jobs d' = jobs d \<and> map att_key (attentions d') = map att_key (attentions d)"
  by (auto simp: ClaimPendingAttention_def Let_def split: if_splits)

lemma subscription_frame [simp]:
  "jobs (insert_sub e p auth now d) = jobs d" "attentions (insert_sub e p auth now d) = attentions d"
  "jobs (UpsertPushSubscription (\<lambda>d. d) e p auth now d) = jobs d"
  "attentions (UpsertPushSubscription (\<lambda>d. d) e p auth now d) = attentions d"
  by (simp_all add: insert_sub_def UpsertPushSubscription_def split: option.split)

lemma store_step_ok: "store_step d d' \<Longrightarrow> store_ok d \<Longrightarrow> store_ok d'"
proof (induction rule: store_step.induct)
  case (ws_job d d')
  then show ?case by (rule job_step_ok)
next
  case (ws_claim_approval i d now aid nonce r d')
  obtain x d1 where u: "UpdateJob now i (claim_mut aid nonce) d = (x, d1)" by fastforce
  with ws_claim_approval(2) have "d' = d1" by (auto simp: ClaimApproval_def Let_def split: sum.splits)
  with job_step_ok [OF db_update [OF claim_mut_identity ws_claim_approval(1) u]] ws_claim_approval(3)
  show ?case by simp
next
  case (ws_park_approval i d now aid nonce reason at r d')
  obtain x d1 where u: "UpdateJob now i (park_mut aid nonce reason at) d = (x, d1)" by fastforce
  with ws_park_approval(2) have "d' = d1" by (auto simp: ParkApproval_def Let_def split: sum.splits)
  with job_step_ok [OF db_update [OF park_mut_identity ws_park_approval(1) u]] ws_park_approval(3)
  show ?case by simp
next
  case (ws_claim token limit lease t now busy d xs d')
  then have "outbox_ok d'" using ok_claim_attention unfolding store_ok_def by blast
  with attention_claim_frame [OF ws_claim(1)] ws_claim(2) show ?case by (intro frame_step_ok [of d' d]) simp_all
next
  case (ws_release d token)
  then show ?case using ok_release_attention
    by (intro frame_step_ok [of "ReleaseAttentionClaim token d" d]) (auto simp: ReleaseAttentionClaim_def store_ok_def)
next
  case (ws_spoken token ids now d n d')
  then have "outbox_ok d'" using ok_spoken by (metis store_ok_def snd_conv)
  with ws_spoken show ?case
    by (intro frame_step_ok [of d' d]) (auto simp: MarkAttentionSpoken_def Let_def split: if_splits)
next
  case (ws_subscribe d e p auth now)
  then show ?case using ok_upsert by (intro frame_step_ok [OF _ _ _ ws_subscribe]) (auto simp: store_ok_def)
next
  case (ws_subscribe_late d e p auth now)
  then show ?case using ok_insert_sub by (intro frame_step_ok [OF _ _ _ ws_subscribe_late]) (auto simp: store_ok_def)
next
  case (ws_unsubscribe d e)
  then show ?case using ok_delete
    by (intro frame_step_ok [OF _ _ _ ws_unsubscribe]) (auto simp: store_ok_def DeletePushSubscription_def Let_def)
next
  case (ws_disable d k now)
  then show ?case using ok_disable
    by (intro frame_step_ok [OF _ _ _ ws_disable]) (auto simp: store_ok_def DisablePushSubscription_def)
next
  case (ws_push token limit lease t now busy d ps d')
  then have "outbox_ok d'" using ok_claim_push unfolding store_ok_def by blast
  with push_claim_frame [OF ws_push(1)] ws_push(2) show ?case by (intro frame_step_ok [of d' d]) simp_all
next
  case (ws_deny sha ks src d e d')
  then show ?case using ok_tables [of d' d]
    by (intro frame_step_ok [of d' d]) (auto simp: SavePermanentDenials_def store_ok_def Let_def split: if_splits)
next
  case (ws_allow sha ks src d e d')
  then show ?case using ok_tables [of d' d]
    by (intro frame_step_ok [of d' d]) (auto simp: SavePermanentAllows_def store_ok_def Let_def split: if_splits)
next
  case (ws_enqueue out i d d')
  then show ?case using ok_tables [of d' d]
    by (intro frame_step_ok [of d' d]) (auto simp: EnqueueRunTx_def store_ok_def split: option.splits)
next
  case (ws_queue d q)
  then show ?case using ok_tables [of "d\<lparr>river := q\<rparr>" d]
    by (intro frame_step_ok [of "d\<lparr>river := q\<rparr>" d]) (auto simp: store_ok_def)
next
  case (ws_release_push d token)
  then show ?case using ok_marks
    by (intro frame_step_ok [OF _ _ _ ws_release_push]) (auto simp: ReleasePushClaim_def store_ok_def)
next
  case (ws_delivered d token k now)
  then show ?case using ok_marks
    by (intro frame_step_ok [OF _ _ _ ws_delivered]) (auto simp: MarkPushDelivered_def store_ok_def)
next
  case (ws_failed d token k at msg)
  then show ?case using ok_marks
    by (intro frame_step_ok [OF _ _ _ ws_failed]) (auto simp: MarkPushFailed_def store_ok_def Let_def)
next
  case (ws_abandoned d token k msg now)
  then show ?case using ok_marks
    by (intro frame_step_ok [OF _ _ _ ws_abandoned]) (auto simp: MarkPushAbandoned_def store_ok_def Let_def)
qed

lemma store_reach_ok: "store_reach d \<Longrightarrow> store_ok d"
proof (induction rule: store_reach.induct)
  case store_start
  show ?case using db_ok_empty by (simp add: store_ok_def outbox_ok_def empty_db_def)
qed (rule store_step_ok)

text \<open>
  C31. Every database that the store's operations can reach, in any order and by whomever, is well formed.  Jobs,
  attention rows, subscriptions, endpoints and deliveries have their keys; every terminal job has a finish time; an
  attention row is unique for its job, version and status, and its job has had that version; there is at most one
  delivery per attention and subscription; and a delivery not yet sent is for a subscription that was made or renewed
  no later than its attention was created.
\<close>

theorem reachable_db_invariant:
  assumes "store_reach d"
  shows "distinct (map jID (jobs d)) \<and>
    (\<forall>j\<in>set (jobs d). terminal (Status j) \<longrightarrow> FinishedAt j \<noteq> None) \<and>
    distinct (map atID (attentions d)) \<and> distinct (map att_key (attentions d)) \<and>
    (\<forall>a\<in>set (attentions d). \<exists>j. find_job (atJob a) d = Some j \<and> atVersion a \<le> StateVersion j) \<and>
    distinct (map psID (subs d)) \<and> distinct (map Endpoint (subs d)) \<and>
    distinct (map pdID (deliveries d)) \<and> distinct (map (\<lambda>r. (pdAttention r, pdSub r)) (deliveries d)) \<and>
    (\<forall>r\<in>set (deliveries d). \<forall>a\<in>set (attentions d). \<forall>s\<in>set (subs d).
       pdSent r = None \<and> atID a = pdAttention r \<and> psID s = pdSub r \<longrightarrow> psCreated s \<le> atCreated a)"
  using store_reach_ok [OF assms]
  by (auto simp: store_ok_def db_ok_def ids_ok_def finished_ok_def attention_ok_def outbox_ok_def opted_in_def)

section \<open>A concrete database\<close>

definition demo_box :: db where
  "demo_box = snd (UpdateJob 3 ''j'' (\<lambda>x. x\<lparr>Status := Done\<rparr>)
     (UpsertPushSubscription (\<lambda>d. d) ''https'' ''p'' ''k'' 2 (snd (CreateJob 1 ''j'' ''n'' ''t'' empty_db))))"

lemma demo_box_reach: "outbox_reach demo_box"
proof -
  have "outbox_reach (snd (CreateJob 1 ''j'' ''n'' ''t'' empty_db))"
    by (rule reach_create [OF reach_start]) (rule prod.collapse [symmetric])
  then have "outbox_reach (UpsertPushSubscription (\<lambda>d. d) ''https'' ''p'' ''k'' 2
      (snd (CreateJob 1 ''j'' ''n'' ''t'' empty_db)))"
    by (rule reach_step) (rule os_subscribe)
  then show ?thesis unfolding demo_box_def
    by (rule reach_step) (rule os_job, rule prod.collapse [symmetric])
qed

lemma demo_box_tables:
  "\<exists>a. attentions demo_box = [a] \<and> atID a = 1 \<and> atUntil a = None \<and> atSpoken a = None \<and> atCreated a = 3"
  "subs demo_box = [\<lparr>psID = 1, Endpoint = ''https'', P256DH = ''p'', Auth = ''k'', psCreated = 2,
     psUpdated = 2, psDisabled = None\<rparr>]" "deliveries demo_box = []" "pdSeq demo_box = 1"
  by (simp_all add: demo_box_def demo_db_simps UpsertPushSubscription_def with_endpoint_def insert_sub_def
      bump_job_def)

lemma demo_attention_claim:
  "\<exists>xs d'. ClaimPendingAttention ''t'' 20 10 4 4 {} demo_box = Inr (xs, d') \<and> atID ` set xs = {1}"
proof -
  obtain a where "attentions demo_box = [a]" "atID a = 1" "atUntil a = None" "atSpoken a = None"
    using demo_box_tables(1) by blast
  then show ?thesis
    by (simp add: ClaimPendingAttention_def candidates_def claim_limit_def attention_ready_def lease_free_def)
qed

lemma demo_push_claim:
  "\<exists>p d'. ClaimPushDeliveries ''t'' 20 10 4 4 {} demo_box = Inr ([p], d') \<and> pID p = 1"
proof -
  obtain a where "attentions demo_box = [a]" "atID a = 1" "atSpoken a = None" "atCreated a = 3"
    using demo_box_tables(1) by blast
  then show ?thesis using demo_box_tables(2-4)
  by (simp add: ClaimPushDeliveries_def enroll_deliveries_def wants_push_def insert_delivery_def Let_def
      candidates_def claim_limit_def push_ready_def find_attention_def find_sub_def lease_free_def
      push_result_def map_filter_def)
qed

lemma push_respects_opt_in_witness:
  "\<exists>p d' a. ClaimPushDeliveries ''t'' 20 10 4 4 {} demo_box = Inr ([p], d') \<and> a \<in> set (attentions demo_box) \<and>
     pAttention p = atID a \<and> pEndpoint p = ''https''"
proof -
  obtain p d' where c: "ClaimPushDeliveries ''t'' 20 10 4 4 {} demo_box = Inr ([p], d')"
    using demo_push_claim by blast
  from push_respects_opt_in [OF demo_box_reach c, of p] c show ?thesis by (auto simp: demo_box_tables(2))
qed

text \<open>The same database by the steps of the store, with the delivery that a worker claims.\<close>

lemma demo_box_store: "store_reach demo_box"
proof -
  have c: "store_reach (snd (CreateJob 1 ''j'' ''n'' ''t'' empty_db))"
    by (rule store_next [OF store_start], rule ws_job, rule db_create, rule prod.collapse [symmetric])
  have s: "store_reach (UpsertPushSubscription (\<lambda>d. d) ''https'' ''p'' ''k'' 2
      (snd (CreateJob 1 ''j'' ''n'' ''t'' empty_db)))"
    by (rule store_next [OF c], rule ws_subscribe)
  show ?thesis unfolding demo_box_def
    by (rule store_next [OF s], rule ws_job, rule db_update [OF _ _ prod.collapse [symmetric]])
      (auto simp: version_room_def demo_db_simps UpsertPushSubscription_def with_endpoint_def insert_sub_def)
qed

lemma reachable_db_invariant_witness:
  "\<exists>d r. store_reach d \<and> deliveries d = [r] \<and> pdToken r = ''t'' \<and>
     (\<forall>a\<in>set (attentions d). \<forall>s\<in>set (subs d). atID a = pdAttention r \<and> psID s = pdSub r \<longrightarrow> psCreated s \<le> atCreated a)"
proof -
  obtain a where a: "attentions demo_box = [a]" "atID a = 1" "atSpoken a = None" "atCreated a = 3"
    using demo_box_tables(1) by blast
  have "\<exists>ps d r. ClaimPushDeliveries ''t'' 20 10 4 4 {} demo_box = Inr (ps, d) \<and> deliveries d = [r] \<and>
      pdToken r = ''t'' \<and> pdSent r = None"
    using a demo_box_tables(2-4)
    by (simp add: ClaimPushDeliveries_def enroll_deliveries_def wants_push_def insert_delivery_def Let_def
        candidates_def claim_limit_def push_ready_def find_attention_def find_sub_def lease_free_def)
  then obtain ps d r where c: "ClaimPushDeliveries ''t'' 20 10 4 4 {} demo_box = Inr (ps, d)" "deliveries d = [r]"
    "pdToken r = ''t''" "pdSent r = None" by blast
  have "store_reach d" by (rule store_next [OF demo_box_store ws_push [OF c(1)]])
  with reachable_db_invariant [OF this] c show ?thesis by (intro exI [of _ d] exI [of _ r]) simp
qed

end
