(* ===== verification/Notify.thy ===== *)
theory Notify
  imports Outbox_Safety World
begin

text \<open>
  The push worker (\<open>src/internal/notify/notify.go\<close>).  What the worker meets is in \<open>pusher\<close>: the database
  with its faults (\<open>world\<close>), PostgreSQL's own clock, the rows other transactions have locked, what its
  \<open>n\<close>-th look at \<open>live\<close> sees, and for its \<open>n\<close>-th push what the sender returns, whether that push was
  cancelled and whether the worker's context had ended, then and when its outcome is recorded.
\<close>

section \<open>State\<close>

record send_result =
  srStatus :: nat
  srErr :: "error option"
  srCancelled :: bool

record pusher = world +
  ptoken :: string
  pgnow :: "nat \<Rightarrow> instant"
  lockedRows :: "nat \<Rightarrow> nat set"
  live :: "nat \<Rightarrow> bool"
  nlive :: nat
  sender :: "nat \<Rightarrow> send_result"
  ctxEnded :: "nat \<Rightarrow> bool"
  ctxAfter :: "nat \<Rightarrow> bool"
  pushed :: "(string \<times> push_delivery) list"

definition claimLease :: duration where "claimLease = minutes 1"
definition batchSize :: int where "batchSize = 20"
definition maxDeliveryAttempts :: nat where "maxDeliveryAttempts = 6"

section \<open>Store calls\<close>

definition exec_db :: "(instant \<Rightarrow> db \<Rightarrow> db) \<Rightarrow> pusher \<Rightarrow> error option \<times> pusher" where
  "exec_db f w =
     (case transact (\<lambda>e. e) (\<lambda>_ d. Inr ((), f (pgnow w (txs w)) d)) w of
        (Inl e, w) \<Rightarrow> (Some e, w) | (Inr _, w) \<Rightarrow> (None, w))"

definition claim_batch :: "pusher \<Rightarrow> (error + push_delivery list) \<times> pusher" where
  "claim_batch w =
     transact (\<lambda>e. e) (\<lambda>t d. ClaimPushDeliveries (ptoken w) batchSize claimLease t (pgnow w (txs w))
       (lockedRows w (txs w)) d) w"

definition load_live :: "pusher \<Rightarrow> bool \<times> pusher" where
  "load_live w = (live w (nlive w), w\<lparr>nlive := Suc (nlive w)\<rparr>)"

section \<open>Outcomes\<close>

definition retryable :: "nat \<Rightarrow> bool" where
  "retryable status \<longleftrightarrow> status = 0 \<or> status = 429 \<or> 500 \<le> status \<and> status \<le> 599"

definition safeDeliveryError :: "nat \<Rightarrow> error \<Rightarrow> string" where
  "safeDeliveryError status e =
     (if 0 < status then ''push provider returned HTTP '' @ nat_text status
      else if err_is ErrDeadline e then ''push provider request timed out''
      else if err_is ErrCanceled e then ''push provider request was cancelled''
      else ''push provider transport failed'')"

definition retryDelay :: "int \<Rightarrow> duration" where
  "retryDelay attempt0 =
     (let attempt = (if attempt0 < 1 then 1 else attempt0); attempt = (if attempt > 6 then 6 else attempt) in
      2 ^ nat (attempt - 1) * seconds 30)"

definition fail_delivery :: "push_delivery \<Rightarrow> nat \<Rightarrow> error \<Rightarrow> pusher \<Rightarrow> pusher" where
  "fail_delivery p status e w =
     snd (exec_db (\<lambda>_. MarkPushFailed (ptoken w) (pID p)
       (time_add (clock w (txs w)) (retryDelay (int (pAttempts p)))) (safeDeliveryError status e)) w)"

definition abandon :: "push_delivery \<Rightarrow> nat \<Rightarrow> error \<Rightarrow> pusher \<Rightarrow> pusher" where
  "abandon p status e w =
     snd (exec_db (\<lambda>now. MarkPushAbandoned (ptoken w) (pID p) (safeDeliveryError status e) now) w)"

definition release_claim :: "pusher \<Rightarrow> pusher" where
  "release_claim w = snd (exec_db (\<lambda>_. ReleasePushClaim (ptoken w)) w)"

section \<open>Sending\<close>

definition notificationPayload :: "push_delivery \<Rightarrow> string" where
  "notificationPayload p =
     ''{'' @ join '','' [json_string ''title'' @ '':'' @ json_string (pTitle p),
        json_string ''body'' @ '':'' @ json_string (pBody p),
        json_string ''tag'' @ '':'' @ json_string (''thornhill-attention-'' @ nat_text (pAttention p)),
        json_string ''url'' @ '':'' @ json_string (''/?attention='' @ nat_text (pAttention p))] @ ''}''"

text \<open>The status of a push that did not reach the provider is 0; the index is that of the push, if it was made.\<close>

definition send :: "string \<Rightarrow> push_delivery \<Rightarrow> pusher \<Rightarrow> (nat \<times> error option) \<times> pusher" where
  "send payload p w =
     (case load_live w of (l, w) \<Rightarrow>
      if l then ((0, Some ErrVoiceBecameLive), w)
      else let n = length (pushed w); r = sender w n; w = w\<lparr>pushed := pushed w @ [(payload, p)]\<rparr> in
        if srErr r \<noteq> None \<and> srCancelled r \<and> \<not> ctxEnded w n
        then (case load_live w of (l, w) \<Rightarrow>
          ((if l then (0, Some ErrVoiceBecameLive) else (srStatus r, srErr r)), w))
        else ((srStatus r, srErr r), w))"

text \<open>One delivery of a batch: \<open>True\<close> goes on with the next, \<open>False\<close> returns.\<close>

definition settle_push :: "push_delivery \<Rightarrow> nat \<Rightarrow> error \<Rightarrow> pusher \<Rightarrow> bool \<times> pusher" where
  "settle_push p status e w =
     (if err_is ErrVoiceBecameLive e then (False, release_claim w)
      else if ctxAfter w (length (pushed w) - 1) then (False, release_claim w)
      else if status = 404 \<or> status = 410
      then (True, snd (exec_db (\<lambda>now. DisablePushSubscription (pSub p) now) w))
      else if retryable status \<and> pAttempts p < maxDeliveryAttempts then (True, fail_delivery p status e w)
      else (True, abandon p status e w))"

definition push_one :: "push_delivery \<Rightarrow> pusher \<Rightarrow> bool \<times> pusher" where
  "push_one p w =
     (case load_live w of (l, w) \<Rightarrow>
      if l then (False, release_claim w)
      else case send (notificationPayload p) p w of
        ((status, None), w) \<Rightarrow> (True, snd (exec_db (\<lambda>now. MarkPushDelivered (ptoken w) (pID p) now) w))
      | ((status, Some e), w) \<Rightarrow> settle_push p status e w)"

fun push_all :: "push_delivery list \<Rightarrow> pusher \<Rightarrow> pusher" where
  "push_all [] w = w"
| "push_all (p # ps) w = (case push_one p w of (go, w) \<Rightarrow> if go then push_all ps w else w)"

definition deliver :: "pusher \<Rightarrow> pusher" where
  "deliver w =
     (case load_live w of (l, w) \<Rightarrow>
      if l then w
      else case claim_batch w of
        (Inl e, w) \<Rightarrow> w
      | (Inr ps, w) \<Rightarrow> push_all ps w)"

section \<open>Waking up\<close>

text \<open>
  The loop of \<open>Run\<close> over bus events and ticks.  \<open>wake\<close> is the pending signal in the channel of capacity one
  and \<open>active\<close> whether a push is on its way, which going live cancels.
\<close>

record watch =
  wLive :: bool
  wake :: bool
  active :: bool
  cancelledSend :: bool

definition noteworthy :: "string \<Rightarrow> bool" where
  "noteworthy kind \<longleftrightarrow> kind = ''job.done'' \<or> kind = ''job.failed'' \<or> kind = ''job.needs_input'' \<or>
     kind = ''job.needs_approval'' \<or> kind = ''job.approval_parked''"

definition signal :: "watch \<Rightarrow> watch" where
  "signal s = s\<lparr>wake := True\<rparr>"

definition setLive :: "bool \<Rightarrow> watch \<Rightarrow> watch" where
  "setLive l s = (let s = s\<lparr>wLive := l\<rparr> in if \<not> l then s else if active s then s\<lparr>cancelledSend := True\<rparr> else s)"

text \<open>\<open>state\<close> is the session state the payload decodes to, \<open>None\<close> if it does not decode.\<close>

definition watch_event :: "string \<Rightarrow> string option \<Rightarrow> watch \<Rightarrow> watch" where
  "watch_event kind state s =
     (if kind = ''session.state''
      then (case state of
          None \<Rightarrow> s
        | Some st \<Rightarrow> let l = (st = ''LIVE'' \<or> st = ''QUIET'' \<or> st = ''PARKING''); s = setLive l s in
            if l then s else signal s)
      else if \<not> wLive s \<and> noteworthy kind then signal s else s)"

definition watch_tick :: "watch \<Rightarrow> watch" where
  "watch_tick s = (if wLive s then s else signal s)"

section \<open>Delays and messages\<close>

lemma retryDelay_bounds:
  "seconds 30 \<le> retryDelay n \<and> retryDelay n \<le> minutes 16 \<and>
   retryDelay (n + 1) = (if 1 \<le> n \<and> n < 6 then 2 * retryDelay n else retryDelay n)"
proof -
  consider "n < 1" | "n = 1" | "n = 2" | "n = 3" | "n = 4" | "n = 5" | "n = 6" | "6 < n" by linarith
  then show ?thesis
    by cases (simp_all add: retryDelay_def Let_def seconds_def minutes_def numeral_eq_Suc)
qed

text \<open>
  Retries back off: the delay starts at half a minute, doubles with every attempt and stays at sixteen
  minutes from the sixth, for any attempt count.
\<close>

lemma retry_backs_off:
  "seconds 30 \<le> retryDelay n \<and> retryDelay n \<le> minutes 16 \<and>
   retryDelay (n + 1) = (if 1 \<le> n \<and> n < 6 then 2 * retryDelay n else retryDelay n)"
  by (rule retryDelay_bounds)

text \<open>
  What is stored and logged about a failed push never carries the text of the transport's error, which
  may contain the endpoint's secret path: it is one of three fixed messages, or names the HTTP status.
\<close>

lemma stored_error_is_safe:
  "safeDeliveryError status e \<in>
     {''push provider returned HTTP '' @ nat_text status, ''push provider request timed out'',
      ''push provider request was cancelled'', ''push provider transport failed''}"
  by (simp add: safeDeliveryError_def)

section \<open>A batch\<close>

lemma exec_more: "world.more (snd (exec_db f w)) = world.more w"
proof -
  obtain r w1 where t: "transact (\<lambda>e. e) (\<lambda>_ d. Inr ((), f (pgnow w (txs w)) d)) w = (r, w1)" by fastforce
  then have "world.more w1 = world.more w"
    using transact_frame(8) [of "\<lambda>e. e" "\<lambda>_ d. Inr ((), f (pgnow w (txs w)) d)" w] by simp
  then show ?thesis using t by (cases r) (simp_all add: exec_db_def)
qed

lemma pusher_more:
  assumes "world.more w' = world.more (w :: pusher)"
  shows "pushed w' = pushed w" "sender w' = sender w" "live w' = live w" "ctxEnded w' = ctxEnded w"
    "ptoken w' = ptoken w" "pgnow w' = pgnow w" "ctxAfter w' = ctxAfter w" "nlive w' = nlive w"
  using assms by (cases w; cases w'; simp)+

lemmas exec_frame [simp] = pusher_more [OF exec_more]

lemma load_frame [simp]:
  "pushed (snd (load_live w)) = pushed w" "wdb (snd (load_live w)) = wdb w" "txs (snd (load_live w)) = txs w"
  by (simp_all add: load_live_def)

lemma send_pushes:
  assumes "send payload p w = ((status, e), w')"
  shows "pushed w' = pushed w @ [(payload, p)] \<or> pushed w' = pushed w \<and> e = Some ErrVoiceBecameLive"
  using assms by (auto simp: send_def load_live_def Let_def split: if_splits)

lemma settle_pushes:
  assumes "settle_push p status e w = (go, w')"
  shows "pushed w' = pushed w \<and> (go \<longrightarrow> \<not> err_is ErrVoiceBecameLive e)"
  using assms
  by (auto simp: settle_push_def release_claim_def fail_delivery_def abandon_def split: if_splits)

lemma push_one_pushes:
  assumes "push_one p w = (go, w')"
  shows "pushed w' = pushed w @ [(notificationPayload p, p)] \<or> pushed w' = pushed w \<and> \<not> go"
proof -
  obtain l w1 where l: "load_live w = (l, w1)" by fastforce
  then have p1: "pushed w1 = pushed w" using load_frame(1) [of w] by simp
  show ?thesis
  proof (cases l)
    case True
    then show ?thesis using assms l p1 by (auto simp: push_one_def release_claim_def)
  next
    case False
    obtain st e w2 where s: "send (notificationPayload p) p w1 = ((st, e), w2)" by (metis prod.collapse)
    show ?thesis
    proof (cases e)
      case None
      then show ?thesis using assms l False s send_pushes [OF s] p1 by (auto simp: push_one_def)
    next
      case (Some er)
      then have t: "settle_push p st er w2 = (go, w')" using assms l False s by (simp add: push_one_def)
      show ?thesis using settle_pushes [OF t] send_pushes [OF s] p1 Some by auto
    qed
  qed
qed

lemma push_all_pushes:
  "\<exists>qs. prefix qs ps \<and> pushed (push_all ps w) = pushed w @ map (\<lambda>p. (notificationPayload p, p)) qs"
proof (induction ps arbitrary: w)
  case (Cons p ps)
  obtain go w1 where o: "push_one p w = (go, w1)" by fastforce
  obtain qs where qs: "prefix qs ps"
    "pushed (push_all ps w1) = pushed w1 @ map (\<lambda>p. (notificationPayload p, p)) qs" using Cons by blast
  from push_one_pushes [OF o] show ?case
  proof
    assume h: "pushed w1 = pushed w @ [(notificationPayload p, p)]"
    show ?thesis
    proof (cases go)
      case True
      then show ?thesis using o h qs by (intro exI [of _ "p # qs"]) simp
    next
      case False
      then show ?thesis using o h by (intro exI [of _ "[p]"]) simp
    qed
  next
    assume "pushed w1 = pushed w \<and> \<not> go"
    then show ?thesis using o by (intro exI [of _ "[]"]) simp
  qed
qed (auto intro: exI [of _ "[]"])

text \<open>
  The worker pushes nothing but what it has just claimed, each delivery at most once, in the order of
  the claim and with its own text, and nothing at all when the voice session is live as it starts.
\<close>

lemma pushes_what_it_claimed:
  "pushed (deliver w) = pushed w \<or>
   (\<exists>ps w1 qs. \<not> live w (nlive w) \<and> claim_batch (snd (load_live w)) = (Inr ps, w1) \<and> prefix qs ps \<and>
      pushed (deliver w) = pushed w @ map (\<lambda>p. (notificationPayload p, p)) qs)"
proof -
  obtain r w1 where c: "claim_batch (snd (load_live w)) = (r, w1)" by fastforce
  have "world.more w1 = world.more (snd (load_live w))"
    using c transact_frame(8) [of "\<lambda>e. e" _ "snd (load_live w)"] unfolding claim_batch_def by (metis snd_conv)
  then have p: "pushed w1 = pushed w" using pusher_more(1) load_frame(1) by metis
  show ?thesis
  proof (cases "live w (nlive w)")
    case True
    then show ?thesis by (simp add: deliver_def load_live_def)
  next
    case False
    then have d: "deliver w = (case r of Inl e \<Rightarrow> w1 | Inr ps \<Rightarrow> push_all ps w1)"
      using c by (auto simp: deliver_def load_live_def split: sum.split)
    show ?thesis
    proof (cases r)
      case (Inr ps)
      then show ?thesis using False c d p push_all_pushes [of ps w1] by auto
    qed (use d p in simp)
  qed
qed

definition settled_row :: "instant \<Rightarrow> push_delivery \<Rightarrow> db \<Rightarrow> bool" where
  "settled_row t p d \<longleftrightarrow>
     (\<forall>r\<in>set (deliveries d). pdID r = pID p \<longrightarrow> pdSent r \<noteq> None \<or> pdFailed r \<noteq> None \<or>
        pdToken r = '''' \<and> pdUntil r = None \<and> t + seconds 30 \<le> pdNext r) \<or>
     (\<forall>s\<in>set (subs d). psID s = pSub p \<longrightarrow> psDisabled s \<noteq> None)"

lemma exec_quiet:
  assumes "dbfault w (txs w) = NoFault" "meddle w (txs w) (wdb w) = wdb w"
  shows "wdb (snd (exec_db f w)) = f (pgnow w (txs w)) (wdb w)"
  using assms by (simp add: exec_db_def transact_def Let_def)

text \<open>
  A delivery is settled before the next: when nobody interferes and the database answers, a delivery
  the worker goes on from has been marked sent, given up, scheduled at least half a minute ahead without a
  claim, or its subscription has been disabled.
\<close>

lemma delivery_is_settled:
  assumes "push_one p w = (True, w')" and "dbfault w (txs w) = NoFault" and "meddle w (txs w) (wdb w) = wdb w"
    and "\<forall>r\<in>set (deliveries (wdb w)). pdID r = pID p \<longrightarrow> pdToken r = ptoken w \<and> pdSent r = None \<and> pdFailed r = None"
  shows "settled_row (clock w (txs w)) p (wdb w')"
proof -
  obtain l w1 where l: "load_live w = (l, w1)" by fastforce
  then have w1: "w1 = w\<lparr>nlive := Suc (nlive w)\<rparr>" by (simp add: load_live_def)
  have l0: "\<not> l" using assms(1) l by (auto simp: push_one_def)
  obtain st e w2 where s: "send (notificationPayload p) p w1 = ((st, e), w2)" by (metis prod.collapse)
  have same: "wdb w2 = wdb w" "txs w2 = txs w" "dbfault w2 = dbfault w" "meddle w2 = meddle w"
    "ptoken w2 = ptoken w" "clock w2 = clock w"
    using s by (auto simp: send_def load_live_def w1 Let_def split: if_splits)
  note q = exec_quiet [of w2] assms(2-4) same
  show ?thesis
  proof (cases e)
    case None
    then have "w' = snd (exec_db (\<lambda>now. MarkPushDelivered (ptoken w2) (pID p) now) w2)"
      using assms(1) l l0 s by (simp add: push_one_def)
    then show ?thesis using q by (auto simp: settled_row_def MarkPushDelivered_def)
  next
    case (Some er)
    then have t: "settle_push p st er w2 = (True, w')" using assms(1) l l0 s by (simp add: push_one_def)
    have d: "seconds 30 \<le> retryDelay (int (pAttempts p))" using retryDelay_bounds by blast
    from t consider "w' = snd (exec_db (\<lambda>now. DisablePushSubscription (pSub p) now) w2)"
      | "w' = fail_delivery p st er w2" | "w' = abandon p st er w2"
      by (auto simp: settle_push_def split: if_splits)
    then show ?thesis
    proof cases
      case 1
      then show ?thesis using q by (auto simp: settled_row_def DisablePushSubscription_def)
    next
      case 2
      then show ?thesis using q d
        by (auto simp: settled_row_def fail_delivery_def MarkPushFailed_def Let_def time_add_def)
    next
      case 3
      then show ?thesis using q by (auto simp: settled_row_def abandon_def MarkPushAbandoned_def Let_def)
    qed
  qed
qed

definition demo_pusher :: pusher where
  "demo_pusher = \<lparr>wdb = empty_db\<lparr>deliveries := [\<lparr>pdID = 1, pdAttention = 1, pdSub = 1, pdAttempts = 1,
       pdNext = 0, pdToken = ''t'', pdUntil = Some 60, pdSent = None, pdFailed = None, pdError = ''''\<rparr>]\<rparr>,
     meddle = (\<lambda>_ d. d), dbfault = (\<lambda>_. NoFault), clock = (\<lambda>_. 5), txs = 0, freshID = (\<lambda>_. ''''),
     lcase = (\<lambda>c. c), pubs = [], ptoken = ''t'', pgnow = (\<lambda>_. 5), lockedRows = (\<lambda>_. {}), live = (\<lambda>_. False),
     nlive = 0, sender = (\<lambda>_. \<lparr>srStatus = 503, srErr = Some (EText ''https://secret''), srCancelled = False\<rparr>),
     ctxEnded = (\<lambda>_. False), ctxAfter = (\<lambda>_. False), pushed = []\<rparr>"

section \<open>The sender and the loop\<close>

text \<open>
  The sender of the push worker and the loop that wakes it (\<open>WebPushSender.Send\<close> and \<open>Worker.Run\<close> of
  \<open>src/internal/notify/notify.go\<close>).  The Web Push library is the argument \<open>post\<close>: it encrypts and posts, and gives an
  error or the status of the endpoint.
\<close>

section \<open>Send\<close>

record web_push =
  wpEndpoint :: string
  wpP256dh :: string
  wpAuth :: string
  wpSubscriber :: string
  wpPublic :: string
  wpPrivate :: string
  wpTTL :: nat
  wpUrgency :: string
  wpPayload :: string

record push_sender =
  psPublicKey :: string
  psPrivateKey :: string
  psSubject :: string

definition web_push :: "push_sender \<Rightarrow> string \<Rightarrow> push_delivery \<Rightarrow> web_push" where
  "web_push s payload p =
     \<lparr>wpEndpoint = pEndpoint p, wpP256dh = pP256DH p, wpAuth = pAuth p, wpSubscriber = psSubject s,
      wpPublic = psPublicKey s, wpPrivate = psPrivateKey s, wpTTL = 86400, wpUrgency = ''normal'', wpPayload = payload\<rparr>"

definition Send :: "push_sender \<Rightarrow> (web_push \<Rightarrow> error + nat) \<Rightarrow> string \<Rightarrow> push_delivery \<Rightarrow> nat \<times> error option" where
  "Send s post payload p =
     (case post (web_push s payload p) of
        Inl e \<Rightarrow> (0, Some e)
      | Inr status \<Rightarrow>
          (status, if status < 200 \<or> 300 \<le> status
            then Some (EText (''push endpoint returned HTTP '' @ nat_text status)) else None))"

text \<open>A push counts as delivered only when the endpoint said so, and only a transport error has no status.\<close>

lemma send_contract:
  "Send s post payload p = (status, e) \<Longrightarrow>
   (e = None \<longleftrightarrow> 200 \<le> status \<and> status < 300 \<and> post (web_push s payload p) = Inr status) \<and>
   (\<forall>x. post (web_push s payload p) = Inl x \<longrightarrow> status = 0 \<and> e = Some x)"
  by (auto simp: Send_def split: sum.splits if_splits)

section \<open>Run\<close>

text \<open>
  What happens to the worker, in the order it happens: an event of the bus, a tick, and the delivery goroutine taking
  the pending signal, which delivers unless a session is live.
\<close>

datatype worker_event = WBus string "string option" | WTick | WWake

fun worker_step :: "worker_event \<Rightarrow> watch \<times> pusher \<Rightarrow> watch \<times> pusher" where
  "worker_step (WBus kind state) (s, w) = (watch_event kind state s, w)"
| "worker_step WTick (s, w) = (watch_tick s, w)"
| "worker_step WWake (s, w) =
     (if wake s then (s\<lparr>wake := False\<rparr>, if wLive s then w else deliver w) else (s, w))"

definition idle_watch :: watch where
  "idle_watch = \<lparr>wLive = False, wake = False, active = False, cancelledSend = False\<rparr>"

definition worker_run :: "worker_event list \<Rightarrow> pusher \<Rightarrow> watch \<times> pusher" where
  "worker_run es w = fold worker_step es (signal idle_watch, w)"

text \<open>Whatever the loop does, a pending signal waits for the goroutine.\<close>

lemma wake_waits: "WWake \<notin> set es \<Longrightarrow> wake (fst sw) \<Longrightarrow> wake (fst (fold worker_step es sw)) \<and> snd (fold worker_step es sw) = snd sw"
proof (induction es arbitrary: sw)
  case (Cons e es)
  obtain s w where sw: "sw = (s, w)" by force
  then have "wake (fst (worker_step e sw)) \<and> snd (worker_step e sw) = w"
    using Cons.prems by (cases e) (auto simp: watch_event_def watch_tick_def signal_def setLive_def Let_def split: option.splits)
  then show ?case using Cons sw by simp
qed simp

text \<open>
  C25. No push waits for the tick: when a job's transition that a person should hear of is seen outside a voice session, or
  a voice session ends, the next time the delivery goroutine is free it looks at the outbox, however many other events
  came between, unless a session is live by then; the end of that session wakes it again.
\<close>

theorem no_lost_wakeup:
  assumes "worker_run es w = (s, w1)" "WWake \<notin> set later"
    and "noteworthy kind \<and> kind \<noteq> ''session.state'' \<and> \<not> wLive s \<or>
         kind = ''session.state'' \<and> state = Some st \<and> st \<notin> {''LIVE'', ''QUIET'', ''PARKING''}"
  shows "\<exists>s'. worker_run (es @ WBus kind state # later @ [WWake]) w = (s', if wLive s' then w1 else deliver w1) \<and> \<not> wake s'"
proof -
  let ?sw = "(watch_event kind state s, w1)"
  obtain s2 w2 where f: "fold worker_step later ?sw = (s2, w2)" by force
  have "wake (fst ?sw)" using assms(3) by (auto simp: watch_event_def signal_def Let_def)
  then have "wake s2" "w2 = w1" using wake_waits [OF assms(2), of ?sw] f by simp_all
  then show ?thesis using assms(1) f by (simp add: worker_run_def)
qed

lemma no_lost_wakeup_witness:
  "\<exists>s'. worker_run ([WWake] @ WBus ''job.done'' None # [WTick] @ [WWake]) demo_pusher = (s', deliver (deliver demo_pusher))"
proof -
  have "worker_run [WWake] demo_pusher = (idle_watch, deliver demo_pusher)"
    by (simp add: worker_run_def idle_watch_def signal_def)
  from no_lost_wakeup [OF this, of "[WTick]" "''job.done''" None] show ?thesis
    by (auto simp: worker_run_def idle_watch_def noteworthy_def signal_def watch_event_def watch_tick_def)
qed

end
