(* ===== verification/Push_Net.thy ===== *)
theory Push_Net
  imports Errors "HOL-Library.Word"
begin

text \<open>
  Where a push may be sent (\<open>src/internal/notify/notify.go\<close>): the address filter \<open>IsPublicPushIP\<close> and the
  dialer around it.  A \<open>net.IP\<close> is its list of bytes (\<open>[]\<close> is nil); the predicates of package \<open>net\<close> are
  written out as the Go standard library defines them.
\<close>

section \<open>Package net\<close>

type_synonym net_ip = "nat list"

definition v4_in_v6 :: "net_ip" where
  "v4_in_v6 = replicate 10 0 @ [255, 255]"

definition To4 :: "net_ip \<Rightarrow> net_ip option" where
  "To4 ip = (if length ip = 4 then Some ip
     else if length ip = 16 \<and> take 12 ip = v4_in_v6 then Some (drop 12 ip) else None)"

definition ip_equal :: "net_ip \<Rightarrow> net_ip \<Rightarrow> bool" where
  "ip_equal x y =
     (if length x = length y then x = y
      else if length x = 4 \<and> length y = 16 then take 12 y = v4_in_v6 \<and> drop 12 y = x
      else if length x = 16 \<and> length y = 4 then take 12 x = v4_in_v6 \<and> drop 12 x = y
      else False)"

definition byte_and :: "nat \<Rightarrow> nat \<Rightarrow> nat" where
  "byte_and b m = unat (and (of_nat b :: 8 word) (of_nat m))"

definition IsUnspecified :: "net_ip \<Rightarrow> bool" where
  "IsUnspecified ip \<longleftrightarrow> ip_equal ip (v4_in_v6 @ [0, 0, 0, 0]) \<or> ip_equal ip (replicate 16 0)"

definition IsLoopback :: "net_ip \<Rightarrow> bool" where
  "IsLoopback ip = (case To4 ip of Some q \<Rightarrow> q ! 0 = 127 | None \<Rightarrow> ip_equal ip (replicate 15 0 @ [1]))"

definition IsPrivate :: "net_ip \<Rightarrow> bool" where
  "IsPrivate ip =
     (case To4 ip of
        Some q \<Rightarrow> q ! 0 = 10 \<or> q ! 0 = 172 \<and> byte_and (q ! 1) 0xf0 = 16 \<or> q ! 0 = 192 \<and> q ! 1 = 168
      | None \<Rightarrow> length ip = 16 \<and> byte_and (ip ! 0) 0xfe = 0xfc)"

definition IsMulticast :: "net_ip \<Rightarrow> bool" where
  "IsMulticast ip =
     (case To4 ip of Some q \<Rightarrow> byte_and (q ! 0) 0xf0 = 0xe0 | None \<Rightarrow> length ip = 16 \<and> ip ! 0 = 0xff)"

definition IsLinkLocalMulticast :: "net_ip \<Rightarrow> bool" where
  "IsLinkLocalMulticast ip =
     (case To4 ip of
        Some q \<Rightarrow> q ! 0 = 224 \<and> q ! 1 = 0 \<and> q ! 2 = 0
      | None \<Rightarrow> length ip = 16 \<and> ip ! 0 = 0xff \<and> byte_and (ip ! 1) 0x0f = 0x02)"

definition IsLinkLocalUnicast :: "net_ip \<Rightarrow> bool" where
  "IsLinkLocalUnicast ip =
     (case To4 ip of
        Some q \<Rightarrow> q ! 0 = 169 \<and> q ! 1 = 254
      | None \<Rightarrow> length ip = 16 \<and> ip ! 0 = 0xfe \<and> byte_and (ip ! 1) 0xc0 = 0x80)"

definition IsGlobalUnicast :: "net_ip \<Rightarrow> bool" where
  "IsGlobalUnicast ip \<longleftrightarrow> (length ip = 4 \<or> length ip = 16) \<and>
     \<not> ip_equal ip (v4_in_v6 @ [255, 255, 255, 255]) \<and> \<not> IsUnspecified ip \<and> \<not> IsLoopback ip \<and>
     \<not> IsMulticast ip \<and> \<not> IsLinkLocalUnicast ip"

text \<open>\<open>netip.Prefix.Contains\<close> and \<open>netip.Addr.Unmap\<close> on the bytes of an address.\<close>

definition ip_number :: "net_ip \<Rightarrow> nat" where
  "ip_number ip = foldl (\<lambda>n b. 256 * n + b) 0 ip"

definition prefix_contains :: "net_ip \<Rightarrow> nat \<Rightarrow> net_ip \<Rightarrow> bool" where
  "prefix_contains pre bits a \<longleftrightarrow> length a = length pre \<and>
     ip_number a div 2 ^ (8 * length a - bits) = ip_number pre div 2 ^ (8 * length a - bits)"

definition Unmap :: "net_ip \<Rightarrow> net_ip" where
  "Unmap ip = (case To4 ip of Some q \<Rightarrow> q | None \<Rightarrow> ip)"

section \<open>Public destinations\<close>

definition v6_of :: "nat list \<Rightarrow> net_ip" where
  "v6_of bs = bs @ replicate (16 - length bs) 0"

definition nonPublicPushNetworks :: "(net_ip \<times> nat) list" where
  "nonPublicPushNetworks =
     [([100, 64, 0, 0], 10), ([192, 0, 0, 0], 24), ([192, 88, 99, 0], 24), ([192, 0, 2, 0], 24),
      ([198, 18, 0, 0], 15), ([198, 51, 100, 0], 24), ([203, 0, 113, 0], 24), ([240, 0, 0, 0], 4),
      (v6_of [0, 0x64, 0xff, 0x9b], 96), (v6_of [1, 0], 64), (v6_of [0x20, 1, 0x0d, 0xb8], 32),
      (v6_of [0xfe, 0xc0], 10)]"

definition IsPublicPushIP :: "net_ip \<Rightarrow> bool" where
  "IsPublicPushIP ip =
     (if ip = [] \<or> \<not> IsGlobalUnicast ip \<or> IsPrivate ip \<or> IsLoopback ip \<or> IsLinkLocalUnicast ip \<or>
         IsLinkLocalMulticast ip \<or> IsUnspecified ip
      then False
      else if length ip \<noteq> 4 \<and> length ip \<noteq> 16 then False
      else \<not> (\<exists>(pre, bits) \<in> set nonPublicPushNetworks. prefix_contains pre bits (Unmap ip)))"

text \<open>
  The dialer: \<open>lookup\<close> is the resolver's answer, \<open>connect n\<close> the error of the \<open>n\<close>-th connection attempt and
  \<open>ctxErr n\<close> the error of the context after it.  The result is the address connected to; the second
  component lists the addresses that were contacted.
\<close>

fun dial_each ::
  "(nat \<Rightarrow> error option) \<Rightarrow> (nat \<Rightarrow> error option) \<Rightarrow> nat \<Rightarrow> net_ip list \<Rightarrow> (error + net_ip) \<times> net_ip list" where
  "dial_each connect ctxErr n [] = (Inl (EText ''push destination connection failed''), [])"
| "dial_each connect ctxErr n (ip # ips) =
     (case connect n of
        None \<Rightarrow> (Inr ip, [ip])
      | Some e \<Rightarrow> (case ctxErr n of
            Some ce \<Rightarrow> (Inl ce, [ip])
          | None \<Rightarrow> (case dial_each connect ctxErr (Suc n) ips of (r, seen) \<Rightarrow> (r, ip # seen))))"

definition DialContext ::
  "error option \<Rightarrow> (error + net_ip list) \<Rightarrow> (nat \<Rightarrow> error option) \<Rightarrow> (nat \<Rightarrow> error option) \<Rightarrow>
   (error + net_ip) \<times> net_ip list" where
  "DialContext splitErr lookup connect ctxErr =
     (case splitErr of
        Some e \<Rightarrow> (Inl (EWrap ''invalid push destination: '' e ''''), [])
      | None \<Rightarrow> (case lookup of
          Inl e \<Rightarrow> (Inl (EText ''push destination lookup failed''), [])
        | Inr ips \<Rightarrow>
            if ips = [] then (Inl (EText ''push destination has no addresses''), [])
            else if \<exists>ip\<in>set ips. \<not> IsPublicPushIP ip
            then (Inl (EText ''push destination resolved to a non-public address''), [])
            else dial_each connect ctxErr 0 ips))"

section \<open>What passes\<close>

lemma high_nibble: "b < 256 \<Longrightarrow> byte_and b 0xf0 = 16 * (b div 16)"
proof -
  assume b: "b < 256"
  have "and (of_nat b :: 8 word) 0xf0 = push_bit 4 (drop_bit 4 (of_nat b))"
  proof (rule bit_word_eqI)
    fix n
    assume "n < LENGTH(8)"
    then have "n \<in> {0, 1, 2, 3, 4, 5, 6, 7}" by auto
    then show "bit (and (of_nat b :: 8 word) 0xf0) n = bit (push_bit 4 (drop_bit 4 (of_nat b :: 8 word))) n"
      by (auto simp: bit_simps)
  qed
  moreover have "unat (push_bit 4 (drop_bit 4 (of_nat b :: 8 word))) = 16 * (b div 16)"
  proof -
    have "unat (push_bit 4 (drop_bit 4 (of_nat b :: 8 word))) =
        take_bit 8 (push_bit 4 (drop_bit 4 (take_bit 8 (unat (of_nat b :: 8 word)))))"
      by (simp only: unsigned_push_bit_eq unsigned_drop_bit_eq) simp
    also have "unat (of_nat b :: 8 word) = b" using b by (simp add: unat_of_nat take_bit_eq_mod)
    also have "take_bit 8 (push_bit 4 (drop_bit 4 (take_bit 8 b))) = 16 * (b div 16)"
      using b by (simp add: take_bit_eq_mod push_bit_eq_mult drop_bit_eq_div)
    finally show ?thesis .
  qed
  ultimately show ?thesis by (simp add: byte_and_def)
qed

lemma v4_parts [simp]:
  "To4 [a, b, c, d] = Some [a, b, c, d]"
  "To4 (v4_in_v6 @ [a, b, c, d]) = Some [a, b, c, d]"
  "length (v4_in_v6 @ q) = 12 + length q" "length v4_in_v6 = 12"
  by (simp_all add: To4_def v4_in_v6_def)

lemma number4: "ip_number [a, b, c, d] = ((a * 256 + b) * 256 + c) * 256 + d"
  by (simp add: ip_number_def algebra_simps)

lemma div_digits: "r < m \<Longrightarrow> (q * m + r) div m = (q :: nat)"
  by simp

lemma number4_div:
  assumes "a < 256" "b < 256" "c < 256" "d < 256"
  shows "ip_number [a, b, c, d] div 2 ^ 8 = (a * 256 + b) * 256 + c"
    "ip_number [a, b, c, d] div 2 ^ 17 = a * 128 + b div 2"
    "ip_number [a, b, c, d] div 2 ^ 22 = a * 4 + b div 64"
    "ip_number [a, b, c, d] div 2 ^ 28 = a div 16"
proof -
  have n: "ip_number [a, b, c, d] div 2 ^ 8 = (a * 256 + b) * 256 + c"
    using assms div_digits [of d 256 "(a * 256 + b) * 256 + c"] by (simp add: number4)
  then show "ip_number [a, b, c, d] div 2 ^ 8 = (a * 256 + b) * 256 + c" .
  have "((a * 256 + b) * 256 + c) div 256 = a * 256 + b" using assms div_digits by simp
  with n have m: "ip_number [a, b, c, d] div 2 ^ 16 = a * 256 + b"
    using div_mult2_eq [of "ip_number [a, b, c, d]" 256 256] by simp
  show "ip_number [a, b, c, d] div 2 ^ 17 = a * 128 + b div 2"
    using m div_mult2_eq [of "ip_number [a, b, c, d]" "2 ^ 16" 2] by simp
  show "ip_number [a, b, c, d] div 2 ^ 22 = a * 4 + b div 64"
    using m div_mult2_eq [of "ip_number [a, b, c, d]" "2 ^ 16" 64] by simp
  have "(a * 256 + b) div 4096 = a div 16"
    using assms div_mult2_eq [of "a * 256 + b" 256 16] by simp
  then show "ip_number [a, b, c, d] div 2 ^ 28 = a div 16"
    using m div_mult2_eq [of "ip_number [a, b, c, d]" "2 ^ 16" 4096] by simp
qed

lemma div_is: "0 < m \<Longrightarrow> (n :: nat) div m = k \<longleftrightarrow> k * m \<le> n \<and> n < k * m + m"
proof
  assume m: "0 < m" "n div m = k"
  have "k * m + n mod m = n" using div_mult_mod_eq [of n m] m(2) by simp
  then show "k * m \<le> n \<and> n < k * m + m" using mod_less_divisor [OF m(1), of n] by linarith
next
  assume "0 < m" "k * m \<le> n \<and> n < k * m + m"
  then show "n div m = k" by (intro div_nat_eqI) (simp_all add: mult.commute)
qed

lemma pair_digits: "q < m \<Longrightarrow> p < m \<Longrightarrow> a * m + q = b * m + p \<longleftrightarrow> a = b \<and> q = (p :: nat)"
  proof -
  assume lt: "q < m" "p < m"
  show "a * m + q = b * m + p \<longleftrightarrow> a = b \<and> q = p"
    using div_digits [OF lt(1), of a] div_digits [OF lt(2), of b] by auto
qed

lemma v4_prefix:
  assumes "a < 256" "b < 256" "c < 256" "d < 256" "p < 256" "q < 256" "r < 256" "s < 256"
  shows "prefix_contains [p, q, r, s] 24 [a, b, c, d] \<longleftrightarrow> a = p \<and> b = q \<and> c = r"
    "prefix_contains [p, q, r, s] 15 [a, b, c, d] \<longleftrightarrow> a = p \<and> b div 2 = q div 2"
    "prefix_contains [p, q, r, s] 10 [a, b, c, d] \<longleftrightarrow> a = p \<and> b div 64 = q div 64"
    "prefix_contains [p, q, r, s] 4 [a, b, c, d] \<longleftrightarrow> a div 16 = p div 16"
proof -
  note n = number4_div [OF assms(1-4)] number4_div [OF assms(5-8)]
  have lt: "b div 2 < 128" "q div 2 < 128" "b div 64 < 4" "q div 64 < 4" using assms by simp_all
  have c: "prefix_contains [p, q, r, s] bits [a, b, c, d] \<longleftrightarrow>
     ip_number [a, b, c, d] div 2 ^ (32 - bits) = ip_number [p, q, r, s] div 2 ^ (32 - bits)" for bits
    by (auto simp: prefix_contains_def)
  have e: "32 - 24 = (8::nat)" "32 - 15 = (17::nat)" "32 - 10 = (22::nat)" "32 - 4 = (28::nat)" by simp_all
  show "prefix_contains [p, q, r, s] 24 [a, b, c, d] \<longleftrightarrow> a = p \<and> b = q \<and> c = r"
    unfolding c e n using assms pair_digits by metis
  show "prefix_contains [p, q, r, s] 15 [a, b, c, d] \<longleftrightarrow> a = p \<and> b div 2 = q div 2"
    unfolding c e n using lt(1,2) by (rule pair_digits)
  show "prefix_contains [p, q, r, s] 10 [a, b, c, d] \<longleftrightarrow> a = p \<and> b div 64 = q div 64"
    unfolding c e n using lt(3,4) by (rule pair_digits)
  show "prefix_contains [p, q, r, s] 4 [a, b, c, d] \<longleftrightarrow> a div 16 = p div 16"
    unfolding c e n ..
qed

definition blocked_v4 :: "nat \<Rightarrow> nat \<Rightarrow> nat \<Rightarrow> nat \<Rightarrow> bool" where
  "blocked_v4 a b c d \<longleftrightarrow>
     a = 0 \<and> b = 0 \<and> c = 0 \<and> d = 0 \<or> a = 10 \<or> a = 127 \<or> a = 100 \<and> 64 \<le> b \<and> b < 128 \<or>
     a = 169 \<and> b = 254 \<or> a = 172 \<and> 16 \<le> b \<and> b < 32 \<or>
     a = 192 \<and> (b = 168 \<or> b = 0 \<and> (c = 0 \<or> c = 2) \<or> b = 88 \<and> c = 99) \<or>
     a = 198 \<and> (b = 18 \<or> b = 19 \<or> b = 51 \<and> c = 100) \<or> a = 203 \<and> b = 0 \<and> c = 113 \<or> 224 \<le> a"

lemma nets_v4:
  assumes "a < 256" "b < 256" "c < 256" "d < 256"
  shows "(\<exists>(pre, bits) \<in> set nonPublicPushNetworks. prefix_contains pre bits [a, b, c, d]) \<longleftrightarrow>
    a = 100 \<and> 64 \<le> b \<and> b < 128 \<or> a = 192 \<and> b = 0 \<and> c = 0 \<or> a = 192 \<and> b = 88 \<and> c = 99 \<or>
    a = 192 \<and> b = 0 \<and> c = 2 \<or> a = 198 \<and> (b = 18 \<or> b = 19) \<or> a = 198 \<and> b = 51 \<and> c = 100 \<or>
    a = 203 \<and> b = 0 \<and> c = 113 \<or> 240 \<le> a"
proof -
  note v = v4_prefix [OF assms]
  have v6: "\<not> prefix_contains (v6_of bs) bits [a, b, c, d]" if "length bs \<le> 16" for bs bits
    using that by (simp add: prefix_contains_def v6_of_def)
  have e: "(\<exists>(pre, bits) \<in> set nonPublicPushNetworks. prefix_contains pre bits [a, b, c, d]) \<longleftrightarrow>
     prefix_contains [100, 64, 0, 0] 10 [a, b, c, d] \<or> prefix_contains [192, 0, 0, 0] 24 [a, b, c, d] \<or>
     prefix_contains [192, 88, 99, 0] 24 [a, b, c, d] \<or> prefix_contains [192, 0, 2, 0] 24 [a, b, c, d] \<or>
     prefix_contains [198, 18, 0, 0] 15 [a, b, c, d] \<or> prefix_contains [198, 51, 100, 0] 24 [a, b, c, d] \<or>
     prefix_contains [203, 0, 113, 0] 24 [a, b, c, d] \<or> prefix_contains [240, 0, 0, 0] 4 [a, b, c, d]"
    by (simp add: nonPublicPushNetworks_def v6)
  have p10: "prefix_contains [100, 64, 0, 0] 10 [a, b, c, d] \<longleftrightarrow> a = 100 \<and> 64 \<le> b \<and> b < 128"
    by (simp add: v div_is)
  have p24: "prefix_contains [192, 0, 0, 0] 24 [a, b, c, d] \<longleftrightarrow> a = 192 \<and> b = 0 \<and> c = 0"
    "prefix_contains [192, 88, 99, 0] 24 [a, b, c, d] \<longleftrightarrow> a = 192 \<and> b = 88 \<and> c = 99"
    "prefix_contains [192, 0, 2, 0] 24 [a, b, c, d] \<longleftrightarrow> a = 192 \<and> b = 0 \<and> c = 2"
    "prefix_contains [198, 51, 100, 0] 24 [a, b, c, d] \<longleftrightarrow> a = 198 \<and> b = 51 \<and> c = 100"
    "prefix_contains [203, 0, 113, 0] 24 [a, b, c, d] \<longleftrightarrow> a = 203 \<and> b = 0 \<and> c = 113"
    by (simp_all add: v)
  have p15: "prefix_contains [198, 18, 0, 0] 15 [a, b, c, d] \<longleftrightarrow> a = 198 \<and> (b = 18 \<or> b = 19)"
    by (auto simp: v div_is)
  have p4: "prefix_contains [240, 0, 0, 0] 4 [a, b, c, d] \<longleftrightarrow> 240 \<le> a"
    using assms(1) by (simp add: v div_is)
  show ?thesis unfolding e p10 p24 p15 p4 ..
qed

lemma octet: "a < 256 \<Longrightarrow> byte_and a 0xf0 = 0xe0 \<longleftrightarrow> 224 \<le> a \<and> a < 240"
  "b < 256 \<Longrightarrow> byte_and b 0xf0 = 16 \<longleftrightarrow> 16 \<le> b \<and> b < 32"
  by (auto simp: high_nibble div_is)

lemma v4_classes:
  assumes "To4 ip = Some [a, b, c, d]" "a < 256" "b < 256"
  shows "IsLoopback ip \<longleftrightarrow> a = 127"
    "IsPrivate ip \<longleftrightarrow> a = 10 \<or> a = 172 \<and> 16 \<le> b \<and> b < 32 \<or> a = 192 \<and> b = 168"
    "IsMulticast ip \<longleftrightarrow> 224 \<le> a \<and> a < 240" "IsLinkLocalUnicast ip \<longleftrightarrow> a = 169 \<and> b = 254"
    "IsLinkLocalMulticast ip \<longleftrightarrow> a = 224 \<and> b = 0 \<and> c = 0"
  using assms octet
  by (simp_all add: IsLoopback_def IsPrivate_def IsMulticast_def IsLinkLocalUnicast_def IsLinkLocalMulticast_def)

lemma v4_special:
  "IsUnspecified [a, b, c, d] \<longleftrightarrow> [a, b, c, d] = [0, 0, 0, 0]"
  "IsUnspecified (v4_in_v6 @ [a, b, c, d]) \<longleftrightarrow> [a, b, c, d] = [0, 0, 0, 0]"
  "ip_equal [a, b, c, d] (v4_in_v6 @ [255, 255, 255, 255]) \<longleftrightarrow> [a, b, c, d] = [255, 255, 255, 255]"
  "ip_equal (v4_in_v6 @ [a, b, c, d]) (v4_in_v6 @ [255, 255, 255, 255]) \<longleftrightarrow> [a, b, c, d] = [255, 255, 255, 255]"
  by (auto simp: IsUnspecified_def ip_equal_def v4_in_v6_def numeral_eq_Suc)

lemma public_v4:
  assumes "To4 ip = Some [a, b, c, d]" "ip \<noteq> []" "length ip = 4 \<or> length ip = 16"
    "IsUnspecified ip \<longleftrightarrow> [a, b, c, d] = [0, 0, 0, 0]"
    "ip_equal ip (v4_in_v6 @ [255, 255, 255, 255]) \<longleftrightarrow> [a, b, c, d] = [255, 255, 255, 255]"
    "a < 256" "b < 256" "c < 256" "d < 256"
  shows "IsPublicPushIP ip \<longleftrightarrow> \<not> blocked_v4 a b c d"
proof (cases "224 \<le> a")
  case True
  then have "a < 240 \<or> 240 \<le> a" by linarith
  then have "\<not> IsGlobalUnicast ip \<or> (\<exists>(pre, bits) \<in> set nonPublicPushNetworks. prefix_contains pre bits [a, b, c, d])"
    unfolding IsGlobalUnicast_def v4_classes [OF assms(1,6,7)] nets_v4 [OF assms(6-9)] using True by blast
  then have "\<not> IsPublicPushIP ip" by (auto simp: IsPublicPushIP_def Unmap_def assms(1))
  with True show ?thesis by (simp add: blocked_v4_def)
next
  case False
  let ?nets = "\<exists>(pre, bits) \<in> set nonPublicPushNetworks. prefix_contains pre bits [a, b, c, d]"
  have x: "\<not> ip_equal ip (v4_in_v6 @ [255, 255, 255, 255])" "\<not> IsMulticast ip" "\<not> IsLinkLocalMulticast ip"
    using False assms(5) by (auto simp: v4_classes [OF assms(1,6,7)])
  have "IsPublicPushIP ip \<longleftrightarrow> \<not> (IsUnspecified ip \<or> IsLoopback ip \<or> IsLinkLocalUnicast ip \<or> IsPrivate ip \<or> ?nets)"
    using x assms(1-3) unfolding IsPublicPushIP_def IsGlobalUnicast_def Unmap_def by auto
  moreover have "IsUnspecified ip \<or> IsLoopback ip \<or> IsLinkLocalUnicast ip \<or> IsPrivate ip \<or> ?nets \<longleftrightarrow> blocked_v4 a b c d"
    unfolding v4_classes [OF assms(1,6,7)] nets_v4 [OF assms(6-9)] assms(4) blocked_v4_def list.inject
  proof (rule iffI, goal_cases)
    case 1
    then show ?case by (elim disjE conjE) simp_all
  next
    case 2
    then show ?case using False by (elim disjE conjE) simp_all
  qed
  ultimately show ?thesis by simp
qed

text \<open>
  The address filter is exact on IPv4: a push may go to an address, given in four bytes or mapped into
  IPv6, unless it is unspecified, loopback, private, shared (the tailnet's range), link-local, one of the
  special-purpose or documentation networks, multicast or reserved.
\<close>

lemma push_filter_exact_v4:
  assumes "a < 256" and "b < 256" and "c < 256" and "d < 256"
  shows "(IsPublicPushIP [a, b, c, d] \<longleftrightarrow> \<not> blocked_v4 a b c d) \<and>
    (IsPublicPushIP (v4_in_v6 @ [a, b, c, d]) \<longleftrightarrow> \<not> blocked_v4 a b c d)"
  using public_v4 [OF v4_parts(1) _ _ v4_special(1,3) assms] public_v4 [OF v4_parts(2) _ _ v4_special(2,4) assms]
  by simp

lemma dial_each_facts:
  "case dial_each connect ctxErr n ips of (r, seen) \<Rightarrow>
     prefix seen ips \<and> (case r of Inl e \<Rightarrow> True | Inr ip \<Rightarrow> seen \<noteq> [] \<and> last seen = ip)"
proof (induction ips arbitrary: n)
  case (Cons ip ips)
  then show ?case using Cons.IH [of "Suc n"]
    by (cases "dial_each connect ctxErr (Suc n) ips") (auto split: option.split sum.splits)
qed simp

text \<open>
  The dialer contacts only addresses that pass: when a single address of the name is not public it
  contacts none, otherwise it tries addresses of the name in their order, and a connection is to the last
  one it tried.
\<close>

lemma dial_only_public:
  "case DialContext splitErr lookup connect ctxErr of (r, seen) \<Rightarrow>
     list_all IsPublicPushIP seen \<and>
     (seen = [] \<or> (\<exists>ips. lookup = Inr ips \<and> list_all IsPublicPushIP ips \<and> prefix seen ips)) \<and>
     (case r of Inl e \<Rightarrow> True | Inr ip \<Rightarrow> seen \<noteq> [] \<and> last seen = ip)"
proof (cases "\<exists>ips. splitErr = None \<and> lookup = Inr ips \<and> ips \<noteq> [] \<and> list_all IsPublicPushIP ips")
  case True
  then obtain ips where ips: "splitErr = None" "lookup = Inr ips" "ips \<noteq> []" "list_all IsPublicPushIP ips"
    by blast
  then have "DialContext splitErr lookup connect ctxErr = dial_each connect ctxErr 0 ips"
    by (auto simp: DialContext_def list_all_iff)
  with dial_each_facts [where connect = connect and ctxErr = ctxErr and n = 0 and ips = ips] ips(2,4) show ?thesis
    by (auto simp: list_all_iff dest: set_mono_prefix [THEN subsetD])
next
  case False
  then show ?thesis by (auto simp: DialContext_def list_all_iff split: option.split sum.split)
qed

lemma zeros:
  "replicate 10 (0 :: nat) = [0, 0, 0, 0, 0, 0, 0, 0, 0, 0]" "replicate 12 (0 :: nat) = [0, 0, 0, 0, 0, 0, 0, 0, 0, 0, 0, 0]"
  "replicate 14 (0 :: nat) = [0, 0, 0, 0, 0, 0, 0, 0, 0, 0, 0, 0, 0, 0]"
  "replicate 15 (0 :: nat) = [0, 0, 0, 0, 0, 0, 0, 0, 0, 0, 0, 0, 0, 0, 0]"
  "replicate 16 (0 :: nat) = [0, 0, 0, 0, 0, 0, 0, 0, 0, 0, 0, 0, 0, 0, 0, 0]"
  by (simp_all add: numeral_eq_Suc)

text \<open>
  On IPv6 the filter knows the mapped form only: the 6to4 address of the loopback address passes it.
\<close>

lemma push_filter_misses_6to4:
  "IsPublicPushIP (v6_of [0x20, 0x02, 127, 0, 0, 1])"
proof -
  have a: "v6_of [0x20, 0x02, 127, 0, 0, 1] = [32, 2, 127, 0, 0, 1, 0, 0, 0, 0, 0, 0, 0, 0, 0, 0]"
    by (simp add: v6_of_def zeros)
  have t: "To4 [32, 2, 127, 0, 0, 1, 0, 0, 0, 0, 0, 0, 0, 0, 0, 0] = None"
    by (simp add: To4_def v4_in_v6_def zeros)
  show ?thesis unfolding a
    by (simp add: IsPublicPushIP_def IsGlobalUnicast_def t IsUnspecified_def IsLoopback_def IsMulticast_def
        IsLinkLocalUnicast_def IsPrivate_def IsLinkLocalMulticast_def ip_equal_def v4_in_v6_def zeros byte_and_def
        Unmap_def nonPublicPushNetworks_def prefix_contains_def v6_of_def ip_number_def
        del: One_nat_def)
qed

end
