(* ===== verification/Json.thy ===== *)
theory Json
  imports Policy
begin

text \<open>
  What the program uses of package \<open>encoding/json\<close>: values, the parser of \<open>Unmarshal\<close> (over the runes of
  the text, as ill-formed UTF-8 becomes \<open>U+FFFD\<close> inside strings and is an error outside), the printer of
  \<open>Marshal\<close>, and the rules by which a value fills the fields of a struct.

  A number keeps its literal.  An object keeps its members in order; the members that Go merges when two
  keys of one object name the same field are not merged here, the last one counts.
\<close>

section \<open>Values and printing\<close>

datatype json =
  JNull | JBool bool | JNum string | JStr string
  | JArr "json list" | JObj "(string \<times> json) list"

fun json_text :: "json \<Rightarrow> string" where
  "json_text JNull = ''null''"
| "json_text (JBool b) = (if b then ''true'' else ''false'')"
| "json_text (JNum lit) = lit"
| "json_text (JStr s) = json_string s"
| "json_text (JArr vs) = ''['' @ join '','' (map json_text vs) @ '']''"
| "json_text (JObj ms) = ''{'' @ join '','' (map (\<lambda>(k, v). json_string k @ '':'' @ json_text v) ms) @ ''}''"

fun json_depth :: "json \<Rightarrow> nat" where
  "json_depth (JArr vs) = Suc (Max (insert 0 (set (map json_depth vs))))"
| "json_depth (JObj ms) = Suc (Max (insert 0 (set (map (\<lambda>(k, v). json_depth v) ms))))"
| "json_depth v = 0"

section \<open>Parsing\<close>

fun skip_ws :: "nat list \<Rightarrow> nat list" where
  "skip_ws (c # r) = (if c = 32 \<or> c = 9 \<or> c = 10 \<or> c = 13 then skip_ws r else c # r)"
| "skip_ws [] = []"

definition hex_value :: "nat \<Rightarrow> nat option" where
  "hex_value c =
     (if 48 \<le> c \<and> c \<le> 57 then Some (c - 48)
      else if 97 \<le> c \<and> c \<le> 102 then Some (c - 87)
      else if 65 \<le> c \<and> c \<le> 70 then Some (c - 55) else None)"

definition hex4 :: "nat \<Rightarrow> nat \<Rightarrow> nat \<Rightarrow> nat \<Rightarrow> nat option" where
  "hex4 a b c d =
     (case (hex_value a, hex_value b, hex_value c, hex_value d) of
        (Some h, Some i, Some j, Some k) \<Rightarrow> Some (((h * 16 + i) * 16 + j) * 16 + k)
      | _ \<Rightarrow> None)"

definition json_escape :: "nat \<Rightarrow> nat option" where
  "json_escape e = map_of [(34, 34), (92, 92), (47, 47), (98, 8), (102, 12), (110, 10), (114, 13), (116, 9)] e"

definition surrogate :: "nat \<Rightarrow> bool" where
  "surrogate u \<longleftrightarrow> 55296 \<le> u \<and> u < 57344"

text \<open>The escape of the low half that must follow an escaped high surrogate.\<close>

fun low_half :: "nat list \<Rightarrow> nat option" where
  "low_half (e # f # a # b # c # d # r) =
     (if e = 92 \<and> f = 117
      then (case hex4 a b c d of Some v \<Rightarrow> if 56320 \<le> v \<and> v < 57344 then Some v else None | None \<Rightarrow> None)
      else None)"
| "low_half r = None"

text \<open>The contents of a string up to its closing quote, and what follows.\<close>

function str_lit :: "nat list \<Rightarrow> (nat list \<times> nat list) option" where
  "str_lit [] = None"
| "str_lit (c # r) =
     (if c = 34 then Some ([], r)
      else if c < 32 then None
      else if c \<noteq> 92 then map_option (\<lambda>(t, z). (c # t, z)) (str_lit r)
      else case r of
          [] \<Rightarrow> None
        | a # y \<Rightarrow>
            if a \<noteq> 117
            then (case json_escape a of
                    None \<Rightarrow> None
                  | Some x \<Rightarrow> map_option (\<lambda>(t, z). (x # t, z)) (str_lit y))
            else (case y of
                b # d # e # f # z \<Rightarrow>
                  (case hex4 b d e f of
                     None \<Rightarrow> None
                   | Some u \<Rightarrow>
                       if \<not> surrogate u then map_option (\<lambda>(t, x). (u # t, x)) (str_lit z)
                       else (case (if u < 56320 then low_half z else None) of
                               Some v \<Rightarrow> map_option
                                  (\<lambda>(t, x). (((u - 55296) * 1024 + (v - 56320) + 65536) # t, x)) (str_lit (drop 6 z))
                             | None \<Rightarrow> map_option (\<lambda>(t, x). (rune_error # t, x)) (str_lit z)))
              | _ \<Rightarrow> None))"
  by pat_completeness auto
termination by (relation "measure length") auto

declare str_lit.simps(2) [simp del]

definition digit :: "nat \<Rightarrow> bool" where
  "digit c \<longleftrightarrow> 48 \<le> c \<and> c \<le> 57"

fun exponent_ok :: "nat list \<Rightarrow> bool" where
  "exponent_ok [] = True"
| "exponent_ok (c # r) =
     ((c = 101 \<or> c = 69) \<and>
      (let ds = (case r of s # z \<Rightarrow> if s = 43 \<or> s = 45 then z else r | [] \<Rightarrow> []) in
       ds \<noteq> [] \<and> list_all digit ds))"

definition fraction_ok :: "nat list \<Rightarrow> bool" where
  "fraction_ok r =
     (case r of
        c # z \<Rightarrow> if c = 46 then takeWhile digit z \<noteq> [] \<and> exponent_ok (dropWhile digit z) else exponent_ok r
      | [] \<Rightarrow> True)"

definition number_ok :: "nat list \<Rightarrow> bool" where
  "number_ok s =
     (let u = (case s of c # z \<Rightarrow> if c = 45 then z else s | [] \<Rightarrow> []) in
      case u of
        [] \<Rightarrow> False
      | c # z \<Rightarrow> if c = 48 then fraction_ok z
          else digit c \<and> fraction_ok (dropWhile digit z))"

definition number_char :: "nat \<Rightarrow> bool" where
  "number_char c \<longleftrightarrow> digit c \<or> c \<in> {43, 45, 46, 69, 101}"

text \<open>The literals \<open>null\<close>, \<open>true\<close> and \<open>false\<close>.\<close>

definition json_word :: "nat list \<Rightarrow> (json \<times> nat list) option" where
  "json_word s =
     (if take 4 s = [110, 117, 108, 108] then Some (JNull, drop 4 s)
      else if take 4 s = [116, 114, 117, 101] then Some (JBool True, drop 4 s)
      else if take 5 s = [102, 97, 108, 115, 101] then Some (JBool False, drop 5 s)
      else None)"

fun json_value :: "nat \<Rightarrow> nat list \<Rightarrow> (json \<times> nat list) option"
and json_items :: "nat \<Rightarrow> nat list \<Rightarrow> (json list \<times> nat list) option"
and json_members :: "nat \<Rightarrow> nat list \<Rightarrow> ((string \<times> json) list \<times> nat list) option" where
  "json_value 0 s = None"
| "json_value (Suc n) s =
     (case skip_ws s of
        [] \<Rightarrow> None
      | c # r \<Rightarrow>
          if c = 34 then map_option (\<lambda>(t, z). (JStr (of_runes t), z)) (str_lit r)
          else if c = 91 then
            (case skip_ws r of
               [] \<Rightarrow> None
             | d # z \<Rightarrow> if d = 93 then Some (JArr [], z)
                 else map_option (\<lambda>(vs, y). (JArr vs, y)) (json_items n (d # z)))
          else if c = 123 then
            (case skip_ws r of
               [] \<Rightarrow> None
             | d # z \<Rightarrow> if d = 125 then Some (JObj [], z)
                 else map_option (\<lambda>(ms, y). (JObj ms, y)) (json_members n (d # z)))
          else if c = 45 \<or> digit c then
            (if number_ok (takeWhile number_char (c # r))
             then Some (JNum (of_runes (takeWhile number_char (c # r))), dropWhile number_char (c # r))
             else None)
          else json_word (c # r))"
| "json_items 0 s = None"
| "json_items (Suc n) s =
     (case json_value n s of
        None \<Rightarrow> None
      | Some (v, r) \<Rightarrow>
          (case skip_ws r of
             [] \<Rightarrow> None
           | c # z \<Rightarrow> if c = 93 then Some ([v], z)
               else if c = 44 then map_option (\<lambda>(vs, y). (v # vs, y)) (json_items n z) else None))"
| "json_members 0 s = None"
| "json_members (Suc n) s =
     (case skip_ws s of
        [] \<Rightarrow> None
      | q # r \<Rightarrow>
          if q \<noteq> 34 then None
          else (case str_lit r of
            None \<Rightarrow> None
          | Some (k, r1) \<Rightarrow>
              (case skip_ws r1 of
                 [] \<Rightarrow> None
               | c # r2 \<Rightarrow>
                   if c \<noteq> 58 then None
                   else (case json_value n r2 of
                     None \<Rightarrow> None
                   | Some (v, r3) \<Rightarrow>
                       (case skip_ws r3 of
                          [] \<Rightarrow> None
                        | d # z \<Rightarrow>
                            if d = 125 then Some ([(of_runes k, v)], z)
                            else if d = 44 then map_option (\<lambda>(ms, y). ((of_runes k, v) # ms, y)) (json_members n z)
                            else None)))))"

text \<open>
  A whole text; the scanner refuses more than 10000 open brackets.  A bracket, an item and a member each
  consume a rune, so twice the length of the text is fuel enough.
\<close>

definition json_parse :: "string \<Rightarrow> json option" where
  "json_parse s =
     (case json_value (Suc (2 * length (runes s))) (runes s) of
        None \<Rightarrow> None
      | Some (v, r) \<Rightarrow> if skip_ws r = [] \<and> json_depth v \<le> 10000 then Some v else None)"

section \<open>Filling fields\<close>

text \<open>Keys match fields up to case; two runes beyond ASCII fold to a letter.  Of members with the same key the last counts.\<close>

definition fold_rune :: "nat \<Rightarrow> nat" where
  "fold_rune r =
     (if 97 \<le> r \<and> r \<le> 122 then r - 32 else if r = 383 then 83 else if r = 8490 then 75 else r)"

definition same_key :: "string \<Rightarrow> string \<Rightarrow> bool" where
  "same_key k f \<longleftrightarrow> map fold_rune (runes k) = map fold_rune (runes f)"

fun json_get :: "string \<Rightarrow> json option \<Rightarrow> json option" where
  "json_get f (Some (JObj ms)) = map_option snd (find (\<lambda>(k, v). same_key k f) (rev ms))"
| "json_get f _ = None"

text \<open>A missing member and \<open>null\<close> leave the field alone; a value of another type is an error.\<close>

fun str_ok :: "json option \<Rightarrow> bool" where
  "str_ok None = True" | "str_ok (Some JNull) = True" | "str_ok (Some (JStr s)) = True" | "str_ok (Some v) = False"

fun str_of :: "json option \<Rightarrow> string" where
  "str_of (Some (JStr s)) = s" | "str_of v = ''''"

fun obj_ok :: "json option \<Rightarrow> bool" where
  "obj_ok None = True" | "obj_ok (Some JNull) = True" | "obj_ok (Some (JObj ms)) = True" | "obj_ok (Some v) = False"

fun arr_ok :: "json option \<Rightarrow> bool" where
  "arr_ok None = True" | "arr_ok (Some JNull) = True" | "arr_ok (Some (JArr vs)) = True" | "arr_ok (Some v) = False"

fun arr_of :: "json option \<Rightarrow> json list" where
  "arr_of (Some (JArr vs)) = vs" | "arr_of v = []"

text \<open>A \<open>map[string]string\<close>: keys match exactly, \<open>null\<close> is the empty string.\<close>

fun dict_ok :: "json option \<Rightarrow> bool" where
  "dict_ok (Some (JObj ms)) = list_all (\<lambda>(k, v). str_ok (Some v)) ms"
| "dict_ok v = obj_ok v"

fun dict_get :: "string \<Rightarrow> json option \<Rightarrow> string" where
  "dict_get f (Some (JObj ms)) = str_of (map_of (rev ms) f)"
| "dict_get f v = ''''"

text \<open>An \<open>int64\<close>: a literal with neither fraction nor exponent, in range.\<close>

fun nat_digits :: "nat \<Rightarrow> string \<Rightarrow> nat option" where
  "nat_digits n [] = Some n"
| "nat_digits n (c # cs) = (if digit (byte c) then nat_digits (n * 10 + (byte c - 48)) cs else None)"

fun int_lit :: "string \<Rightarrow> int option" where
  "int_lit [] = None"
| "int_lit (c # cs) =
     (case (if c = CHR ''-'' then map_option (\<lambda>n. - int n) (nat_digits 0 cs)
            else map_option int (nat_digits 0 (c # cs))) of
        None \<Rightarrow> None
      | Some i \<Rightarrow> if - (2 ^ 63) \<le> i \<and> i < 2 ^ 63 then Some i else None)"

fun int_of_json :: "json option \<Rightarrow> int" where
  "int_of_json (Some (JNum lit)) = (case int_lit lit of Some i \<Rightarrow> i | None \<Rightarrow> 0)"
| "int_of_json v = 0"

text \<open>Fields of the types \<open>bool\<close>, \<open>int64\<close> and \<open>[]string\<close>, and decoding the first value of a stream.\<close>

definition strs_ok :: "json option \<Rightarrow> bool" where
  "strs_ok v \<longleftrightarrow> arr_ok v \<and> list_all (\<lambda>x. str_ok (Some x)) (arr_of v)"

definition flag_ok :: "json option \<Rightarrow> bool" where
  "flag_ok v \<longleftrightarrow> (case v of Some (JBool b) \<Rightarrow> True | Some JNull \<Rightarrow> True | None \<Rightarrow> True | _ \<Rightarrow> False)"

text \<open>\<open>json.Decoder.Decode\<close> into a struct: the first value of the body, which must be an object.\<close>

definition decode_body :: "string \<Rightarrow> json option" where
  "decode_body body =
     (case json_value (Suc (2 * length (runes body))) (runes body) of
        Some (v, _) \<Rightarrow> if json_depth v \<le> 10000 \<and> obj_ok (Some v) then Some v else None
      | None \<Rightarrow> None)"

definition int_ok :: "json option \<Rightarrow> bool" where
  "int_ok v \<longleftrightarrow> (case v of None \<Rightarrow> True | Some JNull \<Rightarrow> True | Some (JNum lit) \<Rightarrow> int_lit lit \<noteq> None | _ \<Rightarrow> False)"

end
