(* ===== verification/Json_Laws.thy ===== *)
theory Json_Laws
  imports Json
begin

text \<open>
  What is printed is read back: \<open>json_parse (json_text v) = Some v\<close> for every value whose texts are
  well-formed UTF-8 and whose numbers are literals.
\<close>

section \<open>Strings\<close>

lemma hex_value_code: "n < 16 \<Longrightarrow> hex_value (hex_code n) = Some n"
  by (auto simp: hex_value_def hex_code_def)

lemma hex_value_digit: "hex_value 48 = Some 0" "hex_value 50 = Some 2"
  by (simp_all add: hex_value_def)

lemma str_lit_rune:
  assumes "valid_rune r" "str_lit z = Some (t, y)"
  shows "str_lit (json_codes r @ z) = Some (r # t, y)"
proof -
  have low: "r < 32 \<Longrightarrow> r div 16 < 16" "r = 60 \<or> r = 62 \<or> r = 38 \<Longrightarrow> r div 16 < 16" by auto
  have "r mod 16 < 16" by simp
  have u: "\<not> surrogate r" using assms(1) by (auto simp: surrogate_def valid_rune_def)
  have d: "(r div 16) * 16 + r mod 16 = r" by simp
  have ls: "hex4 50 48 50 (hex_code (r mod 16)) = Some r" if "r = 8232 \<or> r = 8233"
    using that by (auto simp: hex4_def hex_value_digit hex_value_code)
  have c: "hex4 48 48 (hex_code (r div 16)) (hex_code (r mod 16)) = Some r"
    if "r < 32 \<or> r = 60 \<or> r = 62 \<or> r = 38"
    using that low d \<open>r mod 16 < 16\<close> by (auto simp: hex4_def hex_value_digit hex_value_code)
  show ?thesis
    unfolding json_codes_def using assms u c ls
    by (auto simp: str_lit.simps(2) json_escape_def)
qed

lemma str_lit_codes:
  "\<forall>r\<in>set rs. valid_rune r \<Longrightarrow> str_lit (concat (map json_codes rs) @ 34 # z) = Some (rs, z)"
  by (induction rs) (auto simp: str_lit.simps(2) str_lit_rune)

section \<open>Values\<close>

fun glue :: "nat list list \<Rightarrow> nat list" where
  "glue [] = []"
| "glue [c] = c"
| "glue (c # d # cs) = c @ 44 # glue (d # cs)"

abbreviation str_code :: "string \<Rightarrow> nat list" where
  "str_code s \<equiv> 34 # concat (map json_codes (runes s)) @ [34]"

fun json_code :: "json \<Rightarrow> nat list" where
  "json_code JNull = [110, 117, 108, 108]"
| "json_code (JBool b) = (if b then [116, 114, 117, 101] else [102, 97, 108, 115, 101])"
| "json_code (JNum lit) = map byte lit"
| "json_code (JStr s) = str_code s"
| "json_code (JArr vs) = 91 # glue (map json_code vs) @ [93]"
| "json_code (JObj ms) = 123 # glue (map (\<lambda>(k, v). str_code k @ 58 # json_code v) ms) @ [125]"

fun well_formed :: "json \<Rightarrow> bool" where
  "well_formed (JNum lit) = (number_ok (map byte lit) \<and> list_all number_char (map byte lit))"
| "well_formed (JStr s) = valid_text s"
| "well_formed (JArr vs) = list_all well_formed vs"
| "well_formed (JObj ms) = list_all (\<lambda>(k, v). valid_text k \<and> well_formed v) ms"
| "well_formed v = True"

definition ends :: "nat list \<Rightarrow> bool" where
  "ends z \<longleftrightarrow> (case z of [] \<Rightarrow> True | c # _ \<Rightarrow> \<not> number_char c)"

lemma number_ok_hd: "number_ok s \<Longrightarrow> \<exists>c r. s = c # r \<and> (c = 45 \<or> digit c)"
  by (auto simp: number_ok_def digit_def Let_def split: list.splits if_splits)

lemma code_starts:
  "well_formed v \<Longrightarrow> \<exists>c r. json_code v = c # r \<and> c \<notin> {32, 9, 10, 13, 93, 125, 44}"
  by (cases v) (auto dest!: number_ok_hd simp: digit_def split: if_splits)

lemma skip_ws_code: "well_formed v \<Longrightarrow> skip_ws (json_code v @ z) = json_code v @ z"
  using code_starts [of v] by auto

lemma take_number:
  "list_all number_char s \<Longrightarrow> ends z \<Longrightarrow>
   takeWhile number_char (s @ z) = s \<and> dropWhile number_char (s @ z) = z"
  by (auto simp: ends_def list_all_iff takeWhile_append dropWhile_append split: list.splits)

lemma ends_punct [simp]: "ends (44 # z)" "ends (93 # z)" "ends (125 # z)" "ends []"
  by (simp_all add: ends_def number_char_def digit_def)

lemma number_ascii: "list_all number_char (map byte lit) \<Longrightarrow> of_runes (map byte lit) = lit"
proof (induction lit)
  case (Cons c cs)
  then have "byte c < 128" by (auto simp: number_char_def digit_def)
  then have "encode_rune (byte c) = [c]" by (simp add: encode_ascii byte_def)
  with Cons show ?case by (simp add: of_runes_def)
qed (simp add: of_runes_def)

lemma read_number:
  assumes "well_formed (JNum lit)" "ends z" "n \<noteq> 0"
  shows "json_value n (json_code (JNum lit) @ z) = Some (JNum lit, z)"
proof -
  obtain m where n: "n = Suc m" using assms(3) by (cases n) auto
  obtain c r where cr: "map byte lit = c # r" "c = 45 \<or> digit c"
    using assms(1) number_ok_hd [of "map byte lit"] by (metis well_formed.simps(1))
  then have g: "c \<noteq> 34" "c \<noteq> 91" "c \<noteq> 123" "skip_ws (c # r @ z) = c # r @ z" by (auto simp: digit_def)
  have "takeWhile number_char ((c # r) @ z) = c # r \<and> dropWhile number_char ((c # r) @ z) = z"
    using assms by (intro take_number) (simp_all add: cr(1) [symmetric])
  moreover have "of_runes (c # r) = lit" "number_ok (c # r)"
    using assms(1) number_ascii [of lit] by (simp_all add: cr(1) [symmetric])
  ultimately show ?thesis using cr g by (simp add: n)
qed

lemma items_read:
  assumes "\<And>v n z. v \<in> set vs \<Longrightarrow> well_formed v \<Longrightarrow> 2 * length (json_code v) \<le> n \<Longrightarrow> ends z \<Longrightarrow>
      json_value n (json_code v @ z) = Some (v, z)"
  shows "list_all well_formed vs \<Longrightarrow> vs \<noteq> [] \<Longrightarrow> 2 * length (glue (map json_code vs)) < n \<Longrightarrow>
    json_items n (glue (map json_code vs) @ 93 # z) = Some (vs, z)"
  using assms
proof (induction "map json_code vs" arbitrary: vs n rule: glue.induct)
  case (2 c)
  then obtain v m where "vs = [v]" "n = Suc m" by (cases n) auto
  then show ?case using "2.prems" by simp
next
  case (3 c d cs)
  then obtain v w ws m where vs: "vs = v # w # ws" "c = json_code v" "n = Suc m" "map json_code (w # ws) = d # cs"
    by (cases n) (auto simp: Cons_eq_map_conv map_eq_Cons_conv)
  have "json_items m (glue (map json_code (w # ws)) @ 93 # z) = Some (w # ws, z)"
    using "3.prems" vs by (intro "3.hyps") auto
  then show ?case using "3.prems" vs by simp
qed simp

lemma members_read:
  assumes "\<And>k v n z. (k, v) \<in> set ms \<Longrightarrow> well_formed v \<Longrightarrow> 2 * length (json_code v) \<le> n \<Longrightarrow> ends z \<Longrightarrow>
      json_value n (json_code v @ z) = Some (v, z)"
  shows "list_all (\<lambda>(k, v). valid_text k \<and> well_formed v) ms \<Longrightarrow> ms \<noteq> [] \<Longrightarrow>
    2 * length (glue (map (\<lambda>(k, v). str_code k @ 58 # json_code v) ms)) < n \<Longrightarrow>
    json_members n (glue (map (\<lambda>(k, v). str_code k @ 58 # json_code v) ms) @ 125 # z) = Some (ms, z)"
  using assms
proof (induction "map (\<lambda>(k, v). str_code k @ 58 # json_code v) ms" arbitrary: ms n rule: glue.induct)
  case (2 c)
  then obtain k v m where ms: "ms = [(k, v)]" "n = Suc m" by (cases n) auto
  have "str_lit (concat (map json_codes (runes k)) @ 34 # 58 # json_code v @ 125 # z) =
      Some (runes k, 58 # json_code v @ 125 # z)"
    by (rule str_lit_codes) (simp add: runes_valid)
  then show ?case using "2.prems" ms by (simp add: valid_text_def)
next
  case (3 c d cs)
  then obtain k v w ws m where ms: "ms = (k, v) # w # ws" "n = Suc m"
      "map (\<lambda>(k, v). str_code k @ 58 # json_code v) (w # ws) = d # cs"
    by (cases n) (auto simp: Cons_eq_map_conv map_eq_Cons_conv)
  let ?rest = "glue (map (\<lambda>(k, v). str_code k @ 58 # json_code v) (w # ws))"
  have ih: "json_members m (?rest @ 125 # z) = Some (w # ws, z)"
    using "3.prems" ms by (intro "3.hyps"(1)) auto
  have "str_lit (concat (map json_codes (runes k)) @ 34 # 58 # json_code v @ 44 # ?rest @ 125 # z) =
      Some (runes k, 58 # json_code v @ 44 # ?rest @ 125 # z)"
    by (rule str_lit_codes) (simp add: runes_valid)
  moreover have "json_value m (json_code v @ 44 # ?rest @ 125 # z) = Some (v, 44 # ?rest @ 125 # z)"
    using "3.prems" ms by (intro "3.prems"(4) [of k]) auto
  ultimately show ?case using ih "3.prems" ms by (simp add: valid_text_def)
qed simp

lemma glue_starts:
  "list_all well_formed vs \<Longrightarrow> vs \<noteq> [] \<Longrightarrow>
   \<exists>c r. glue (map json_code vs) = c # r \<and> c \<notin> {32, 9, 10, 13, 93, 125, 44}"
  using code_starts by (cases vs; cases "tl vs") (fastforce simp: list_all_iff)+

lemma json_value_code:
  "well_formed v \<Longrightarrow> 2 * length (json_code v) \<le> n \<Longrightarrow> ends z \<Longrightarrow>
   json_value n (json_code v @ z) = Some (v, z)"
proof (induction v arbitrary: n z)
  case (JNum lit)
  then have "lit \<noteq> []" by (auto simp: number_ok_def)
  then have "n \<noteq> 0" using JNum.prems(2) by (cases lit) auto
  with JNum.prems show ?case by (intro read_number) auto
next
  case (JStr s)
  then obtain m where n: "n = Suc m" by (cases n) auto
  have "str_lit (concat (map json_codes (runes s)) @ 34 # z) = Some (runes s, z)"
    by (rule str_lit_codes) (simp add: runes_valid)
  then show ?case using JStr.prems n by (simp add: valid_text_def)
next
  case (JArr vs)
  then obtain m where n: "n = Suc m" by (cases n) auto
  show ?case
  proof (cases "vs = []")
    case False
    have "json_items m (glue (map json_code vs) @ 93 # z) = Some (vs, z)"
      using JArr n False by (intro items_read) auto
    moreover obtain c r where "glue (map json_code vs) = c # r" "c \<notin> {32, 9, 10, 13, 93, 125, 44}"
      using glue_starts [of vs] JArr.prems False by auto
    ultimately show ?thesis using n by simp
  qed (simp add: n)
next
  case (JObj ms)
  then obtain m where n: "n = Suc m" by (cases n) auto
  show ?case
  proof (cases "ms = []")
    case False
    have ih: "json_value i (json_code v @ y) = Some (v, y)"
      if "(k, v) \<in> set ms" "well_formed v" "2 * length (json_code v) \<le> i" "ends y" for k v i y
      using JObj.IH [of "(k, v)" v] that by simp
    have "json_members m (glue (map (\<lambda>(k, v). str_code k @ 58 # json_code v) ms) @ 125 # z) = Some (ms, z)"
      using JObj.prems n False by (intro members_read ih) auto
    moreover obtain r where "glue (map (\<lambda>(k, v). str_code k @ 58 # json_code v) ms) = 34 # r"
      using False by (cases ms; cases "tl ms") auto
    ultimately show ?thesis using n by simp
  qed (simp add: n)
next
  case JNull
  then show ?case by (cases n) (auto simp: json_word_def digit_def)
next
  case (JBool b)
  then show ?case by (cases n) (auto simp: json_word_def digit_def split: if_splits)
qed

section \<open>Whole texts\<close>

lemma of_runes_append: "of_runes (xs @ ys) = of_runes xs @ of_runes ys"
  by (simp add: of_runes_def)

lemma comma_code: "'','' = encode_rune 44"
  by (simp add: encode_ascii char_of_def bit_0)

lemma glue_text: "join '','' (map of_runes cs) = of_runes (glue cs)"
  unfolding comma_code by (induction cs rule: glue.induct) (auto simp: of_runes_def)

lemma json_text_code: "well_formed v \<Longrightarrow> json_text v = of_runes (json_code v)"
proof (induction v)
  case (JBool b)
  show ?case by (simp add: of_runes_def encode_ascii char_of_def bit_0)
next
  case (JArr vs)
  then have "map json_text vs = map of_runes (map json_code vs)" by (auto simp: list_all_iff)
  then have "join '','' (map json_text vs) = of_runes (glue (map json_code vs))"
    using glue_text [of "map json_code vs"] by (simp del: map_map)
  then show ?case by (simp add: of_runes_def encode_ascii char_of_def bit_0)
next
  case (JObj ms)
  have m: "(case p of (k, v) \<Rightarrow> json_string k @ '':'' @ json_text v) =
      of_runes (case p of (k, v) \<Rightarrow> str_code k @ 58 # json_code v)" if "p \<in> set ms" for p
  proof -
    obtain k v where p: "p = (k, v)" by (cases p)
    then have "valid_text k" "json_text v = of_runes (json_code v)"
      using JObj that by (auto simp: list_all_iff)
    then show ?thesis using json_string_codes [of k]
      by (simp add: p of_runes_def encode_ascii char_of_def bit_0)
  qed
  then have "map (\<lambda>(k, v). json_string k @ '':'' @ json_text v) ms =
      map of_runes (map (\<lambda>(k, v). str_code k @ 58 # json_code v) ms)" by simp
  then have "join '','' (map (\<lambda>(k, v). json_string k @ '':'' @ json_text v) ms) =
      of_runes (glue (map (\<lambda>(k, v). str_code k @ 58 # json_code v) ms))"
    using glue_text [of "map (\<lambda>(k, v). str_code k @ 58 # json_code v) ms"] by (simp del: map_map)
  then show ?case by (simp add: of_runes_def encode_ascii char_of_def bit_0)
next
  case (JStr s)
  then show ?case using json_string_codes [of s] by simp
next
  case (JNum lit)
  then show ?case using number_ascii [of lit] by simp
qed (simp add: of_runes_def encode_ascii char_of_def bit_0)

lemma glue_set: "c \<in> set (glue cs) \<Longrightarrow> c = 44 \<or> (\<exists>d\<in>set cs. c \<in> set d)"
  by (induction cs rule: glue.induct) auto

lemma json_code_valid: "well_formed v \<Longrightarrow> c \<in> set (json_code v) \<Longrightarrow> valid_rune c"
proof (induction v)
  case (JNum lit)
  then show ?case by (auto simp: valid_rune_def intro: less_trans [OF byte_less])
next
  case (JStr s)
  then show ?case using json_codes_valid runes_valid by (auto simp: valid_rune_def)
next
  case (JArr vs)
  then show ?case using glue_set [of c "map json_code vs"] by (auto simp: list_all_iff valid_rune_def)
next
  case (JObj ms)
  have "valid_rune c" if "(k, v) \<in> set ms" "c \<in> set (str_code k @ 58 # json_code v)" for k v
    using JObj.IH [of "(k, v)" v] JObj.prems(1) that json_codes_valid [OF runes_valid]
    by (auto simp: list_all_iff) (auto simp: valid_rune_def)
  then have e: "\<And>p. p \<in> set ms \<Longrightarrow> c \<in> set (case p of (k, v) \<Rightarrow> str_code k @ 58 # json_code v) \<Longrightarrow> valid_rune c"
    by (auto simp del: set_append set_simps)
  have "c = 123 \<or> c = 125 \<or> c \<in> set (glue (map (\<lambda>(k, v). str_code k @ 58 # json_code v) ms))"
    using JObj.prems(2) by auto
  moreover have "c = 44 \<or> valid_rune c" if "c \<in> set (glue (map (\<lambda>(k, v). str_code k @ 58 # json_code v) ms))"
    using glue_set [OF that] e by (auto simp del: set_append set_simps)
  ultimately show ?case by (auto simp: valid_rune_def)
qed (auto simp: valid_rune_def split: if_splits)

lemma json_roundtrip:
  assumes "well_formed v" "json_depth v \<le> 10000"
  shows "json_parse (json_text v) = Some v"
proof -
  have r: "runes (json_text v) = json_code v"
    using assms(1) json_code_valid by (simp add: json_text_code runes_of_runes)
  have "json_value (Suc (2 * length (json_code v))) (json_code v @ []) = Some (v, [])"
    using assms(1) by (intro json_value_code) simp_all
  then show ?thesis using assms(2) by (simp add: json_parse_def r)
qed

end
