(* ===== verification/Realtime.thy ===== *)
theory Realtime
  imports Json_Laws Errors
begin

text \<open>
  The sideband client (\<open>src/internal/openairt/client.go\<close>): what it reads out of the provider's events and
  what it writes.  The WebSocket is the record \<open>rt_client\<close>: \<open>wire\<close> is what reached the provider, and the
  \<open>n\<close>-th write fails if \<open>wfault n\<close> says so, with the frame delivered or not.
\<close>

section \<open>Events\<close>

definition EvSpeechStarted :: string where "EvSpeechStarted = ''input_audio_buffer.speech_started''"
definition EvSpeechStopped :: string where "EvSpeechStopped = ''input_audio_buffer.speech_stopped''"
definition EvInputAudioCommitted :: string where "EvInputAudioCommitted = ''input_audio_buffer.committed''"
definition EvInputTranscriptDone :: string where
  "EvInputTranscriptDone = ''conversation.item.input_audio_transcription.completed''"
definition EvResponseCreated :: string where "EvResponseCreated = ''response.created''"
definition EvOutputAudioStarted :: string where "EvOutputAudioStarted = ''output_audio_buffer.started''"
definition EvOutputAudioStopped :: string where "EvOutputAudioStopped = ''output_audio_buffer.stopped''"
definition EvOutputAudioCleared :: string where "EvOutputAudioCleared = ''output_audio_buffer.cleared''"
definition EvOutputTranscriptDone :: string where
  "EvOutputTranscriptDone = ''response.output_audio_transcript.done''"
definition EvResponseDone :: string where "EvResponseDone = ''response.done''"
definition EvError :: string where "EvError = ''error''"

lemmas event_names = EvSpeechStarted_def EvSpeechStopped_def EvInputAudioCommitted_def
  EvInputTranscriptDone_def EvResponseCreated_def EvOutputAudioStarted_def EvOutputAudioStopped_def
  EvOutputAudioCleared_def EvOutputTranscriptDone_def EvResponseDone_def EvError_def

definition requestMetadataKey :: string where
  "requestMetadataKey = ''thornhill_request_id''"

record server_event =
  evType :: string
  evRaw :: string

record func_call =
  fcCallID :: string
  fcName :: string
  fcArguments :: string

record token_usage =
  InputTokens :: int
  OutputTokens :: int

record response_ref =
  refID :: string
  refRequestID :: string

text \<open>\<open>Read\<close> of one frame; \<open>jerr\<close> is the decoder's message for a text it refuses.\<close>

definition read_frame :: "(string \<Rightarrow> string) \<Rightarrow> string \<Rightarrow> error + server_event" where
  "read_frame jerr data =
     (let v = json_parse data in
      if v \<noteq> None \<and> obj_ok v \<and> str_ok (json_get ''type'' v)
      then Inr \<lparr>evType = str_of (json_get ''type'' v), evRaw = data\<rparr>
      else Inl (EWrap ''event decode: '' (EText (jerr data)) ''''))"

section \<open>Extraction\<close>

text \<open>
  A field of the wrong type makes \<open>Unmarshal\<close> report an error after it has filled the others; the
  functions below differ in whether they look at it.
\<close>

definition response_of :: "string \<Rightarrow> json option" where
  "response_of raw = json_get ''response'' (json_parse raw)"

definition ExtractResponseRef :: "string \<Rightarrow> response_ref" where
  "ExtractResponseRef raw =
     (let v = json_parse raw; r = response_of raw in
      if v \<noteq> None \<and> obj_ok v \<and> obj_ok r \<and> str_ok (json_get ''id'' r) \<and> dict_ok (json_get ''metadata'' r)
      then \<lparr>refID = str_of (json_get ''id'' r), refRequestID = dict_get requestMetadataKey (json_get ''metadata'' r)\<rparr>
      else \<lparr>refID = '''', refRequestID = ''''\<rparr>)"

definition ExtractAudioResponseID :: "string \<Rightarrow> string" where
  "ExtractAudioResponseID raw = str_of (json_get ''response_id'' (json_parse raw))"

definition item_ok :: "json \<Rightarrow> bool" where
  "item_ok it \<longleftrightarrow> obj_ok (Some it) \<and>
     list_all (\<lambda>f. str_ok (json_get f (Some it))) [''type'', ''status'', ''call_id'', ''name'', ''arguments'']"

definition item_call :: "json \<Rightarrow> func_call option" where
  "item_call it =
     (let g = (\<lambda>f. str_of (json_get f (Some it))) in
      if g ''type'' = ''function_call'' \<and> g ''status'' = ''completed'' \<and> g ''call_id'' \<noteq> '''' \<and> g ''name'' \<noteq> ''''
      then Some \<lparr>fcCallID = g ''call_id'', fcName = g ''name'', fcArguments = g ''arguments''\<rparr>
      else None)"

definition ExtractFuncCalls :: "string \<Rightarrow> func_call list" where
  "ExtractFuncCalls raw =
     (let v = json_parse raw; r = response_of raw; out = json_get ''output'' r in
      if v \<noteq> None \<and> obj_ok v \<and> obj_ok r \<and> str_ok (json_get ''status'' r) \<and> arr_ok out \<and>
         list_all item_ok (arr_of out) \<and> str_of (json_get ''status'' r) = ''completed''
      then List.map_filter item_call (arr_of out) else [])"

definition ExtractUsage :: "string \<Rightarrow> token_usage" where
  "ExtractUsage raw =
     (let u = json_get ''usage'' (response_of raw) in
      \<lparr>InputTokens = int_of_json (json_get ''input_tokens'' u),
       OutputTokens = int_of_json (json_get ''output_tokens'' u)\<rparr>)"

definition ExtractTranscript :: "string \<Rightarrow> string" where
  "ExtractTranscript raw = str_of (json_get ''transcript'' (json_parse raw))"

definition ExtractError :: "string \<Rightarrow> string" where
  "ExtractError raw =
     (let v = json_parse raw; e = json_get ''error'' v; g = (\<lambda>f. json_get f e) in
      if v \<noteq> None \<and> obj_ok v \<and> obj_ok e \<and> str_ok (g ''type'') \<and> str_ok (g ''code'') \<and> str_ok (g ''message'')
      then str_of (g ''type'') @ ''/'' @ str_of (g ''code'') @ '': '' @ str_of (g ''message'')
      else raw)"

definition ExtractErrorCode :: "string \<Rightarrow> string" where
  "ExtractErrorCode raw = str_of (json_get ''code'' (json_get ''error'' (json_parse raw)))"

definition ExtractErrorEventID :: "string \<Rightarrow> string" where
  "ExtractErrorEventID raw =
     (let v = json_parse raw; inner = str_of (json_get ''event_id'' (json_get ''error'' v)) in
      if inner \<noteq> '''' then inner else str_of (json_get ''event_id'' v))"

definition ExtractResponseStatus :: "string \<Rightarrow> string" where
  "ExtractResponseStatus raw = str_of (json_get ''status'' (response_of raw))"

section \<open>Writing\<close>

record rt_client =
  wire :: "json list"
  writes :: nat
  wfault :: "nat \<Rightarrow> (error \<times> bool) option"

definition rt_send :: "json \<Rightarrow> rt_client \<Rightarrow> error option \<times> rt_client" where
  "rt_send v c =
     (let c' = c\<lparr>writes := Suc (writes c)\<rparr> in
      case wfault c (writes c) of
        None \<Rightarrow> (None, c'\<lparr>wire := wire c @ [v]\<rparr>)
      | Some (e, delivered) \<Rightarrow> (Some e, if delivered then c'\<lparr>wire := wire c @ [v]\<rparr> else c'))"

text \<open>The debug log's bound, by runes.\<close>

definition truncate_runes :: "string \<Rightarrow> nat \<Rightarrow> string" where
  "truncate_runes s n = (if length (runes s) \<le> n then s else cut_runes n s @ ellipsis)"

record rt_tool =
  toolType :: string
  toolName :: string
  toolDescription :: string
  toolParameters :: json

definition tool_json :: "rt_tool \<Rightarrow> json" where
  "tool_json t = JObj [(''type'', JStr (toolType t)), (''name'', JStr (toolName t)),
     (''description'', JStr (toolDescription t)), (''parameters'', toolParameters t)]"

definition session_update :: "string \<Rightarrow> rt_tool list \<Rightarrow> string \<Rightarrow> json" where
  "session_update instructions tools model =
     JObj [(''session'', JObj [
        (''audio'', JObj [(''input'', JObj [
           (''transcription'', JObj [(''model'', JStr model)]),
           (''turn_detection'', JObj [(''type'', JStr ''semantic_vad''), (''create_response'', JBool False),
              (''interrupt_response'', JBool False)])])]),
        (''instructions'', JStr instructions),
        (''tools'', JArr (map tool_json tools)),
        (''truncation'', JObj [(''retention_ratio'', JNum ''0.8''), (''type'', JStr ''retention_ratio'')]),
        (''type'', JStr ''realtime'')]),
      (''type'', JStr ''session.update'')]"

definition inject_message :: "string \<Rightarrow> string \<Rightarrow> json" where
  "inject_message role txt =
     JObj [(''item'', JObj [
        (''content'', JArr [JObj [(''text'', JStr txt), (''type'', JStr ''input_text'')]]),
        (''role'', JStr role), (''type'', JStr ''message'')]),
      (''type'', JStr ''conversation.item.create'')]"

definition function_output :: "string \<Rightarrow> string \<Rightarrow> json" where
  "function_output callID out =
     JObj [(''item'', JObj [(''call_id'', JStr callID), (''output'', JStr out),
        (''type'', JStr ''function_call_output'')]),
      (''type'', JStr ''conversation.item.create'')]"

definition create_response :: "string \<Rightarrow> json" where
  "create_response eventID =
     JObj [(''event_id'', JStr eventID),
      (''response'', JObj [(''metadata'', JObj [(requestMetadataKey, JStr eventID)])]),
      (''type'', JStr ''response.create'')]"

definition cancel_response :: json where
  "cancel_response = JObj [(''type'', JStr ''response.cancel'')]"

definition SessionUpdate :: "string \<Rightarrow> rt_tool list \<Rightarrow> string \<Rightarrow> rt_client \<Rightarrow> error option \<times> rt_client" where
  "SessionUpdate instructions tools model = rt_send (session_update instructions tools model)"

definition InjectMessage :: "string \<Rightarrow> string \<Rightarrow> rt_client \<Rightarrow> error option \<times> rt_client" where
  "InjectMessage role txt = rt_send (inject_message role txt)"

definition FunctionOutput :: "string \<Rightarrow> string \<Rightarrow> rt_client \<Rightarrow> error option \<times> rt_client" where
  "FunctionOutput callID out = rt_send (function_output callID out)"

definition CreateResponse :: "string \<Rightarrow> rt_client \<Rightarrow> error option \<times> rt_client" where
  "CreateResponse eventID = rt_send (create_response eventID)"

definition CancelResponse :: "rt_client \<Rightarrow> error option \<times> rt_client" where
  "CancelResponse = rt_send cancel_response"

definition CreateOOB :: "string \<Rightarrow> (string \<times> string) list \<Rightarrow> rt_client \<Rightarrow> error option \<times> rt_client" where
  "CreateOOB instructions meta = rt_send
     (JObj [(''response'', JObj [(''conversation'', JStr ''none''), (''instructions'', JStr instructions),
        (''metadata'', JObj (map (\<lambda>(k, v). (k, JStr v)) meta)), (''output_modalities'', JArr [JStr ''text''])]),
      (''type'', JStr ''response.create'')])"

end
