(* ===== verification/Wire.thy ===== *)
theory Wire
  imports Json_Laws Time_Text Jobs
begin

text \<open>
  The JSON form of a job (the struct tags of \<open>src/internal/store/store.go\<close>): what the bus carries, what the
  voice tools answer with and what the browser sees.  \<open>None\<close> is \<open>Marshal\<close>'s error for an instant outside
  the years 0 to 9999.
\<close>

definition omit_empty :: "string \<Rightarrow> string \<Rightarrow> (string \<times> json) list" where
  "omit_empty k s = (if s = '''' then [] else [(k, JStr s)])"

definition time_json :: "instant \<Rightarrow> json option" where
  "time_json t = (if json_time t = None then None else Some (JStr (rfc3339 t)))"

definition time_member :: "string \<Rightarrow> instant \<Rightarrow> (string \<times> json) list option" where
  "time_member k t = map_option (\<lambda>v. [(k, v)]) (time_json t)"

definition opt_time_member :: "string \<Rightarrow> instant option \<Rightarrow> (string \<times> json) list option" where
  "opt_time_member k t = (case t of None \<Rightarrow> Some [] | Some x \<Rightarrow> time_member k x)"

definition members :: "(string \<times> json) list option list \<Rightarrow> json option" where
  "members ms = (if None \<in> set ms then None else Some (JObj (concat (map the ms))))"

definition approval_json :: "approval \<Rightarrow> json option" where
  "approval_json a = members
     [Some [(''id'', JStr (apID a))], Some (omit_empty ''provider_request_id'' (ProviderRequestID a)),
      Some [(''decision_nonce'', JStr (DecisionNonce a))], Some (omit_empty ''decision'' (apDecision a)),
      Some [(''state'', JStr (approval_state_text (apState a)))],
      Some (omit_empty ''command'' (Command a)), Some (omit_empty ''description'' (Description a)),
      Some (if PatternKeys a = [] then [] else [(''pattern_keys'', JArr (map JStr (PatternKeys a)))]),
      Some [(''allow_permanent'', JBool (AllowPermanent a))],
      time_member ''requested_at'' (RequestedAt a), opt_time_member ''parked_at'' (ParkedAt a),
      Some (omit_empty ''park_reason'' (ParkReason a))]"

definition progress_json :: "progress \<Rightarrow> json option" where
  "progress_json p = members
     [Some (omit_empty ''tool'' (prTool p)), Some (omit_empty ''label'' (prLabel p)),
      Some [(''state'', JStr (prState p))], time_member ''updated_at'' (prUpdatedAt p)]"

definition job_json :: "job \<Rightarrow> json option" where
  "job_json j = members
     [Some [(''id'', JStr (jID j)), (''display_name'', JStr (DisplayName j)), (''task'', JStr (Task j)),
            (''status'', JStr (status_text (Status j)))],
      Some (omit_empty ''question'' (Question j)), Some (omit_empty ''result_digest'' (ResultDigest j)),
      Some (omit_empty ''error'' (Error j)), Some (omit_empty ''hermes_session_id'' (HermesSessionID j)),
      Some (omit_empty ''hermes_run_id'' (HermesRunID j)),
      (if Approvals j = [] then Some []
       else if None \<in> set (map approval_json (Approvals j)) then None
       else Some [(''approvals'', JArr (map (the \<circ> approval_json) (Approvals j)))]),
      (case Progress j of None \<Rightarrow> Some [] | Some p \<Rightarrow> map_option (\<lambda>v. [(''progress'', v)]) (progress_json p)),
      time_member ''created_at'' (CreatedAt j), time_member ''updated_at'' (UpdatedAt j),
      opt_time_member ''finished_at'' (FinishedAt j),
      Some [(''state_version'', JNum (int_text (StateVersion j)))]]"

end
