(* ===== verification/Ledger.thy ===== *)
theory Ledger
  imports Prelude Errors "HOL-Library.Word"
begin

text \<open>
  The rolling summaries and the usage ledger of \<open>src/internal/store/store.go\<close>.  Other writers act between
  two accesses (\<open>smeddle\<close>), and the \<open>n\<close>-th access fails if \<open>sfault n\<close> says so.  An amount in dollars is the
  bit pattern of a double; PostgreSQL's addition of doubles is the argument \<open>fadd\<close>.
\<close>

record tables =
  summaries :: "string \<rightharpoonup> string \<times> instant"
  ledger :: "(instant \<times> string \<times> int \<times> int \<times> 64 word) list"

record side =
  stab :: tables
  sops :: nat
  sclock :: "nat \<Rightarrow> instant"
  sfault :: "nat \<Rightarrow> error option"
  smeddle :: "nat \<Rightarrow> tables \<Rightarrow> tables"

definition side_op :: "(instant \<Rightarrow> tables \<Rightarrow> 'r \<times> tables) \<Rightarrow> side \<Rightarrow> (error + 'r) \<times> side" where
  "side_op f s =
     (let n = sops s; t = smeddle s n (stab s) in
      case sfault s n of
        Some e \<Rightarrow> (Inl e, s\<lparr>stab := t, sops := Suc n\<rparr>)
      | None \<Rightarrow> (let (r, t') = f (sclock s n) t in (Inr r, s\<lparr>stab := t', sops := Suc n\<rparr>)))"

definition SaveSummary :: "string \<Rightarrow> string \<Rightarrow> side \<Rightarrow> (error + unit) \<times> side" where
  "SaveSummary scope content =
     side_op (\<lambda>now t. ((), t\<lparr>summaries := (summaries t)(scope \<mapsto> (content, now))\<rparr>))"

definition GetSummary :: "string \<Rightarrow> side \<Rightarrow> (error + string \<times> instant) \<times> side" where
  "GetSummary scope =
     side_op (\<lambda>now t. (case summaries t scope of None \<Rightarrow> ('''', zero_time) | Some cu \<Rightarrow> cu, t))"

definition AddUsage :: "string \<Rightarrow> int \<Rightarrow> int \<Rightarrow> 64 word \<Rightarrow> side \<Rightarrow> (error + unit) \<times> side" where
  "AddUsage src tin tout usd =
     side_op (\<lambda>now t. ((), t\<lparr>ledger := ledger t @ [(now, src, tin, tout, usd)]\<rparr>))"

text \<open>\<open>day\<close> is \<open>date_trunc('day', -)\<close> in the time zone of the database session.\<close>

definition UsageTodayUSD ::
  "(64 word \<Rightarrow> 64 word \<Rightarrow> 64 word) \<Rightarrow> (instant \<Rightarrow> instant) \<Rightarrow> side \<Rightarrow> (error + 64 word) \<times> side" where
  "UsageTodayUSD fadd day =
     side_op (\<lambda>now t. (foldr (\<lambda>(_, _, _, _, usd). fadd usd) (filter (\<lambda>(ts, _). day now \<le> ts) (ledger t)) 0, t))"

end
