(* ===== verification/Desk_Run.thy ===== *)
theory Desk_Run
  imports Desk_Tools
begin

text \<open>
  The voice desk, third part: the handlers of the provider's events, the tool batches, and the run loop.
  A \<open>desk_input\<close> is one ready case of the loop's \<open>select\<close>, or an action of another goroutine on the desk;
  \<open>run_loop\<close> processes a list of them until the session parks.
\<close>

section \<open>Tool batches\<close>

definition startToolBatch :: "func_call list \<Rightarrow> desk \<Rightarrow> desk" where
  "startToolBatch cs d = on_fsm (ToolPending True) (d\<lparr>runningTools := runningTools d @ [cs]\<rparr>)"

text \<open>
  The calls of a batch run concurrently: \<open>order\<close> is the order in which their effects happen.  The outputs
  are collected at the position of their call.
\<close>

fun exec_calls ::
  "(string \<Rightarrow> string) \<Rightarrow> 'w dispatcher \<Rightarrow> func_call list \<Rightarrow> nat list \<Rightarrow> string list \<Rightarrow> desk \<times> 'w \<Rightarrow>
   string list \<times> (desk \<times> 'w)" where
  "exec_calls jerr D cs [] outs dw = (outs, dw)"
| "exec_calls jerr D cs (i # order) outs dw =
     (case execTool jerr D (cs ! i) dw of
        (out, dw) \<Rightarrow> exec_calls jerr D cs order (outs[i := out]) dw)"

text \<open>The \<open>k\<close>-th running batch completes; its result waits for room in the channel of capacity 1.\<close>

definition batch_ready :: "nat \<Rightarrow> nat list \<Rightarrow> desk \<Rightarrow> bool" where
  "batch_ready k order d \<longleftrightarrow> k < length (runningTools d) \<and> toolResults d = [] \<and>
     distinct order \<and> set order = {0..<length (runningTools d ! k)}"

definition run_batch ::
  "(string \<Rightarrow> string) \<Rightarrow> 'w dispatcher \<Rightarrow> nat \<Rightarrow> nat list \<Rightarrow> desk \<times> 'w \<Rightarrow> desk \<times> 'w" where
  "run_batch jerr D k order dw =
     (let cs = runningTools (fst dw) ! k in
      if \<not> batch_ready k order (fst dw) then dw
      else (case exec_calls jerr D cs order (replicate (length cs) '''') dw of
          (outs, (d, w)) \<Rightarrow>
            (d\<lparr>runningTools := take k (runningTools d) @ drop (Suc k) (runningTools d),
               toolResults := toolResults d @ [\<lparr>calls = cs, outputs = outs\<rparr>]\<rparr>, w)))"

fun write_outputs :: "(func_call \<times> string) list \<Rightarrow> desk \<Rightarrow> error option \<times> desk" where
  "write_outputs [] d = (None, d)"
| "write_outputs ((fc, out) # rest) d =
     (case on_client (FunctionOutput (fcCallID fc) (encodeFunctionOutput fc out)) d of
        (Some e, d) \<Rightarrow> (Some e, d)
      | (None, d) \<Rightarrow> write_outputs rest d)"

definition continues :: "func_call \<Rightarrow> bool" where
  "continues fc \<longleftrightarrow> fcName fc \<noteq> ''wait_for_user'' \<and> fcName fc \<noteq> ''park_session''"

definition finishToolBatch :: "tool_batch \<Rightarrow> desk \<Rightarrow> error option \<times> desk" where
  "finishToolBatch b d =
     (case write_outputs (zip (calls b) (outputs b)) d of
        (Some e, d) \<Rightarrow> (Some e, on_fsm (ToolPending False) d)
      | (None, d) \<Rightarrow>
          let d = on_fsm (ToolPending False) d;
              d = (if list_ex continues (calls b) then d\<lparr>pendingContinuation := True\<rparr> else d) in
          maybeCreateResponse d)"

section \<open>Server events\<close>

definition announce_live :: "desk \<Rightarrow> desk" where
  "announce_live d = (if fstate (dfsm d) = LIVE then publishState LIVE '''' d else d)"

definition publish_text :: "string \<Rightarrow> string \<Rightarrow> 'a world_scheme \<Rightarrow> 'a world_scheme" where
  "publish_text kind t w = (if t \<noteq> '''' then PublishJob kind '''' (PFields [(''text'', t)]) w else w)"

definition voice_error :: "(string \<times> string) list \<Rightarrow> 'a world_scheme \<Rightarrow> 'a world_scheme" where
  "voice_error fs w = PublishJob ''error.voice'' '''' (PFields fs) w"

abbreviation lift_desk :: "(desk \<Rightarrow> error option \<times> desk) \<Rightarrow> desk \<times> 'w \<Rightarrow> error option \<times> (desk \<times> 'w)" where
  "lift_desk f \<equiv> (\<lambda>(d, w). case f d of (e, d) \<Rightarrow> (e, (d, w)))"

definition handle_created :: "instant \<Rightarrow> string \<Rightarrow> desk \<Rightarrow> desk" where
  "handle_created now raw d =
     (let ref = ExtractResponseRef raw in
      if refID ref = '''' \<or> refRequestID ref = '''' \<or> refRequestID ref \<noteq> responseCreateEventID d then d
      else let d = on_fsm (ResponseStarted now) (d\<lparr>responseCreateEventID := '''', activeResponseID := refID ref,
                 activeResponseDone := False, activeResponseAudio := False\<rparr>) in
        if responseAttention d \<noteq> [] \<and> refRequestID ref = attentionRequestID d
        then d\<lparr>attentionResponseID := refID ref\<rparr> else d)"

definition handle_audio_started :: "instant \<Rightarrow> string \<Rightarrow> desk \<Rightarrow> desk" where
  "handle_audio_started now raw d =
     (let i = ExtractAudioResponseID raw in
      if \<not> matchesActiveResponse i d then d
      else let d = on_fsm (AudioStarted now) (d\<lparr>activeResponseAudio := True\<rparr>) in
        if responseAttention d \<noteq> [] \<and> matchesAttentionResponse i d then d\<lparr>attentionAudioStarted := True\<rparr> else d)"

definition handle_audio_stopped ::
  "instant \<Rightarrow> string \<Rightarrow> desk \<times> 'a world_scheme \<Rightarrow> error option \<times> (desk \<times> 'a world_scheme)" where
  "handle_audio_stopped now raw = (\<lambda>(d, w).
     let i = ExtractAudioResponseID raw in
     if \<not> matchesActiveResponse i d then (None, (d, w))
     else let d = on_fsm (AudioStopped now) (d\<lparr>activeResponseAudio := False\<rparr>);
              (d, w) = (if responseAttention d \<noteq> [] \<and> matchesAttentionResponse i d
                        then maybeAcknowledgeAttention (d\<lparr>attentionAudioStopped := True\<rparr>, w) else (d, w)) in
       lift_desk maybeCreateResponse (finishActiveResponseIfDrained d, w))"

definition handle_audio_cleared :: "instant \<Rightarrow> string \<Rightarrow> desk \<Rightarrow> error option \<times> desk" where
  "handle_audio_cleared now raw d =
     (let i = ExtractAudioResponseID raw in
      if \<not> matchesActiveResponse i d then (None, d)
      else let d = on_fsm (AudioStopped now) (d\<lparr>activeResponseAudio := False\<rparr>);
               d = (if matchesAttentionResponse i d then requeueResponseAttention d else d) in
        maybeCreateResponse (finishActiveResponseIfDrained d))"

text \<open>The attention part of \<open>response.done\<close>.\<close>

definition settle_briefing ::
  "string \<Rightarrow> string \<Rightarrow> desk \<times> 'a world_scheme \<Rightarrow> desk \<times> 'a world_scheme" where
  "settle_briefing i status = (\<lambda>(d, w).
     if responseAttention d \<noteq> [] \<and> i = attentionResponseID d then
       (let (d, w) = (if status = ''completed''
                      then maybeAcknowledgeAttention (d\<lparr>attentionResponseDone := True\<rparr>, w) else (d, w)) in
        if responseAttention d \<noteq> [] \<and> (status \<noteq> ''completed'' \<or> \<not> attentionAudioStarted d)
        then (requeueResponseAttention d, w) else (d, w))
     else (d, w))"

definition record_usage ::
  "token_usage \<Rightarrow> desk \<times> 'a world_scheme \<Rightarrow> desk \<times> 'a world_scheme" where
  "record_usage u = (\<lambda>(d, w).
     if 0 < i64 (InputTokens u + OutputTokens u)
     then (d\<lparr>side_store := snd (AddUsage ''realtime'' (InputTokens u) (OutputTokens u) 0 (side_store d))\<rparr>,
           PublishJob ''usage'' '''' (PFields [(''input_tokens'', int_text (InputTokens u)),
             (''output_tokens'', int_text (OutputTokens u))]) w)
     else (d, w))"

definition handle_done ::
  "instant \<Rightarrow> string \<Rightarrow> desk \<times> 'a world_scheme \<Rightarrow> error option \<times> (desk \<times> 'a world_scheme)" where
  "handle_done now raw = (\<lambda>(d, w).
     let i = refID (ExtractResponseRef raw); status = ExtractResponseStatus raw in
     if \<not> matchesActiveResponse i d then (None, (d, w))
     else let (d, w) = settle_briefing i status
                (on_fsm (ResponseDone now) (d\<lparr>responseCreateEventID := '''', activeResponseDone := True\<rparr>), w);
              w = (if status \<noteq> '''' \<and> status \<noteq> ''completed''
                   then voice_error [(''message'', ''voice response ended with status '' @ status), (''status'', status)] w
                   else w);
              d = (if pendingQuestion d then on_fsm (QuestionVoiced now) (d\<lparr>pendingQuestion := False\<rparr>) else d);
              (d, w) = record_usage (ExtractUsage raw) (d, w);
              cs = ExtractFuncCalls raw; d = finishActiveResponseIfDrained d in
       if cs = [] then lift_desk maybeCreateResponse (d, w) else (None, (startToolBatch cs d, w)))"

definition error_note :: "string \<Rightarrow> injection" where
  "error_note msg = speak False (''[voice pipeline error] '' @ msg @ '' '' @ em_dash @ '' mention it briefly, once.'')"

definition handle_error ::
  "instant \<Rightarrow> string \<Rightarrow> desk \<times> 'a world_scheme \<Rightarrow> desk \<times> 'a world_scheme" where
  "handle_error now raw = (\<lambda>(d, w).
     let msg = ExtractError raw; ev = ExtractErrorEventID raw;
         pending = (responseCreateEventID d \<noteq> '''' \<and> ev = responseCreateEventID d);
         rejected = (pending \<and> ev = attentionRequestID d);
         d = (if rejected then requeueResponseAttention d else d);
         clear = (\<lambda>d. let d = on_fsm (ResponseDone now) (d\<lparr>responseCreateEventID := ''''\<rparr>) in
                     if \<not> rejected then d\<lparr>pendingContinuation := True\<rparr> else d) in
     if ExtractErrorCode raw = ''conversation_already_has_active_response'' then
       (if \<not> pending then (d, w)
        else (clear d, voice_error [(''message'', msg), (''status'', ''suppressed'')] w))
     else (queueInject (error_note msg) (if pending then clear d else d), voice_error [(''message'', msg)] w))"

definition handleServer ::
  "server_event \<Rightarrow> desk \<times> 'a world_scheme \<Rightarrow> error option \<times> (desk \<times> 'a world_scheme)" where
  "handleServer ev = (\<lambda>(d0, w). with_now (\<lambda>now d.
     if evType ev = EvSpeechStarted then (None, (announce_live (on_fsm (SpeechStarted now) d), w))
     else if evType ev = EvSpeechStopped then (None, (announce_live (on_fsm (SpeechStopped now) d), w))
     else if evType ev = EvInputAudioCommitted
     then lift_desk maybeCreateResponse (d\<lparr>pendingUserTurn := True\<rparr>, w)
     else if evType ev = EvInputTranscriptDone
     then (None, (d, publish_text ''transcript.user'' (ExtractTranscript (evRaw ev)) w))
     else if evType ev = EvOutputTranscriptDone
     then (None, (d, publish_text ''transcript.assistant'' (ExtractTranscript (evRaw ev)) w))
     else if evType ev = EvResponseCreated then (None, (handle_created now (evRaw ev) d, w))
     else if evType ev = EvOutputAudioStarted then (None, (handle_audio_started now (evRaw ev) d, w))
     else if evType ev = EvOutputAudioStopped then handle_audio_stopped now (evRaw ev) (d, w)
     else if evType ev = EvOutputAudioCleared then lift_desk (handle_audio_cleared now (evRaw ev)) (d, w)
     else if evType ev = EvResponseDone then handle_done now (evRaw ev) (d, w)
     else if evType ev = EvError then (None, handle_error now (evRaw ev) (d, w))
     else (None, (d, w))) d0)"

section \<open>The run loop\<close>

fun reason_text :: "park_reason \<Rightarrow> string" where
  "reason_text NoReason = ''''"
| "reason_text ParkIdle = ''idle''"
| "reason_text ParkMuteHidden = ''mute_hidden''"
| "reason_text ParkExplicit = ''explicit''"
| "reason_text ParkDisconnect = ''disconnect''"
| "reason_text ParkRollover = ''rollover''"
| "reason_text ParkDrainTimeout = ''drain_timeout''"

datatype desk_input =
  ICtxDone
  | IReadError
  | IServer server_event
  | IBatch
  | IBus string string "nat set" instant
  | ITick
  | IUserText string
  | IClientState bool bool
  | IParkRequest
  | IToolsDone nat "nat list"

definition announce ::
  "string \<Rightarrow> string \<Rightarrow> nat set \<Rightarrow> instant \<Rightarrow> desk \<times> 'a world_scheme \<Rightarrow> desk \<times> 'a world_scheme" where
  "announce kind payload busy t dw =
     (case claimAttention busy t dw of
        (items, (d, w)) \<Rightarrow>
          (case attentionBriefing items of
             Some i \<Rightarrow> (queueUrgent i d, w)
           | None \<Rightarrow> (case announcementFor kind payload of
               Some i \<Rightarrow> (if kind = ''job.needs_approval'' then queueUrgent i d else queueInject i d, w)
             | None \<Rightarrow> (d, w))))"

text \<open>At most one queued injection per lull, at least ten seconds apart.\<close>

definition flush_injection :: "instant \<Rightarrow> desk \<Rightarrow> desk" where
  "flush_injection now d =
     (if CanStartResponse (dfsm d) \<and> seconds 10 \<le> time_sub now (lastInjection d)
      then (case nextInjection d of
              (None, d) \<Rightarrow> d
            | (Some i, d) \<Rightarrow> (case doInject i d of
                (Some e, d) \<Rightarrow> d
              | (None, d) \<Rightarrow> d\<lparr>lastInjection := now, pendingQuestion := injIsQuestion i\<rparr>))
      else d)"

definition tick_desk :: "desk \<Rightarrow> park_reason option \<times> desk" where
  "tick_desk = with_now (\<lambda>now d0.
     let d = flush_injection now d0; ((park, why, quiet), f) = Tick now (dfsm d);
         d = d\<lparr>dfsm := f\<rparr>; d = (if quiet then publishState QUIET '''' d else d);
         (park, why) = (if \<not> park \<and> fstate (dfsm d) = PARKED then (True, ParkExplicit) else (park, why)) in
     if park
     then (let d = (if why = ParkDrainTimeout then snd (on_client CancelResponse d) else d) in
           (Some why, publishState PARKED (reason_text why) d))
     else (None, d))"

definition loop_step ::
  "(string \<Rightarrow> string) \<Rightarrow> 'a world_scheme dispatcher \<Rightarrow> desk_input \<Rightarrow> desk \<times> 'a world_scheme \<Rightarrow>
   park_reason option \<times> (desk \<times> 'a world_scheme)" where
  "loop_step jerr D inp = (\<lambda>(d, w).
     (case inp of
        ICtxDone \<Rightarrow> (case ExplicitPark (dfsm d) of
          (r, f) \<Rightarrow> (Some r, ((publishState PARKED (reason_text ParkExplicit) d)\<lparr>dfsm := f\<rparr>, w)))
      | IReadError \<Rightarrow> (case Disconnected (dfsm d) of
          (r, f) \<Rightarrow> (Some r, ((publishState PARKED (reason_text ParkDisconnect) d)\<lparr>dfsm := f\<rparr>, w)))
      | IServer ev \<Rightarrow> (None, snd (handleServer ev (d, w)))
      | IBatch \<Rightarrow> (case toolResults d of
          [] \<Rightarrow> (None, (d, w))
        | b # bs \<Rightarrow> (None, (snd (finishToolBatch b (d\<lparr>toolResults := bs\<rparr>)), w)))
      | IBus kind payload busy t \<Rightarrow> (None, announce kind payload busy t (d, w))
      | ITick \<Rightarrow> (case tick_desk d of (r, d) \<Rightarrow> (r, (d, w)))
      | IUserText t \<Rightarrow> (None, (InjectUserText t d, w))
      | IClientState m h \<Rightarrow> (None, (deskSetClientState m h d, w))
      | IParkRequest \<Rightarrow> (None, (deskRequestPark d, w))
      | IToolsDone k order \<Rightarrow> (None, run_batch jerr D k order (d, w))))"

fun run_loop ::
  "(string \<Rightarrow> string) \<Rightarrow> 'a world_scheme dispatcher \<Rightarrow> desk_input list \<Rightarrow> desk \<times> 'a world_scheme \<Rightarrow>
   park_reason option \<times> (desk \<times> 'a world_scheme)" where
  "run_loop jerr D [] dw = (None, dw)"
| "run_loop jerr D (i # is) dw =
     (case loop_step jerr D i dw of
        (None, dw) \<Rightarrow> run_loop jerr D is dw
      | (Some r, dw) \<Rightarrow> (Some r, releaseAttentionClaim dw))"

text \<open>What \<open>Run\<close> does before its loop; \<open>Inl\<close> is an early return.\<close>

definition start_call ::
  "string \<Rightarrow> (instant \<Rightarrow> string) \<Rightarrow> rt_tool list \<Rightarrow> string \<Rightarrow> 'a world_scheme dispatcher \<Rightarrow> nat set \<Rightarrow> instant \<Rightarrow>
   desk \<times> 'a world_scheme \<Rightarrow> (error + unit) \<times> (desk \<times> 'a world_scheme)" where
  "start_call base face tools model D busy t dw =
     (case buildInstructions base face D dw of
        (text, (d, w)) \<Rightarrow>
          (case on_client (SessionUpdate text tools model) d of
             (Some e, d) \<Rightarrow> (Inl (EWrap ''session.update: '' e ''''), releaseAttentionClaim (d, w))
           | (None, d) \<Rightarrow>
               let d = publishState LIVE '''' (with_now (\<lambda>now. on_fsm (CallStarted now)) d);
                   (items, (d, w)) = claimAttention busy t (d, w) in
               (case attentionBriefing items of
                  Some i \<Rightarrow> (Inr (), (d\<lparr>urgent := urgent d @ [i]\<rparr>, w))
                | None \<Rightarrow> (case pendingApprovalOnResume D w of
                    (Some i, w) \<Rightarrow> (Inr (), (d\<lparr>urgent := urgent d @ [i]\<rparr>, w))
                  | (None, w) \<Rightarrow> (Inr (), (d, w))))))"

text \<open>\<open>Run\<close> from an open sideband; \<open>Inr None\<close> is a call that goes on.\<close>

definition deskRun ::
  "string \<Rightarrow> (instant \<Rightarrow> string) \<Rightarrow> rt_tool list \<Rightarrow> string \<Rightarrow> (string \<Rightarrow> string) \<Rightarrow> 'a world_scheme dispatcher \<Rightarrow> nat set \<Rightarrow>
   instant \<Rightarrow> desk_input list \<Rightarrow> desk \<times> 'a world_scheme \<Rightarrow> (error + park_reason option) \<times> (desk \<times> 'a world_scheme)" where
  "deskRun base face tools model jerr D busy t ins dw =
     (case start_call base face tools model D busy t dw of
        (Inl e, dw) \<Rightarrow> (Inl e, dw)
      | (Inr _, dw) \<Rightarrow> (case run_loop jerr D ins dw of (r, dw) \<Rightarrow> (Inr r, dw)))"

end
