(* ===== verification/Desk_Laws.thy ===== *)
theory Desk_Laws
  imports Desk_Run
begin

text \<open>
  A briefing counts as spoken only on evidence.  \<open>evidence\<close> ties the desk's correlation fields to the
  events received and the frames written so far; every operation of the desk keeps it.  The locale
  \<open>quiet_board\<close> is what the desk relies on of the dispatcher: none of its operations acknowledges a
  briefing.
\<close>

section \<open>Unspoken rows\<close>

definition unspoken :: "nat \<Rightarrow> db \<Rightarrow> bool" where
  "unspoken a d \<longleftrightarrow> (\<exists>r\<in>set (attentions d). atID r = a \<and> atSpoken r = None)"

definition others_quiet :: "nat \<Rightarrow> 'a world_scheme \<Rightarrow> bool" where
  "others_quiet a w \<longleftrightarrow> (\<forall>n d. unspoken a d \<longrightarrow> unspoken a (meddle w n d))"

definition keeps_unspoken :: "nat \<Rightarrow> 'a world_scheme \<Rightarrow> 'a world_scheme \<Rightarrow> bool" where
  "keeps_unspoken a w w' \<longleftrightarrow>
     meddle w' = meddle w \<and> (others_quiet a w \<longrightarrow> unspoken a (wdb w) \<longrightarrow> unspoken a (wdb w'))"

lemma keeps_unspoken_refl [simp]: "keeps_unspoken a w w"
  by (simp add: keeps_unspoken_def)

lemma keeps_unspoken_trans: "keeps_unspoken a w w1 \<Longrightarrow> keeps_unspoken a w1 w2 \<Longrightarrow> keeps_unspoken a w w2"
  by (auto simp: keeps_unspoken_def others_quiet_def)

lemma keeps_unspoken_publish [simp]: "keeps_unspoken a w (PublishJob k i p w)"
  by (simp add: keeps_unspoken_def)

lemma keeps_unspoken_transact:
  assumes "\<And>t d r d'. f t d = Inr (r, d') \<Longrightarrow> unspoken a d \<Longrightarrow> unspoken a d'"
  shows "keeps_unspoken a w (snd (transact wr f w))"
  using transact_db [of wr f w] assms by (auto simp: keeps_unspoken_def others_quiet_def)

lemma keeps_if:
  "(b \<Longrightarrow> keeps_unspoken a w (snd (snd x))) \<Longrightarrow> (\<not> b \<Longrightarrow> keeps_unspoken a w (snd (snd y))) \<Longrightarrow>
   keeps_unspoken a w (snd (snd (if b then x else y)))"
  by simp

lemma unspoken_map:
  assumes "\<And>r. atID r = a \<Longrightarrow> atID (f r) = a" "\<And>r. atID r = a \<Longrightarrow> atSpoken r = None \<Longrightarrow> atSpoken (f r) = None"
    and "unspoken a d"
  shows "unspoken a (d\<lparr>attentions := map f (attentions d)\<rparr>)"
  using assms by (auto simp: unspoken_def)

lemma claim_unspoken:
  assumes "ClaimPendingAttention token limit lease t now busy d = Inr (rows, d')" "unspoken a d"
  shows "unspoken a d'"
proof -
  have "\<exists>f. d' = d\<lparr>attentions := map f (attentions d)\<rparr> \<and> (\<forall>r. atID (f r) = atID r \<and> atSpoken (f r) = atSpoken r)"
    using assms(1) by (auto simp: ClaimPendingAttention_def Let_def split: if_splits
        intro!: exI [of _ "\<lambda>r. if atID r \<in> set (candidates atID (attention_ready now) busy (claim_limit limit)
           (attentions d)) then r\<lparr>atToken := token, atUntil := Some (time_add t lease)\<rparr> else r"])
  then show ?thesis using unspoken_map assms(2) by fastforce
qed

lemma mark_unspoken:
  "a \<notin> set ids \<Longrightarrow> unspoken a d \<Longrightarrow> unspoken a (snd (MarkAttentionSpoken token ids now d))"
  by (auto simp: MarkAttentionSpoken_def Let_def intro!: unspoken_map)

section \<open>The dispatcher's part\<close>

locale quiet_board =
  fixes D :: "'a world_scheme dispatcher" and a :: nat
  assumes dispatch_quiet: "keeps_unspoken a w (snd (dDispatch D n t w))"
    and cancel_quiet: "keeps_unspoken a w (snd (dCancel D ref w))"
    and resume_quiet: "keeps_unspoken a w (snd (dResume D ref w))"
    and answer_quiet: "keeps_unspoken a w (snd (dAnswer D ref t w))"
    and decide_quiet: "keeps_unspoken a w (snd (dDecideApproval D ref i n dec w))"
    and rename_quiet: "keeps_unspoken a w (snd (dRename D ref t w))"
    and resolve_quiet: "keeps_unspoken a w (snd (dResolve D ref w))"
    and active_quiet: "keeps_unspoken a w (snd (dActive D w))"
begin

lemmas operations_quiet = dispatch_quiet cancel_quiet resume_quiet answer_quiet decide_quiet rename_quiet
  resolve_quiet active_quiet

lemma answer_with_quiet:
  assumes "\<And>w. keeps_unspoken a w (snd (f w))"
  shows "keeps_unspoken a w (snd (snd (answer_with g f (d, w))))"
  using assms [of w] by (auto simp: answer_with_def split: prod.split sum.split)

lemma tool_quiet: "keeps_unspoken a w (snd (snd (execTool jerr D fc (d, w))))"
proof -
  have active: "keeps_unspoken a w (snd (snd (case dActive D w of
      (Inl e, w) \<Rightarrow> (tool_fail e, d, w) | (Inr js, w) \<Rightarrow> (f js, d, w))))" for f
    using active_quiet [of w] by (auto split: prod.split sum.split)
  show ?thesis
    unfolding execTool_def Let_def fst_conv snd_conv
    by (intro keeps_if answer_with_quiet operations_quiet active) simp_all
qed

lemma calls_quiet: "keeps_unspoken a w (snd (snd (exec_calls jerr D cs order outs (d, w))))"
proof (induction order arbitrary: outs d w)
  case (Cons i order)
  obtain out d1 w1 where e: "execTool jerr D (cs ! i) (d, w) = (out, (d1, w1))" by (metis surj_pair)
  from tool_quiet [of w jerr "cs ! i" d] e have "keeps_unspoken a w w1" by simp
  with Cons.IH [of w1 "outs[i := out]" d1] keeps_unspoken_trans show ?case by (fastforce simp: e)
qed simp

lemma batch_quiet: "keeps_unspoken a w (snd (run_batch jerr D k order (d, w)))"
  using calls_quiet [of w jerr "runningTools d ! k" order "replicate (length (runningTools d ! k)) ''''" d]
  by (auto simp: run_batch_def Let_def split: prod.split)

end

section \<open>Evidence\<close>

definition received :: "string \<Rightarrow> (string \<Rightarrow> bool) \<Rightarrow> desk_input list \<Rightarrow> bool" where
  "received k P hist \<longleftrightarrow> (\<exists>raw. IServer \<lparr>evType = k, evRaw = raw\<rparr> \<in> set hist \<and> P raw)"

definition briefed :: "desk \<Rightarrow> bool" where
  "briefed d \<longleftrightarrow>
     injAttention (responseAttentionBriefing d) = responseAttention d \<and>
     inject_message (injRole (responseAttentionBriefing d)) (injText (responseAttentionBriefing d)) \<in> set (wire (client d)) \<and>
     create_response (attentionRequestID d) \<in> set (wire (client d))"

definition evidence :: "desk_input list \<Rightarrow> desk \<Rightarrow> bool" where
  "evidence hist d \<longleftrightarrow>
     (responseAttention d \<noteq> [] \<longrightarrow> briefed d) \<and>
     (responseCreateEventID d \<noteq> '''' \<longrightarrow> responseCreateEventID d = attentionRequestID d \<longrightarrow>
        attentionResponseID d = '''') \<and>
     (attentionResponseID d \<noteq> '''' \<longrightarrow> received EvResponseCreated
        (\<lambda>raw. ExtractResponseRef raw = \<lparr>refID = attentionResponseID d, refRequestID = attentionRequestID d\<rparr>) hist) \<and>
     (attentionAudioStarted d \<longrightarrow> attentionResponseID d \<noteq> '''' \<and>
        received EvOutputAudioStarted (\<lambda>raw. ExtractAudioResponseID raw = attentionResponseID d) hist) \<and>
     (attentionAudioStopped d \<longrightarrow> attentionResponseID d \<noteq> '''' \<and>
        received EvOutputAudioStopped (\<lambda>raw. ExtractAudioResponseID raw = attentionResponseID d) hist) \<and>
     (attentionResponseDone d \<longrightarrow> attentionResponseID d \<noteq> '''' \<and>
        received EvResponseDone (\<lambda>raw. refID (ExtractResponseRef raw) = attentionResponseID d \<and>
          ExtractResponseStatus raw = ''completed'') hist)"

text \<open>The fields the evidence is about.\<close>

definition correlation :: "desk \<Rightarrow> string \<times> nat list \<times> string \<times> string \<times> bool \<times> bool \<times> bool \<times> injection" where
  "correlation d = (responseCreateEventID d, responseAttention d, attentionRequestID d, attentionResponseID d, attentionResponseDone d,
     attentionAudioStarted d, attentionAudioStopped d, responseAttentionBriefing d)"

definition same_correlation :: "desk \<Rightarrow> desk \<Rightarrow> bool" where
  "same_correlation d d' \<longleftrightarrow> correlation d' = correlation d \<and> set (wire (client d)) \<subseteq> set (wire (client d'))"

lemma received_mono: "received k P hist \<Longrightarrow> set hist \<subseteq> set hist' \<Longrightarrow> received k P hist'"
  by (auto simp: received_def)

lemma evidence_same:
  assumes "evidence hist d" "same_correlation d d'" "set hist \<subseteq> set hist'"
  shows "evidence hist' d'"
  using assms received_mono [OF _ assms(3)]
  by (simp add: evidence_def same_correlation_def correlation_def briefed_def subset_iff)

lemma evidence_none: "responseAttention d = [] \<Longrightarrow> attentionResponseID d = '''' \<Longrightarrow> \<not> attentionAudioStarted d \<Longrightarrow>
   \<not> attentionAudioStopped d \<Longrightarrow> \<not> attentionResponseDone d \<Longrightarrow> evidence hist d"
  by (simp add: evidence_def)

lemma evidence_reset [simp]: "evidence hist (resetResponseAttention d)"
  by (rule evidence_none) (simp_all add: resetResponseAttention_def)

lemma same_refl [simp]: "same_correlation d d"
  by (simp add: same_correlation_def)

lemma same_trans: "same_correlation d d1 \<Longrightarrow> same_correlation d1 d2 \<Longrightarrow> same_correlation d d2"
  by (auto simp: same_correlation_def)

lemma send_wire: "set (wire c) \<subseteq> set (wire (snd (rt_send v c)))"
  "rt_send v c = (None, c') \<Longrightarrow> wire c' = wire c @ [v]"
  by (auto simp: rt_send_def Let_def split: option.splits prod.splits if_splits)

lemma client_same: "on_client (rt_send v) d = (e, d') \<Longrightarrow> same_correlation d d'"
  using send_wire(1) [of "client d" v]
  by (auto simp: same_correlation_def correlation_def on_client_def split: prod.splits)

lemma client_fields:
  "on_client f d = (e, d') \<Longrightarrow> \<exists>c. d' = d\<lparr>client := c\<rparr>"
  by (auto simp: on_client_def split: prod.splits)

section \<open>What was written stays written\<close>

abbreviation written :: "desk \<Rightarrow> json set" where
  "written d \<equiv> set (wire (client d))"

lemma written_small [simp]:
  "written (on_fsm g d) = written d" "written (publishState st r d) = written d"
  "written (queueInject i d) = written d" "written (queueUrgent i d) = written d" "written (queueAttentionRetry i d) = written d"
  "written (resetResponseAttention d) = written d" "written (requeueResponseAttention d) = written d"
  "written (finishActiveResponseIfDrained d) = written d" "written (startToolBatch cs d) = written d"
  by (simp_all add: on_fsm_def publishState_def queueInject_def queueUrgent_def queueAttentionRetry_def
      resetResponseAttention_def requeueResponseAttention_def finishActiveResponseIfDrained_def startToolBatch_def)

lemma written_client: "on_client (rt_send v) d = (e, d') \<Longrightarrow> written d \<subseteq> written d'"
  using client_same by (auto simp: same_correlation_def)

lemma written_request:
  assumes "requestResponseFor att b d = (e, d')"
  shows "written d \<subseteq> written d'"
proof -
  obtain ok f where t: "TryStartResponse (dclock d (dticks d)) (dfsm d) = (ok, f)" by fastforce
  let ?d0 = "d\<lparr>dticks := Suc (dticks d)\<rparr>"
  let ?i = "response_event_id (dclock d (dticks d)) (next_seq ?d0)"
  let ?d = "open_request att b ?i (?d0\<lparr>dfsm := f\<rparr>)"
  obtain x d1 where c: "on_client (CreateResponse ?i) ?d = (x, d1)" by fastforce
  then have "written ?d \<subseteq> written d1" unfolding CreateResponse_def by (rule written_client)
  then have "written d \<subseteq> written d1" by (simp add: open_request_def)
  then show ?thesis using assms t c
    by (auto simp: requestResponseFor_def with_now_def split: bool.splits option.splits)
qed

lemma written_maybe_create:
  assumes "maybeCreateResponse d = (e, d')"
  shows "written d \<subseteq> written d'"
proof -
  obtain x d1 where r: "requestResponse d = (x, d1)" by fastforce
  then have "written d \<subseteq> written d1" unfolding requestResponse_def by (rule written_request)
  then show ?thesis using assms r by (auto simp: maybeCreateResponse_def split: if_splits option.splits)
qed

section \<open>Operations keep the evidence\<close>

lemma evidence_requeue: "evidence hist d \<Longrightarrow> evidence hist (requeueResponseAttention d)"
  by (auto simp: requeueResponseAttention_def queueAttentionRetry_def evidence_def resetResponseAttention_def)

text \<open>A request replaces the correlation: nothing has been heard of the new response yet.\<close>

lemma evidence_request:
  assumes "requestResponseFor att b d = (e, d')" "evidence hist d"
    and "att \<noteq> [] \<Longrightarrow> injAttention b = att \<and> inject_message (injRole b) (injText b) \<in> set (wire (client d))"
  shows "evidence hist d'"
proof -
  obtain ok f where t: "TryStartResponse (dclock d (dticks d)) (dfsm d) = (ok, f)" by fastforce
  let ?d0 = "d\<lparr>dticks := Suc (dticks d)\<rparr>"
  let ?i = "response_event_id (dclock d (dticks d)) (next_seq ?d0)"
  let ?d = "open_request att b ?i (?d0\<lparr>dfsm := f\<rparr>)"
  show ?thesis
  proof (cases ok)
    case False
    then have "d' = d\<lparr>dticks := Suc (dticks d)\<rparr>"
      using assms(1) t by (simp add: requestResponseFor_def with_now_def)
    then show ?thesis using assms(2) evidence_same [of hist d d' hist]
      by (simp add: same_correlation_def correlation_def)
  next
    case True
    obtain x d1 where c: "on_client (CreateResponse ?i) ?d = (x, d1)" by fastforce
    obtain cl where f: "d1 = ?d\<lparr>client := cl\<rparr>" using client_fields [OF c] by blast
    have none: "attentionResponseID d1 = ''''" "\<not> attentionAudioStarted d1" "\<not> attentionAudioStopped d1"
      "\<not> attentionResponseDone d1" "responseAttention d1 = att" "responseAttentionBriefing d1 = b"
      "att \<noteq> [] \<Longrightarrow> attentionRequestID d1 = ?i" by (simp_all add: f open_request_def)
    show ?thesis
    proof (cases x)
      case None
      then have "d' = d1" using assms(1) t True c by (simp add: requestResponseFor_def with_now_def Let_def)
      moreover have "wire (client d1) = wire (client d) @ [create_response ?i]"
        using c None send_wire(2) [of "create_response ?i" "client d"]
        by (auto simp: on_client_def CreateResponse_def open_request_def split: prod.splits)
      ultimately show ?thesis using assms(3) none by (auto simp: evidence_def briefed_def)
    next
      case (Some err)
      then have d': "d' = requeueResponseAttention (on_fsm (ResponseDone (dclock d1 (dticks d1)))
           (d1\<lparr>dticks := Suc (dticks d1), responseCreateEventID := ''''\<rparr>))"
        using assms(1) t True c by (simp add: requestResponseFor_def with_now_def Let_def)
      show ?thesis
      proof (cases "att = []")
        case True
        then show ?thesis using none unfolding d'
          by (intro evidence_none) (simp_all add: requeueResponseAttention_def on_fsm_def)
      next
        case False
        then show ?thesis using none unfolding d'
          by (intro evidence_none)
            (simp_all add: requeueResponseAttention_def on_fsm_def queueAttentionRetry_def resetResponseAttention_def)
      qed
    qed
  qed
qed

text \<open>The other fields do not matter.\<close>

lemma evidence_fields [simp]:
  "evidence hist (d\<lparr>dfsm := a1\<rparr>) = evidence hist d" "evidence hist (d\<lparr>inject := a2\<rparr>) = evidence hist d"
  "evidence hist (d\<lparr>urgent := a2\<rparr>) = evidence hist d" "evidence hist (d\<lparr>pendingUserTurn := a3\<rparr>) = evidence hist d"
  "evidence hist (d\<lparr>pendingContinuation := a3\<rparr>) = evidence hist d"
  "evidence hist (d\<lparr>activeResponseID := a4\<rparr>) = evidence hist d"
  "evidence hist (d\<lparr>activeResponseDone := a3\<rparr>) = evidence hist d"
  "evidence hist (d\<lparr>activeResponseAudio := a3\<rparr>) = evidence hist d"
  "evidence hist (d\<lparr>runningTools := a5\<rparr>) = evidence hist d" "evidence hist (d\<lparr>toolResults := a6\<rparr>) = evidence hist d"
  "evidence hist (d\<lparr>attentionRetry := a7\<rparr>) = evidence hist d" "evidence hist (d\<lparr>side_store := a8\<rparr>) = evidence hist d"
  "evidence hist (d\<lparr>states := a9\<rparr>) = evidence hist d" "evidence hist (d\<lparr>dticks := a10\<rparr>) = evidence hist d"
  "evidence hist (d\<lparr>lastInjection := a11\<rparr>) = evidence hist d" "evidence hist (d\<lparr>pendingQuestion := a3\<rparr>) = evidence hist d"
  by (simp_all add: evidence_def briefed_def)

lemma evidence_settled [simp]: "evidence hist d \<Longrightarrow> evidence hist (d\<lparr>responseCreateEventID := ''''\<rparr>)"
  by (simp add: evidence_def briefed_def)

lemma evidence_small [simp]:
  "evidence hist (on_fsm g d) = evidence hist d" "evidence hist (publishState st r d) = evidence hist d"
  "evidence hist (queueInject i d) = evidence hist d" "evidence hist (queueUrgent i d) = evidence hist d"
  "evidence hist (queueAttentionRetry i d) = evidence hist d"
  "evidence hist (finishActiveResponseIfDrained d) = evidence hist d"
  "evidence hist (announce_live d) = evidence hist d" "evidence hist (startToolBatch cs d) = evidence hist d"
  "evidence hist (InjectUserText t d) = evidence hist d" "evidence hist (deskSetClientState m h d) = evidence hist d"
  "evidence hist (deskRequestPark d) = evidence hist d" "evidence hist (snd (nextInjection d)) = evidence hist d"
  by (simp_all add: on_fsm_def publishState_def queueInject_def queueUrgent_def queueAttentionRetry_def
      finishActiveResponseIfDrained_def announce_live_def startToolBatch_def InjectUserText_def
      deskSetClientState_def deskRequestPark_def with_now_def nextInjection_def split: option.split list.split)

lemma evidence_mono: "evidence hist d \<Longrightarrow> set hist \<subseteq> set hist' \<Longrightarrow> evidence hist' d"
  by (rule evidence_same [OF _ same_refl])

lemma evidence_write: "on_client (rt_send v) d = (e, d') \<Longrightarrow> evidence hist d \<Longrightarrow> evidence hist d'"
  using evidence_same [OF _ client_same] by blast

lemma evidence_maybe_create:
  assumes "maybeCreateResponse d = (e, d')" "evidence hist d"
  shows "evidence hist d'"
proof -
  obtain x d1 where r: "requestResponse d = (x, d1)" by fastforce
  then have "evidence hist d1" using evidence_request assms(2) unfolding requestResponse_def by blast
  then show ?thesis using assms r by (auto simp: maybeCreateResponse_def split: if_splits option.splits)
qed

lemma evidence_inject:
  assumes "doInject i d = (e, d')" "evidence hist d"
  shows "evidence hist d'"
proof -
  obtain x d1 where m: "on_client (InjectMessage (injRole i) (injText i)) d = (x, d1)" by fastforce
  then have e1: "evidence hist d1" using evidence_write assms(2) unfolding InjectMessage_def by blast
  show ?thesis
  proof (cases "x = None \<and> injRespond i")
    case True
    then have "inject_message (injRole i) (injText i) \<in> set (wire (client d1))"
      using m send_wire(2) [of "inject_message (injRole i) (injText i)" "client d"]
      by (auto simp: on_client_def InjectMessage_def split: prod.splits)
    moreover obtain y d2 where r: "requestResponseFor (injAttention i) i d1 = (y, d2)" by fastforce
    ultimately have "evidence hist d2" using evidence_request [OF r e1] by simp
    then show ?thesis using assms(1) m r True by (auto simp: doInject_def split: option.splits)
  next
    case False
    then show ?thesis using assms(1) m e1 by (auto simp: doInject_def split: option.splits if_splits)
  qed
qed

lemma evidence_outputs: "write_outputs outs d = (e, d') \<Longrightarrow> evidence hist d \<Longrightarrow> evidence hist d'"
proof (induction outs d rule: write_outputs.induct)
  case (2 fc out rest d)
  obtain x d1 where w: "on_client (FunctionOutput (fcCallID fc) (encodeFunctionOutput fc out)) d = (x, d1)"
    by fastforce
  then have "evidence hist d1" using evidence_write "2.prems"(2) unfolding FunctionOutput_def by blast
  then show ?case using "2.IH" [OF w [symmetric]] "2.prems"(1) w by (auto split: option.splits)
qed simp

lemma evidence_finish:
  assumes "finishToolBatch b d = (e, d')" "evidence hist d"
  shows "evidence hist d'"
proof -
  obtain x d1 where w: "write_outputs (zip (calls b) (outputs b)) d = (x, d1)" by fastforce
  then have "evidence hist d1" using evidence_outputs assms(2) by blast
  then show ?thesis using assms(1) w evidence_maybe_create
    by (auto simp: finishToolBatch_def Let_def split: option.splits if_splits)
qed

lemma evidence_flush: "evidence hist d \<Longrightarrow> evidence hist (flush_injection now d)"
proof -
  assume e: "evidence hist d"
  obtain x d1 where n: "nextInjection d = (x, d1)" by fastforce
  then have e1: "evidence hist d1" using e evidence_small(12) [of hist d] by simp
  show ?thesis
  proof (cases x)
    case (Some i)
    obtain y d2 where "doInject i d1 = (y, d2)" by fastforce
    moreover from evidence_inject [OF this e1] have "evidence hist d2" .
    ultimately show ?thesis using e n Some by (simp add: flush_injection_def split: option.split)
  qed (use e n e1 in \<open>simp add: flush_injection_def\<close>)
qed

lemma evidence_tick: "tick_desk d = (r, d') \<Longrightarrow> evidence hist d \<Longrightarrow> evidence hist d'"
proof -
  assume t: "tick_desk d = (r, d')" and e: "evidence hist d"
  let ?d1 = "flush_injection (dclock d (dticks d)) (d\<lparr>dticks := Suc (dticks d)\<rparr>)"
  have e1: "evidence hist ?d1" using e by (simp add: evidence_flush)
  obtain park why quiet f where k: "Tick (dclock d (dticks d)) (dfsm ?d1) = ((park, why, quiet), f)"
    by (metis surj_pair)
  have c: "evidence hist (snd (on_client CancelResponse x))" if "evidence hist x" for x
    using evidence_write that unfolding CancelResponse_def by (metis prod.collapse)
  show ?thesis using t e1 c k
    by (auto simp: tick_desk_def with_now_def Let_def split: if_splits prod.splits)
qed

text \<open>Tools touch the desk only to park it.\<close>

lemma tool_desk: "fst (snd (execTool jerr D fc (d, w))) = d \<or> fst (snd (execTool jerr D fc (d, w))) = deskRequestPark d"
proof -
  have a: "fst (snd (answer_with g f (d, w))) = d" for g f
    by (simp add: answer_with_def split: prod.split sum.split)
  have b: "fst (snd (case dActive D w of (Inl e, w) \<Rightarrow> (tool_fail e, d, w) | (Inr js, w) \<Rightarrow> (f js, d, w))) = d"
    for f by (simp split: prod.split sum.split)
  have i: "P x \<Longrightarrow> P y \<Longrightarrow> P (if c then x else y)" for P c and x y :: "string \<times> (desk \<times> 'a)" by simp
  show ?thesis unfolding execTool_def Let_def fst_conv snd_conv
    by (intro i [of "\<lambda>x. fst (snd x) = d \<or> fst (snd x) = deskRequestPark d"]) (simp_all add: a b)
qed

lemma evidence_calls: "evidence hist d \<Longrightarrow> evidence hist (fst (snd (exec_calls jerr D cs order outs (d, w))))"
proof (induction order arbitrary: outs d w)
  case (Cons i order)
  obtain out d1 w1 where e: "execTool jerr D (cs ! i) (d, w) = (out, (d1, w1))" by (metis surj_pair)
  with tool_desk [of jerr D "cs ! i" d w] Cons.prems have "evidence hist d1" by auto
  with Cons.IH show ?case by (simp add: e)
qed simp

lemma evidence_batch:
  assumes "evidence hist d"
  shows "evidence hist (fst (run_batch jerr D k order (d, w)))"
proof -
  let ?c = "exec_calls jerr D (runningTools d ! k) order (replicate (length (runningTools d ! k)) '''') (d, w)"
  obtain outs d1 w1 where c: "?c = (outs, (d1, w1))" by (metis surj_pair)
  from evidence_calls [OF assms] c have "evidence hist d1" by (metis fst_conv snd_conv)
  then show ?thesis using assms c by (simp add: run_batch_def Let_def)
qed

end
