(* ===== verification/Board.thy ===== *)
theory Board
  imports Desk_Laws Walk_Safety
begin

text \<open>
  The dispatcher over the Hermes bridge, as the voice desk uses it: every operation leaves unspoken
  attention rows unspoken, so it is a \<open>quiet_board\<close>.
\<close>

definition bridge_dispatcher :: "(string \<Rightarrow> db \<Rightarrow> error + db) \<Rightarrow> hermes dispatcher" where
  "bridge_dispatcher q = job_dispatcher q HermesCancel ReleaseRun HermesDecideApproval"

section \<open>Jobs\<close>

lemma attentions_update:
  assumes "UpdateJobTx tm i m d = Inr (j, d')"
  shows "set (attentions d) \<subseteq> set (attentions d')"
  using assms
  by (auto simp: UpdateJobTx_def note_transition_def insert_attention_def put_job_def Let_def
      split: option.splits if_splits prod.splits)

lemma unspoken_subset: "set (attentions d) \<subseteq> set (attentions d') \<Longrightarrow> unspoken a d \<Longrightarrow> unspoken a d'"
  by (auto simp: unspoken_def)

lemma body_unspoken: "update_body i mut tm d = Inr (x, d') \<Longrightarrow> unspoken a d \<Longrightarrow> unspoken a d'"
  using unspoken_subset [OF attentions_update] by (cases x) (auto simp: update_body_UpdateJobTx)

lemma quiet_update: "keeps_unspoken a w (snd (update_job i mut w))"
  unfolding update_job_def by (rule keeps_unspoken_transact) (rule body_unspoken)

lemma quiet_query: "keeps_unspoken a w (snd (query f w))"
  by (simp add: keeps_unspoken_def others_quiet_def)

interpretation sp: delivery_walk "keeps_unspoken a" for a
proof (unfold_locales, goal_cases)
  case (2 w w1 w2)
  then show ?case by (rule keeps_unspoken_trans)
next
  case (4 w w1 r m i)
  then show ?case using keeps_unspoken_trans quiet_update by blast
next
  case (5 w)
  then show ?case by (simp add: keeps_unspoken_def others_quiet_def)
next
  case (6 f w)
  then show ?case by (intro keeps_unspoken_transact) (metis unspoken_subset order_refl)
next
  case (3 m w i)
  show ?case by (rule quiet_update)
next
  case (11 m w i)
  show ?case by (rule quiet_update)
qed (auto simp: keeps_unspoken_def others_quiet_def)

section \<open>The operations of the dispatcher\<close>

definition quiet_queue :: "(string \<Rightarrow> db \<Rightarrow> error + db) \<Rightarrow> bool" where
  "quiet_queue q \<longleftrightarrow> (\<forall>i d d'. q i d = Inr d' \<longrightarrow> attentions d' = attentions d)"

lemma quiet_EnqueueRunTx: "quiet_queue (EnqueueRunTx out)"
  by (simp add: quiet_queue_def EnqueueRunTx_def split: option.split)

lemma enqueue_unspoken:
  "quiet_queue q \<Longrightarrow> enqueue_or q what r i d = Inr (x, d') \<Longrightarrow> unspoken a d \<Longrightarrow> unspoken a d'"
  by (auto simp: enqueue_or_def quiet_queue_def unspoken_def split: sum.splits)

lemma quiet_bind:
  assumes "keeps_unspoken a w (snd m)" "\<And>r w1. m = (Inr r, w1) \<Longrightarrow> keeps_unspoken a w1 (snd (k r w1))"
  shows "keeps_unspoken a w (snd (bindE m k))"
proof (cases m)
  case (Pair x w1)
  then show ?thesis using assms keeps_unspoken_trans by (cases x) fastforce+
qed

lemma quiet_claim_and_enqueue:
  assumes "quiet_queue q"
  shows "keeps_unspoken a w (snd (claim_and_enqueue q what wr refused i mut w))"
  unfolding claim_and_enqueue_def
proof (rule keeps_unspoken_transact)
  fix t d r d'
  assume b: "(case update_body i mut t d of Inl e \<Rightarrow> Inl e
      | Inr ((claimed, j), d') \<Rightarrow> if \<not> claimed then Inl (refused j) else enqueue_or q what j (jID j) d') = Inr (r, d')"
    and u: "unspoken a d"
  from b obtain c j d1 where c: "update_body i mut t d = Inr ((c, j), d1)" "enqueue_or q what j (jID j) d1 = Inr (r, d')"
    by (auto split: sum.splits if_splits)
  show "unspoken a d'" by (rule enqueue_unspoken [OF assms c(2) body_unspoken [OF c(1) u]])
qed

lemma quiet_dispatch:
  assumes "quiet_queue q"
  shows "keeps_unspoken a w (snd (Dispatch q n t w))"
proof -
  let ?f = "\<lambda>name tm d. case CreateJobTx tm (freshID w (txs w)) name t d of
      Inl e \<Rightarrow> Inl e | Inr (j, d') \<Rightarrow> enqueue_or q ''enqueue: '' j (jID j) d'"
  have "keeps_unspoken a w (snd (transact (\<lambda>e. EWrap ''commit dispatch: '' e '''') (?f name) w))" for name
  proof (rule keeps_unspoken_transact)
    fix tm d r d'
    assume b: "?f name tm d = Inr (r, d')" and u: "unspoken a d"
    from b obtain j d1 where c: "CreateJobTx tm (freshID w (txs w)) name t d = Inr (j, d1)"
        "enqueue_or q ''enqueue: '' j (jID j) d1 = Inr (r, d')" by (auto split: sum.splits)
    then have "unspoken a d1" using u by (auto simp: CreateJobTx_def Let_def unspoken_def split: if_splits)
    then show "unspoken a d'" by (rule enqueue_unspoken [OF assms c(2)])
  qed
  then show ?thesis
    by (auto simp: Dispatch_def publishQueuedJob_def split: sum.split intro!: quiet_bind)
qed

lemma quiet_lookup: "keeps_unspoken a w (snd (lookup_job r w))"
  unfolding lookup_job_def by (rule quiet_query)

lemma quiet_hermes:
  "keeps_unspoken a w (HermesCancel i w)" "keeps_unspoken a w (snd (ReleaseRun i r w))"
  "keeps_unspoken a w (snd (HermesDecideApproval i x n d w))"
  using sp.w_cancel sp.w_op [OF op_release [OF prod.collapse [symmetric]]] sp.w_decide [OF prod.collapse [symmetric]]
  by blast+

lemma quiet_cancel: "keeps_unspoken a w (snd (Cancel HermesCancel ref w))"
  unfolding Cancel_def
  by (intro quiet_bind quiet_lookup)
    (auto simp: publishCancelledJob_def intro!: quiet_bind quiet_update
      intro: keeps_unspoken_trans [OF keeps_unspoken_publish quiet_hermes(1)])

lemma quiet_answer: "quiet_queue q \<Longrightarrow> keeps_unspoken a w (snd (Answer q ref t w))"
  unfolding Answer_def
  by (intro quiet_bind quiet_lookup)
    (auto simp: publishQueuedJob_def intro!: quiet_bind quiet_claim_and_enqueue)

lemma quiet_decide: "keeps_unspoken a w (snd (DecideApproval HermesDecideApproval ref i n d w))"
  unfolding DecideApproval_def by (intro quiet_bind quiet_lookup) (simp add: quiet_hermes(3))

lemma quiet_rename: "keeps_unspoken a w (snd (Rename ref t w))"
  by (auto simp: Rename_def split: sum.split intro!: quiet_bind quiet_lookup quiet_update)

lemma quiet_resume:
  assumes "quiet_queue q"
  shows "keeps_unspoken a w (snd (Resume q ReleaseRun ref w))"
  unfolding Resume_def
proof (intro quiet_bind quiet_lookup)
  fix j0 :: job and w1
  let ?rel = "if HermesRunID j0 \<noteq> '''' then ReleaseRun (jID j0) (HermesRunID j0) w1 else (None, w1)"
  obtain x w2 where r: "?rel = (x, w2)" by (rule prod.exhaust)
  have k: "keeps_unspoken a w1 w2"
    using r quiet_hermes(2) [of a w1 "jID j0" "HermesRunID j0"] by (auto split: if_splits)
  have c: "keeps_unspoken a w1 (snd (bindE (claim_and_enqueue q what wr f i m w2) (\<lambda>j w. (Inr j, publishQueuedJob j w))))"
    for what wr f i m
    by (rule keeps_unspoken_trans [OF k], rule quiet_bind, rule quiet_claim_and_enqueue [OF assms])
      (simp add: publishQueuedJob_def)
  show "keeps_unspoken a w1 (snd (if Status j0 \<noteq> Failed \<and> Status j0 \<noteq> ParkedApproval
       then (Inl (EText (describe j0 ('' is '' @ status_text (Status j0) @
              ''; only failed or parked-approval jobs can be resumed''))), w1)
       else let expectedRunID = HermesRunID j0 in
         case (if expectedRunID \<noteq> '''' then ReleaseRun (jID j0) expectedRunID w1 else (None, w1)) of
           (Some e, w) \<Rightarrow>
             (Inl (EWrap (''release prior Hermes run '' @ expectedRunID @ '': '') e ''''), w)
         | (None, w) \<Rightarrow>
             bindE (claim_and_enqueue q ''resume enqueue: '' (\<lambda>e. EWrap ''commit resume: '' e '''')
                 (\<lambda>j. EText (describe j ('' is '' @ status_text (Status j) @
                    ''; another resume or state transition won the race'')))
                 (jID j0) (resume_mut (Status j0) expectedRunID) w)
               (\<lambda>j w. (Inr j, publishQueuedJob j w))))"
    unfolding Let_def r using k c by (cases x) simp_all
qed

text \<open>Whatever the outcome \<open>out\<close> of River's insert.\<close>

interpretation board: quiet_board "bridge_dispatcher (EnqueueRunTx out)" a for out a
  by unfold_locales
    (simp_all add: bridge_dispatcher_def job_dispatcher_def quiet_dispatch quiet_cancel quiet_resume quiet_answer
      quiet_decide quiet_rename quiet_lookup quiet_query quiet_EnqueueRunTx)

end
