(* ===== verification/Desk_Ack.thy ===== *)
theory Desk_Ack
  imports Board
begin

text \<open>
  The evidence through the event handlers and the run loop, and what follows: an attention row is marked
  spoken only when the response that carried it completed and its audio both started and stopped.
\<close>

section \<open>Acknowledging\<close>

definition heard :: "nat \<Rightarrow> desk_input list \<Rightarrow> desk \<Rightarrow> bool" where
  "heard a hist d \<longleftrightarrow> a \<in> set (responseAttention d) \<and> evidence hist d \<and> attentionResponseDone d \<and>
     attentionAudioStarted d \<and> attentionAudioStopped d"

text \<open>The rows stay unspoken but for those heard.\<close>

definition honest :: "nat \<Rightarrow> desk_input list \<Rightarrow> 'a world_scheme \<Rightarrow> desk \<times> 'a world_scheme \<Rightarrow> bool" where
  "honest a hist w dw \<longleftrightarrow> evidence hist (fst dw) \<and> 
     (keeps_unspoken a w (snd dw) \<or> (\<exists>d. heard a hist d \<and> written d \<subseteq> written (fst dw)))"

lemma honestI: "evidence hist d' \<Longrightarrow> keeps_unspoken a w w' \<Longrightarrow> honest a hist w (d', w')"
  by (simp add: honest_def)

lemma honest_refl: "evidence hist d' \<Longrightarrow> honest a hist w (d', w)"
  by (simp add: honest_def)

lemma honest_then:
  assumes "honest a hist w (d1, w1)" "evidence hist d1 \<Longrightarrow> evidence hist d2" "keeps_unspoken a w1 w2"
    and "written d1 \<subseteq> written d2"
  shows "honest a hist w (d2, w2)"
  using assms keeps_unspoken_trans by (fastforce simp: honest_def)

lemma honest_create:
  assumes "honest a hist w (d1, w1)"
  shows "honest a hist w (snd (lift_desk maybeCreateResponse (d1, w1)))"
proof -
  obtain e d2 where "maybeCreateResponse d1 = (e, d2)" by fastforce
  with assms evidence_maybe_create written_maybe_create show ?thesis by (fastforce simp: honest_def)
qed

lemma honest_acknowledge:
  assumes "evidence hist d"
  shows "honest a hist w (maybeAcknowledgeAttention (d, w))"
proof (cases "responseAttention d = [] \<or> \<not> attentionResponseDone d \<or> \<not> attentionAudioStarted d \<or>
    \<not> attentionAudioStopped d")
  case True
  then show ?thesis using assms by (simp add: maybeAcknowledgeAttention_def honest_refl)
next
  case False
  let ?f = "\<lambda>now x. Inr (MarkAttentionSpoken (attentionClaimToken d) (responseAttention d) now x)"
  obtain r w' where t: "transact (\<lambda>e. e) ?f w = (r :: error + nat, w')" by fastforce
  have k: "keeps_unspoken a w w'" if "a \<notin> set (responseAttention d)"
  proof -
    have "keeps_unspoken a w (snd (transact (\<lambda>e. e) ?f w))"
    proof (rule keeps_unspoken_transact)
      fix now x n x'
      assume "?f now x = Inr (n, x')" "unspoken a x"
      then show "unspoken a x'" using mark_unspoken [OF that] by (metis Inr_inject snd_conv)
    qed
    then show ?thesis by (simp add: t)
  qed
  have h: "heard a hist d" if "a \<in> set (responseAttention d)"
    using that assms False by (simp add: heard_def)
  show ?thesis using t assms k h False
    by (cases "a \<in> set (responseAttention d)")
      (auto simp: maybeAcknowledgeAttention_def honest_def split: sum.splits)
qed

lemma honest_claim:
  assumes "claimAttention busy t (d, w) = (items, (d', w'))" "evidence hist d"
  shows "honest a hist w (d', w')"
proof -
  have "keeps_unspoken a w (snd (transact (\<lambda>e. e)
      (\<lambda>now. ClaimPendingAttention (attentionClaimToken d) 20 (minutes 60) t now busy) w))"
    by (rule keeps_unspoken_transact) (rule claim_unspoken)
  then show ?thesis using assms by (auto simp: claimAttention_def honest_def split: prod.splits sum.splits)
qed

section \<open>Handlers\<close>

lemma received_now:
  "IServer ev \<in> set hist \<Longrightarrow> evType ev = k \<Longrightarrow> P (evRaw ev) \<Longrightarrow> received k P hist"
  by (cases ev) (auto simp: received_def intro: exI [of _ "evRaw ev"])

lemma evidence_created:
  assumes "evidence hist d" "IServer ev \<in> set hist" "evType ev = EvResponseCreated"
  shows "evidence hist (handle_created tm (evRaw ev) d)"
proof -
  let ?ref = "ExtractResponseRef (evRaw ev)"
  show ?thesis
  proof (cases "refID ?ref = '''' \<or> refRequestID ?ref = '''' \<or> refRequestID ?ref \<noteq> responseCreateEventID d")
    case False
    let ?d = "on_fsm (ResponseStarted tm) (d\<lparr>responseCreateEventID := '''', activeResponseID := refID ?ref,
                 activeResponseDone := False, activeResponseAudio := False\<rparr>)"
    have e: "evidence hist ?d" using assms(1) by simp
    show ?thesis
    proof (cases "responseAttention ?d \<noteq> [] \<and> refRequestID ?ref = attentionRequestID ?d")
      case True
      then have "?ref = \<lparr>refID = refID ?ref, refRequestID = attentionRequestID d\<rparr>" by (simp add: on_fsm_def)
      with assms(2,3) have r: "received EvResponseCreated
          (\<lambda>raw. ExtractResponseRef raw = \<lparr>refID = refID ?ref, refRequestID = attentionRequestID d\<rparr>) hist"
        by (intro received_now)
      have "evidence hist (?d\<lparr>attentionResponseID := refID ?ref\<rparr>)"
        using e r True False assms(1) by (auto simp: evidence_def briefed_def on_fsm_def)
      then show ?thesis unfolding handle_created_def Let_def by (simp only: if_not_P [OF False] if_P [OF True])
    next
      case n: False
      show ?thesis unfolding handle_created_def Let_def by (simp only: if_not_P [OF False] if_not_P [OF n] e)
    qed
  qed (use assms(1) in \<open>auto simp: handle_created_def Let_def\<close>)
qed

lemma evidence_audio_started:
  assumes "evidence hist d" "IServer ev \<in> set hist" "evType ev = EvOutputAudioStarted"
  shows "evidence hist (handle_audio_started tm (evRaw ev) d)"
proof -
  have "received EvOutputAudioStarted (\<lambda>raw. ExtractAudioResponseID raw = ExtractAudioResponseID (evRaw ev)) hist"
    using assms(2,3) by (rule received_now) simp
  then show ?thesis using assms(1)
    by (auto simp: handle_audio_started_def Let_def evidence_def briefed_def on_fsm_def matchesAttentionResponse_def)
qed

lemma honest_audio_stopped:
  assumes "evidence hist d" "IServer ev \<in> set hist" "evType ev = EvOutputAudioStopped"
  shows "honest a hist w (snd (handle_audio_stopped tm (evRaw ev) (d, w)))"
proof -
  let ?i = "ExtractAudioResponseID (evRaw ev)"
  let ?d = "on_fsm (AudioStopped tm) (d\<lparr>activeResponseAudio := False\<rparr>)"
  have r: "received EvOutputAudioStopped (\<lambda>raw. ExtractAudioResponseID raw = ?i) hist"
    using assms(2,3) by (rule received_now) simp
  have e: "evidence hist ?d" using assms(1) by simp
  have "honest a hist w (if responseAttention ?d \<noteq> [] \<and> matchesAttentionResponse ?i ?d
      then maybeAcknowledgeAttention (?d\<lparr>attentionAudioStopped := True\<rparr>, w) else (?d, w))"
  proof (cases "responseAttention ?d \<noteq> [] \<and> matchesAttentionResponse ?i ?d")
    case True
    then have e2: "evidence hist (?d\<lparr>attentionAudioStopped := True\<rparr>)"
      using e r by (auto simp: evidence_def briefed_def on_fsm_def matchesAttentionResponse_def)
    show ?thesis by (simp only: if_P [OF True] honest_acknowledge [OF e2])
  next
    case False
    show ?thesis by (simp only: if_not_P [OF False] honest_refl [OF e])
  qed
  moreover obtain d1 w1 where p: "(if responseAttention ?d \<noteq> [] \<and> matchesAttentionResponse ?i ?d
      then maybeAcknowledgeAttention (?d\<lparr>attentionAudioStopped := True\<rparr>, w) else (?d, w)) = (d1, w1)"
    by (rule prod.exhaust)
  ultimately have h: "honest a hist w (d1, w1)" by (simp only:)
  then have "honest a hist w (snd (lift_desk maybeCreateResponse (finishActiveResponseIfDrained d1, w1)))"
    by (intro honest_create) (auto intro: honest_then)
  moreover have "honest a hist w (d, w)" by (rule honest_refl [OF assms(1)])
  ultimately show ?thesis using p unfolding handle_audio_stopped_def Let_def by simp
qed

lemma evidence_cleared:
  assumes "handle_audio_cleared tm raw d = (e, d')" "evidence hist d"
  shows "evidence hist d'"
  using assms evidence_maybe_create evidence_requeue
  by (fastforce simp: handle_audio_cleared_def Let_def split: if_splits)

lemma honest_settle:
  assumes "evidence hist d" "IServer ev \<in> set hist" "evType ev = EvResponseDone"
    and "i = refID (ExtractResponseRef (evRaw ev))" "i \<noteq> ''''" "status = ExtractResponseStatus (evRaw ev)"
  shows "honest a hist w (settle_briefing i status (d, w))"
proof (cases "responseAttention d \<noteq> [] \<and> i = attentionResponseID d")
  case True
  have s: "honest a hist w (if status = ''completed''
      then maybeAcknowledgeAttention (d\<lparr>attentionResponseDone := True\<rparr>, w) else (d, w))"
  proof (cases "status = ''completed''")
    case c: True
    with assms(2,3) have r: "received EvResponseDone (\<lambda>raw. refID (ExtractResponseRef raw) = i \<and>
        ExtractResponseStatus raw = ''completed'') hist"
      using assms(4,6) by (intro received_now) auto
    then have "evidence hist (d\<lparr>attentionResponseDone := True\<rparr>)"
      using assms(1,5) True by (auto simp: evidence_def briefed_def)
    then show ?thesis using honest_acknowledge c by simp
  qed (use honest_refl [OF assms(1)] in simp)
  moreover obtain d1 w1 where h1: "(if status = ''completed''
      then maybeAcknowledgeAttention (d\<lparr>attentionResponseDone := True\<rparr>, w) else (d, w)) = (d1, w1)"
    by (rule prod.exhaust)
  ultimately have h2: "honest a hist w (d1, w1)" by (simp only:)
  have "honest a hist w (requeueResponseAttention d1, w1)"
    by (rule honest_then [OF h2]) (simp_all add: evidence_requeue)
  then show ?thesis using True h1 h2 unfolding settle_briefing_def by simp
next
  case False
  then show ?thesis using honest_refl [OF assms(1)] by (auto simp: settle_briefing_def)
qed

lemma honest_done:
  assumes "evidence hist d" "IServer ev \<in> set hist" "evType ev = EvResponseDone"
  shows "honest a hist w (snd (handle_done tm (evRaw ev) (d, w)))"
proof (cases "matchesActiveResponse (refID (ExtractResponseRef (evRaw ev))) d")
  case True
  let ?i = "refID (ExtractResponseRef (evRaw ev))" and ?st = "ExtractResponseStatus (evRaw ev)"
  let ?d = "on_fsm (ResponseDone tm) (d\<lparr>responseCreateEventID := '''', activeResponseDone := True\<rparr>)"
  obtain d1 w1 where s: "settle_briefing ?i ?st (?d, w) = (d1, w1)" by fastforce
  have h1: "honest a hist w (d1, w1)"
    using honest_settle [of hist ?d ev ?i ?st a w] assms True by (simp add: s matchesActiveResponse_def)
  let ?w2 = "if ?st \<noteq> '''' \<and> ?st \<noteq> ''completed''
     then voice_error [(''message'', ''voice response ended with status '' @ ?st), (''status'', ?st)] w1 else w1"
  let ?d2 = "if pendingQuestion d1 then on_fsm (QuestionVoiced tm) (d1\<lparr>pendingQuestion := False\<rparr>) else d1"
  obtain d3 w3 where u: "record_usage (ExtractUsage (evRaw ev)) (?d2, ?w2) = (d3, w3)" by fastforce
  have "honest a hist w (?d2, ?w2)" using h1 by (rule honest_then) (simp_all add: voice_error_def)
  then have "honest a hist w (d3, w3)" by (rule honest_then) (use u in \<open>auto simp: record_usage_def split: if_splits\<close>)
  then have h4: "honest a hist w (finishActiveResponseIfDrained d3, w3)" by (rule honest_then) simp_all
  then have "honest a hist w (startToolBatch cs (finishActiveResponseIfDrained d3), w3)" for cs
    by (rule honest_then) simp_all
  with honest_create [OF h4] True s u show ?thesis
    unfolding handle_done_def by (simp add: Let_def)
qed (use honest_refl [OF assms(1)] in \<open>simp add: handle_done_def\<close>)

lemma honest_error:
  assumes "evidence hist d"
  shows "honest a hist w (handle_error tm raw (d, w))"
  using assms evidence_requeue
  by (simp add: handle_error_def Let_def honest_def voice_error_def)

lemma honest_server:
  assumes "evidence hist d" "IServer ev \<in> set hist"
  shows "honest a hist w (snd (handleServer ev (d, w)))"
proof -
  let ?d = "d\<lparr>dticks := Suc (dticks d)\<rparr>" and ?t = "dclock d (dticks d)"
  have e: "evidence hist ?d" using assms(1) by simp
  obtain x d1 where c: "handle_audio_cleared ?t (evRaw ev) ?d = (x, d1)" by fastforce
  have e1: "evidence hist d1" by (rule evidence_cleared [OF c e])
  have "honest a hist w (snd (lift_desk maybeCreateResponse (?d\<lparr>pendingUserTurn := True\<rparr>, w)))"
    by (rule honest_create) (simp add: honest_def assms(1))
  moreover have "honest a hist w (?d, publish_text k s w)" for k s
    using e by (simp add: honest_def publish_text_def)
  moreover note evidence_created [OF e assms(2), of ?t] evidence_audio_started [OF e assms(2), of ?t]
    honest_audio_stopped [OF e assms(2), of a w ?t] honest_done [OF e assms(2), of a w ?t] honest_error [OF e, of a w ?t "evRaw ev"]
  ultimately show ?thesis using e e1 c
    by (simp add: handleServer_def with_now_def honest_def)
qed

section \<open>The loop\<close>

lemma honest_announce:
  assumes "evidence hist d"
  shows "honest a hist w (announce kind payload busy t (d, w))"
proof -
  obtain items d1 w1 where c: "claimAttention busy t (d, w) = (items, (d1, w1))" by (metis surj_pair)
  with honest_claim [OF c assms, of a] show ?thesis
    by (auto simp: announce_def honest_def split: option.split)
qed

text \<open>The states of a call whose dispatcher sits on the Hermes bridge, with the inputs processed so far.\<close>

inductive desk_reach ::
  "(string \<Rightarrow> string) \<Rightarrow> hermes dispatcher \<Rightarrow> desk_input list \<Rightarrow> desk \<times> hermes \<Rightarrow> bool" for jerr D where
  reach_call: "start_call base face tools model D busy t (New cfg tok c s ck, w) = (Inr (), dw) \<Longrightarrow>
     desk_reach jerr D [] dw"
| reach_input: "desk_reach jerr D hist dw \<Longrightarrow> loop_step jerr D i dw = (None, dw') \<Longrightarrow>
     desk_reach jerr D (hist @ [i]) dw'"

lemma evidence_New: "evidence hist (New cfg tok c s ck)"
  by (rule evidence_none) (simp_all add: New_def)

lemma start_evidence:
  assumes "start_call base face tools model D busy t (New cfg tok c s ck, w) = (Inr (), (d, w'))"
  shows "evidence [] d"
proof -
  let ?n = "New cfg tok c s ck"
  obtain ins d1 w1 where b: "buildInstructions base face D (?n, w) = (ins, (d1, w1))" by (metis surj_pair)
  then have e1: "evidence [] d1" using evidence_New by (auto simp: buildInstructions_def Let_def split: prod.splits)
  obtain x d2 where u: "on_client (SessionUpdate ins tools model) d1 = (x, d2)" by fastforce
  then have e2: "evidence [] d2" using evidence_write e1 unfolding SessionUpdate_def by blast
  let ?d3 = "publishState LIVE '''' (with_now (\<lambda>now. on_fsm (CallStarted now)) d2)"
  have e3: "evidence [] ?d3" using e2 by (simp add: with_now_def)
  obtain items d4 w4 where k: "claimAttention busy t (?d3, w1) = (items, (d4, w4))" by (metis surj_pair)
  have "evidence [] d4" using honest_claim [OF k e3] by (simp add: honest_def)
  then show ?thesis using assms b u k
    by (auto simp: start_call_def Let_def split: option.splits prod.splits)
qed

lemma step_honest:
  assumes "evidence hist d"
    and "loop_step jerr (bridge_dispatcher (EnqueueRunTx out)) i (d, w) = (r, dw')"
    and s: "set hist \<subseteq> set hist'" "i \<in> set hist'"
  shows "honest a hist' w dw'"
proof -
  have e: "evidence hist' d" by (rule evidence_mono [OF assms(1) s(1)])
  have k: "evidence hist' x \<Longrightarrow> honest a hist' w (x, w)" for x by (rule honest_refl)
  show ?thesis
  proof (cases i)
    case (IServer ev)
    then show ?thesis using assms(2) honest_server [OF e, of ev a w] s(2) by (auto simp: loop_step_def)
  next
    case IBatch
    have "evidence hist' (snd (finishToolBatch b (d\<lparr>toolResults := bs\<rparr>)))" for b bs
      using evidence_finish [OF prod.collapse [symmetric], where hist = hist' and b = b and d = "d\<lparr>toolResults := bs\<rparr>"] e by simp
    then show ?thesis using assms(2) e IBatch
      by (auto simp: loop_step_def intro: k split: list.splits)
  next
    case (IBus kind payload busy t)
    then show ?thesis using assms(2) honest_announce [OF e] by (auto simp: loop_step_def)
  next
    case ITick
    obtain r1 d1 where "tick_desk d = (r1, d1)" by fastforce
    with evidence_tick [OF this e] show ?thesis using assms(2) ITick k by (auto simp: loop_step_def)
  next
    case (IToolsDone k order)
    let ?dw = "run_batch jerr (bridge_dispatcher (EnqueueRunTx out)) k order (d, w)"
    have "keeps_unspoken a w (snd ?dw)" by (rule board.batch_quiet)
    moreover have "evidence hist' (fst ?dw)" by (rule evidence_batch [OF e])
    ultimately have "honest a hist' w (fst ?dw, snd ?dw)" by (intro honestI)
    then show ?thesis using assms(2) IToolsDone by (simp add: loop_step_def)
  qed (use assms(2) e k in \<open>auto simp: loop_step_def ExplicitPark_def Disconnected_def\<close>)
qed

lemma reach_evidence:
  "desk_reach jerr (bridge_dispatcher (EnqueueRunTx out)) hist dw \<Longrightarrow> evidence hist (fst dw)"
proof (induction rule: desk_reach.induct)
  case (reach_call base face tools model busy t cfg tok c s ck w dw)
  then show ?case using start_evidence by (cases dw) auto
next
  case (reach_input hist dw i dw')
  then show ?case using step_honest [of hist "fst dw" jerr out i "snd dw" None dw' "hist @ [i]" 0]
    by (auto simp: honest_def)
qed

text \<open>
  C1. A briefing counts as spoken only when it was heard.  If an input of a call marks the attention row
  \<open>a\<close> spoken, then a briefing with \<open>a\<close> in it was injected, a response was requested with a correlation id
  of its own, the provider created a response for that very request, the output audio of that response
  started and stopped, and the response completed; all of it is among the frames written and the events
  received.  This holds for every order of events, concurrent tool calls on the Hermes bridge included, and
  every fault of the database and the sideband, as long as nobody else marks the row.
\<close>

theorem spoken_only_after_heard:
  assumes "desk_reach jerr (bridge_dispatcher (EnqueueRunTx out)) hist (d, w)"
    and "loop_step jerr (bridge_dispatcher (EnqueueRunTx out)) i (d, w) = (r, (d', w'))"
    and "others_quiet a w" and "unspoken a (wdb w)" and "\<not> unspoken a (wdb w')"
  shows "\<exists>(b :: injection) req rid. a \<in> set (injAttention b) \<and> rid \<noteq> '''' \<and>
     inject_message (injRole b) (injText b) \<in> written d' \<and> create_response req \<in> written d' \<and>
     received EvResponseCreated (\<lambda>raw. ExtractResponseRef raw = \<lparr>refID = rid, refRequestID = req\<rparr>) (hist @ [i]) \<and>
     received EvOutputAudioStarted (\<lambda>raw. ExtractAudioResponseID raw = rid) (hist @ [i]) \<and>
     received EvOutputAudioStopped (\<lambda>raw. ExtractAudioResponseID raw = rid) (hist @ [i]) \<and>
     received EvResponseDone (\<lambda>raw. refID (ExtractResponseRef raw) = rid \<and>
       ExtractResponseStatus raw = ''completed'') (hist @ [i])"
proof -
  have "evidence hist d" using reach_evidence [OF assms(1)] by simp
  from step_honest [OF this assms(2), of "hist @ [i]" a] have "honest a (hist @ [i]) w (d', w')" by auto
  moreover have "\<not> keeps_unspoken a w w'" using assms(3-5) by (simp add: keeps_unspoken_def)
  ultimately obtain x where h: "heard a (hist @ [i]) x" "written x \<subseteq> written d'" by (auto simp: honest_def)
  then have "briefed x" by (auto simp: heard_def evidence_def)
  moreover from h(1) have e: "evidence (hist @ [i]) x" and "attentionAudioStarted x" "attentionAudioStopped x"
      "attentionResponseDone x" "a \<in> set (responseAttention x)" by (simp_all add: heard_def)
  moreover from this have "attentionResponseID x \<noteq> ''''" by (simp add: evidence_def)
  ultimately have all: "a \<in> set (injAttention (responseAttentionBriefing x)) \<and> attentionResponseID x \<noteq> '''' \<and>
     inject_message (injRole (responseAttentionBriefing x)) (injText (responseAttentionBriefing x)) \<in> written d' \<and>
     create_response (attentionRequestID x) \<in> written d'"
    using h(2) by (auto simp: briefed_def)
  show ?thesis
    by (intro exI [of _ "responseAttentionBriefing x"] exI [of _ "attentionRequestID x"]
        exI [of _ "attentionResponseID x"] conjI)
      (use all e h(1) in \<open>simp_all add: evidence_def heard_def\<close>)
qed

end
