(* ===== verification/Realtime_Laws.thy ===== *)
theory Realtime_Laws
  imports Realtime
begin

text \<open>
  What the sideband client writes comes back recognisable: the correlation id of a request survives its way
  into the metadata of the response the provider creates for it.
\<close>

section \<open>ASCII texts\<close>

definition ascii :: "string \<Rightarrow> bool" where
  "ascii s \<longleftrightarrow> list_all (\<lambda>c. byte c < 128) s"

lemma ascii_simps [simp]:
  "ascii []" "ascii (c # s) = (byte c < 128 \<and> ascii s)" "ascii (s @ t) = (ascii s \<and> ascii t)"
  by (simp_all add: ascii_def)

lemma ascii_runes: "ascii s \<Longrightarrow> runes s = map byte s"
  by (induction s) (simp_all add: runes_def segments_ascii)

lemma ascii_valid: "ascii s \<Longrightarrow> valid_text s"
proof -
  assume a: "ascii s"
  have "of_runes (map byte s) = s" using a
    by (induction s) (simp_all add: of_runes_def encode_ascii byte_def)
  with a show ?thesis by (simp add: valid_text_def ascii_runes)
qed

lemma ascii_key: "ascii k \<Longrightarrow> ascii f \<Longrightarrow> same_key k f = (map (fold_rune \<circ> byte) k = map (fold_rune \<circ> byte) f)"
  by (simp add: same_key_def ascii_runes)

lemma ascii_nat_text [simp]: "ascii (nat_text n)"
  by (induction n rule: nat_text.induct) (subst nat_text.simps, auto)

lemmas key_simps = ascii_key byte_def fold_rune_def

section \<open>Correlation\<close>

text \<open>The event of a provider that copies the metadata of the request into the response, as documented.\<close>

definition created_for :: "string \<Rightarrow> json \<Rightarrow> json" where
  "created_for rid request = JObj [(''type'', JStr EvResponseCreated),
     (''response'', JObj [(''id'', JStr rid),
        (''metadata'', the (json_get ''metadata'' (json_get ''response'' (Some request))))])]"

lemma created_for_response: "created_for rid (create_response ev) = JObj [(''type'', JStr EvResponseCreated),
    (''response'', JObj [(''id'', JStr rid), (''metadata'', JObj [(requestMetadataKey, JStr ev)])])]"
  by (simp add: created_for_def create_response_def key_simps)

lemma created_for_parse:
  assumes "valid_text rid" "valid_text ev"
  shows "json_parse (json_text (created_for rid (create_response ev))) = Some (created_for rid (create_response ev))"
  unfolding created_for_response
  by (rule json_roundtrip) (simp_all add: assms ascii_valid byte_def requestMetadataKey_def EvResponseCreated_def)

text \<open>
  Correlation survives the round trip.  When the provider creates a response for a request and copies
  the request's metadata into it, \<open>ExtractResponseRef\<close> reads from that event exactly the provider's
  response id and the event id that \<open>CreateResponse\<close> was given.
\<close>

lemma correlation_roundtrip:
  assumes "valid_text rid" and "valid_text ev"
  shows "ExtractResponseRef (json_text (created_for rid (create_response ev))) = \<lparr>refID = rid, refRequestID = ev\<rparr>"
  unfolding ExtractResponseRef_def response_of_def created_for_parse [OF assms]
  by (simp add: created_for_response key_simps requestMetadataKey_def)

end
