(* ===== verification/Desk_Demo.thy ===== *)
theory Desk_Demo
  imports Desk_Ack Realtime_Laws
begin

text \<open>
  A call worked through: one attention row is claimed, briefed, spoken and acknowledged.  It is the witness
  of the desk's properties.
\<close>

section \<open>Provider events\<close>

lemma ascii_event_id: "ascii (response_event_id t n)"
  by (simp add: response_event_id_def int_text_def byte_def)

definition created_raw :: "string \<Rightarrow> string" where
  "created_raw ev = json_text (JObj [(''response'', JObj [(''id'', JStr ''r1''),
     (''metadata'', JObj [(requestMetadataKey, JStr ev)])])])"

definition audio_raw :: string where
  "audio_raw = json_text (JObj [(''response_id'', JStr ''r1'')])"

definition done_raw :: string where
  "done_raw = json_text (JObj [(''response'', JObj [(''id'', JStr ''r1''), (''status'', JStr ''completed'')])])"

lemmas event_json = ascii_valid byte_def requestMetadataKey_def

lemma created_parse: "ascii ev \<Longrightarrow> json_parse (created_raw ev) = Some (JObj [(''response'', JObj [(''id'', JStr ''r1''),
     (''metadata'', JObj [(requestMetadataKey, JStr ev)])])])"
  unfolding created_raw_def by (rule json_roundtrip) (simp_all add: event_json)

lemma audio_parse: "json_parse audio_raw = Some (JObj [(''response_id'', JStr ''r1'')])"
  unfolding audio_raw_def by (rule json_roundtrip) (simp_all add: event_json)

lemma done_parse: "json_parse done_raw = Some (JObj [(''response'', JObj [(''id'', JStr ''r1''), (''status'', JStr ''completed'')])])"
  unfolding done_raw_def by (rule json_roundtrip) (simp_all add: event_json)

lemma created_ref: "ascii ev \<Longrightarrow> ExtractResponseRef (created_raw ev) = \<lparr>refID = ''r1'', refRequestID = ev\<rparr>"
  by (simp add: ExtractResponseRef_def response_of_def created_parse key_simps requestMetadataKey_def)

lemma audio_id: "ExtractAudioResponseID audio_raw = ''r1''"
  by (simp add: ExtractAudioResponseID_def audio_parse key_simps)

lemma done_facts: "refID (ExtractResponseRef done_raw) = ''r1''" "ExtractResponseStatus done_raw = ''completed''"
  "ExtractFuncCalls done_raw = []" "ExtractUsage done_raw = \<lparr>InputTokens = 0, OutputTokens = 0\<rparr>"
  by (simp_all add: ExtractResponseRef_def ExtractResponseStatus_def ExtractFuncCalls_def ExtractUsage_def
      response_of_def done_parse key_simps map_filter_simps)

section \<open>The call\<close>

definition demo_row :: attention where
  "demo_row = \<lparr>atID = 7, atJob = ''j'', atVersion = 1, atKind = Done, SpeechText = ''ok'', PushTitle = '''',
     PushBody = '''', atCreated = 0, atToken = '''', atUntil = None, atSpoken = None\<rparr>"

definition demo_world :: "string \<Rightarrow> instant option \<Rightarrow> nat \<Rightarrow> hermes" where
  "demo_world token until n = demo_hermes\<lparr>wdb := empty_db\<lparr>attentions := [demo_row\<lparr>atToken := token, atUntil := until\<rparr>]\<rparr>,
     txs := n\<rparr>"

definition demo_desk :: desk where
  "demo_desk = New (DefaultFSMConfig (minutes 1) (minutes 5) (minutes 50)) ''t''
     \<lparr>wire = [], writes = 0, wfault = (\<lambda>_. None)\<rparr>
     \<lparr>stab = \<lparr>summaries = Map.empty, ledger = []\<rparr>, sops = 0, sclock = (\<lambda>_. 0), sfault = (\<lambda>_. None),
       smeddle = (\<lambda>_ t. t)\<rparr> (\<lambda>n. seconds 100)"

abbreviation demo_board :: "hermes dispatcher" where
  "demo_board \<equiv> bridge_dispatcher (EnqueueRunTx None)"

abbreviation demo_jerr :: "string \<Rightarrow> string" where
  "demo_jerr \<equiv> (\<lambda>_. ''invalid'')"

definition demo_fsm :: fsm where
  "demo_fsm = CallStarted (seconds 100) (NewFSM (DefaultFSMConfig (minutes 1) (minutes 5) (minutes 50)))"

definition demo_briefing :: injection where
  "demo_briefing = the (attentionBriefing [demo_row])"

definition demo_ev :: string where
  "demo_ev = response_event_id (seconds 100) 1"

lemmas demo_call_simps = start_call_def buildInstructions_def GetSummary_def side_op_def on_client_def
  SessionUpdate_def rt_send_def publishState_def with_now_def on_fsm_def CallStarted_def claimAttention_def
  transact_def query_def ClaimPendingAttention_def candidates_def claim_limit_def attention_ready_def lease_free_def
  attentionBriefing_def bridge_dispatcher_def job_dispatcher_def Let_def demo_hermes_def empty_db_def NewFSM_def

lemma demo_start:
  "\<exists>d. start_call '''' (\<lambda>_. '''') [] ''m'' demo_board {} 0 (demo_desk, demo_world '''' None 0) =
     (Inr (), (d, demo_world ''t'' (Some (minutes 60)) 2)) \<and>
   dfsm d = demo_fsm \<and> attentionRetry d = None \<and> urgent d = [demo_briefing] \<and> wfault (client d) = (\<lambda>_. None) \<and>
   dclock d = (\<lambda>n. seconds 100) \<and> lastInjection d = zero_time \<and> responseSeq d = 0 \<and> attentionClaimToken d = ''t'' \<and>
   \<not> pendingUserTurn d \<and> \<not> pendingContinuation d"
  by (simp add: demo_call_simps demo_desk_def New_def demo_world_def demo_fsm_def demo_row_def demo_briefing_def
      time_add_def)

text \<open>The lull: the briefing is injected and a response requested.\<close>

definition asked :: "desk \<Rightarrow> bool" where
  "asked d \<longleftrightarrow> responseCreateEventID d = demo_ev \<and> attentionRequestID d = demo_ev \<and> responseAttention d = [7] \<and>
     attentionClaimToken d = ''t'' \<and> \<not> pendingUserTurn d \<and> \<not> pendingContinuation d \<and> \<not> pendingQuestion d \<and>
     \<not> attentionResponseDone d \<and> \<not> attentionAudioStopped d"

lemma demo_tick:
  assumes "dfsm d = demo_fsm" "attentionRetry d = None" "urgent d = [demo_briefing]" "wfault (client d) = (\<lambda>_. None)"
    "dclock d = (\<lambda>n. seconds 100)" "lastInjection d = zero_time" "responseSeq d = 0" "attentionClaimToken d = ''t''"
    "\<not> pendingUserTurn d" "\<not> pendingContinuation d"
  shows "\<exists>d'. loop_step jerr D ITick (d, w) = (None, (d', w)) \<and> asked d'"
  by (simp add: loop_step_def tick_desk_def with_now_def flush_injection_def demo_fsm_def CallStarted_def NewFSM_def
      CanStartResponse_def nextInjection_def doInject_def on_client_def InjectMessage_def rt_send_def
      requestResponseFor_def Let_def demo_briefing_def attentionBriefing_def demo_row_def TryStartResponse_def
      CreateResponse_def next_seq_def open_request_def Tick_def seconds_def minutes_def time_sub_def zero_time_def
      max_duration_def min_duration_def DefaultFSMConfig_def time_before_def asked_def demo_ev_def assms)

text \<open>The provider's answer: created, audio started, audio stopped, completed.\<close>

abbreviation server :: "string \<Rightarrow> string \<Rightarrow> desk_input" where
  "server k raw \<equiv> IServer \<lparr>evType = k, evRaw = raw\<rparr>"

definition answering :: "bool \<Rightarrow> bool \<Rightarrow> desk \<Rightarrow> bool" where
  "answering started stopped d \<longleftrightarrow> activeResponseID d = ''r1'' \<and> attentionResponseID d = ''r1'' \<and>
     responseAttention d = [7] \<and> attentionClaimToken d = ''t'' \<and> \<not> pendingUserTurn d \<and> \<not> pendingContinuation d \<and>
     \<not> pendingQuestion d \<and> \<not> attentionResponseDone d \<and> activeResponseDone d = False \<and>
     (started \<longrightarrow> attentionAudioStarted d) \<and> attentionAudioStopped d = stopped"

lemma demo_created:
  assumes "asked d"
  shows "\<exists>d'. loop_step jerr D (server EvResponseCreated (created_raw demo_ev)) (d, w) = (None, (d', w)) \<and>
    answering False False d'"
proof -
  have "ascii demo_ev" by (simp add: demo_ev_def ascii_event_id)
  moreover have "demo_ev \<noteq> ''''" by (simp add: demo_ev_def response_event_id_def)
  ultimately show ?thesis using assms
    by (simp add: loop_step_def handleServer_def with_now_def event_names handle_created_def created_ref Let_def
        on_fsm_def asked_def answering_def)
qed

lemma demo_audio_on:
  assumes "answering False False d"
  shows "\<exists>d'. loop_step jerr D (server EvOutputAudioStarted audio_raw) (d, w) = (None, (d', w)) \<and> answering True False d'"
  using assms
  by (simp add: loop_step_def handleServer_def with_now_def event_names handle_audio_started_def audio_id Let_def
      on_fsm_def answering_def matchesActiveResponse_def matchesAttentionResponse_def)

lemma demo_audio_off:
  assumes "answering True False d"
  shows "\<exists>d'. loop_step jerr D (server EvOutputAudioStopped audio_raw) (d, w) = (None, (d', w)) \<and> answering True True d'"
  using assms
  by (simp add: loop_step_def handleServer_def with_now_def event_names handle_audio_stopped_def audio_id Let_def
      on_fsm_def answering_def matchesActiveResponse_def matchesAttentionResponse_def maybeAcknowledgeAttention_def
      finishActiveResponseIfDrained_def maybeCreateResponse_def)

lemma demo_done:
  assumes "answering True True d"
  shows "\<exists>d' w'. loop_step jerr D (server EvResponseDone done_raw) (d, demo_world ''t'' (Some u) 2) = (None, (d', w')) \<and>
    \<not> unspoken 7 (wdb w')"
  using assms
  by (simp add: loop_step_def handleServer_def with_now_def event_names handle_done_def done_facts Let_def
      on_fsm_def answering_def matchesActiveResponse_def settle_briefing_def maybeAcknowledgeAttention_def
      transact_def demo_world_def demo_hermes_def empty_db_def MarkAttentionSpoken_def held_attention_def demo_row_def
      resetResponseAttention_def record_usage_def i64_def finishActiveResponseIfDrained_def maybeCreateResponse_def
      unspoken_def)

lemma demo_speaking:
  "\<exists>d. desk_reach demo_jerr demo_board [ITick, server EvResponseCreated (created_raw demo_ev)]
     (d, demo_world ''t'' (Some (minutes 60)) 2) \<and> answering False False d"
proof -
  let ?w = "demo_world ''t'' (Some (minutes 60)) 2"
  obtain d0 where c: "start_call '''' (\<lambda>_. '''') [] ''m'' demo_board {} 0 (demo_desk, demo_world '''' None 0) =
      (Inr (), (d0, ?w))" and f: "dfsm d0 = demo_fsm" "attentionRetry d0 = None" "urgent d0 = [demo_briefing]"
      "wfault (client d0) = (\<lambda>_. None)" "dclock d0 = (\<lambda>n. seconds 100)" "lastInjection d0 = zero_time"
      "responseSeq d0 = 0" "attentionClaimToken d0 = ''t''" "\<not> pendingUserTurn d0" "\<not> pendingContinuation d0"
    using demo_start by blast
  have r0: "desk_reach demo_jerr demo_board [] (d0, ?w)"
    using c unfolding demo_desk_def by (rule reach_call)
  obtain d1 where s1: "loop_step demo_jerr demo_board ITick (d0, ?w) = (None, (d1, ?w))" "asked d1"
    using demo_tick [OF f] by blast
  obtain d2 where s2: "loop_step demo_jerr demo_board (server EvResponseCreated (created_raw demo_ev)) (d1, ?w) =
      (None, (d2, ?w))" "answering False False d2" using demo_created [OF s1(2)] by blast
  from reach_input [OF reach_input [OF r0 s1(1)] s2(1)] s2(2) show ?thesis by auto
qed

lemma demo_history:
  "\<exists>d d' w'. desk_reach demo_jerr demo_board [ITick, server EvResponseCreated (created_raw demo_ev),
       server EvOutputAudioStarted audio_raw, server EvOutputAudioStopped audio_raw]
       (d, demo_world ''t'' (Some (minutes 60)) 2) \<and>
     loop_step demo_jerr demo_board (server EvResponseDone done_raw) (d, demo_world ''t'' (Some (minutes 60)) 2) =
       (None, (d', w')) \<and> \<not> unspoken 7 (wdb w')"
proof -
  let ?w = "demo_world ''t'' (Some (minutes 60)) 2"
  obtain d2 where r2: "desk_reach demo_jerr demo_board [ITick, server EvResponseCreated (created_raw demo_ev)] (d2, ?w)"
    "answering False False d2" using demo_speaking by blast
  obtain d3 where s3: "loop_step demo_jerr demo_board (server EvOutputAudioStarted audio_raw) (d2, ?w) =
      (None, (d3, ?w))" "answering True False d3" using demo_audio_on [OF r2(2)] by blast
  obtain d4 where s4: "loop_step demo_jerr demo_board (server EvOutputAudioStopped audio_raw) (d3, ?w) =
      (None, (d4, ?w))" "answering True True d4" using demo_audio_off [OF s3(2)] by blast
  have "desk_reach demo_jerr demo_board [ITick, server EvResponseCreated (created_raw demo_ev),
       server EvOutputAudioStarted audio_raw, server EvOutputAudioStopped audio_raw] (d4, ?w)"
    using reach_input [OF reach_input [OF r2(1) s3(1)] s4(1)] by simp
  then show ?thesis using demo_done [OF s4(2)] by fastforce
qed

lemma spoken_only_after_heard_witness:
  "\<exists>(b :: injection) req rid d'. 7 \<in> set (injAttention b) \<and> rid \<noteq> '''' \<and>
     inject_message (injRole b) (injText b) \<in> written d' \<and> create_response req \<in> written d' \<and>
     received EvOutputAudioStopped (\<lambda>raw. ExtractAudioResponseID raw = rid)
       [ITick, server EvResponseCreated (created_raw demo_ev), server EvOutputAudioStarted audio_raw,
        server EvOutputAudioStopped audio_raw, server EvResponseDone done_raw]"
proof -
  let ?w = "demo_world ''t'' (Some (minutes 60)) 2"
  obtain d d' w' where h: "desk_reach demo_jerr demo_board [ITick, server EvResponseCreated (created_raw demo_ev),
       server EvOutputAudioStarted audio_raw, server EvOutputAudioStopped audio_raw] (d, ?w)"
    and s: "loop_step demo_jerr demo_board (server EvResponseDone done_raw) (d, ?w) = (None, (d', w'))"
    and u: "\<not> unspoken 7 (wdb w')" using demo_history by blast
  have "others_quiet 7 ?w" "unspoken 7 (wdb ?w)"
    by (simp_all add: others_quiet_def unspoken_def demo_world_def demo_hermes_def demo_row_def)
  from spoken_only_after_heard [OF h s this u] show ?thesis by auto
qed

end
