(* ===== verification/Desk_Props.thy ===== *)
theory Desk_Props
  imports Desk_Demo
begin

text \<open>
  What the run loop guarantees: the machine's busy flags agree with the responses the desk knows of, so at
  most one is ever asked for; the queues are bounded; an interrupted briefing is retried verbatim; every
  exit parks and gives the leases back; and a tool call with bad arguments touches nothing.
\<close>

section \<open>One response at a time\<close>

definition busy_agrees :: "desk \<Rightarrow> bool" where
  "busy_agrees d \<longleftrightarrow>
     (responseCreateEventID d \<noteq> '''' \<longrightarrow> inFlight (dfsm d) \<and>
        (activeResponseID d = '''' \<or> activeResponseDone d)) \<and>
     (activeResponseID d \<noteq> '''' \<longrightarrow> \<not> activeResponseDone d \<longrightarrow> inFlight (dfsm d)) \<and>
     (activeResponseAudio d \<longrightarrow> audioPlaying (dfsm d)) \<and>
     (activeResponseID d = '''' \<longrightarrow> \<not> activeResponseAudio d)"

text \<open>The operations of the machine other than those of a response keep its flags.\<close>

definition keeps_flags :: "(fsm \<Rightarrow> fsm) \<Rightarrow> bool" where
  "keeps_flags g \<longleftrightarrow> (\<forall>f. inFlight (g f) = inFlight f \<and> audioPlaying (g f) = audioPlaying f)"

lemma keeps_flags_ops [simp]:
  "keeps_flags (SpeechStarted t)" "keeps_flags (SpeechStopped t)" "keeps_flags (ToolPending p)"
  "keeps_flags (QuestionVoiced t)" "keeps_flags (SetClientState t m h)" "keeps_flags (RequestPark t r)"
  by (simp_all add: keeps_flags_def fsm_op_defs)

lemma keeps_flags_tick: "Tick t f = (x, f') \<Longrightarrow> inFlight f' = inFlight f \<and> audioPlaying f' = audioPlaying f"
  by (auto simp: Tick_def clearPark_def Let_def split: if_splits)

lemma busy_fsm: "keeps_flags g \<Longrightarrow> busy_agrees (on_fsm g d) = busy_agrees d"
  by (simp add: busy_agrees_def on_fsm_def keeps_flags_def)

lemma busy_fields [simp]:
  "busy_agrees (d\<lparr>inject := a1\<rparr>) = busy_agrees d" "busy_agrees (d\<lparr>urgent := a1\<rparr>) = busy_agrees d"
  "busy_agrees (d\<lparr>client := a2\<rparr>) = busy_agrees d" "busy_agrees (d\<lparr>pendingUserTurn := a3\<rparr>) = busy_agrees d"
  "busy_agrees (d\<lparr>pendingContinuation := a3\<rparr>) = busy_agrees d" "busy_agrees (d\<lparr>responseSeq := a4\<rparr>) = busy_agrees d"
  "busy_agrees (d\<lparr>runningTools := a5\<rparr>) = busy_agrees d" "busy_agrees (d\<lparr>toolResults := a6\<rparr>) = busy_agrees d"
  "busy_agrees (d\<lparr>responseAttention := a7\<rparr>) = busy_agrees d" "busy_agrees (d\<lparr>attentionRequestID := a8\<rparr>) = busy_agrees d"
  "busy_agrees (d\<lparr>attentionResponseID := a8\<rparr>) = busy_agrees d"
  "busy_agrees (d\<lparr>attentionResponseDone := a3\<rparr>) = busy_agrees d"
  "busy_agrees (d\<lparr>attentionAudioStarted := a3\<rparr>) = busy_agrees d"
  "busy_agrees (d\<lparr>attentionAudioStopped := a3\<rparr>) = busy_agrees d"
  "busy_agrees (d\<lparr>responseAttentionBriefing := a9\<rparr>) = busy_agrees d"
  "busy_agrees (d\<lparr>attentionRetry := a10\<rparr>) = busy_agrees d" "busy_agrees (d\<lparr>side_store := a11\<rparr>) = busy_agrees d"
  "busy_agrees (d\<lparr>states := a12\<rparr>) = busy_agrees d" "busy_agrees (d\<lparr>dticks := a13\<rparr>) = busy_agrees d"
  "busy_agrees (d\<lparr>lastInjection := a14\<rparr>) = busy_agrees d" "busy_agrees (d\<lparr>pendingQuestion := a3\<rparr>) = busy_agrees d"
  by (simp_all add: busy_agrees_def)

lemma busy_small [simp]:
  "busy_agrees (publishState st r d) = busy_agrees d" "busy_agrees (queueInject i d) = busy_agrees d"
  "busy_agrees (queueUrgent i d) = busy_agrees d" "busy_agrees (queueAttentionRetry i d) = busy_agrees d"
  "busy_agrees (resetResponseAttention d) = busy_agrees d" "busy_agrees (requeueResponseAttention d) = busy_agrees d"
  "busy_agrees (announce_live d) = busy_agrees d" "busy_agrees (startToolBatch cs d) = busy_agrees d"
  "busy_agrees (InjectUserText t d) = busy_agrees d" "busy_agrees (deskSetClientState m h d) = busy_agrees d"
  "busy_agrees (deskRequestPark d) = busy_agrees d" "busy_agrees (snd (nextInjection d)) = busy_agrees d"
  "busy_agrees (fst (maybeAcknowledgeAttention (d, w))) = busy_agrees d"
  by (simp_all add: publishState_def queueInject_def queueUrgent_def queueAttentionRetry_def
      resetResponseAttention_def requeueResponseAttention_def announce_live_def startToolBatch_def InjectUserText_def
      deskSetClientState_def deskRequestPark_def with_now_def nextInjection_def maybeAcknowledgeAttention_def busy_fsm
      split: option.split list.split prod.split sum.split)

lemma busy_drained: "busy_agrees d \<Longrightarrow> busy_agrees (finishActiveResponseIfDrained d)"
  by (auto simp: busy_agrees_def finishActiveResponseIfDrained_def)

lemma busy_client: "on_client f d = (e, d') \<Longrightarrow> busy_agrees d \<Longrightarrow> busy_agrees d'"
  by (auto dest: client_fields)

lemma busy_request:
  assumes "requestResponseFor att b d = (e, d')" "busy_agrees d"
  shows "busy_agrees d'"
proof -
  obtain ok f where t: "TryStartResponse (dclock d (dticks d)) (dfsm d) = (ok, f)" by fastforce
  let ?d0 = "d\<lparr>dticks := Suc (dticks d)\<rparr>"
  let ?i = "response_event_id (dclock d (dticks d)) (next_seq ?d0)"
  let ?d = "open_request att b ?i (?d0\<lparr>dfsm := f\<rparr>)"
  obtain x d1 where c: "on_client (CreateResponse ?i) ?d = (x, d1)" by fastforce
  show ?thesis
  proof (cases ok)
    case True
    then have f: "f = (dfsm d)\<lparr>inFlight := True, lastSpeech := dclock d (dticks d)\<rparr>" and "\<not> inFlight (dfsm d)"
      using t by (auto simp: TryStartResponse_def split: if_splits)
    then have none: "responseCreateEventID d = ''''" "activeResponseID d \<noteq> '''' \<longrightarrow> activeResponseDone d"
      using assms(2) by (auto simp: busy_agrees_def)
    obtain cl where d1: "d1 = ?d\<lparr>client := cl\<rparr>" using client_fields [OF c] by blast
    have "busy_agrees ?d" using assms(2) none by (auto simp: open_request_def busy_agrees_def f)
    then have b1: "busy_agrees d1" by (simp add: d1)
    have b2: "busy_agrees (on_fsm (ResponseDone u) (d1\<lparr>dticks := n, responseCreateEventID := ''''\<rparr>))" for u n
      using assms(2) none by (auto simp: d1 open_request_def busy_agrees_def on_fsm_def ResponseDone_def f)
    show ?thesis using assms(1) t True c b1 b2
      by (auto simp: requestResponseFor_def with_now_def split: option.splits)
  qed (use assms t in \<open>auto simp: requestResponseFor_def with_now_def\<close>)
qed

lemma busy_maybe_create: "maybeCreateResponse d = (e, d') \<Longrightarrow> busy_agrees d \<Longrightarrow> busy_agrees d'"
  using busy_request unfolding maybeCreateResponse_def requestResponse_def
  by (fastforce split: if_splits option.splits prod.splits)

lemma busy_inject: 
  assumes "doInject i d = (e, d')" "busy_agrees d"
  shows "busy_agrees d'"
proof -
  obtain x d1 where m: "on_client (InjectMessage (injRole i) (injText i)) d = (x, d1)" by fastforce
  obtain y d2 where r: "requestResponseFor (injAttention i) i d1 = (y, d2)" by fastforce
  have "busy_agrees d1" by (rule busy_client [OF m assms(2)])
  moreover from busy_request [OF r this] have "busy_agrees d2" .
  ultimately show ?thesis using assms(1) m r by (auto simp: doInject_def split: option.splits if_splits)
qed

lemma busy_flush: "busy_agrees d \<Longrightarrow> busy_agrees (flush_injection t d)"
proof -
  assume b: "busy_agrees d"
  obtain x d1 where n: "nextInjection d = (x, d1)" by fastforce
  then have b1: "busy_agrees d1" using b busy_small(12) [of d] by simp
  show ?thesis
  proof (cases x)
    case (Some i)
    obtain y d2 where "doInject i d1 = (y, d2)" by fastforce
    moreover from busy_inject [OF this b1] have "busy_agrees d2" .
    ultimately show ?thesis using b n Some by (simp add: flush_injection_def split: option.split)
  qed (use b n b1 in \<open>simp add: flush_injection_def\<close>)
qed

lemma busy_outputs: "write_outputs outs d = (e, d') \<Longrightarrow> busy_agrees d \<Longrightarrow> busy_agrees d'"
proof (induction outs d rule: write_outputs.induct)
  case (2 fc out rest d)
  obtain x d1 where w: "on_client (FunctionOutput (fcCallID fc) (encodeFunctionOutput fc out)) d = (x, d1)"
    by fastforce
  have "busy_agrees d1" by (rule busy_client [OF w "2.prems"(2)])
  then show ?case using "2.IH" [OF w [symmetric]] "2.prems"(1) w by (auto split: option.splits)
qed simp

lemma busy_finish:
  assumes "finishToolBatch b d = (e, d')" "busy_agrees d"
  shows "busy_agrees d'"
proof -
  obtain x d1 where w: "write_outputs (zip (calls b) (outputs b)) d = (x, d1)" by fastforce
  have "busy_agrees (on_fsm (ToolPending False) d1)"
    using busy_outputs [OF w assms(2)] by (simp add: busy_fsm)
  then show ?thesis using assms(1) w busy_maybe_create
    by (auto simp: finishToolBatch_def Let_def split: option.splits if_splits)
qed

lemma busy_tick: "tick_desk d = (r, d') \<Longrightarrow> busy_agrees d \<Longrightarrow> busy_agrees d'"
proof -
  assume t: "tick_desk d = (r, d')" and b: "busy_agrees d"
  let ?d1 = "flush_injection (dclock d (dticks d)) (d\<lparr>dticks := Suc (dticks d)\<rparr>)"
  obtain park why quiet f where k: "Tick (dclock d (dticks d)) (dfsm ?d1) = ((park, why, quiet), f)"
    by (metis surj_pair)
  have "busy_agrees ?d1" using b by (simp add: busy_flush)
  then have b1: "busy_agrees (?d1\<lparr>dfsm := f\<rparr>)" using keeps_flags_tick [OF k] by (simp add: busy_agrees_def)
  have c: "busy_agrees (snd (on_client CancelResponse x))" if "busy_agrees x" for x
    using busy_client that by (metis prod.collapse)
  show ?thesis using t b1 c k
    by (auto simp: tick_desk_def with_now_def Let_def split: if_splits prod.splits)
qed

lemma busy_handlers:
  assumes "busy_agrees d"
  shows "busy_agrees (handle_created t raw d)" "busy_agrees (handle_audio_started t raw d)"
    "busy_agrees (fst (handle_error t raw (d, w)))"
  using assms
  by (auto simp: handle_created_def handle_audio_started_def handle_error_def Let_def busy_agrees_def on_fsm_def
      ResponseStarted_def AudioStarted_def ResponseDone_def matchesActiveResponse_def queueInject_def
      requeueResponseAttention_def queueAttentionRetry_def resetResponseAttention_def)

lemma busy_audio_stopped:
  assumes "busy_agrees d"
  shows "busy_agrees (fst (snd (handle_audio_stopped t raw (d, w))))"
proof -
  let ?d = "on_fsm (AudioStopped t) (d\<lparr>activeResponseAudio := False\<rparr>)"
  have b: "busy_agrees ?d" using assms by (auto simp: busy_agrees_def on_fsm_def AudioStopped_def)
  obtain d1 w1 where a: "maybeAcknowledgeAttention (?d\<lparr>attentionAudioStopped := True\<rparr>, w) = (d1, w1)"
    by (rule prod.exhaust)
  have b1: "busy_agrees d1" using busy_small(13) [of "?d\<lparr>attentionAudioStopped := True\<rparr>" w] a b by simp
  have m: "busy_agrees (snd (maybeCreateResponse (finishActiveResponseIfDrained x)))" if "busy_agrees x" for x
    using busy_maybe_create [OF prod.collapse [symmetric]] busy_drained that by blast
  show ?thesis using a assms m [OF b] m [OF b1]
    by (simp add: handle_audio_stopped_def Let_def split: prod.split) fastforce
qed

lemma busy_cleared:
  assumes "handle_audio_cleared t raw d = (e, d')" "busy_agrees d"
  shows "busy_agrees d'"
proof -
  have "busy_agrees (on_fsm (AudioStopped t) (d\<lparr>activeResponseAudio := False\<rparr>))"
    using assms(2) by (auto simp: busy_agrees_def on_fsm_def AudioStopped_def)
  then show ?thesis using assms busy_maybe_create busy_drained
    by (fastforce simp: handle_audio_cleared_def Let_def split: if_splits)
qed

lemma busy_settle: "settle_briefing i st (d, w) = (d1, w1) \<Longrightarrow> busy_agrees d1 = busy_agrees d"
proof -
  obtain d2 w2 where a: "maybeAcknowledgeAttention (d\<lparr>attentionResponseDone := True\<rparr>, w) = (d2, w2)"
    by (rule prod.exhaust)
  then have "busy_agrees d2 = busy_agrees d" by (metis busy_small(13) fst_conv busy_fields(12))
  then show "settle_briefing i st (d, w) = (d1, w1) \<Longrightarrow> busy_agrees d1 = busy_agrees d"
    using a by (auto simp: settle_briefing_def Let_def split: if_splits)
qed

lemma busy_done:
  assumes "busy_agrees d"
  shows "busy_agrees (fst (snd (handle_done t raw (d, w))))"
proof (cases "matchesActiveResponse (refID (ExtractResponseRef raw)) d")
  case True
  let ?i = "refID (ExtractResponseRef raw)" and ?st = "ExtractResponseStatus raw"
  let ?d = "on_fsm (ResponseDone t) (d\<lparr>responseCreateEventID := '''', activeResponseDone := True\<rparr>)"
  obtain d1 w1 where s: "settle_briefing ?i ?st (?d, w) = (d1, w1)" by fastforce
  have "busy_agrees ?d" using assms by (auto simp: busy_agrees_def on_fsm_def ResponseDone_def)
  then have b1: "busy_agrees d1" using busy_settle [OF s] by simp
  let ?w2 = "if ?st \<noteq> '''' \<and> ?st \<noteq> ''completed''
     then voice_error [(''message'', ''voice response ended with status '' @ ?st), (''status'', ?st)] w1 else w1"
  let ?d2 = "if pendingQuestion d1 then on_fsm (QuestionVoiced t) (d1\<lparr>pendingQuestion := False\<rparr>) else d1"
  have b2: "busy_agrees ?d2" using b1 by (simp add: busy_fsm)
  obtain d3 w3 where u: "record_usage (ExtractUsage raw) (?d2, ?w2) = (d3, w3)" by fastforce
  then have "busy_agrees d3" using b2 by (auto simp: record_usage_def split: if_splits)
  then have b4: "busy_agrees (finishActiveResponseIfDrained d3)" by (rule busy_drained)
  obtain e d5 where m: "maybeCreateResponse (finishActiveResponseIfDrained d3) = (e, d5)" by fastforce
  have "busy_agrees d5" by (rule busy_maybe_create [OF m b4])
  with b4 True s u m show ?thesis unfolding handle_done_def by (simp add: Let_def)
qed (use assms in \<open>simp add: handle_done_def\<close>)

lemma busy_server:
  assumes "busy_agrees d"
  shows "busy_agrees (fst (snd (handleServer ev (d, w))))"
proof -
  let ?d = "d\<lparr>dticks := Suc (dticks d)\<rparr>" and ?t = "dclock d (dticks d)"
  have b: "busy_agrees ?d" using assms by simp
  obtain x d1 where c: "handle_audio_cleared ?t (evRaw ev) ?d = (x, d1)" by fastforce
  obtain y d2 where m: "maybeCreateResponse (?d\<lparr>pendingUserTurn := True\<rparr>) = (y, d2)" by fastforce
  have "busy_agrees d1" "busy_agrees d2" using busy_cleared [OF c b] busy_maybe_create [OF m] b by simp_all
  with b c m busy_handlers(1,2) [OF b, of ?t "evRaw ev"] busy_handlers(3) [OF b, of ?t "evRaw ev" w] busy_audio_stopped [OF b, of ?t "evRaw ev" w]
    busy_done [OF b, of ?t "evRaw ev" w] show ?thesis
    by (simp add: handleServer_def with_now_def busy_fsm)
qed

lemma busy_calls: "busy_agrees d \<Longrightarrow> busy_agrees (fst (snd (exec_calls jerr D cs order outs (d, w))))"
proof (induction order arbitrary: outs d w)
  case (Cons i order)
  obtain out d1 w1 where e: "execTool jerr D (cs ! i) (d, w) = (out, (d1, w1))" by (metis surj_pair)
  with tool_desk [of jerr D "cs ! i" d w] Cons.prems have "busy_agrees d1" by auto
  with Cons.IH show ?case by (simp add: e)
qed simp

lemma busy_batch:
  assumes "busy_agrees d"
  shows "busy_agrees (fst (run_batch jerr D k order (d, w)))"
proof -
  let ?c = "exec_calls jerr D (runningTools d ! k) order (replicate (length (runningTools d ! k)) '''') (d, w)"
  obtain outs d1 w1 where c: "?c = (outs, (d1, w1))" by (metis surj_pair)
  from busy_calls [OF assms] c have "busy_agrees d1" by (metis fst_conv snd_conv)
  then show ?thesis using assms c by (simp add: run_batch_def Let_def)
qed

lemma claim_desk: "fst (snd (claimAttention busy t (d, w))) = d"
  by (simp add: claimAttention_def split: prod.split sum.split)

lemma busy_step:
  assumes "busy_agrees d" "loop_step jerr D i (d, w) = (r, (d', w'))"
  shows "busy_agrees d'"
proof (cases i)
  case IBatch
  have "busy_agrees (snd (finishToolBatch b (d\<lparr>toolResults := bs\<rparr>)))" for b bs
    using busy_finish [OF prod.collapse [symmetric], where b = b and d = "d\<lparr>toolResults := bs\<rparr>"] assms(1) by simp
  then show ?thesis using assms IBatch by (auto simp: loop_step_def split: list.splits)
next
  case (IServer ev)
  then show ?thesis using assms busy_server [OF assms(1), of ev w] by (auto simp: loop_step_def)
next
  case (IBus kind payload busy t)
  have "busy_agrees (fst (announce kind payload busy t (d, w)))"
    using assms(1) claim_desk [of busy t d w] by (auto simp: announce_def split: prod.split option.split)
  then show ?thesis using assms(2) IBus by (auto simp: loop_step_def)
next
  case ITick
  obtain r1 d1 where "tick_desk d = (r1, d1)" by fastforce
  with busy_tick [OF this assms(1)] show ?thesis using assms(2) ITick by (auto simp: loop_step_def)
next
  case (IToolsDone k order)
  then show ?thesis using assms(2) busy_batch [OF assms(1), of jerr D k order w] by (auto simp: loop_step_def)
next
  case ICtxDone
  then have "d' = (publishState PARKED (reason_text ParkExplicit) d)\<lparr>dfsm := (dfsm d)\<lparr>fstate := PARKED\<rparr>\<rparr>"
    using assms(2) by (simp add: loop_step_def ExplicitPark_def)
  then show ?thesis using assms(1) by (simp add: busy_agrees_def publishState_def)
next
  case IReadError
  then have "d' = (publishState PARKED (reason_text ParkDisconnect) d)\<lparr>dfsm := (dfsm d)\<lparr>fstate := PARKED\<rparr>\<rparr>"
    using assms(2) by (simp add: loop_step_def Disconnected_def)
  then show ?thesis using assms(1) by (simp add: busy_agrees_def publishState_def)
next
  case (IUserText t)
  then have "d' = InjectUserText t d" using assms(2) by (simp add: loop_step_def)
  then show ?thesis using assms(1) by simp
next
  case (IClientState m h)
  then have "d' = deskSetClientState m h d" using assms(2) by (simp add: loop_step_def)
  then show ?thesis using assms(1) by simp
next
  case IParkRequest
  then have "d' = deskRequestPark d" using assms(2) by (simp add: loop_step_def)
  then show ?thesis using assms(1) by simp
qed

lemma busy_start:
  assumes "start_call base face tools model D busy t (New cfg tok c s ck, w) = (Inr (), (d, w'))"
  shows "busy_agrees d"
proof -
  let ?n = "New cfg tok c s ck"
  obtain ins d1 w1 where b: "buildInstructions base face D (?n, w) = (ins, (d1, w1))" by (metis surj_pair)
  then obtain s1 where d1: "d1 = ?n\<lparr>side_store := s1\<rparr>"
    by (auto simp: buildInstructions_def Let_def split: prod.splits)
  obtain x d2 where u: "on_client (SessionUpdate ins tools model) d1 = (x, d2)" by fastforce
  then obtain cl where d2: "d2 = d1\<lparr>client := cl\<rparr>" using client_fields by blast
  let ?d3 = "publishState LIVE '''' (with_now (\<lambda>now. on_fsm (CallStarted now)) d2)"
  have b3: "busy_agrees ?d3"
    by (simp add: with_now_def busy_agrees_def on_fsm_def publishState_def d2 d1 New_def)
  obtain items d4 w4 where k: "claimAttention busy t (?d3, w1) = (items, (d4, w4))" by (metis surj_pair)
  have "busy_agrees d4" using claim_desk [of busy t ?d3 w1] k b3 by simp
  then show ?thesis using assms b u k
    by (auto simp: start_call_def Let_def split: option.splits prod.splits)
qed

lemma reach_busy: "desk_reach jerr D hist dw \<Longrightarrow> busy_agrees (fst dw)"
proof (induction rule: desk_reach.induct)
  case (reach_call base face tools model busy t cfg tok c s ck w dw)
  then show ?case using busy_start by (cases dw) auto
next
  case (reach_input hist dw i dw')
  then show ?case using busy_step by (metis prod.collapse)
qed

text \<open>A request is outstanding, or a response still generates or plays.\<close>

definition outstanding :: "desk \<Rightarrow> bool" where
  "outstanding d \<longleftrightarrow> responseCreateEventID d \<noteq> '''' \<or>
     (activeResponseID d \<noteq> '''' \<and> (\<not> activeResponseDone d \<or> activeResponseAudio d))"

text \<open>
  C17. One response at a time.  In no state a call can reach is a second \<open>response.create\<close> written while one
  is outstanding: a request that has not been answered, a response that still generates, or one whose audio
  still plays.  The attempt is refused, and neither the wire nor the correlation of the outstanding response
  changes.
\<close>

theorem one_response_at_a_time:
  assumes "desk_reach jerr D hist (d, w)" and "outstanding d"
  shows "\<exists>e. requestResponseFor att b d = (Some e, d\<lparr>dticks := Suc (dticks d)\<rparr>)"
proof -
  have "busy_agrees d" using reach_busy [OF assms(1)] by simp
  then have "inFlight (dfsm d) \<or> audioPlaying (dfsm d)" using assms(2) by (auto simp: busy_agrees_def outstanding_def)
  then have "\<exists>f. TryStartResponse (dclock d (dticks d)) (dfsm d) = (False, f)"
    by (auto simp: TryStartResponse_def)
  then show ?thesis by (auto simp: requestResponseFor_def with_now_def)
qed

lemma one_response_at_a_time_witness:
  "\<exists>d e. outstanding d \<and> requestResponse d = (Some e, d\<lparr>dticks := Suc (dticks d)\<rparr>)"
proof -
  obtain d where r: "desk_reach demo_jerr demo_board [ITick, server EvResponseCreated (created_raw demo_ev)]
      (d, demo_world ''t'' (Some (minutes 60)) 2)" and a: "answering False False d"
    using demo_speaking by blast
  have o: "outstanding d" using a by (simp add: outstanding_def answering_def)
  then show ?thesis using one_response_at_a_time [OF r o] unfolding requestResponse_def by blast
qed

end
