(* ===== verification/Desk_Exit.thy ===== *)
theory Desk_Exit
  imports Desk_Demo
begin

text \<open>
  Two promises of the run loop to the durable outbox: a briefing that was cut off is the next thing said,
  word for word, and every exit parks the session and gives its leases back.
\<close>

section \<open>Interrupted briefings\<close>

lemma create_keeps_retry:
  assumes "maybeCreateResponse d = (e, d')"
  shows "attentionRetry d' = attentionRetry d"
proof -
  obtain ok f where t: "TryStartResponse (dclock d (dticks d)) (dfsm d) = (ok, f)" by fastforce
  let ?d0 = "d\<lparr>dticks := Suc (dticks d)\<rparr>"
  let ?i = "response_event_id (dclock d (dticks d)) (next_seq ?d0)"
  let ?d = "open_request [] no_injection ?i (?d0\<lparr>dfsm := f\<rparr>)"
  obtain x d1 where c: "on_client (CreateResponse ?i) ?d = (x, d1)" by fastforce
  then obtain cl where d1: "d1 = ?d\<lparr>client := cl\<rparr>" using client_fields by blast
  have "attentionRetry d2 = attentionRetry d" if "requestResponse d = (y, d2)" for y d2
    using that t c
    by (auto simp: requestResponse_def requestResponseFor_def with_now_def d1 open_request_def on_fsm_def
        requeueResponseAttention_def Let_def split: bool.splits option.splits)
  then show ?thesis using assms by (auto simp: maybeCreateResponse_def split: if_splits prod.splits option.splits)
qed

lemma drained_retry [simp]: "attentionRetry (finishActiveResponseIfDrained d) = attentionRetry d"
  by (simp add: finishActiveResponseIfDrained_def)

lemma requeue_retry:
  "responseAttention d \<noteq> [] \<Longrightarrow>
   attentionRetry (requeueResponseAttention d) = Some ((responseAttentionBriefing d)\<lparr>injAttention := responseAttention d\<rparr>)"
  by (simp add: requeueResponseAttention_def queueAttentionRetry_def resetResponseAttention_def)

lemma settle_retry:
  assumes "settle_briefing i st (d, w) = (d1, w1)" "responseAttention d \<noteq> []" "i = attentionResponseID d" "st \<noteq> ''completed''"
  shows "attentionRetry d1 = Some ((responseAttentionBriefing d)\<lparr>injAttention := responseAttention d\<rparr>)"
  using assms requeue_retry [of d] by (simp add: settle_briefing_def)

text \<open>The events that cut a briefing off: cleared audio, an incomplete response, a refused request.\<close>

definition cut_off :: "server_event \<Rightarrow> desk \<Rightarrow> bool" where
  "cut_off ev d \<longleftrightarrow>
     evType ev = EvOutputAudioCleared \<and> matchesActiveResponse (ExtractAudioResponseID (evRaw ev)) d \<and>
       matchesAttentionResponse (ExtractAudioResponseID (evRaw ev)) d \<or>
     evType ev = EvResponseDone \<and> matchesActiveResponse (refID (ExtractResponseRef (evRaw ev))) d \<and>
       refID (ExtractResponseRef (evRaw ev)) = attentionResponseID d \<and>
       ExtractResponseStatus (evRaw ev) \<noteq> ''completed'' \<or>
     evType ev = EvError \<and> responseCreateEventID d \<noteq> '''' \<and>
       ExtractErrorEventID (evRaw ev) = responseCreateEventID d \<and> responseCreateEventID d = attentionRequestID d"

lemma cleared_retry:
  assumes "handle_audio_cleared t raw d = (e, d')" "responseAttention d \<noteq> []"
    "matchesActiveResponse (ExtractAudioResponseID raw) d" "matchesAttentionResponse (ExtractAudioResponseID raw) d"
  shows "attentionRetry d' = Some ((responseAttentionBriefing d)\<lparr>injAttention := responseAttention d\<rparr>)"
proof -
  let ?d = "on_fsm (AudioStopped t) (d\<lparr>activeResponseAudio := False\<rparr>)"
  have m: "matchesAttentionResponse (ExtractAudioResponseID raw) ?d" "responseAttention ?d \<noteq> []"
    "responseAttentionBriefing ?d = responseAttentionBriefing d" "responseAttention ?d = responseAttention d"
    using assms by (simp_all add: matchesAttentionResponse_def on_fsm_def)
  have "maybeCreateResponse (finishActiveResponseIfDrained (requeueResponseAttention ?d)) = (e, d')"
    using assms(1,3) m(1) by (simp add: handle_audio_cleared_def Let_def)
  from create_keeps_retry [OF this] show ?thesis using requeue_retry [OF m(2)] m(3,4) by simp
qed

lemma done_retry:
  assumes "responseAttention d \<noteq> []" "matchesActiveResponse (refID (ExtractResponseRef raw)) d"
    "refID (ExtractResponseRef raw) = attentionResponseID d" "ExtractResponseStatus raw \<noteq> ''completed''"
  shows "attentionRetry (fst (snd (handle_done t raw (d, w)))) =
    Some ((responseAttentionBriefing d)\<lparr>injAttention := responseAttention d\<rparr>)"
proof -
  let ?i = "refID (ExtractResponseRef raw)" and ?st = "ExtractResponseStatus raw"
  let ?d = "on_fsm (ResponseDone t) (d\<lparr>responseCreateEventID := '''', activeResponseDone := True\<rparr>)"
  let ?b = "Some ((responseAttentionBriefing d)\<lparr>injAttention := responseAttention d\<rparr>)"
  obtain d1 w1 where s: "settle_briefing ?i ?st (?d, w) = (d1, w1)" by fastforce
  have r1: "attentionRetry d1 = ?b"
    using settle_retry [OF s] assms by (simp add: on_fsm_def)
  let ?w2 = "if ?st \<noteq> '''' \<and> ?st \<noteq> ''completed''
     then voice_error [(''message'', ''voice response ended with status '' @ ?st), (''status'', ?st)] w1 else w1"
  let ?d2 = "if pendingQuestion d1 then on_fsm (QuestionVoiced t) (d1\<lparr>pendingQuestion := False\<rparr>) else d1"
  obtain d3 w3 where u: "record_usage (ExtractUsage raw) (?d2, ?w2) = (d3, w3)" by fastforce
  then have r3: "attentionRetry d3 = ?b" using r1 by (auto simp: record_usage_def on_fsm_def split: if_splits)
  obtain e d5 where m: "maybeCreateResponse (finishActiveResponseIfDrained d3) = (e, d5)" by fastforce
  have "attentionRetry d5 = ?b" using create_keeps_retry [OF m] r3 by simp
  with r3 assms(2) s u m show ?thesis
    unfolding handle_done_def by (simp add: Let_def startToolBatch_def on_fsm_def)
qed

lemma error_retry:
  assumes "responseAttention d \<noteq> []" "responseCreateEventID d \<noteq> ''''"
    "ExtractErrorEventID raw = responseCreateEventID d" "responseCreateEventID d = attentionRequestID d"
  shows "attentionRetry (fst (handle_error t raw (d, w))) =
    Some ((responseAttentionBriefing d)\<lparr>injAttention := responseAttention d\<rparr>)"
  using assms requeue_retry [of d] by (simp add: handle_error_def Let_def on_fsm_def queueInject_def)

text \<open>
  C18. A briefing that was cut off is said again.  When the provider clears the audio of the response that
  speaks a briefing, ends that response with any status but \<open>completed\<close>, or refuses the request for it, the
  very next injection of the desk is that briefing, with the same text and the same attention rows, ahead of
  every queued announcement.
\<close>

theorem interrupted_briefing_retried:
  assumes "responseAttention d \<noteq> []" and "cut_off ev d"
  shows "fst (nextInjection (fst (snd (handleServer ev (d, w))))) =
    Some ((responseAttentionBriefing d)\<lparr>injAttention := responseAttention d\<rparr>)"
proof -
  let ?d = "d\<lparr>dticks := Suc (dticks d)\<rparr>" and ?t = "dclock d (dticks d)"
  let ?b = "Some ((responseAttentionBriefing d)\<lparr>injAttention := responseAttention d\<rparr>)"
  have a: "responseAttention ?d \<noteq> []" using assms(1) by simp
  obtain e d1 where c: "handle_audio_cleared ?t (evRaw ev) ?d = (e, d1)" by fastforce
  from assms(2) have "attentionRetry (fst (snd (handleServer ev (d, w)))) = ?b"
    unfolding cut_off_def
  proof (elim disjE conjE)
    assume "evType ev = EvOutputAudioCleared" "matchesActiveResponse (ExtractAudioResponseID (evRaw ev)) d"
      "matchesAttentionResponse (ExtractAudioResponseID (evRaw ev)) d"
    then show ?thesis using cleared_retry [OF c a] c
      by (simp add: handleServer_def with_now_def event_names matchesActiveResponse_def matchesAttentionResponse_def)
  next
    assume "evType ev = EvResponseDone" "matchesActiveResponse (refID (ExtractResponseRef (evRaw ev))) d"
      "refID (ExtractResponseRef (evRaw ev)) = attentionResponseID d" "ExtractResponseStatus (evRaw ev) \<noteq> ''completed''"
    then show ?thesis using done_retry [OF a, of "evRaw ev" ?t w]
      by (simp add: handleServer_def with_now_def event_names matchesActiveResponse_def)
  next
    assume "evType ev = EvError" "responseCreateEventID d \<noteq> ''''"
      "ExtractErrorEventID (evRaw ev) = responseCreateEventID d" "responseCreateEventID d = attentionRequestID d"
    then show ?thesis using error_retry [OF a, of "evRaw ev" ?t w]
      by (simp add: handleServer_def with_now_def event_names)
  qed
  then show ?thesis by (simp add: nextInjection_def)
qed

text \<open>The audio of the briefing is cleared.\<close>

lemma interrupted_briefing_retried_witness:
  "\<exists>d. answering False False d \<and>
     fst (nextInjection (fst (snd (handleServer \<lparr>evType = EvOutputAudioCleared, evRaw = audio_raw\<rparr> (d, demo_world ''t'' None 0))))) =
     Some ((responseAttentionBriefing d)\<lparr>injAttention := [7]\<rparr>)"
proof -
  obtain d where a: "answering False False d" using demo_speaking by blast
  then have "responseAttention d \<noteq> []" "responseAttention d = [7]"
    "cut_off \<lparr>evType = EvOutputAudioCleared, evRaw = audio_raw\<rparr> d"
    by (simp_all add: answering_def cut_off_def audio_id matchesActiveResponse_def matchesAttentionResponse_def)
  with interrupted_briefing_retried [of d _ "demo_world ''t'' None 0"] a show ?thesis by metis
qed

section \<open>Exits\<close>

lemma token_small [simp]:
  "attentionClaimToken (requeueResponseAttention d) = attentionClaimToken d"
  "attentionClaimToken (queueAttentionRetry i d) = attentionClaimToken d"
  "attentionClaimToken (on_fsm g d) = attentionClaimToken d"
  "attentionClaimToken (publishState st r d) = attentionClaimToken d"
  "attentionClaimToken (snd (nextInjection d)) = attentionClaimToken d"
  "attentionClaimToken (open_request att b ev d) = attentionClaimToken d"
  "attentionClaimToken (snd (on_client f d)) = attentionClaimToken d"
  by (simp_all add: requeueResponseAttention_def queueAttentionRetry_def resetResponseAttention_def on_fsm_def
      publishState_def nextInjection_def open_request_def on_client_def split: option.split list.split prod.split)

lemma token_request: "attentionClaimToken (snd (requestResponseFor att b d)) = attentionClaimToken d"
proof -
  let ?d0 = "d\<lparr>dticks := Suc (dticks d)\<rparr>"
  let ?i = "response_event_id (dclock d (dticks d)) (next_seq ?d0)"
  have "attentionClaimToken d1 = attentionClaimToken d"
    if "on_client (CreateResponse ?i) (open_request att b ?i (?d0\<lparr>dfsm := f\<rparr>)) = (x, d1)" for f x d1
    using token_small(7) [of "CreateResponse ?i" "open_request att b ?i (?d0\<lparr>dfsm := f\<rparr>)"] that by simp
  then show ?thesis
    by (auto simp: requestResponseFor_def with_now_def Let_def split: prod.split bool.split option.split)
qed

lemma token_flush: "attentionClaimToken (flush_injection t d) = attentionClaimToken d"
proof -
  have i: "attentionClaimToken (snd (doInject i x)) = attentionClaimToken x" for i x
  proof -
    obtain e y where m: "on_client (InjectMessage (injRole i) (injText i)) x = (e, y)" by fastforce
    then have y: "attentionClaimToken y = attentionClaimToken x" by (metis token_small(7) snd_conv)
    obtain e2 z where r: "requestResponseFor (injAttention i) i y = (e2, z)" by fastforce
    then have "attentionClaimToken z = attentionClaimToken y" by (metis token_request snd_conv)
    then show ?thesis using m r y by (simp add: doInject_def split: option.split)
  qed
  obtain n x where n: "nextInjection d = (n, x)" by fastforce
  then have x: "attentionClaimToken x = attentionClaimToken d" by (metis token_small(5) snd_conv)
  show ?thesis
  proof (cases n)
    case (Some j)
    obtain e y where y: "doInject j x = (e, y)" by fastforce
    then have "attentionClaimToken y = attentionClaimToken x" by (metis i snd_conv)
    then show ?thesis using n x y Some by (simp add: flush_injection_def split: option.split)
  qed (use n x in \<open>simp add: flush_injection_def\<close>)
qed

lemma token_maybe: "attentionClaimToken (snd (maybeCreateResponse d)) = attentionClaimToken d"
  using token_request [of "[]" no_injection d]
  by (auto simp: maybeCreateResponse_def requestResponse_def split: prod.split option.split)

lemma token_maybe_eq: "maybeCreateResponse d = (e, d') \<Longrightarrow> attentionClaimToken d' = attentionClaimToken d"
  using token_maybe [of d] by simp

lemma token_outputs: "write_outputs outs d = (e, d') \<Longrightarrow> attentionClaimToken d' = attentionClaimToken d"
proof (induction outs d rule: write_outputs.induct)
  case (2 fc out rest d)
  let ?f = "FunctionOutput (fcCallID fc) (encodeFunctionOutput fc out)"
  obtain x y where c: "on_client ?f d = (x, y)" by fastforce
  then have "attentionClaimToken y = attentionClaimToken d" using token_small(7) [of ?f d] by simp
  then show ?case using 2 c by (cases x) auto
qed simp

lemma token_finish: "attentionClaimToken (snd (finishToolBatch b d)) = attentionClaimToken d"
  by (auto simp: finishToolBatch_def Let_def token_maybe split: prod.split option.split dest!: token_outputs)

lemma token_drained [simp]: "attentionClaimToken (finishActiveResponseIfDrained d) = attentionClaimToken d"
  by (simp add: finishActiveResponseIfDrained_def)

lemma token_acknowledge:
  "maybeAcknowledgeAttention (d, w) = (d', w') \<Longrightarrow> attentionClaimToken d' = attentionClaimToken d"
  by (auto simp: maybeAcknowledgeAttention_def resetResponseAttention_def split: if_splits prod.splits sum.splits)

lemma token_settle: "settle_briefing i st (d, w) = (d', w') \<Longrightarrow> attentionClaimToken d' = attentionClaimToken d"
  by (auto simp: settle_briefing_def Let_def split: if_splits prod.splits dest!: token_acknowledge)

lemma token_server: "attentionClaimToken (fst (snd (handleServer ev (d, w)))) = attentionClaimToken d"
proof -
  have stop: "attentionClaimToken (fst (snd (handle_audio_stopped t raw (x, w)))) = attentionClaimToken x" for t raw x
    by (auto simp: handle_audio_stopped_def Let_def split: prod.splits if_splits
        dest!: token_maybe_eq token_acknowledge)
  have clear: "handle_audio_cleared t raw x = (e, y) \<Longrightarrow> attentionClaimToken y = attentionClaimToken x" for t raw x e y
    by (auto simp: handle_audio_cleared_def Let_def split: if_splits dest!: token_maybe_eq)
  have don: "attentionClaimToken (fst (snd (handle_done t raw (x, w)))) = attentionClaimToken x" for t raw x
    by (auto simp: handle_done_def record_usage_def startToolBatch_def Let_def split: prod.splits if_splits
        dest!: token_maybe_eq token_settle)
  have err: "attentionClaimToken (fst (handle_error t raw (x, w))) = attentionClaimToken x" for t raw x
    by (simp add: handle_error_def Let_def queueInject_def)
  have cre: "attentionClaimToken (handle_created t raw x) = attentionClaimToken x" for t raw x
    by (simp add: handle_created_def Let_def)
  have sta: "attentionClaimToken (handle_audio_started t raw x) = attentionClaimToken x" for t raw x
    by (simp add: handle_audio_started_def Let_def)
  show ?thesis
    by (auto simp: handleServer_def with_now_def announce_live_def stop don err cre sta
        split: prod.splits dest!: token_maybe_eq clear)
qed

lemma token_claim: "claimAttention busy t (d, w) = (items, (d', w')) \<Longrightarrow> d' = d"
  by (auto simp: claimAttention_def split: prod.splits sum.splits)

lemma token_announce: "attentionClaimToken (fst (announce kind payload busy t (d, w))) = attentionClaimToken d"
  by (auto simp: announce_def queueUrgent_def queueInject_def split: prod.split option.split dest: token_claim)

lemma token_park: "attentionClaimToken (deskRequestPark d) = attentionClaimToken d"
  by (simp add: deskRequestPark_def with_now_def)

lemma token_calls: "attentionClaimToken (fst (snd (exec_calls jerr D cs order outs (d, w)))) = attentionClaimToken d"
proof (induction order arbitrary: outs d w)
  case (Cons i order)
  obtain out d1 w1 where e: "execTool jerr D (cs ! i) (d, w) = (out, (d1, w1))" by (metis surj_pair)
  with tool_desk [of jerr D "cs ! i" d w] have "attentionClaimToken d1 = attentionClaimToken d" by (auto simp: token_park)
  with Cons.IH show ?case by (simp add: e)
qed simp

lemma token_batch: "attentionClaimToken (fst (run_batch jerr D k order (d, w))) = attentionClaimToken d"
  using token_calls [of jerr D "runningTools d ! k" order "replicate (length (runningTools d ! k)) ''''" d w]
  by (auto simp: run_batch_def Let_def split: prod.split)

lemma token_tick: "attentionClaimToken (snd (tick_desk d)) = attentionClaimToken d"
  using token_flush [of "dclock d (dticks d)" "d\<lparr>dticks := Suc (dticks d)\<rparr>"]
  by (auto simp: tick_desk_def with_now_def Let_def split: prod.split)

lemma token_step: "attentionClaimToken (fst (snd (loop_step jerr D i (d, w)))) = attentionClaimToken d"
  using token_tick [of d]
  by (cases i) (auto simp: loop_step_def token_server token_finish token_announce token_batch token_park
      InjectUserText_def queueInject_def deskSetClientState_def with_now_def split: list.split prod.split)

lemma tick_exit:
  assumes "tick_desk d = (Some r, d')"
  shows "fstate (dfsm d') = PARKED \<and> last (states d') = (PARKED, reason_text r) \<and>
    attentionClaimToken d' = attentionClaimToken d"
proof -
  let ?d1 = "flush_injection (dclock d (dticks d)) (d\<lparr>dticks := Suc (dticks d)\<rparr>)"
  obtain park why quiet f where k: "Tick (dclock d (dticks d)) (dfsm ?d1) = ((park, why, quiet), f)"
    by (metis surj_pair)
  have p: "park \<Longrightarrow> fstate f = PARKED" using k by (auto simp: Tick_def clearPark_def Let_def split: if_splits)
  have q: "quiet \<Longrightarrow> \<not> park" using k by (auto simp: Tick_def clearPark_def Let_def split: if_splits)
  have c: "dfsm (snd (on_client g x)) = dfsm x" for g x by (simp add: on_client_def split: prod.split)
  show ?thesis using assms k p q c token_flush [of "dclock d (dticks d)" "d\<lparr>dticks := Suc (dticks d)\<rparr>"]
    by (auto simp: tick_desk_def with_now_def Let_def publishState_def split: if_splits prod.splits)
qed

lemma step_exit:
  assumes "loop_step jerr D i (d, w) = (Some r, (d', w'))"
  shows "fstate (dfsm d') = PARKED \<and> last (states d') = (PARKED, reason_text r)"
proof (cases i)
  case ITick
  obtain x y where "tick_desk d = (x, y)" by fastforce
  with assms ITick tick_exit [of d r d'] show ?thesis by (auto simp: loop_step_def)
qed (use assms in \<open>auto simp: loop_step_def ExplicitPark_def Disconnected_def publishState_def split: list.splits\<close>)

text \<open>The rows of \<open>w\<close> that the lease of \<open>d\<close> still holds.\<close>

definition leases_held :: "desk \<Rightarrow> 'a world_scheme \<Rightarrow> attention list" where
  "leases_held d w = filter (held_attention (attentionClaimToken d)) (attentions (wdb w))"

lemma release_frees:
  assumes "releaseAttentionClaim (d, w) = (d', w')" "attentionClaimToken d \<noteq> ''''" "dbfault w' (txs w' - 1) = NoFault"
  shows "d' = d \<and> leases_held d w' = []"
proof -
  let ?r = "transact (\<lambda>e. e) (\<lambda>now x. Inr ((), ReleaseAttentionClaim (attentionClaimToken d) x)) w"
  have w': "d' = d" "w' = snd ?r" using assms(1) by (auto simp: releaseAttentionClaim_def)
  then have "dbfault w (txs w) = NoFault" using assms(3) by simp
  then have "wdb w' = ReleaseAttentionClaim (attentionClaimToken d) (seen w)" unfolding w'(2) by (simp add: transact_def Let_def)
  then show ?thesis using assms(2) w'(1)
    by (auto simp: leases_held_def ReleaseAttentionClaim_def held_attention_def filter_empty_conv)
qed

lemma loop_exit:
  assumes "run_loop jerr D ins (d, w) = (Some r, (d', w'))" "attentionClaimToken d \<noteq> ''''"
    and "dbfault w' (txs w' - 1) = NoFault"
  shows "fstate (dfsm d') = PARKED \<and> last (states d') = (PARKED, reason_text r) \<and> leases_held d w' = []"
  using assms
proof (induction ins arbitrary: d w)
  case (Cons i ins)
  obtain x d1 w1 where s: "loop_step jerr D i (d, w) = (x, (d1, w1))" by (metis surj_pair)
  have t: "attentionClaimToken d1 = attentionClaimToken d" using token_step [of jerr D i d w] s by simp
  show ?case
  proof (cases x)
    case None
    then have "run_loop jerr D ins (d1, w1) = (Some r, (d', w'))" using Cons.prems(1) s by simp
    from Cons.IH [OF this] Cons.prems(2,3) show ?thesis by (simp add: leases_held_def t)
  next
    case (Some r1)
    then have "releaseAttentionClaim (d1, w1) = (d', w')" "r1 = r" using Cons.prems(1) s by auto
    then show ?thesis using release_frees [of d1 w1 d' w'] step_exit [OF s [unfolded Some]] Cons.prems(2,3) t
      by (simp add: leases_held_def)
  qed
qed simp

lemma token_instructions:
  "buildInstructions base face D (d, w) = (ins, (d', w')) \<Longrightarrow> attentionClaimToken d' = attentionClaimToken d"
  by (auto simp: buildInstructions_def Let_def split: prod.splits)

lemma token_start:
  assumes "start_call base face tools model D busy t (d, w) = (Inr u, (d', w'))"
  shows "attentionClaimToken d' = attentionClaimToken d"
proof -
  obtain ins d1 w1 where b: "buildInstructions base face D (d, w) = (ins, (d1, w1))" by (metis surj_pair)
  obtain e d2 where c: "on_client (SessionUpdate ins tools model) d1 = (e, d2)" by fastforce
  have k: "attentionClaimToken d2 = attentionClaimToken d"
    using token_instructions [OF b] token_small(7) [of "SessionUpdate ins tools model" d1] c by simp
  let ?d = "publishState LIVE '''' (with_now (\<lambda>now. on_fsm (CallStarted now)) d2)"
  obtain items d4 w4 where q: "claimAttention busy t (?d, w1) = (items, (d4, w4))" by (metis surj_pair)
  then have "attentionClaimToken d4 = attentionClaimToken d" using token_claim [OF q] k by (simp add: with_now_def)
  then show ?thesis using assms b c q by (auto simp: start_call_def Let_def split: option.splits prod.splits)
qed

lemma start_fails:
  assumes "start_call base face tools model D busy t (d, w) = (Inl e, (d', w'))" "attentionClaimToken d \<noteq> ''''"
    and "dbfault w' (txs w' - 1) = NoFault"
  shows "leases_held d w' = []"
proof -
  obtain ins d1 w1 where b: "buildInstructions base face D (d, w) = (ins, (d1, w1))" by (metis surj_pair)
  obtain x d2 where c: "on_client (SessionUpdate ins tools model) d1 = (x, d2)" by fastforce
  have k: "attentionClaimToken d2 = attentionClaimToken d"
    using token_instructions [OF b] token_small(7) [of "SessionUpdate ins tools model" d1] c by simp
  have "releaseAttentionClaim (d2, w1) = (d', w')"
    using assms(1) b c by (auto simp: start_call_def Let_def split: option.splits prod.splits)
  from release_frees [OF this] k assms(2,3) show ?thesis by (simp add: leases_held_def)
qed



end
