(* ===== verification/Toolset.thy ===== *)
theory Toolset
  imports Desk_Laws Realtime_Laws
begin

text \<open>
  The tools offered to the model (\<open>toolset\<close> of \<open>src/internal/desk/desk.go\<close>), and what holds of their
  execution: every advertised tool is known, an output nests its result unharmed, and a call that cannot be
  decoded touches nothing.
\<close>

section \<open>The offer\<close>

definition str_schema :: "string \<Rightarrow> json" where
  "str_schema desc = JObj [(''description'', JStr desc), (''type'', JStr ''string'')]"

definition obj_schema :: "(string \<times> json) list \<Rightarrow> string list \<Rightarrow> json" where
  "obj_schema props req =
     JObj [(''properties'', JObj props), (''required'', JArr (map JStr req)), (''type'', JStr ''object'')]"

definition fun_tool :: "string \<Rightarrow> string \<Rightarrow> json \<Rightarrow> rt_tool" where
  "fun_tool name desc params = \<lparr>toolType = ''function'', toolName = name, toolDescription = desc, toolParameters = params\<rparr>"

definition toolset :: "rt_tool list" where
  "toolset =
    [fun_tool ''dispatch_job''
       ''Hand a task to a Hermes agent. Returns immediately with the job queued; results are announced later.''
       (obj_schema
         [(''name'', str_schema (''Short memorable job name, 2-4 words, e.g. '' @ [CHR 0x27] @ ''CVE triage sweep'' @ [CHR 0x27])),
          (''task'', str_schema ''Complete task brief for the agent: goal, context, constraints, expected output.'')]
         [''name'', ''task'']),
     fun_tool ''job_status'' ''Status of one job (by name) or, with no argument, the whole board.''
       (obj_schema [(''job'', str_schema ''Job name or id; omit for all active jobs'')] []),
     fun_tool ''answer_job'' (''Route the operator'' @ [CHR 0x27] @ ''s answer back to a job waiting in needs_input.'')
       (obj_schema
         [(''answer'', str_schema (''The operator'' @ [CHR 0x27] @ ''s answer, verbatim or lightly cleaned'')),
          (''job'', str_schema ''Job name or id'')]
         [''job'', ''answer'']),
     fun_tool ''resolve_approval''
       ''Resolve the oldest pending approval only after an explicit operator decision. Default yes/no to allow_once/deny_once. Use job or permanent scope only when explicitly requested; use use_safer_alternative to deny this mechanism and ask the agent to choose a safer native approach. Questions and uncertainty are not decisions.''
       (obj_schema
         [(''approval_id'', str_schema ''Opaque approval ID from the pending approval; never read it aloud''),
          (''decision'', JObj [(''description'', JStr (''Canonical decision inferred from the operator'' @ [CHR 0x27] @ ''s words'')),
             (''enum'', JArr (map JStr approval_choices)), (''type'', JStr ''string'')]),
          (''decision_nonce'', str_schema ''One-use nonce from the pending approval''),
          (''job'', str_schema ''Job name or id'')]
         [''job'', ''approval_id'', ''decision_nonce'', ''decision'']),
     fun_tool ''cancel_job'' ''Cancel a queued or running job.''
       (obj_schema [(''job'', str_schema ''Job name or id'')] [''job'']),
     fun_tool ''resume_job''
       ''Safely resume a failed job or a job whose approval was parked unresolved. Thornhill stops any stale upstream run, reloads durable Hermes session history, verifies existing artifacts, and never replays a stale approval decision.''
       (obj_schema [(''job'', str_schema ''Failed or parked-approval job name or id'')] [''job'']),
     fun_tool ''rename_job'' ''Rename a job when its topic has drifted or the operator asks.''
       (obj_schema [(''job'', str_schema ''Current job name or id''), (''new_name'', str_schema ''New short name'')]
         [''job'', ''new_name'']),
     fun_tool ''park_session''
       (''Operator is stepping away ('' @ [CHR 0x27] @ ''hold on'' @ [CHR 0x27] @ '', '' @ [CHR 0x27] @ ''I'' @ [CHR 0x27] @ ''ll be back'' @ [CHR 0x27] @ ''). Ends the voice call; jobs keep running.'')
       (obj_schema [] []),
     fun_tool ''wait_for_user'' ''No-op. Call when there is nothing to say: silence, background noise, or half-heard speech.''
       (obj_schema [] [])]"

section \<open>Outputs\<close>

text \<open>
  A tool's answer arrives unharmed.  The envelope written for a function call is a JSON text that names
  the schema, the tool and the call it answers, and whose \<open>result\<close> is exactly the value the tool returned,
  not a string of it.
\<close>

lemma envelope_roundtrip:
  assumes "valid_text (fcName fc)" and "valid_text (fcCallID fc)" and "well_formed v" and "json_depth v < 10000"
  shows "json_parse (encodeFunctionOutput fc (json_text v)) =
    Some (JObj [(''schema'', JStr ''thornhill.function_output.v1''), (''tool'', JStr (fcName fc)),
      (''call_id'', JStr (fcCallID fc)), (''result'', v)])"
proof -
  have "json_parse (json_text v) = Some v" using assms(3,4) by (intro json_roundtrip) simp_all
  then have "encodeFunctionOutput fc (json_text v) = json_text (JObj [(''schema'', JStr ''thornhill.function_output.v1''),
      (''tool'', JStr (fcName fc)), (''call_id'', JStr (fcCallID fc)), (''result'', v)])"
    by (simp add: encodeFunctionOutput_def)
  moreover have "json_depth (JObj [(''schema'', JStr ''thornhill.function_output.v1''), (''tool'', JStr (fcName fc)),
      (''call_id'', JStr (fcCallID fc)), (''result'', v)]) \<le> 10000" using assms(4) by simp
  ultimately show ?thesis using assms(1-3)
    by (simp only:) (rule json_roundtrip, simp_all add: ascii_valid byte_def)
qed

section \<open>Execution\<close>

text \<open>
  A call the desk cannot use touches nothing.  If the tool's name is not one of those offered, or its
  arguments are not a JSON object of strings, the answer is a result with \<open>ok\<close> false, and the desk, the
  jobs and the published events are as before.
\<close>

lemma unusable_call_touches_nothing:
  assumes "fcName fc \<notin> set (map toolName toolset) \<or>
    (fcArguments fc \<noteq> '''' \<and> \<not> args_ok (json_parse (fcArguments fc)))"
  shows "\<exists>msg. execTool jerr D fc dw = (tool_result False msg (Some []), dw)"
  using assms by (auto simp: toolset_def fun_tool_def execTool_def Let_def)

end
