(* ===== verification/Net_Url.thy ===== *)
theory Net_Url
  imports Text Push_Net
begin

text \<open>
  What the program uses of packages \<open>net\<close>, \<open>net/netip\<close> and \<open>net/url\<close> of the Go standard library (1.26): textual
  addresses, host and port, and \<open>url.Parse\<close>.  A failing call is \<open>None\<close>; the error texts are never inspected by the
  program.  The URL record keeps the parts the program reads.
\<close>

section \<open>Bytes\<close>

definition is_digit :: "char \<Rightarrow> bool" where
  "is_digit c \<longleftrightarrow> 48 \<le> byte c \<and> byte c \<le> 57"

definition is_alpha :: "char \<Rightarrow> bool" where
  "is_alpha c \<longleftrightarrow> 97 \<le> byte c \<and> byte c \<le> 122 \<or> 65 \<le> byte c \<and> byte c \<le> 90"

definition is_hex :: "char \<Rightarrow> bool" where
  "is_hex c \<longleftrightarrow> is_digit c \<or> 97 \<le> byte c \<and> byte c \<le> 102 \<or> 65 \<le> byte c \<and> byte c \<le> 70"

definition hex_nibble :: "char \<Rightarrow> nat" where
  "hex_nibble c = (let b = byte c in if is_digit c then b - 48 else if 97 \<le> b then b - 87 else b - 55)"

text \<open>\<open>strings.Cut\<close> at the first byte \<open>d\<close>, and the split at the last one (\<open>strings.LastIndex\<close>).\<close>

definition cut_at :: "char \<Rightarrow> string \<Rightarrow> string \<times> string option" where
  "cut_at d s = (takeWhile (\<lambda>c. c \<noteq> d) s,
     (case dropWhile (\<lambda>c. c \<noteq> d) s of [] \<Rightarrow> None | _ # r \<Rightarrow> Some r))"

definition cut_last :: "char \<Rightarrow> string \<Rightarrow> (string \<times> string) option" where
  "cut_last d s = (case cut_at d (rev s) of (_, None) \<Rightarrow> None | (b, Some a) \<Rightarrow> Some (rev a, rev b))"

definition trim_suffix :: "string \<Rightarrow> string \<Rightarrow> string" where
  "trim_suffix s p = (if has_suffix s p then take (length s - length p) s else s)"

text \<open>
  \<open>strings.ToLower\<close>: exact on ASCII; \<open>lc\<close> is the Unicode lower-case mapping of the other characters, a table of the
  standard library.
\<close>

definition lower_rune :: "(nat \<Rightarrow> nat) \<Rightarrow> nat \<Rightarrow> nat" where
  "lower_rune lc r = (if r < 128 then (if 65 \<le> r \<and> r \<le> 90 then r + 32 else r) else lc r)"

definition to_lower :: "(nat \<Rightarrow> nat) \<Rightarrow> string \<Rightarrow> string" where
  "to_lower lc s =
     (if list_all (\<lambda>c. byte c < 128) s then map (\<lambda>c. char_of (lower_rune lc (byte c))) s
      else of_runes (map (lower_rune lc) (runes s)))"

section \<open>Addresses: netip.ParseAddr and net.ParseIP\<close>

definition dec_value :: "string \<Rightarrow> nat" where
  "dec_value s = foldl (\<lambda>n c. 10 * n + (byte c - 48)) 0 s"

definition hex_number :: "string \<Rightarrow> nat" where
  "hex_number s = foldl (\<lambda>n c. 16 * n + hex_nibble c) 0 s"

definition v4_field :: "string \<Rightarrow> nat option" where
  "v4_field s = (if s = [] \<or> \<not> list_all is_digit s \<or> 1 < length s \<and> hd s = CHR ''0'' \<or> 255 < dec_value s
     then None else Some (dec_value s))"

definition parse_v4 :: "string \<Rightarrow> net_ip option" where
  "parse_v4 s = (let fs = split_on CHR ''.'' s in if length fs = 4 then those (map v4_field fs) else None)"

definition v6_chunk :: "string \<Rightarrow> net_ip" where
  "v6_chunk h = [hex_number h div 256, hex_number h mod 256]"

text \<open>The loop of \<open>parseIPv6\<close>: the bytes so far, where the ellipsis was, and the text left.\<close>

function v6_loop :: "net_ip \<Rightarrow> nat option \<Rightarrow> string \<Rightarrow> (net_ip \<times> nat option \<times> string) option" where
  "v6_loop ip ell s =
     (if 16 \<le> length ip then Some (ip, ell, s)
      else (let h = takeWhile is_hex s; ip' = ip @ v6_chunk h in
        if h = [] \<or> 4 < length h then None
        else (case dropWhile is_hex s of
            [] \<Rightarrow> Some (ip', ell, [])
          | c # t \<Rightarrow>
              if c = CHR ''.'' then
                (if ell = None \<and> length ip \<noteq> 12 \<or> 16 < length ip + 4 then None
                 else map_option (\<lambda>q. (ip @ q, ell, [])) (parse_v4 s))
              else if c \<noteq> CHR '':'' \<or> t = [] then None
              else if hd t = CHR '':'' then
                (if ell \<noteq> None then None
                 else if tl t = [] then Some (ip', Some (length ip'), [])
                 else v6_loop ip' (Some (length ip')) (tl t))
              else v6_loop ip' ell t)))"
  by pat_completeness auto

lemma dropWhile_shorter: "dropWhile P s = c # t \<Longrightarrow> length t < length s"
  by (metis impossible_Cons le_less_linear length_dropWhile_le order.trans)

termination v6_loop
  by (relation "measure (\<lambda>(_, _, s). length s)")
     (auto dest!: dropWhile_shorter simp: neq_Nil_conv simp del: split_paired_All)

declare v6_loop.simps [simp del]

definition v6_finish :: "net_ip \<times> nat option \<times> string \<Rightarrow> net_ip option" where
  "v6_finish r = (case r of (ip, ell, s) \<Rightarrow>
     if s \<noteq> [] then None
     else if length ip < 16 then
       (case ell of None \<Rightarrow> None | Some e \<Rightarrow> Some (take e ip @ replicate (16 - length ip) 0 @ drop e ip))
     else if ell \<noteq> None then None else Some ip)"

definition parse_v6 :: "string \<Rightarrow> (net_ip \<times> string) option" where
  "parse_v6 txt0 = (case cut_at CHR ''%'' txt0 of (s, zone) \<Rightarrow>
     if zone = Some [] then None
     else map_option (\<lambda>ip. (ip, case zone of None \<Rightarrow> [] | Some z \<Rightarrow> z))
       (if has_prefix s ''::'' then
          (if s = ''::'' then Some (replicate 16 0)
           else Option.bind (v6_loop [] (Some 0) (drop 2 s)) v6_finish)
        else Option.bind (v6_loop [] None s) v6_finish))"

definition ParseAddr :: "string \<Rightarrow> (net_ip \<times> string) option" where
  "ParseAddr s = (case dropWhile (\<lambda>c. c \<notin> {CHR ''.'', CHR '':'', CHR ''%''}) s of
      [] \<Rightarrow> None
    | c # _ \<Rightarrow> if c = CHR ''.'' then map_option (\<lambda>q. (q, [])) (parse_v4 s)
               else if c = CHR '':'' then parse_v6 s else None)"

definition as16 :: "net_ip \<Rightarrow> net_ip" where
  "as16 a = (if length a = 4 then v4_in_v6 @ a else a)"

definition ParseIP :: "string \<Rightarrow> net_ip option" where
  "ParseIP s = (case ParseAddr s of Some (a, []) \<Rightarrow> Some (as16 a) | _ \<Rightarrow> None)"

section \<open>Host and port\<close>

definition validOptionalPort :: "string \<Rightarrow> bool" where
  "validOptionalPort p \<longleftrightarrow> p = [] \<or> hd p = CHR '':'' \<and> list_all is_digit (tl p)"

text \<open>\<open>splitHostPort\<close> of \<open>net/url\<close>, behind \<open>Hostname\<close> and \<open>Port\<close>.\<close>

definition url_split_host :: "string \<Rightarrow> string \<times> string" where
  "url_split_host hp =
     (let (host, port) = (case cut_last CHR '':'' hp of
          None \<Rightarrow> (hp, [])
        | Some (h, p) \<Rightarrow> if validOptionalPort (CHR '':'' # p) then (h, p) else (hp, [])) in
      (if has_prefix host ''['' \<and> has_suffix host '']'' then butlast (tl host) else host, port))"

text \<open>\<open>net.SplitHostPort\<close> and \<open>net.JoinHostPort\<close>.\<close>

definition SplitHostPort :: "string \<Rightarrow> (string \<times> string) option" where
  "SplitHostPort hp = (case cut_last CHR '':'' hp of
      None \<Rightarrow> None
    | Some (left, port) \<Rightarrow>
        if has_prefix hp ''['' then
          (case cut_at CHR '']'' hp of
             (_, None) \<Rightarrow> None
           | (opened, Some rest) \<Rightarrow>
               if rest \<noteq> CHR '':'' # port \<or> CHR ''['' \<in> set (tl hp) \<or> CHR '']'' \<in> set rest then None
               else Some (tl opened, port))
        else if CHR '':'' \<in> set left \<or> CHR ''['' \<in> set hp \<or> CHR '']'' \<in> set hp then None
        else Some (left, port))"

definition JoinHostPort :: "string \<Rightarrow> string \<Rightarrow> string" where
  "JoinHostPort host port =
     (if CHR '':'' \<in> set host then ''['' @ host @ '']:'' @ port else host @ '':'' @ port)"

section \<open>url.Parse\<close>

record url =
  u_scheme :: string
  u_opaque :: string
  u_user :: "string option"
  u_host :: string
  u_path :: string
  u_query :: string
  u_force :: bool
  u_fragment :: string

definition no_url :: url where
  "no_url = \<lparr>u_scheme = [], u_opaque = [], u_user = None, u_host = [], u_path = [], u_query = [], u_force = False, u_fragment = []\<rparr>"

definition Hostname :: "url \<Rightarrow> string" where
  "Hostname u = fst (url_split_host (u_host u))"

definition Port :: "url \<Rightarrow> string" where
  "Port u = snd (url_split_host (u_host u))"

datatype esc_mode = EncodeHost | EncodeZone | EncodeOther

text \<open>\<open>shouldEscape\<close> in a host: letters, digits, the marks RFC 3986 reserves for the host, and the unreserved ones.\<close>

definition host_byte :: "char \<Rightarrow> bool" where
  "host_byte c \<longleftrightarrow> is_alpha c \<or> is_digit c \<or>
     c \<in> set (CHR 0x22 # CHR 0x27 # ''!$&()*+,;=:[]<>-_.~'')"

definition escape_ok :: "esc_mode \<Rightarrow> char \<Rightarrow> char \<Rightarrow> bool" where
  "escape_ok m a b = (case m of
      EncodeHost \<Rightarrow> 8 \<le> hex_nibble a \<or> [a, b] = ''25''
    | EncodeZone \<Rightarrow> (let v = char_of (16 * hex_nibble a + hex_nibble b) in [a, b] = ''25'' \<or> v = CHR '' '' \<or> host_byte v)
    | EncodeOther \<Rightarrow> True)"

fun unescape :: "esc_mode \<Rightarrow> string \<Rightarrow> string option" where
  "unescape m [] = Some []"
| "unescape m (c # s) =
     (if c = CHR ''%'' then
        (case s of
           a # b # t \<Rightarrow>
             if is_hex a \<and> is_hex b \<and> escape_ok m a b
             then map_option (Cons (char_of (16 * hex_nibble a + hex_nibble b))) (unescape m t) else None
         | _ \<Rightarrow> None)
      else if m \<noteq> EncodeOther \<and> byte c < 128 \<and> \<not> host_byte c then None
      else map_option (Cons c) (unescape m s))"

definition getScheme :: "string \<Rightarrow> (string \<times> string) option" where
  "getScheme s =
     (let p = takeWhile (\<lambda>c. is_alpha c \<or> is_digit c \<or> c \<in> set ''+-.'') s; r = drop (length p) s in
      if p = [] then (if r \<noteq> [] \<and> hd r = CHR '':'' then None else Some ([], s))
      else if is_alpha (hd p) \<and> r \<noteq> [] \<and> hd r = CHR '':'' then Some (p, tl r)
      else Some ([], s))"

fun cut_zone :: "string \<Rightarrow> string \<times> string" where
  "cut_zone [] = ([], [])"
| "cut_zone (c # s) = (if has_prefix (c # s) ''%25'' then ([], c # s) else (case cut_zone s of (h, z) \<Rightarrow> (c # h, z)))"

text \<open>\<open>parseHost\<close>: a bracketed literal must be an IPv6 address; otherwise at most one colon, before the port.\<close>

definition parseHost :: "string \<Rightarrow> string option" where
  "parseHost host =
     (case cut_last CHR ''['' host of
        Some (_, inside) \<Rightarrow>
          (case cut_last CHR '']'' host of
             None \<Rightarrow> None
           | Some (_, colonPort) \<Rightarrow>
               let hostname = take (length inside - Suc (length colonPort)) inside;
                   (h, z) = cut_zone hostname in
               if \<not> validOptionalPort colonPort then None
               else (case (unescape EncodeHost h, unescape EncodeZone z) of
                   (Some h', Some z') \<Rightarrow>
                     (case ParseAddr (h' @ z') of
                        Some (a, _) \<Rightarrow> if length a = 4 then None else Some (''['' @ h' @ z' @ '']'' @ colonPort)
                      | None \<Rightarrow> None)
                 | _ \<Rightarrow> None))
      | None \<Rightarrow>
          if CHR '':'' \<in> set host \<and>
             \<not> list_all is_digit (case cut_at CHR '':'' host of (_, Some p) \<Rightarrow> p | _ \<Rightarrow> []) then None
          else unescape EncodeHost host)"

definition validUserinfo :: "string \<Rightarrow> bool" where
  "validUserinfo s \<longleftrightarrow>
     list_all (\<lambda>c. is_alpha c \<or> is_digit c \<or> c = CHR 0x27 \<or> c \<in> set ''-._:~!$&()*+,;=%@'') s"

definition parseAuthority :: "string \<Rightarrow> (string option \<times> string) option" where
  "parseAuthority a = (case cut_last CHR ''@'' a of
      None \<Rightarrow> map_option (Pair None) (parseHost a)
    | Some (user, host) \<Rightarrow>
        (case parseHost host of
           None \<Rightarrow> None
         | Some h \<Rightarrow> if validUserinfo user \<and> unescape EncodeOther user \<noteq> None then Some (Some user, h) else None))"

definition parse_rest :: "url \<Rightarrow> string \<Rightarrow> url option" where
  "parse_rest u rest =
     (if \<not> has_prefix rest ''/'' \<and> u_scheme u \<noteq> [] then Some (u\<lparr>u_opaque := rest\<rparr>)
      else if \<not> has_prefix rest ''/'' \<and> CHR '':'' \<in> set (fst (cut_at CHR ''/'' rest)) then None
      else if (u_scheme u \<noteq> [] \<or> \<not> has_prefix rest ''///'') \<and> has_prefix rest ''//'' then
        (let auth = takeWhile (\<lambda>c. c \<noteq> CHR ''/'') (drop 2 rest);
             path = dropWhile (\<lambda>c. c \<noteq> CHR ''/'') (drop 2 rest) in
         Option.bind (parseAuthority auth) (\<lambda>(user, host).
           map_option (\<lambda>p. u\<lparr>u_user := user, u_host := host, u_path := p\<rparr>) (unescape EncodeOther path)))
      else map_option (\<lambda>p. u\<lparr>u_path := p\<rparr>) (unescape EncodeOther rest))"

definition lower_ascii :: "string \<Rightarrow> string" where
  "lower_ascii s = map (\<lambda>c. if 65 \<le> byte c \<and> byte c \<le> 90 then char_of (byte c + 32) else c) s"

definition url_parse :: "string \<Rightarrow> url option" where
  "url_parse raw =
     (let (body, frag) = cut_at CHR ''#'' raw in
      Option.bind
        (if list_ex (\<lambda>c. byte c < 32 \<or> byte c = 127) body then None
         else if body = ''*'' then Some (no_url\<lparr>u_path := ''*''\<rparr>)
         else Option.bind (getScheme body) (\<lambda>(scheme, rest).
           let (front, q) = cut_at CHR ''?'' rest in
           parse_rest (no_url\<lparr>u_scheme := lower_ascii scheme, u_query := (case q of None \<Rightarrow> [] | Some x \<Rightarrow> x), u_force := (q = Some [])\<rparr>)
             front))
        (\<lambda>u. map_option (\<lambda>f. u\<lparr>u_fragment := f\<rparr>)
          (unescape EncodeOther (case frag of None \<Rightarrow> [] | Some f \<Rightarrow> f))))"

section \<open>URL.String\<close>

definition hex_upper :: "nat \<Rightarrow> char" where
  "hex_upper d = char_of (if d < 10 then 48 + d else 55 + d)"

definition escape_with :: "(char \<Rightarrow> bool) \<Rightarrow> string \<Rightarrow> string" where
  "escape_with ok s = concat (map (\<lambda>c. if ok c then [c]
     else [CHR ''%'', hex_upper (byte c div 16), hex_upper (byte c mod 16)]) s)"

definition path_byte :: "char \<Rightarrow> bool" where
  "path_byte c \<longleftrightarrow> is_alpha c \<or> is_digit c \<or> c \<in> set ''-_.~$&+,/:;=@''"

text \<open>For a URL without user information.\<close>

definition url_string :: "url \<Rightarrow> string" where
  "url_string u =
     (if u_scheme u \<noteq> '''' then u_scheme u @ '':'' else '''') @
     (if u_opaque u \<noteq> '''' then u_opaque u
      else (if u_host u \<noteq> '''' then ''//'' @ escape_with host_byte (u_host u) else '''') @
        (let path = escape_with path_byte (u_path u) in
         (if path \<noteq> '''' \<and> hd path \<noteq> CHR ''/'' \<and> u_host u \<noteq> '''' then ''/'' else '''') @ path)) @
     (if u_force u \<or> u_query u \<noteq> '''' then ''?'' @ u_query u else '''') @
     (if u_fragment u \<noteq> '''' then ''#'' @ escape_with path_byte (u_fragment u) else '''')"

end
