(* ===== verification/Glob.thy ===== *)
theory Glob
  imports Text
begin

text \<open>
  \<open>path.Match\<close> of the Go standard library: shell patterns over slash-separated names, with \<open>*\<close>, \<open>?\<close>, character
  classes and escapes.  \<open>None\<close> is \<open>ErrBadPattern\<close>.  The bytes of the pattern are scanned in chunks between stars.
\<close>

definition next_rune :: "string \<Rightarrow> nat \<times> string" where
  "next_rune s = (case decode_rune s of (r, n) \<Rightarrow> (r, drop n s))"

text \<open>\<open>scanChunk\<close> after the leading stars: the chunk up to the next star outside a class.\<close>

fun chunk_at :: "bool \<Rightarrow> string \<Rightarrow> string \<times> string" where
  "chunk_at inr [] = ([], [])"
| "chunk_at inr (c # p) =
     (if c = CHR ''*'' \<and> \<not> inr then ([], c # p)
      else if c = CHR 0x5C then
        (case p of
           [] \<Rightarrow> ([c], [])
         | e # q \<Rightarrow> (case chunk_at inr q of (a, b) \<Rightarrow> (c # e # a, b)))
      else (case chunk_at (if c = CHR ''['' then True else if c = CHR '']'' then False else inr) p of
          (a, b) \<Rightarrow> (c # a, b)))"

definition scanChunk :: "string \<Rightarrow> bool \<times> string \<times> string" where
  "scanChunk p = (let q = dropWhile (\<lambda>c. c = CHR ''*'') p in (q \<noteq> p, chunk_at False q))"

definition getEsc :: "string \<Rightarrow> (nat \<times> string) option" where
  "getEsc chunk =
     (if chunk = [] \<or> hd chunk = CHR ''-'' \<or> hd chunk = CHR '']'' then None
      else let c = (if hd chunk = CHR 0x5C then tl chunk else chunk) in
        if c = [] then None
        else (case decode_rune c of (r, n) \<Rightarrow>
          if r = rune_error \<and> n = 1 \<or> drop n c = [] then None else Some (r, drop n c)))"

text \<open>The ranges of a class; the result is whether \<open>r\<close> is in one, and the pattern after the bracket.\<close>

fun class_ranges :: "nat \<Rightarrow> nat \<Rightarrow> bool \<Rightarrow> bool \<Rightarrow> string \<Rightarrow> (bool \<times> string) option" where
  "class_ranges 0 r found some chunk = None"
| "class_ranges (Suc k) r found some chunk =
     (if chunk \<noteq> [] \<and> hd chunk = CHR '']'' \<and> some then Some (found, tl chunk)
      else (case getEsc chunk of
          None \<Rightarrow> None
        | Some (lo, c) \<Rightarrow>
            (if hd c = CHR ''-'' then
               (case getEsc (tl c) of
                  None \<Rightarrow> None
                | Some (hi, c') \<Rightarrow> class_ranges k r (found \<or> lo \<le> r \<and> r \<le> hi) True c')
             else class_ranges k r (found \<or> lo = r) True c)))"

text \<open>
  \<open>matchChunk\<close>; \<open>name = None\<close> records that the match has failed and only the pattern is still checked.  The first
  argument bounds the loop; the length of the chunk is enough, since every turn removes a byte of it.
\<close>

fun match_chunk :: "nat \<Rightarrow> string \<Rightarrow> string option \<Rightarrow> string option option" where
  "match_chunk 0 chunk name = (if chunk = [] then Some name else None)"
| "match_chunk (Suc k) chunk name =
     (case chunk of
        [] \<Rightarrow> Some name
      | c # p \<Rightarrow>
          let name = (if name = Some [] then None else name) in
          if c = CHR ''['' then
            (let r = (case name of None \<Rightarrow> 0 | Some s \<Rightarrow> fst (next_rune s));
                 s' = map_option (snd \<circ> next_rune) name;
                 negated = (p \<noteq> [] \<and> hd p = CHR ''^'') in
             case class_ranges (length p) r False False (if negated then tl p else p) of
               None \<Rightarrow> None
             | Some (found, q) \<Rightarrow> match_chunk k q (if found = negated then None else s'))
          else if c = CHR ''?'' then
            match_chunk k p
              (case name of None \<Rightarrow> None | Some s \<Rightarrow> if hd s = CHR ''/'' then None else Some (snd (next_rune s)))
          else if c = CHR 0x5C then
            (case p of
               [] \<Rightarrow> None
             | e # q \<Rightarrow> match_chunk k q
                 (case name of None \<Rightarrow> None | Some s \<Rightarrow> if hd s = e then Some (tl s) else None))
          else match_chunk k p (case name of None \<Rightarrow> None | Some s \<Rightarrow> if hd s = c then Some (tl s) else None))"

definition matchChunk :: "string \<Rightarrow> string \<Rightarrow> string option option" where
  "matchChunk chunk s = match_chunk (length chunk) chunk (Some s)"

text \<open>The tails a star may leave: it cannot cross a slash.\<close>

fun star_tails :: "string \<Rightarrow> string list" where
  "star_tails [] = []"
| "star_tails (c # s) = (if c = CHR ''/'' then [] else s # star_tails s)"

definition chunk_tail :: "string \<Rightarrow> bool \<Rightarrow> string \<Rightarrow> string option" where
  "chunk_tail chunk final s = (case matchChunk chunk s of
      Some (Some t) \<Rightarrow> if t = [] \<or> \<not> final then Some t else None
    | _ \<Rightarrow> None)"

definition bad_chunk :: "string \<Rightarrow> bool" where
  "bad_chunk chunk \<longleftrightarrow> matchChunk chunk [] = None"

text \<open>
  \<open>path.Match(pattern, name)\<close>, whose two results the program reads together as \<open>err == nil && matched\<close>.  A chunk
  always takes a byte of the pattern, so the test on the lengths never decides.
\<close>

function path_match :: "string \<Rightarrow> string \<Rightarrow> bool" where
  "path_match pattern name =
     (if pattern = [] then name = []
      else (case scanChunk pattern of (star, chunk, rest) \<Rightarrow>
        if star \<and> chunk = [] then CHR ''/'' \<notin> set name
        else if bad_chunk chunk \<or> length pattern \<le> length rest then False
        else (case find (\<lambda>s. chunk_tail chunk (rest = []) s \<noteq> None)
                     (name # (if star then star_tails name else [])) of
            None \<Rightarrow> False
          | Some s \<Rightarrow> path_match rest (the (chunk_tail chunk (rest = []) s)))))"
  by pat_completeness auto
termination by (relation "measure (\<lambda>(p, _). length p)") auto

declare path_match.simps [simp del]


end
