(* ===== verification/Origin.thy ===== *)
theory Origin
  imports Net_Url Glob
begin

text \<open>
  Who may change what: the origin policy of \<open>src/internal/gateway/gateway.go\<close>.  A request is the part of
  \<open>http.Request\<close> the gateway reads; \<open>rHeader\<close> is \<open>Header.Get\<close>, \<open>rBody\<close> the body or the error reading it.
  \<open>lc\<close> is the Unicode lower-case table (theory \<open>Net_Url\<close>).
\<close>

record http_request =
  rMethod :: string
  rPath :: string
  rHost :: string
  rRemoteAddr :: string
  rTLS :: bool
  rHeader :: "string \<Rightarrow> string"
  rBody :: "error + string"

record response =
  rsStatus :: nat
  rsHeader :: "(string \<times> string) list"
  rsBody :: string

definition http_error :: "string \<Rightarrow> nat \<Rightarrow> response" where
  "http_error msg code = \<lparr>rsStatus = code, rsHeader = [], rsBody = msg @ [line_break]\<rparr>"

section \<open>Canonical origins\<close>

definition default_port :: "string \<Rightarrow> string \<Rightarrow> bool" where
  "default_port scheme port \<longleftrightarrow> scheme = ''http'' \<and> port = ''80'' \<or> scheme = ''https'' \<and> port = ''443''"

definition render_host :: "string \<Rightarrow> string \<Rightarrow> string" where
  "render_host host port =
     (if port \<noteq> '''' then JoinHostPort host port
      else if CHR '':'' \<in> set host then ''['' @ host @ '']'' else host)"

definition origin_url :: "string \<Rightarrow> string \<Rightarrow> url option" where
  "origin_url scheme hostport =
     (case url_parse (scheme @ ''://'' @ hostport) of
        None \<Rightarrow> None
      | Some u \<Rightarrow>
          if u_host u = '''' \<or> u_user u \<noteq> None \<or> u_path u \<noteq> '''' \<or> u_query u \<noteq> '''' \<or> u_fragment u \<noteq> ''''
          then None else Some u)"

definition canonicalHTTPOrigin :: "(nat \<Rightarrow> nat) \<Rightarrow> string \<Rightarrow> string \<Rightarrow> string option" where
  "canonicalHTTPOrigin lc scheme0 hostport =
     (let scheme = to_lower lc (trim_space scheme0) in
      if scheme \<noteq> ''http'' \<and> scheme \<noteq> ''https'' then None
      else (case origin_url scheme hostport of
          None \<Rightarrow> None
        | Some u \<Rightarrow>
            let host = trim_suffix (to_lower lc (Hostname u)) ''.'';
                port = (if default_port scheme (Port u) then '''' else Port u) in
            if host = '''' then None else Some (scheme @ ''://'' @ render_host host port)))"

text \<open>The origin, and the host it names as the browser sent it (lower case).\<close>

definition canonicalBrowserOrigin :: "(nat \<Rightarrow> nat) \<Rightarrow> string \<Rightarrow> (string \<times> string) option" where
  "canonicalBrowserOrigin lc origin =
     (case url_parse origin of
        None \<Rightarrow> None
      | Some u \<Rightarrow>
          if u_host u = '''' \<or> u_user u \<noteq> None \<or> u_opaque u \<noteq> '''' \<or> u_path u \<noteq> '''' \<or> u_query u \<noteq> '''' \<or>
             u_fragment u \<noteq> ''''
          then None
          else map_option (\<lambda>c. (c, to_lower lc (u_host u))) (canonicalHTTPOrigin lc (u_scheme u) (u_host u)))"

definition trustedForwardedProto :: "(nat \<Rightarrow> nat) \<Rightarrow> http_request \<Rightarrow> string" where
  "trustedForwardedProto lc r =
     (case SplitHostPort (rRemoteAddr r) of
        None \<Rightarrow> ''''
      | Some (host, _) \<Rightarrow> (case ParseIP host of
            None \<Rightarrow> ''''
          | Some ip \<Rightarrow>
              if \<not> IsLoopback ip then ''''
              else let forwarded = to_lower lc (trim_space (hd (split_on CHR '','' (rHeader r ''X-Forwarded-Proto'')))) in
                if forwarded \<noteq> ''http'' \<and> forwarded \<noteq> ''https'' then '''' else forwarded))"

definition request_scheme :: "(nat \<Rightarrow> nat) \<Rightarrow> http_request \<Rightarrow> string" where
  "request_scheme lc r =
     (if rTLS r then ''https''
      else let forwarded = trustedForwardedProto lc r in if forwarded \<noteq> '''' then forwarded else ''http'')"

definition canonicalRequestOrigin :: "(nat \<Rightarrow> nat) \<Rightarrow> http_request \<Rightarrow> string option" where
  "canonicalRequestOrigin lc r = canonicalHTTPOrigin lc (request_scheme lc r) (rHost r)"

definition browserSameOrigin :: "(nat \<Rightarrow> nat) \<Rightarrow> http_request \<Rightarrow> bool" where
  "browserSameOrigin lc r =
     (case canonicalBrowserOrigin lc (rHeader r ''Origin'') of
        None \<Rightarrow> False
      | Some (candidate, _) \<Rightarrow> canonicalRequestOrigin lc r = Some candidate)"

definition origin_matches :: "(nat \<Rightarrow> nat) \<Rightarrow> string \<Rightarrow> string \<Rightarrow> string \<Rightarrow> bool" where
  "origin_matches lc candidateOrigin candidateHost pattern0 =
     (let pattern = to_lower lc pattern0 in
      path_match pattern (if contains pattern ''://'' then candidateOrigin else candidateHost))"

definition originAllowed :: "(nat \<Rightarrow> nat) \<Rightarrow> string list \<Rightarrow> http_request \<Rightarrow> bool" where
  "originAllowed lc allowed r =
     (let origin = rHeader r ''Origin'' in
      if origin = '''' then True
      else (case canonicalBrowserOrigin lc origin of
          None \<Rightarrow> False
        | Some (candidateOrigin, candidateHost) \<Rightarrow>
            canonicalRequestOrigin lc r = Some candidateOrigin \<or>
            list_ex (origin_matches lc candidateOrigin candidateHost) allowed))"

text \<open>\<open>guardHooks\<close>: the answer that stops the request, if it is stopped.\<close>

definition hook_refused :: "(nat \<Rightarrow> nat) \<Rightarrow> http_request \<Rightarrow> response option" where
  "hook_refused lc r =
     (if rHeader r ''Origin'' \<noteq> '''' \<and> \<not> browserSameOrigin lc r
      then Some (http_error ''origin not allowed'' 403) else None)"

end
