(* ===== verification/Assets.thy ===== *)
theory Assets
  imports Origin "HOL-Library.Word"
begin

text \<open>
  Static files (\<open>staticHandler\<close>, \<open>acceptsGzipAsset\<close>, \<open>cachedAssetWriter\<close> of
  \<open>src/internal/gateway/gateway.go\<close>).  An \<open>http.ResponseWriter\<close> is its header map, the header sent with the
  first \<open>WriteHeader\<close>, and the body bytes.  The standard file server is an argument: the list of calls it makes
  on the writer it is given.  \<open>compress\<close> is the gzip stream of the chunks written before \<open>Close\<close>; the double a
  text denotes is the argument \<open>parseFloat\<close>.
\<close>

section \<open>Doubles\<close>

text \<open>A double is its bit pattern; NaN compares with nothing, and both zeros are equal.\<close>

definition dbl_nan :: "64 word \<Rightarrow> bool" where
  "dbl_nan x \<longleftrightarrow> 0x7ff * 2 ^ 52 < unat x mod 2 ^ 63"

definition dbl_key :: "64 word \<Rightarrow> int" where
  "dbl_key x = (if 2 ^ 63 \<le> unat x then - int (unat x mod 2 ^ 63) else int (unat x))"

definition dbl_ge :: "64 word \<Rightarrow> 64 word \<Rightarrow> bool" where
  "dbl_ge x y \<longleftrightarrow> \<not> dbl_nan x \<and> \<not> dbl_nan y \<and> dbl_key y \<le> dbl_key x"

definition dbl_pos :: "64 word \<Rightarrow> bool" where
  "dbl_pos x \<longleftrightarrow> \<not> dbl_nan x \<and> 0 < dbl_key x"

section \<open>Response writers\<close>

type_synonym header = "string \<Rightarrow> string list"

record writer =
  wHeader :: header
  wSent :: "(nat \<times> header) option"
  wOut :: string

definition fresh_writer :: "header \<Rightarrow> writer" where
  "fresh_writer h = \<lparr>wHeader = h, wSent = None, wOut = []\<rparr>"

definition set_header :: "string \<Rightarrow> string \<Rightarrow> writer \<Rightarrow> writer" where
  "set_header k v w = w\<lparr>wHeader := (wHeader w)(k := [v])\<rparr>"

definition add_header :: "string \<Rightarrow> string \<Rightarrow> writer \<Rightarrow> writer" where
  "add_header k v w = w\<lparr>wHeader := (wHeader w)(k := wHeader w k @ [v])\<rparr>"

definition del_header :: "string \<Rightarrow> writer \<Rightarrow> writer" where
  "del_header k w = w\<lparr>wHeader := (wHeader w)(k := [])\<rparr>"

definition raw_WriteHeader :: "nat \<Rightarrow> writer \<Rightarrow> writer" where
  "raw_WriteHeader st w = (if wSent w = None then w\<lparr>wSent := Some (st, wHeader w)\<rparr> else w)"

definition raw_Write :: "string \<Rightarrow> writer \<Rightarrow> writer" where
  "raw_Write p w = (let w = raw_WriteHeader 200 w in w\<lparr>wOut := wOut w @ p\<rparr>)"

datatype write_call = CHeader nat | CSet string string | CWrite string

fun raw_call :: "write_call \<Rightarrow> writer \<Rightarrow> writer" where
  "raw_call (CHeader st) = raw_WriteHeader st"
| "raw_call (CSet k v) = set_header k v"
| "raw_call (CWrite p) = raw_Write p"

section \<open>Which requests get a compressed asset\<close>

text \<open>\<open>path.Ext\<close>; \<open>strings.EqualFold\<close> with \<open>gzip\<close> and \<open>q\<close>, whose letters have no partner outside ASCII.\<close>

definition path_ext :: "string \<Rightarrow> string" where
  "path_ext p =
     (let base = takeWhile (\<lambda>c. c \<noteq> CHR ''/'') (rev p) in
      if CHR ''.'' \<in> set base then CHR ''.'' # rev (takeWhile (\<lambda>c. c \<noteq> CHR ''.'') base) else '''')"

definition equal_fold :: "string \<Rightarrow> string \<Rightarrow> bool" where
  "equal_fold s t \<longleftrightarrow> lower_ascii s = lower_ascii t"

text \<open>The first \<open>q\<close> parameter decides; without one the coding is accepted.\<close>

fun quality_ok :: "(string \<Rightarrow> 64 word option) \<Rightarrow> string list \<Rightarrow> bool" where
  "quality_ok parseFloat [] = True"
| "quality_ok parseFloat (param # ps) =
     (case cut_at CHR ''='' (trim_space param) of
        (key, Some value) \<Rightarrow>
          if equal_fold (trim_space key) ''q''
          then (case parseFloat (trim_space value) of None \<Rightarrow> False | Some x \<Rightarrow> dbl_pos x)
          else quality_ok parseFloat ps
      | _ \<Rightarrow> quality_ok parseFloat ps)"

fun codings_ok :: "(string \<Rightarrow> 64 word option) \<Rightarrow> string list \<Rightarrow> bool" where
  "codings_ok parseFloat [] = False"
| "codings_ok parseFloat (token # ts) =
     (case cut_at CHR '';'' (trim_space token) of
        (coding, params) \<Rightarrow>
          if equal_fold (trim_space coding) ''gzip''
          then quality_ok parseFloat (split_on CHR '';'' (case params of None \<Rightarrow> '''' | Some p \<Rightarrow> p))
          else codings_ok parseFloat ts)"

definition acceptsGzipAsset :: "(nat \<Rightarrow> nat) \<Rightarrow> (string \<Rightarrow> 64 word option) \<Rightarrow> http_request \<Rightarrow> bool" where
  "acceptsGzipAsset lc parseFloat r =
     (if rMethod r \<noteq> ''GET'' \<or> rHeader r ''Range'' \<noteq> '''' then False
      else if to_lower lc (path_ext (rPath r)) \<notin> {''.css'', ''.js'', ''.json'', ''.svg''} then False
      else codings_ok parseFloat (split_on CHR '','' (rHeader r ''Accept-Encoding'')))"

section \<open>The asset writer\<close>

record asset_writer =
  aResponse :: writer
  aGzip :: bool
  aGzipWriter :: "string list option"
  aWroteHeader :: bool

definition immutableAssetCacheControl :: string where
  "immutableAssetCacheControl = ''public, max-age=31536000, immutable''"

definition on_response :: "(writer \<Rightarrow> writer) \<Rightarrow> asset_writer \<Rightarrow> asset_writer" where
  "on_response f a = a\<lparr>aResponse := f (aResponse a)\<rparr>"

definition aw_WriteHeader :: "nat \<Rightarrow> asset_writer \<Rightarrow> asset_writer" where
  "aw_WriteHeader st a =
     (if aWroteHeader a then a
      else let a = (if 200 \<le> st \<and> st < 300 \<or> st = 304
                    then on_response (add_header ''Vary'' ''Accept-Encoding'' \<circ>
                           set_header ''Cache-Control'' immutableAssetCacheControl) a else a);
               a = (if aGzip a \<and> 200 \<le> st \<and> st < 300
                    then on_response (del_header ''Content-Length'' \<circ> set_header ''Content-Encoding'' ''gzip'') a
                    else a\<lparr>aGzip := False\<rparr>) in
        on_response (raw_WriteHeader st) (a\<lparr>aWroteHeader := True\<rparr>))"

definition aw_Write :: "string \<Rightarrow> asset_writer \<Rightarrow> asset_writer" where
  "aw_Write p a =
     (let a = (if aWroteHeader a then a else aw_WriteHeader 200 a) in
      if \<not> aGzip a then on_response (raw_Write p) a
      else a\<lparr>aGzipWriter := Some ((case aGzipWriter a of None \<Rightarrow> [] | Some ps \<Rightarrow> ps) @ [p])\<rparr>)"

definition aw_Close :: "(string list \<Rightarrow> string) \<Rightarrow> asset_writer \<Rightarrow> asset_writer" where
  "aw_Close compress a =
     (if \<not> aGzip a then a
      else on_response (raw_Write (compress (case aGzipWriter a of None \<Rightarrow> [] | Some ps \<Rightarrow> ps))) a)"

fun aw_call :: "write_call \<Rightarrow> asset_writer \<Rightarrow> asset_writer" where
  "aw_call (CHeader st) = aw_WriteHeader st"
| "aw_call (CSet k v) = on_response (set_header k v)"
| "aw_call (CWrite p) = aw_Write p"

definition staticHandler ::
  "(nat \<Rightarrow> nat) \<Rightarrow> (string \<Rightarrow> 64 word option) \<Rightarrow> (string list \<Rightarrow> string) \<Rightarrow> (http_request \<Rightarrow> write_call list) \<Rightarrow>
   http_request \<Rightarrow> writer \<Rightarrow> writer" where
  "staticHandler lc parseFloat compress files r w =
     (if \<not> has_prefix (rPath r) ''/assets/'' then
        fold raw_call (files r)
          (if rPath r = ''/'' \<or> rPath r = ''/index.html'' then set_header ''Cache-Control'' ''no-cache'' w else w)
      else aResponse (aw_Close compress (fold aw_call (files r)
             \<lparr>aResponse = w, aGzip = acceptsGzipAsset lc parseFloat r, aGzipWriter = None, aWroteHeader = False\<rparr>)))"

section \<open>Compression is invisible\<close>

text \<open>What a client makes of a response, and what the file server meant to send.\<close>

definition decoded :: "(string \<Rightarrow> string) \<Rightarrow> writer \<Rightarrow> string" where
  "decoded decompress w =
     (case wSent w of Some (_, h) \<Rightarrow> if h ''Content-Encoding'' = [''gzip''] then decompress (wOut w) else wOut w
                    | None \<Rightarrow> wOut w)"

fun written_bytes :: "write_call \<Rightarrow> string" where
  "written_bytes (CWrite p) = p"
| "written_bytes _ = []"

fun touches_encoding :: "write_call \<Rightarrow> bool" where
  "touches_encoding (CSet k v) = (k = ''Content-Encoding'')"
| "touches_encoding _ = False"

fun answers :: "write_call \<Rightarrow> bool" where
  "answers (CSet k v) = False"
| "answers _ = True"


text \<open>The asset writer \<open>a\<close> and the writer \<open>w\<close> that got the same calls without compression.\<close>

definition cacheable :: "nat \<Rightarrow> bool" where
  "cacheable st \<longleftrightarrow> 200 \<le> st \<and> st < 300 \<or> st = 304"

definition unsent :: "asset_writer \<Rightarrow> writer \<Rightarrow> bool" where
  "unsent a w \<longleftrightarrow> \<not> aWroteHeader a \<and> aGzipWriter a = None \<and> aResponse a = w \<and> wSent w = None \<and> wOut w = []"

definition sent :: "asset_writer \<Rightarrow> writer \<Rightarrow> bool" where
  "sent a w \<longleftrightarrow> aWroteHeader a \<and>
     (\<exists>st h h0. wSent (aResponse a) = Some (st, h) \<and> wSent w = Some (st, h0) \<and>
        h ''Content-Encoding'' = (if aGzip a then [''gzip''] else []) \<and>
        (cacheable st \<longrightarrow> h ''Cache-Control'' = [immutableAssetCacheControl]) \<and>
        (\<not> cacheable st \<longrightarrow> h ''Cache-Control'' = h0 ''Cache-Control'') \<and>
        (aGzip a \<longrightarrow> 200 \<le> st \<and> st < 300)) \<and>
     (if aGzip a then wOut (aResponse a) = [] \<and>
        concat (case aGzipWriter a of None \<Rightarrow> [] | Some ps \<Rightarrow> ps) = wOut w
      else wOut (aResponse a) = wOut w)"

definition mirrors :: "bool \<Rightarrow> asset_writer \<Rightarrow> writer \<Rightarrow> bool" where
  "mirrors g a w \<longleftrightarrow> (aGzip a \<longrightarrow> g) \<and> wHeader w ''Content-Encoding'' = [] \<and> (unsent a w \<or> sent a w)"

named_theorems writer_defs

lemmas [writer_defs] = on_response_def set_header_def add_header_def del_header_def raw_WriteHeader_def
  raw_Write_def aw_WriteHeader_def aw_Write_def

lemma aw_WriteHeader_sends:
  assumes "unsent a w" "wHeader w ''Content-Encoding'' = []"
  shows "sent (aw_WriteHeader st a) (raw_WriteHeader st w)"
  using assms by (cases a, cases w)
    (auto simp: unsent_def sent_def cacheable_def aw_WriteHeader_def on_response_def set_header_def add_header_def
      del_header_def raw_WriteHeader_def Let_def)

lemma aw_Write_sent: "sent a w \<Longrightarrow> sent (aw_Write p a) (raw_Write p w)"
  by (cases a, cases w)
    (auto simp: sent_def aw_Write_def on_response_def raw_Write_def raw_WriteHeader_def Let_def split: option.splits)

lemma aw_gzip_header: "aGzip (aw_WriteHeader st a) \<Longrightarrow> aGzip a"
  by (simp add: aw_WriteHeader_def on_response_def Let_def split: if_splits)

lemma aw_gzip_write: "aGzip (aw_Write p a) \<Longrightarrow> aGzip a"
  by (simp add: aw_Write_def on_response_def Let_def split: if_splits) (metis aw_gzip_header)+

lemma sent_set: "sent a w \<Longrightarrow> sent (on_response (set_header k v) a) (set_header k v w)"
  by (simp add: sent_def on_response_def set_header_def)

lemma unsent_set: "unsent a w \<Longrightarrow> unsent (on_response (set_header k v) a) (set_header k v w)"
  by (simp add: unsent_def on_response_def set_header_def)

lemma sent_header: "sent a w \<Longrightarrow> aw_WriteHeader st a = a \<and> raw_WriteHeader st w = w"
  by (auto simp: sent_def aw_WriteHeader_def raw_WriteHeader_def)

lemma on_response_gzip [simp]: "aGzip (on_response f a) = aGzip a"
  by (simp add: on_response_def)

lemma raw_header [simp]:
  "wHeader (raw_WriteHeader st w) = wHeader w" "wHeader (raw_Write p w) = wHeader w"
  "wHeader (set_header k v w) = (wHeader w)(k := [v])"
  by (simp_all add: raw_WriteHeader_def raw_Write_def set_header_def Let_def)

lemma aw_Write_first: "\<not> aWroteHeader a \<Longrightarrow> aw_Write p a = aw_Write p (aw_WriteHeader 200 a)"
  by (simp add: aw_Write_def aw_WriteHeader_def on_response_def Let_def)

lemma raw_Write_first: "raw_Write p w = raw_Write p (raw_WriteHeader 200 w)"
  by (simp add: raw_Write_def raw_WriteHeader_def Let_def)

lemma mirrors_call:
  assumes m: "mirrors g a w" and c: "\<not> touches_encoding c"
  shows "mirrors g (aw_call c a) (raw_call c w)"
proof (cases c)
  case (CHeader st)
  have "sent (aw_WriteHeader st a) (raw_WriteHeader st w)"
    using m aw_WriteHeader_sends[of a w st] sent_header[of a w st] unfolding mirrors_def by metis
  then show ?thesis using m CHeader aw_gzip_header[of st a] unfolding mirrors_def by auto
next
  case (CSet k v)
  then show ?thesis using m c sent_set[of a w k v] unsent_set[of a w k v] unfolding mirrors_def by auto
next
  case (CWrite p)
  have "sent (aw_Write p a) (raw_Write p w)"
    using m aw_Write_first[of a p] raw_Write_first[of p w] aw_Write_sent[of _ _ p]
    by (metis aw_WriteHeader_sends mirrors_def unsent_def)
  then show ?thesis using m CWrite aw_gzip_write[of p a] unfolding mirrors_def by auto
qed

lemma mirrors_calls:
  "mirrors g a w \<Longrightarrow> \<not> list_ex touches_encoding cs \<Longrightarrow> mirrors g (fold aw_call cs a) (fold raw_call cs w)"
  by (induction cs arbitrary: a w) (simp_all add: mirrors_call)

lemma raw_sent_mono: "wSent w \<noteq> None \<Longrightarrow> wSent (raw_call c w) = wSent w"
  by (cases c) (simp_all add: raw_WriteHeader_def raw_Write_def set_header_def Let_def)

lemma raw_calls_sent: "wSent w \<noteq> None \<Longrightarrow> wSent (fold raw_call cs w) = wSent w"
  by (induction cs arbitrary: w) (simp_all add: raw_sent_mono)

lemma raw_answered: "list_ex answers cs \<Longrightarrow> wSent (fold raw_call cs w) \<noteq> None"
proof (induction cs arbitrary: w)
  case (Cons c cs)
  show ?case
  proof (cases "answers c")
    case True
    then have "wSent (raw_call c w) \<noteq> None" by (cases c) (simp_all add: raw_WriteHeader_def raw_Write_def Let_def)
    then show ?thesis by (simp add: raw_calls_sent)
  qed (use Cons in simp)
qed simp

lemma raw_calls_out: "wOut (fold raw_call cs w) = wOut w @ concat (map written_bytes cs)"
proof (induction cs arbitrary: w)
  case (Cons c cs)
  then show ?case by (cases c) (simp_all add: raw_WriteHeader_def raw_Write_def set_header_def Let_def)
qed simp

lemma close_sent:
  assumes s: "sent a w" and law: "\<And>ps. decompress (compress ps) = concat ps"
  shows "decoded decompress (aResponse (aw_Close compress a)) = wOut w \<and>
    wSent (aResponse (aw_Close compress a)) = wSent (aResponse a)"
proof -
  obtain st h where r: "wSent (aResponse a) = Some (st, h)"
    "h ''Content-Encoding'' = (if aGzip a then [''gzip''] else [])" using s unfolding sent_def by blast
  show ?thesis
  proof (cases "aGzip a")
    case True
    then have "wOut (aResponse a) = []" "concat (case aGzipWriter a of None \<Rightarrow> [] | Some ps \<Rightarrow> ps) = wOut w"
      using s by (simp_all add: sent_def)
    then show ?thesis using r True
      by (simp add: aw_Close_def on_response_def raw_Write_def raw_WriteHeader_def decoded_def Let_def law)
  next
    case False
    then show ?thesis using s r by (simp add: aw_Close_def decoded_def sent_def)
  qed
qed

text \<open>
  C28. Compression of the static assets is invisible to a client that undoes it: for any responses of the file
  server that do not set a content coding themselves, the response through the asset writer has the same status
  and, decoded, the same body; it is compressed only for a request \<open>acceptsGzipAsset\<close> admits; and exactly the
  2xx and 304 responses are marked immutable, so a missing asset is never held for a year.
\<close>

theorem asset_compression_invisible:
  assumes law: "\<And>ps. decompress (compress ps) = concat ps"
    and asset: "has_prefix (rPath r) ''/assets/''"
    and calls: "\<not> list_ex touches_encoding (files r)" "list_ex answers (files r)"
    and plain: "h ''Content-Encoding'' = []"
    and got: "fold raw_call (files r) (fresh_writer h) = w0" "wSent w0 = Some (st, h0)"
  shows "\<exists>h'. wSent (staticHandler lc parseFloat compress files r (fresh_writer h)) = Some (st, h') \<and>
      decoded decompress (staticHandler lc parseFloat compress files r (fresh_writer h)) =
        concat (map written_bytes (files r)) \<and>
      (h' ''Content-Encoding'' \<noteq> [] \<longrightarrow> acceptsGzipAsset lc parseFloat r \<and> 200 \<le> st \<and> st < 300) \<and>
      h' ''Cache-Control'' = (if cacheable st then [immutableAssetCacheControl] else h0 ''Cache-Control'')"
proof -
  let ?g = "acceptsGzipAsset lc parseFloat r"
  let ?start = "\<lparr>aResponse = fresh_writer h, aGzip = ?g, aGzipWriter = None, aWroteHeader = False\<rparr>"
  let ?a = "fold aw_call (files r) ?start"
  have "mirrors ?g ?start (fresh_writer h)"
    using plain by (simp add: mirrors_def unsent_def fresh_writer_def)
  then have m: "mirrors ?g ?a w0" using mirrors_calls calls(1) got(1) by metis
  then have s: "sent ?a w0" using got(2) by (auto simp: mirrors_def unsent_def)
  have out: "staticHandler lc parseFloat compress files r (fresh_writer h) = aResponse (aw_Close compress ?a)"
    using asset by (simp add: staticHandler_def)
  have "wOut w0 = concat (map written_bytes (files r))"
    using raw_calls_out [of "files r" "fresh_writer h"] got(1) by (simp add: fresh_writer_def)
  moreover obtain h' where "wSent (aResponse ?a) = Some (st, h')"
      "h' ''Content-Encoding'' = (if aGzip ?a then [''gzip''] else [])"
      "cacheable st \<longrightarrow> h' ''Cache-Control'' = [immutableAssetCacheControl]"
      "\<not> cacheable st \<longrightarrow> h' ''Cache-Control'' = h0 ''Cache-Control''"
      "aGzip ?a \<longrightarrow> 200 \<le> st \<and> st < 300"
    using s got(2) unfolding sent_def by auto
  moreover have "aGzip ?a \<longrightarrow> ?g" using m unfolding mirrors_def by blast
  ultimately show ?thesis using close_sent [of ?a w0 decompress compress, OF s law] out
    by (intro exI [of _ h']) auto
qed

definition demo_asset :: http_request where
  "demo_asset = \<lparr>rMethod = ''GET'', rPath = ''/assets/app.js'', rHost = ''desk'', rRemoteAddr = ''127.0.0.1:9'',
     rTLS = False, rHeader = (\<lambda>k. if k = ''Accept-Encoding'' then ''br, gzip;q=1'' else ''''), rBody = Inr ''''\<rparr>"

definition demo_files :: "http_request \<Rightarrow> write_call list" where
  "demo_files r = [CSet ''Content-Length'' ''4'', CHeader 200, CWrite ''body'']"

lemma asset_compression_invisible_witness:
  "\<exists>h'. wSent (staticHandler id (\<lambda>_. Some 1) (\<lambda>ps. CHR ''z'' # concat ps) demo_files demo_asset
          (fresh_writer (\<lambda>_. []))) = Some (200, h') \<and>
     decoded tl (staticHandler id (\<lambda>_. Some 1) (\<lambda>ps. CHR ''z'' # concat ps) demo_files demo_asset
          (fresh_writer (\<lambda>_. []))) = ''body''"
proof -
  have "has_prefix (rPath demo_asset) ''/assets/''" by (simp add: demo_asset_def has_prefix_def)
  moreover have "\<not> list_ex touches_encoding (demo_files demo_asset)" "list_ex answers (demo_files demo_asset)"
    by (simp_all add: demo_files_def)
  moreover have "\<exists>h0. wSent (fold raw_call (demo_files demo_asset) (fresh_writer (\<lambda>_. []))) = Some (200, h0)"
    by (simp add: demo_files_def fresh_writer_def raw_WriteHeader_def raw_Write_def set_header_def)
  then obtain h0 where "wSent (fold raw_call (demo_files demo_asset) (fresh_writer (\<lambda>_. []))) = Some (200, h0)" ..
  moreover have "concat (map written_bytes (demo_files demo_asset)) = ''body''" by (simp add: demo_files_def)
  ultimately show ?thesis
    using asset_compression_invisible [where decompress = tl and compress = "\<lambda>ps. CHR ''z'' # concat ps"
        and r = demo_asset and files = demo_files and h = "\<lambda>_. []" and lc = id and parseFloat = "\<lambda>_. Some 1"]
    by fastforce
qed

end
