(* ===== verification/Ascii_Laws.thy ===== *)
theory Ascii_Laws
  imports Text
begin

text \<open>A byte below 128 is a character of its own: decoding and encoding keep it, and make no new one.\<close>

lemma decode_low: "fst (decode_rune (c # s)) < 128 \<Longrightarrow> byte c < 128"
  by (auto simp: decode_rune.simps Let_def rune_error_def second_ok_def cont_def split: if_splits list.splits)

lemma runes_low: "r \<in> set (runes s) \<Longrightarrow> r < 128 \<Longrightarrow> char_of r \<in> set s"
proof (induction s rule: segments.induct)
  case (2 c s)
  obtain k w where d: "decode_rune (c # s) = (k, w)" by (cases "decode_rune (c # s)")
  have "r = k \<or> r \<in> set (runes (drop w (c # s)))" using 2(2) d by (auto simp: runes_def segments.simps)
  then show ?case
  proof
    assume "r = k"
    with d 2(3) have "byte c < 128" using decode_low [of c s] by simp
    with d \<open>r = k\<close> show ?thesis by (auto simp: decode_rune.simps byte_def)
  next
    assume "r \<in> set (runes (drop w (c # s)))"
    then show ?thesis using 2(1) d 2(3) by (metis in_set_dropD)
  qed
qed (simp add: runes_def)

lemma low_runes: "c \<in> set s \<Longrightarrow> byte c < 128 \<Longrightarrow> byte c \<in> set (runes s)"
  by (auto simp: runes_def segments_append_ascii dest!: split_list)

lemma encode_low: "c \<in> set (encode_rune r) \<Longrightarrow> byte c < 128 \<Longrightarrow> r < 128 \<and> c = char_of r"
  by (auto simp: encode_rune_def Let_def rune_error_def valid_rune_def split: if_splits)

section \<open>Lines\<close>

lemma split_line: "d \<notin> set a \<Longrightarrow> split_on d (a @ d # b) = a # split_on d b"
  by (induction a) auto

lemma split_whole: "d \<notin> set a \<Longrightarrow> split_on d a = [a]"
  by (induction a) auto

lemma split_join:
  "ls \<noteq> [] \<Longrightarrow> \<forall>l\<in>set ls. d \<notin> set l \<Longrightarrow> split_on d (join [d] ls) = ls"
  by (induction "[d]" ls rule: join.induct) (auto simp: split_whole split_line)

text \<open>An ASCII byte of a text is a rune of its own, so text in normal form has no line break.\<close>

lemma ascii_segment:
  assumes "c \<in> set s" "byte c < 128"
  shows "(byte c, [c]) \<in> set (segments s)"
proof -
  obtain a b where "s = a @ c # b" using split_list [OF assms(1)] by blast
  then show ?thesis using segments_append_ascii [OF assms(2), of a b] by simp
qed

lemma tidy_no_break: "tidy (segments s) \<Longrightarrow> line_break \<notin> set s"
  using ascii_segment [of line_break s]
  by (fastforce simp: tidy_def line_break_def is_space_def byte_def)

end
