(* ===== verification/Origin_Laws.thy ===== *)
theory Origin_Laws
  imports Origin Ascii_Laws
begin

text \<open>
  What the canonical form of an origin distinguishes: scheme, host name and effective port, and nothing else.
\<close>

section \<open>Cutting and splitting\<close>

lemma cut_last_Some: "cut_last d s = Some (a, b) \<Longrightarrow> s = a @ d # b \<and> d \<notin> set b"
proof -
  assume c: "cut_last d s = Some (a, b)"
  then obtain r where r: "dropWhile (\<lambda>c. c \<noteq> d) (rev s) = d # r" "a = rev r" "b = rev (takeWhile (\<lambda>c. c \<noteq> d) (rev s))"
    by (auto simp: cut_last_def cut_at_def split: list.splits dest: dropWhile_eq_Cons_conv[THEN iffD1])
  have "rev s = takeWhile (\<lambda>c. c \<noteq> d) (rev s) @ d # r" using r(1) by (metis takeWhile_dropWhile_id)
  then have "s = rev (takeWhile (\<lambda>c. c \<noteq> d) (rev s) @ d # r)" by (metis rev_rev_ident)
  then show ?thesis using r(2,3) by (auto dest: set_takeWhileD)
qed

lemma cut_last_append: "d \<notin> set b \<Longrightarrow> cut_last d (a @ d # b) = Some (a, b)"
  by (auto simp: cut_last_def cut_at_def takeWhile_append dropWhile_append)

lemma cut_last_None: "cut_last d s = None \<longleftrightarrow> d \<notin> set s"
proof (cases "d \<in> set s")
  case True
  then have "dropWhile (\<lambda>c. c \<noteq> d) (rev s) \<noteq> []" by (simp add: dropWhile_eq_Nil_conv)
  with True show ?thesis by (auto simp: cut_last_def cut_at_def split: list.splits)
next
  case False
  then have "dropWhile (\<lambda>c. c \<noteq> d) (rev s) = []" by (simp add: dropWhile_eq_Nil_conv) metis
  then show ?thesis using False by (simp only: cut_last_def cut_at_def split) simp
qed

lemma validOptionalPort_chars: "validOptionalPort p \<Longrightarrow> c \<in> set p \<Longrightarrow> c = CHR '':'' \<or> is_digit c"
  by (cases p) (auto simp: validOptionalPort_def list_all_iff)

lemma not_digit [simp]:
  "\<not> is_digit CHR '':''" "\<not> is_digit CHR ''[''" "\<not> is_digit CHR '']''" "\<not> is_digit CHR ''.''"
  by (simp_all add: is_digit_def byte_def)

lemma split_port_digits: "list_all is_digit (snd (url_split_host hp))"
  by (auto simp: url_split_host_def validOptionalPort_def Let_def split: option.splits)

lemma split_host_subset: "set (fst (url_split_host hp)) \<subseteq> set hp"
proof -
  have strip: "set (butlast (tl x)) \<subseteq> set x" for x :: string
    by (metis in_set_butlastD list.set_sel(2) subsetI tl_Nil)
  show ?thesis
  proof (cases "cut_last CHR '':'' hp")
    case None
    then show ?thesis using strip [of hp] by (simp add: url_split_host_def)
  next
    case (Some x)
    obtain a b where x: "x = (a, b)" by (cases x)
    with Some cut_last_Some have "set a \<subseteq> set hp" by fastforce
    then show ?thesis using strip [of hp] strip [of a] Some x
      by (auto simp: url_split_host_def Let_def)
  qed
qed

text \<open>A bracketed literal comes out without its brackets.\<close>

lemma split_bracketed:
  assumes v: "validOptionalPort p"
  shows "fst (url_split_host (''['' @ h @ '']'' @ p)) = h"
proof (cases p)
  case Nil
  have bad: "\<not> validOptionalPort (CHR '':'' # b)" if "cut_last CHR '':'' (''['' @ h @ '']'') = Some (a, b)" for a b
  proof -
    from cut_last_Some [OF that] have "''['' @ h @ '']'' = a @ CHR '':'' # b" by simp
    then have "last (a @ CHR '':'' # b) = CHR '']''" by (metis append_assoc last_snoc)
    then have "CHR '']'' \<in> set b" by (cases b rule: rev_cases) auto
    then show ?thesis using not_digit(3) unfolding validOptionalPort_def list_all_iff list.sel by blast
  qed
  have "url_split_host (''['' @ h @ '']'') = (h, [])"
  proof (cases "cut_last CHR '':'' (''['' @ h @ '']'')")
    case None
    then show ?thesis by (simp add: url_split_host_def has_prefix_def has_suffix_def butlast_append)
  next
    case (Some x)
    then show ?thesis using bad [of "fst x" "snd x"]
      by (cases x) (simp add: url_split_host_def has_prefix_def has_suffix_def butlast_append)
  qed
  then show ?thesis using Nil by simp
next
  case (Cons c q)
  then have "p = CHR '':'' # q" "CHR '':'' \<notin> set q" using v
    by (auto simp: validOptionalPort_def list_all_iff)
  then show ?thesis using cut_last_append [of "CHR '':''" q "''['' @ h @ '']''"] v
    by (simp add: url_split_host_def has_prefix_def has_suffix_def butlast_append)
qed

section \<open>Hosts url.Parse accepts\<close>

lemma unescape_bracket:
  "unescape EncodeHost s = Some t \<Longrightarrow> CHR ''['' \<in> set t \<Longrightarrow> CHR ''['' \<in> set s"
proof (induction EncodeHost s arbitrary: t rule: unescape.induct)
  case (2 c s)
  show ?case
  proof (cases "c = CHR ''%''")
    case True
    with 2(3) obtain a b r where s: "s = a # b # r" "is_hex a" "is_hex b" "escape_ok EncodeHost a b"
      by (auto split: list.splits if_splits)
    then obtain u where u: "unescape EncodeHost r = Some u" "t = char_of (16 * hex_nibble a + hex_nibble b) # u"
      using 2(3) True by auto
    have n: "hex_nibble b < 16" "hex_nibble a < 16" using s(2,3) by (auto simp: hex_nibble_def is_hex_def is_digit_def Let_def)
    have "char_of (16 * hex_nibble a + hex_nibble b) \<noteq> CHR ''[''"
    proof
      assume "char_of (16 * hex_nibble a + hex_nibble b) = CHR ''[''"
      then have "of_char (char_of (16 * hex_nibble a + hex_nibble b)) = (91 :: nat)" by simp
      then have "16 * hex_nibble a + hex_nibble b = 91" using n by (simp add: of_char_of)
      then have "hex_nibble a = 5" using n by arith
      moreover have "8 \<le> hex_nibble a \<or> [a, b] = ''25''" using s(4) by (simp add: escape_ok_def)
      ultimately show False by (auto simp: hex_nibble_def is_digit_def byte_def)
    qed
    then have "CHR ''['' \<in> set u" using 2(4) u(2) by auto
    then show ?thesis using 2(1) [OF True s(1) refl] u(1) s by auto
  next
    case False
    with 2(3) obtain u where "unescape EncodeHost s = Some u" "t = c # u" by (auto split: if_splits)
    then show ?thesis using 2(2) [OF False] 2(3,4) False by (auto split: if_splits)
  qed
qed simp

lemma ParseAddr_colon: "ParseAddr s = Some (a, z) \<Longrightarrow> length a \<noteq> 4 \<Longrightarrow> CHR '':'' \<in> set s"
proof -
  assume p: "ParseAddr s = Some (a, z)" "length a \<noteq> 4"
  let ?d = "dropWhile (\<lambda>c. c \<notin> {CHR ''.'', CHR '':'', CHR ''%''}) s"
  obtain c r where d: "?d = c # r" using p(1) by (auto simp: ParseAddr_def split: list.splits)
  have four: "length q = 4" if "parse_v4 s = Some q" for q
  proof -
    have "length ys = length xs" if "those xs = Some ys" for xs :: "nat option list" and ys
      using that by (induction xs arbitrary: ys) (auto split: option.splits)
    then show ?thesis using that by (auto simp: parse_v4_def Let_def split: if_splits)
  qed
  have "c = CHR '':''" using p d four by (auto simp: ParseAddr_def split: if_splits)
  then have "CHR '':'' \<in> set ?d" using d by simp
  then show ?thesis by (rule set_dropWhileD)
qed

lemma parseHost_shape:
  assumes "parseHost raw = Some host"
  shows "CHR ''['' \<notin> set (fst (url_split_host host)) \<or> CHR '':'' \<in> set (fst (url_split_host host))"
proof (cases "cut_last CHR ''['' raw")
  case None
  then have "CHR ''['' \<notin> set raw" by (simp add: cut_last_None)
  moreover have "unescape EncodeHost raw = Some host" using assms None by (auto simp: parseHost_def split: if_splits)
  ultimately show ?thesis using unescape_bracket split_host_subset by blast
next
  case (Some x)
  then obtain pre inside where x: "cut_last CHR ''['' raw = Some (pre, inside)" by (cases x) auto
  then obtain h z p a w where "validOptionalPort p" "host = ''['' @ (h @ z) @ '']'' @ p"
      "ParseAddr (h @ z) = Some (a, w)" "length a \<noteq> 4"
    using assms by (auto simp: parseHost_def Let_def split: option.splits prod.splits if_splits)
  then show ?thesis using split_bracketed [of p "h @ z"] ParseAddr_colon by metis
qed

lemma parse_rest_host:
  "parse_rest u rest = Some v \<Longrightarrow> u_host u = [] \<Longrightarrow> u_host v = [] \<or> (\<exists>h. parseHost h = Some (u_host v))"
  by (auto simp: parse_rest_def parseAuthority_def Let_def bind_eq_Some_conv split: if_splits option.splits)

lemma url_parse_host: "url_parse raw = Some u \<Longrightarrow> u_host u = [] \<or> (\<exists>h. parseHost h = Some (u_host u))"
  using parse_rest_host
  by (fastforce simp: url_parse_def bind_eq_Some_conv no_url_def Let_def case_prod_beta split: if_splits)

lemma Hostname_shape:
  "url_parse raw = Some u \<Longrightarrow> CHR ''['' \<in> set (Hostname u) \<Longrightarrow> CHR '':'' \<in> set (Hostname u)"
  using url_parse_host [of raw u] parseHost_shape
  by (auto simp: Hostname_def url_split_host_def cut_last_def cut_at_def has_prefix_def has_suffix_def)

section \<open>Lower case keeps punctuation\<close>

text \<open>The Unicode table maps nothing outside ASCII below the letters.\<close>

definition lower_table :: "(nat \<Rightarrow> nat) \<Rightarrow> bool" where
  "lower_table lc \<longleftrightarrow> (\<forall>r. 128 \<le> r \<longrightarrow> 97 \<le> lc r)"

lemma lower_punct:
  assumes lc: "lower_table lc" and c: "byte c < 65 \<or> 91 \<le> byte c \<and> byte c < 97"
  shows "c \<in> set (to_lower lc s) \<longleftrightarrow> c \<in> set s"
proof -
  have fix_c: "lower_rune lc r = byte c \<longleftrightarrow> r = byte c" for r
  proof (cases "r < 128")
    case True
    then show ?thesis using c by (auto simp: lower_rune_def)
  next
    case False
    then have "97 \<le> lc r" using lc by (simp add: lower_table_def)
    then show ?thesis using c False by (auto simp: lower_rune_def)
  qed
  show ?thesis
  proof (cases "list_all (\<lambda>c. byte c < 128) s")
    case True
    have "c = char_of (lower_rune lc (byte d)) \<longleftrightarrow> c = d" if "d \<in> set s" for d
    proof -
      have "lower_rune lc (byte d) < 256" using True that by (auto simp: list_all_iff lower_rune_def)
      then have "c = char_of (lower_rune lc (byte d)) \<longleftrightarrow> byte c = lower_rune lc (byte d)"
        by (metis byte_char_of byte_inj mod_less)
      then show ?thesis using fix_c [of "byte d"] by (metis byte_inj)
    qed
    then show ?thesis using True unfolding to_lower_def by (simp add: image_iff)
  next
    case False
    have low: "byte c < 128" using c by linarith
    have "c \<in> set (of_runes rs) \<longleftrightarrow> byte c \<in> set rs" for rs
    proof
      assume "c \<in> set (of_runes rs)"
      then obtain r where r: "r \<in> set rs" "c \<in> set (encode_rune r)" by (auto simp: of_runes_def)
      then have "r < 128" "c = char_of r" using encode_low [OF r(2) low] by auto
      then have "r = byte c" by simp
      then show "byte c \<in> set rs" using r by simp
    next
      assume "byte c \<in> set rs"
      then show "c \<in> set (of_runes rs)" using low
        by (auto simp: of_runes_def encode_rune_def valid_rune_def byte_def intro!: bexI [of _ "byte c"])
    qed
    then have "c \<in> set (to_lower lc s) \<longleftrightarrow> byte c \<in> lower_rune lc ` set (runes s)"
      using False by (simp add: to_lower_def)
    also have "\<dots> \<longleftrightarrow> byte c \<in> set (runes s)" by (metis fix_c imageE imageI)
    also have "\<dots> \<longleftrightarrow> c \<in> set s"
      using low_runes [of c s] runes_low [of "byte c" s] low by (auto simp: byte_def)
    finally show ?thesis .
  qed
qed

section \<open>Same origin\<close>

text \<open>What an origin names: the scheme, the host name (lower case, without a final dot) and the port it uses.\<close>

definition origin_key :: "(nat \<Rightarrow> nat) \<Rightarrow> string \<Rightarrow> string \<Rightarrow> (string \<times> string \<times> string) option" where
  "origin_key lc scheme0 hostport =
     (let scheme = to_lower lc (trim_space scheme0) in
      map_option (\<lambda>u. (scheme, trim_suffix (to_lower lc (Hostname u)) ''.'',
          if Port u \<noteq> '''' then Port u else if scheme = ''http'' then ''80'' else ''443''))
        (origin_url scheme hostport))"

lemma render_host_inject:
  assumes r: "render_host h p = render_host k q"
    and h: "CHR ''['' \<in> set h \<Longrightarrow> CHR '':'' \<in> set h" and k: "CHR ''['' \<in> set k \<Longrightarrow> CHR '':'' \<in> set k"
    and ne: "h \<noteq> []" "k \<noteq> []" and d: "list_all is_digit p" "list_all is_digit q"
  shows "h = k \<and> p = q"
proof -
  define port where "port x = (if x = [] then [] else CHR '':'' # x)" for x :: string
  have port: "port x = port y \<Longrightarrow> x = y" for x y by (auto simp: port_def split: if_splits)
  have clean: "CHR '']'' \<notin> set (port p)" "CHR '']'' \<notin> set (port q)"
    using d not_digit(3) unfolding port_def list_all_iff by auto
  have form: "render_host x y = (if CHR '':'' \<in> set x then ''['' @ x @ CHR '']'' # port y else x @ port y)" for x y
    by (auto simp: render_host_def JoinHostPort_def port_def)
  have plain: "takeWhile (\<lambda>c. c \<noteq> CHR '':'') (x @ port y) = x" if "CHR '':'' \<notin> set x" for x y
    using that by (subst takeWhile_append2) (auto simp: port_def)
  have open_h: "hd (x @ port y) \<noteq> CHR ''[''" if "x \<noteq> []" "CHR ''['' \<notin> set x" for x y
    using that by (cases x) auto
  show ?thesis
  proof (cases "CHR '':'' \<in> set h")
    case True
    then have c: "CHR '':'' \<in> set k" using r open_h [of k q] k ne(2) form by (metis append_Cons list.sel(1))
    then have e: "h @ CHR '']'' # port p = k @ CHR '']'' # port q" using r True by (simp add: form)
    have "Some (h, port p) = cut_last CHR '']'' (h @ CHR '']'' # port p)"
      by (rule cut_last_append [OF clean(1), symmetric])
    also have "\<dots> = cut_last CHR '']'' (k @ CHR '']'' # port q)" by (simp only: e)
    also have "\<dots> = Some (k, port q)" by (rule cut_last_append [OF clean(2)])
    finally have "h = k \<and> port p = port q" by simp
    then show ?thesis using port by blast
  next
    case False
    then have c: "CHR '':'' \<notin> set k" using r open_h [of h p] h ne(1) form by (metis append_Cons list.sel(1))
    then have "h @ port p = k @ port q" using r False by (simp add: form)
    moreover from this have "h = k" using plain False c by metis
    ultimately show ?thesis using port by blast
  qed
qed

lemma trim_suffix_subset: "set (trim_suffix s p) \<subseteq> set s"
  by (auto simp: trim_suffix_def dest: in_set_takeD)

lemma trim_dot: "c \<noteq> CHR ''.'' \<Longrightarrow> c \<in> set s \<Longrightarrow> c \<in> set (trim_suffix s ''.'')"
  by (cases s rule: rev_cases) (auto simp: trim_suffix_def has_suffix_def)

lemma origin_host_shape:
  assumes lc: "lower_table lc" and u: "origin_url sc hp = Some u"
    and b: "CHR ''['' \<in> set (trim_suffix (to_lower lc (Hostname u)) ''.'')"
  shows "CHR '':'' \<in> set (trim_suffix (to_lower lc (Hostname u)) ''.'')"
proof -
  have "url_parse (sc @ ''://'' @ hp) = Some u" using u by (auto simp: origin_url_def split: option.splits if_splits)
  moreover have "CHR ''['' \<in> set (Hostname u)"
    using b trim_suffix_subset lower_punct [OF lc, of "CHR ''[''"] by (auto simp: byte_def)
  ultimately have "CHR '':'' \<in> set (Hostname u)" by (rule Hostname_shape)
  then have "CHR '':'' \<in> set (to_lower lc (Hostname u))"
    using lower_punct [OF lc, of "CHR '':''"] by (simp add: byte_def)
  then show ?thesis by (intro trim_dot) simp
qed

lemma canonical_form:
  assumes "canonicalHTTPOrigin lc s0 hp = Some o1"
  obtains sc u where "sc = to_lower lc (trim_space s0)" "sc = ''http'' \<or> sc = ''https''" "origin_url sc hp = Some u"
    "trim_suffix (to_lower lc (Hostname u)) ''.'' \<noteq> []"
    "o1 = sc @ ''://'' @ render_host (trim_suffix (to_lower lc (Hostname u)) ''.'')
        (if default_port sc (Port u) then '''' else Port u)"
  using assms by (auto simp: canonicalHTTPOrigin_def Let_def split: if_splits option.splits)

lemma Port_digits: "list_all is_digit (Port u)"
  by (simp add: Port_def split_port_digits)

text \<open>
  C26. Two origins count as the same exactly when they name the same thing: for any two scheme and host pairs the
  gateway can canonicalise, the canonical texts are equal if and only if scheme, host name (case and one final
  dot apart) and effective port are equal.  So no spelling of a foreign host, port, IPv6 literal or zone passes
  for the request's own origin, and no spelling of the own origin is refused.
\<close>

theorem same_origin_exact:
  assumes lc: "lower_table lc"
    and c1: "canonicalHTTPOrigin lc s1 h1 = Some o1" and c2: "canonicalHTTPOrigin lc s2 h2 = Some o2"
  shows "o1 = o2 \<longleftrightarrow> origin_key lc s1 h1 = origin_key lc s2 h2"
proof -
  obtain a u where a: "a = to_lower lc (trim_space s1)" "a = ''http'' \<or> a = ''https''" "origin_url a h1 = Some u"
    "trim_suffix (to_lower lc (Hostname u)) ''.'' \<noteq> []"
    "o1 = a @ ''://'' @ render_host (trim_suffix (to_lower lc (Hostname u)) ''.'')
        (if default_port a (Port u) then '''' else Port u)" using canonical_form [OF c1] by blast
  obtain b v where b: "b = to_lower lc (trim_space s2)" "b = ''http'' \<or> b = ''https''" "origin_url b h2 = Some v"
    "trim_suffix (to_lower lc (Hostname v)) ''.'' \<noteq> []"
    "o2 = b @ ''://'' @ render_host (trim_suffix (to_lower lc (Hostname v)) ''.'')
        (if default_port b (Port v) then '''' else Port v)" using canonical_form [OF c2] by blast
  let ?h = "trim_suffix (to_lower lc (Hostname u)) ''.''" and ?k = "trim_suffix (to_lower lc (Hostname v)) ''.''"
  let ?p = "if default_port a (Port u) then '''' else Port u" and ?q = "if default_port b (Port v) then '''' else Port v"
  have "o1 = o2 \<longleftrightarrow> a = b \<and> render_host ?h ?p = render_host ?k ?q"
    using a(2,5) b(2,5) by auto
  also have "\<dots> \<longleftrightarrow> a = b \<and> ?h = ?k \<and> ?p = ?q"
    using render_host_inject [of ?h ?p ?k ?q] origin_host_shape [OF lc a(3)] origin_host_shape [OF lc b(3)]
      a(4) b(4) Port_digits by auto
  also have "\<dots> \<longleftrightarrow> origin_key lc s1 h1 = origin_key lc s2 h2"
    using a(1,2,3) b(1,2,3) by (auto simp: origin_key_def default_port_def Let_def)
  finally show ?thesis .
qed

lemmas origin_eval = trim_space_def trim_seg_def segments_ascii is_space_def to_lower_def lower_rune_def byte_def
  of_char_def char_of_def bit_0 url_parse_def cut_at_def getScheme_def parse_rest_def parseAuthority_def
  parseHost_def cut_last_def is_alpha_def is_digit_def has_prefix_def has_suffix_def host_byte_def lower_ascii_def
  no_url_def url_split_host_def Hostname_def Port_def validOptionalPort_def trim_suffix_def render_host_def
  JoinHostPort_def default_port_def origin_url_def

lemma same_origin_exact_witness:
  "(''http://desk.ts.net'' = ''http://desk.ts.net'') =
     (origin_key id ''HTTP'' ''Desk.ts.net.'' = origin_key id ''http'' ''desk.ts.net:80'')"
  by (rule same_origin_exact [of id])
    (simp add: lower_table_def, simp_all add: canonicalHTTPOrigin_def origin_eval)

end
