(* ===== verification/Push_Keys.thy ===== *)
theory Push_Keys
  imports Net_Url
begin

text \<open>
  The key material of Web Push as \<open>gateway.go\<close> (\<open>validatePushKeys\<close>) and \<open>config.go\<close> (\<open>validatePushConfig\<close>) check
  it: unpadded URL-safe base64, and points and scalars of the curve P-256 as \<open>crypto/ecdh\<close> of the standard library
  defines them.
\<close>

section \<open>base64.RawURLEncoding\<close>

definition sextet :: "char \<Rightarrow> nat option" where
  "sextet c = (let b = byte c in
     if 65 \<le> b \<and> b \<le> 90 then Some (b - 65)
     else if 97 \<le> b \<and> b \<le> 122 then Some (b - 71)
     else if 48 \<le> b \<and> b \<le> 57 then Some (b + 4)
     else if b = 45 then Some 62 else if b = 95 then Some 63 else None)"

fun b64_bytes :: "nat list \<Rightarrow> nat list option" where
  "b64_bytes [] = Some []"
| "b64_bytes [a] = None"
| "b64_bytes [a, b] = Some [4 * a + b div 16]"
| "b64_bytes [a, b, c] = Some [4 * a + b div 16, b mod 16 * 16 + c div 4]"
| "b64_bytes (a # b # c # d # r) =
     map_option (\<lambda>t. (4 * a + b div 16) # (b mod 16 * 16 + c div 4) # (c mod 4 * 64 + d) # t) (b64_bytes r)"

text \<open>Line breaks are ignored.\<close>

definition base64_decode :: "string \<Rightarrow> nat list option" where
  "base64_decode s =
     Option.bind (those (map sextet (filter (\<lambda>c. c \<noteq> CHR 0x0A \<and> c \<noteq> CHR 0x0D) s))) b64_bytes"

section \<open>P-256\<close>

definition p256 :: int where "p256 = 2 ^ 256 - 2 ^ 224 + 2 ^ 192 + 2 ^ 96 - 1"

definition p256_order :: int where
  "p256_order = 0xffffffff00000000ffffffffffffffffbce6faada7179e84f3b9cac2fc632551"

definition p256_b :: int where
  "p256_b = 0x5ac635d8aa3a93e7b3ebbd55769886bc651d06b0cc53b0f63bce3c3e27d2604b"

definition p256_base :: "int \<times> int" where
  "p256_base = (0x6b17d1f2e12c4247f8bce6e563a440f277037d812deb33a0f4a13945d898c296,
     0x4fe342e2fe1a7f9b8ee7eb4a7c0f9e162bce33576b315ececbb6406837bf51f5)"

definition on_p256 :: "int \<Rightarrow> int \<Rightarrow> bool" where
  "on_p256 x y \<longleftrightarrow> x < p256 \<and> y < p256 \<and> (y * y - (x * x * x - 3 * x + p256_b)) mod p256 = 0"

definition big_endian :: "nat list \<Rightarrow> int" where
  "big_endian bs = foldl (\<lambda>n b. 256 * n + int b) 0 bs"

text \<open>\<open>ecdh.P256().NewPublicKey\<close>: an uncompressed point of the curve.\<close>

definition p256_public :: "nat list \<Rightarrow> bool" where
  "p256_public bs \<longleftrightarrow> length bs = 65 \<and> hd bs = 4 \<and>
     on_p256 (big_endian (take 32 (drop 1 bs))) (big_endian (drop 33 bs))"

text \<open>\<open>NewPrivateKey\<close>: a scalar of the group; its public key is the multiple of the base point.\<close>

definition p256_private :: "nat list \<Rightarrow> bool" where
  "p256_private bs \<longleftrightarrow> length bs = 32 \<and> 0 < big_endian bs \<and> big_endian bs < p256_order"

function mod_power :: "int \<Rightarrow> int \<Rightarrow> int" where
  "mod_power x n = (if n \<le> 0 then 1 else
     let h = mod_power (x * x mod p256) (n div 2) in if odd n then x * h mod p256 else h)"
  by pat_completeness auto
termination by (relation "measure (\<lambda>(_, n). nat n)") auto

definition mod_inverse :: "int \<Rightarrow> int" where
  "mod_inverse x = mod_power (x mod p256) (p256 - 2)"

text \<open>Affine addition; \<open>None\<close> is the point at infinity.\<close>

fun p256_add :: "(int \<times> int) option \<Rightarrow> (int \<times> int) option \<Rightarrow> (int \<times> int) option" where
  "p256_add None q = q"
| "p256_add p None = p"
| "p256_add (Some (x1, y1)) (Some (x2, y2)) =
     (if x1 = x2 \<and> (y1 + y2) mod p256 = 0 then None
      else let s = (if x1 = x2 then (3 * x1 * x1 - 3) * mod_inverse (2 * y1) else (y2 - y1) * mod_inverse (x2 - x1));
               x3 = (s * s - x1 - x2) mod p256 in
        Some (x3, (s * (x1 - x3) - y1) mod p256))"

function p256_mult :: "int \<Rightarrow> (int \<times> int) option \<Rightarrow> (int \<times> int) option" where
  "p256_mult n p = (if n \<le> 0 then None else
     let h = p256_mult (n div 2) (p256_add p p) in if odd n then p256_add p h else h)"
  by pat_completeness auto
termination by (relation "measure (\<lambda>(n, _). nat n)") auto

declare mod_power.simps [simp del] p256_mult.simps [simp del]

definition octets :: "nat \<Rightarrow> int \<Rightarrow> nat list" where
  "octets k n = map (\<lambda>i. nat (n div 256 ^ (k - Suc i) mod 256)) [0..<k]"

definition p256_public_of :: "nat list \<Rightarrow> nat list" where
  "p256_public_of bs = (case p256_mult (big_endian bs) (Some p256_base) of
      None \<Rightarrow> []
    | Some (x, y) \<Rightarrow> 4 # octets 32 x @ octets 32 y)"

section \<open>Keys of a subscription\<close>

definition validatePushKeys :: "string \<Rightarrow> string \<Rightarrow> bool" where
  "validatePushKeys p256dh auth =
     (case base64_decode p256dh of
        None \<Rightarrow> False
      | Some public \<Rightarrow> p256_public public \<and>
          (case base64_decode auth of None \<Rightarrow> False | Some secret \<Rightarrow> length secret = 16))"

end
