(* ===== verification/Config.thy ===== *)
theory Config
  imports Assets Origin_Laws Push_Keys Errors Json
begin

text \<open>
  The configuration (\<open>src/internal/config/config.go\<close>): the environment is a partial map (\<open>os.LookupEnv\<close>), and
  \<open>Load\<close> reads, defaults and checks every knob.  Texts to doubles (\<open>strconv.ParseFloat\<close>) and the double
  arithmetic on the fraction of a duration (\<open>fr\<close>) are arguments.  An error keeps the program's own text; the text
  of the library error it wraps is dropped.
\<close>

type_synonym environment = "string \<Rightarrow> string option"

record config =
  OpenAIKey :: string
  DatabaseURL :: string
  OpenAIBaseURL :: string
  OpenAIRealtimeWSURL :: string
  RealtimeModel :: string
  Voice :: string
  TTSModel :: string
  TTSVoice :: string
  SummaryModel :: string
  TranscribeModel :: string
  SafetyID :: string
  HermesBaseURL :: string
  HermesAPIKey :: string
  HermesModel :: string
  ApprovalParkAfter :: duration
  ListenAddr :: string
  StaticDir :: string
  AllowedOrigins :: "string list"
  PrebakeDir :: string
  PushVAPIDPublicKey :: string
  PushVAPIDPrivateKey :: string
  PushVAPIDSubject :: string
  cfgQuietAfter :: duration
  cfgParkAfter :: duration
  cfgRolloverAt :: duration
  FakeJobSeconds :: int
  EventRetention :: duration
  DailyBudgetUSD :: "64 word"

section \<open>Reading one variable\<close>

definition Getenv :: "environment \<Rightarrow> string \<Rightarrow> string" where
  "Getenv env k = (case env k of None \<Rightarrow> '''' | Some v \<Rightarrow> v)"

definition getenv :: "environment \<Rightarrow> string \<Rightarrow> string \<Rightarrow> string" where
  "getenv env k def = (if Getenv env k \<noteq> '''' then Getenv env k else def)"

text \<open>\<open>time.ParseDuration\<close>; \<open>fr digits unit\<close> is the number of nanoseconds of a fraction.\<close>

definition unit_ns :: "string \<Rightarrow> nat option" where
  "unit_ns u = map_of [(''ns'', 1), (''us'', 1000), (encode_rune 181 @ ''s'', 1000), (encode_rune 956 @ ''s'', 1000),
     (''ms'', 1000000), (''s'', 1000000000), (''m'', 60000000000), (''h'', 3600000000000)] u"

lemma unit_nonempty: "unit_ns u = Some k \<Longrightarrow> u \<noteq> []"
  by (auto simp: unit_ns_def)

function dur_loop :: "(string \<Rightarrow> nat \<Rightarrow> nat) \<Rightarrow> nat \<Rightarrow> string \<Rightarrow> nat option" where
  "dur_loop fr d s =
     (if s = [] then Some d
      else let ds = takeWhile is_digit s; r = dropWhile is_digit s;
               dot = (r \<noteq> [] \<and> hd r = CHR ''.'');
               fs = (if dot then takeWhile is_digit (tl r) else []);
               r = (if dot then dropWhile is_digit (tl r) else r);
               u = takeWhile (\<lambda>c. c \<noteq> CHR ''.'' \<and> \<not> is_digit c) r in
        if ds = [] \<and> fs = [] then None
        else (case unit_ns u of
            None \<Rightarrow> None
          | Some k \<Rightarrow>
              let v = dec_value ds * k + fr fs k in
              if 2 ^ 63 < dec_value ds \<or> 2 ^ 63 div k < dec_value ds \<or> 2 ^ 63 < v \<or> 2 ^ 63 < (d + v) mod 2 ^ 64
              then None else dur_loop fr ((d + v) mod 2 ^ 64) (drop (length u) r)))"
  by pat_completeness auto
termination
proof (relation "measure (\<lambda>(_, _, s). length s)", goal_cases)
  case (2 fr d s ds r dot fs ra u k v)
  have "length ra \<le> length s"
    unfolding 2 using length_dropWhile_le [of is_digit s] length_dropWhile_le [of is_digit "tl (dropWhile is_digit s)"]
    by (auto intro: le_trans)
  moreover have "u \<noteq> []" "length u \<le> length ra" using unit_nonempty 2 by (auto simp: length_takeWhile_le)
  ultimately show ?case by (cases u) auto
qed simp

declare dur_loop.simps [simp del]

definition ParseDuration :: "(string \<Rightarrow> nat \<Rightarrow> nat) \<Rightarrow> string \<Rightarrow> duration option" where
  "ParseDuration fr s0 =
     (let neg = has_prefix s0 ''-''; s = (if has_prefix s0 ''-'' \<or> has_prefix s0 ''+'' then tl s0 else s0) in
      if s = ''0'' then Some 0
      else if s = '''' then None
      else (case dur_loop fr 0 s of
          None \<Rightarrow> None
        | Some d \<Rightarrow> if neg then Some (- int d) else if 2 ^ 63 \<le> d then None else Some (int d)))"

definition getdur :: "(string \<Rightarrow> nat \<Rightarrow> nat) \<Rightarrow> environment \<Rightarrow> string \<Rightarrow> duration \<Rightarrow> error + duration" where
  "getdur fr env k def =
     (let v = Getenv env k in
      if v = '''' then Inr def
      else (case ParseDuration fr v of
          None \<Rightarrow> Inl (EText (k @ '' must be a Go duration such as 90s or 15m: ''))
        | Some d \<Rightarrow> if d \<le> 0 then Inl (EText (k @ '' must be greater than zero'')) else Inr d))"

definition Atoi :: "string \<Rightarrow> int option" where
  "Atoi s =
     (let ds = (if has_prefix s ''-'' \<or> has_prefix s ''+'' then tl s else s);
          n = (if has_prefix s ''-'' then - int (dec_value ds) else int (dec_value ds)) in
      if ds = '''' \<or> \<not> list_all is_digit ds \<or> n < - (2 ^ 63) \<or> 2 ^ 63 \<le> n then None else Some n)"

definition getint :: "environment \<Rightarrow> string \<Rightarrow> int \<Rightarrow> error + int" where
  "getint env k def =
     (let v = Getenv env k in
      if v = '''' then Inr def
      else (case Atoi (trim_space v) of
          None \<Rightarrow> Inl (EText (k @ '' must be an integer: ''))
        | Some n \<Rightarrow> if n \<le> 0 then Inl (EText (k @ '' must be greater than zero'')) else Inr n))"

definition dbl_inf :: "64 word \<Rightarrow> bool" where
  "dbl_inf x \<longleftrightarrow> unat x mod 2 ^ 63 = 0x7ff * 2 ^ 52"

definition dbl_neg :: "64 word \<Rightarrow> bool" where
  "dbl_neg x \<longleftrightarrow> \<not> dbl_nan x \<and> dbl_key x < 0"

definition getfloat ::
  "(string \<Rightarrow> 64 word option) \<Rightarrow> environment \<Rightarrow> string \<Rightarrow> 64 word \<Rightarrow> error + 64 word" where
  "getfloat parseFloat env k def =
     (let v = Getenv env k in
      if v = '''' then Inr def
      else (case parseFloat (trim_space v) of
          None \<Rightarrow> Inl (EText (k @ '' must be a number: ''))
        | Some f \<Rightarrow> if dbl_neg f \<or> dbl_nan f \<or> dbl_inf f
            then Inl (EText (k @ '' must be a finite, non-negative number'')) else Inr f))"

definition splitCSV :: "string \<Rightarrow> string list" where
  "splitCSV v = filter (\<lambda>s. s \<noteq> '''') (map trim_space (split_on CHR '','' v))"

section \<open>URLs of providers\<close>

definition loopbackHost :: "string \<Rightarrow> bool" where
  "loopbackHost host \<longleftrightarrow> map fold_rune (runes host) = map fold_rune (runes ''localhost'') \<or>
     (case ParseIP host of None \<Rightarrow> False | Some ip \<Rightarrow> IsLoopback ip)"

definition validateProviderURL :: "string \<Rightarrow> string \<Rightarrow> bool \<Rightarrow> error option" where
  "validateProviderURL name raw websocket =
     (case url_parse raw of
        None \<Rightarrow> Some (EText (name @ '' must be an absolute URL''))
      | Some u \<Rightarrow>
          let secure = (if websocket then ''wss'' else ''https''); insecure = (if websocket then ''ws'' else ''http'') in
          if u_scheme u = '''' \<or> u_host u = '''' then Some (EText (name @ '' must be an absolute URL''))
          else if u_user u \<noteq> None \<or> u_fragment u \<noteq> ''''
          then Some (EText (name @ '' must not contain userinfo or a fragment''))
          else if \<not> websocket \<and> u_query u \<noteq> '''' then Some (EText (name @ '' must not contain a query''))
          else if u_scheme u = secure then None
          else if u_scheme u = insecure \<and> loopbackHost (Hostname u) then None
          else Some (EText (name @ '' must use '' @ secure @ '', except '' @ insecure @
            '' is allowed for an explicit loopback host'')))"

definition trim_right :: "char \<Rightarrow> string \<Rightarrow> string" where
  "trim_right c s = rev (dropWhile (\<lambda>d. d = c) (rev s))"

definition realtimeURL :: "string \<Rightarrow> string" where
  "realtimeURL base =
     (case url_parse base of
        None \<Rightarrow> ''''
      | Some u \<Rightarrow>
          url_string (u\<lparr>u_scheme := (if u_scheme u = ''https'' then ''wss'' else if u_scheme u = ''http'' then ''ws''
                             else u_scheme u),
             u_path := trim_right CHR ''/'' (u_path u) @ ''/v1/realtime'', u_query := '''', u_fragment := ''''\<rparr>))"

section \<open>Push keys and the database password\<close>

definition validatePushConfig :: "config \<Rightarrow> error option" where
  "validatePushConfig c =
     (let pub = PushVAPIDPublicKey c; priv = PushVAPIDPrivateKey c; subj = PushVAPIDSubject c in
      if pub = '''' \<and> priv = '''' \<and> subj = '''' then None
      else if pub = '''' \<or> priv = '''' \<or> subj = ''''
      then Some (EText (''PUSH_VAPID_PUBLIC_KEY, PUSH_VAPID_PRIVATE_KEY, and '' @
        ''PUSH_VAPID_SUBJECT must be set together''))
      else (case base64_decode pub of
          None \<Rightarrow> Some (EText ''PUSH_VAPID_PUBLIC_KEY must be unpadded URL-safe base64: '')
        | Some public \<Rightarrow>
            if \<not> p256_public public then Some (EText ''PUSH_VAPID_PUBLIC_KEY is not a valid P-256 public key: '')
            else (case base64_decode priv of
                None \<Rightarrow> Some (EText ''PUSH_VAPID_PRIVATE_KEY must be unpadded URL-safe base64: '')
              | Some private \<Rightarrow>
                  if \<not> p256_private private
                  then Some (EText ''PUSH_VAPID_PRIVATE_KEY is not a valid P-256 private key: '')
                  else if p256_public_of private \<noteq> public
                  then Some (EText (''PUSH_VAPID_PUBLIC_KEY and PUSH_VAPID_PRIVATE_KEY are not '' @
                    ''the same P-256 key pair''))
                  else (case url_parse subj of
                      None \<Rightarrow> Some (EText ''PUSH_VAPID_SUBJECT must be a mailto: or https: URI'')
                    | Some u \<Rightarrow>
                        if u_scheme u \<noteq> ''mailto'' \<and> u_scheme u \<noteq> ''https''
                        then Some (EText ''PUSH_VAPID_SUBJECT must be a mailto: or https: URI'')
                        else if u_scheme u = ''https'' \<and> u_host u = ''''
                        then Some (EText ''PUSH_VAPID_SUBJECT https URI must include a host'')
                        else if u_scheme u = ''mailto'' \<and> trim_space (u_opaque u @ u_path u) = ''''
                        then Some (EText ''PUSH_VAPID_SUBJECT mailto URI must include an address'')
                        else None))))"

definition lower_hex :: "char \<Rightarrow> bool" where
  "lower_hex c \<longleftrightarrow> is_digit c \<or> 97 \<le> byte c \<and> byte c \<le> 102"

definition validateDatabasePassword :: "environment \<Rightarrow> error option" where
  "validateDatabasePassword env =
     (case env ''THORNHILL_DB_PASSWORD'' of
        None \<Rightarrow> None
      | Some password \<Rightarrow>
          if length password \<noteq> 64 \<or> \<not> list_all lower_hex password
          then Some (EText ''THORNHILL_DB_PASSWORD must be exactly 64 lowercase hexadecimal characters'') else None)"

section \<open>Load\<close>

definition load_texts :: "environment \<Rightarrow> config" where
  "load_texts env =
     \<lparr>OpenAIKey = Getenv env ''OPENAI_API_KEY'', DatabaseURL = Getenv env ''DATABASE_URL'',
      OpenAIBaseURL = trim_right CHR ''/'' (getenv env ''OPENAI_BASE_URL'' ''https://api.openai.com''),
      OpenAIRealtimeWSURL = trim_space (Getenv env ''OPENAI_REALTIME_WS_URL''),
      RealtimeModel = getenv env ''REALTIME_MODEL'' ''gpt-realtime-2.1'',
      Voice = getenv env ''REALTIME_VOICE'' ''marin'', TTSModel = getenv env ''TTS_MODEL'' ''gpt-4o-mini-tts'',
      TTSVoice = getenv env ''TTS_VOICE'' ''alloy'', SummaryModel = getenv env ''SUMMARY_MODEL'' ''gpt-5.5'',
      TranscribeModel = getenv env ''TRANSCRIBE_MODEL'' ''gpt-realtime-whisper'',
      SafetyID = getenv env ''SAFETY_IDENTIFIER'' ''thornhill-admin'',
      HermesBaseURL = trim_right CHR ''/'' (trim_space (Getenv env ''HERMES_BASE_URL'')),
      HermesAPIKey = Getenv env ''HERMES_API_KEY'', HermesModel = getenv env ''HERMES_MODEL'' ''default'',
      ApprovalParkAfter = 0, ListenAddr = getenv env ''LISTEN_ADDR'' '':8787'',
      StaticDir = getenv env ''STATIC_DIR'' ''web/dist'',
      AllowedOrigins = splitCSV (Getenv env ''ALLOWED_ORIGINS''),
      PrebakeDir = getenv env ''PREBAKE_DIR'' ''prebaked'',
      PushVAPIDPublicKey = trim_space (Getenv env ''PUSH_VAPID_PUBLIC_KEY''),
      PushVAPIDPrivateKey = trim_space (Getenv env ''PUSH_VAPID_PRIVATE_KEY''),
      PushVAPIDSubject = trim_space (Getenv env ''PUSH_VAPID_SUBJECT''),
      cfgQuietAfter = 0, cfgParkAfter = 0, cfgRolloverAt = 0, FakeJobSeconds = 0, EventRetention = 0,
      DailyBudgetUSD = 0\<rparr>"

text \<open>The checks after every knob is read, in the order of the code; 0x4039... is the double 25.\<close>

definition check_config :: "environment \<Rightarrow> config \<Rightarrow> error option" where
  "check_config env c = first_error
     [validateDatabasePassword env,
      validateProviderURL ''OPENAI_BASE_URL'' (OpenAIBaseURL c) False,
      validateProviderURL ''OPENAI_REALTIME_WS_URL'' (OpenAIRealtimeWSURL c) True,
      (if HermesBaseURL c \<noteq> '''' then validateProviderURL ''HERMES_BASE_URL'' (HermesBaseURL c) False else None),
      validatePushConfig c,
      (if OpenAIKey c = '''' then Some (EText ''OPENAI_API_KEY is required'') else None),
      (if DatabaseURL c = '''' then Some (EText ''DATABASE_URL is required'') else None)]"

definition checked :: "environment \<Rightarrow> config \<Rightarrow> error + config" where
  "checked env c = (case check_config env c of Some e \<Rightarrow> Inl e | None \<Rightarrow> Inr c)"

lemma checked_Inr: "checked env c = Inr d \<longleftrightarrow> d = c \<and> check_config env c = None"
  by (auto simp: checked_def split: option.splits)

definition Load ::
  "(string \<Rightarrow> nat \<Rightarrow> nat) \<Rightarrow> (string \<Rightarrow> 64 word option) \<Rightarrow> environment \<Rightarrow> error + config" where
  "Load fr parseFloat env =
     (let c = load_texts env in
      and_then (getdur fr env ''APPROVAL_PARK_AFTER'' (minutes 15)) (\<lambda>approval.
      and_then (getdur fr env ''QUIET_AFTER'' (seconds 30)) (\<lambda>quiet.
      and_then (getdur fr env ''PARK_AFTER'' (minutes 10)) (\<lambda>park.
      and_then (getdur fr env ''ROLLOVER_AT'' (minutes 57)) (\<lambda>rollover.
      and_then (getdur fr env ''EVENT_RETENTION'' (minutes (30 * 24 * 60))) (\<lambda>retention.
      and_then (getint env ''FAKE_JOB_SECONDS'' 90) (\<lambda>fake.
      and_then (getfloat parseFloat env ''DAILY_BUDGET_USD'' 0x4039000000000000) (\<lambda>budget.
      let c = c\<lparr>ApprovalParkAfter := approval, cfgQuietAfter := quiet, cfgParkAfter := park,
            cfgRolloverAt := rollover, EventRetention := retention, FakeJobSeconds := fake,
            DailyBudgetUSD := budget,
            OpenAIRealtimeWSURL := (if OpenAIRealtimeWSURL c = '''' then realtimeURL (OpenAIBaseURL c)
              else OpenAIRealtimeWSURL c)\<rparr> in
      checked env c))))))))"

section \<open>What a loaded configuration guarantees\<close>

text \<open>Credentials travel encrypted, or to this machine only.\<close>

definition private_channel :: "bool \<Rightarrow> string \<Rightarrow> bool" where
  "private_channel websocket raw \<longleftrightarrow> (\<exists>u. url_parse raw = Some u \<and> u_host u \<noteq> '''' \<and> u_user u = None \<and>
     (u_scheme u = (if websocket then ''wss'' else ''https'') \<or>
      u_scheme u = (if websocket then ''ws'' else ''http'') \<and> loopbackHost (Hostname u)))"

definition matching_push_keys :: "config \<Rightarrow> bool" where
  "matching_push_keys c \<longleftrightarrow> (\<exists>priv. base64_decode (PushVAPIDPrivateKey c) = Some priv \<and> p256_private priv \<and>
     base64_decode (PushVAPIDPublicKey c) = Some (p256_public_of priv) \<and> p256_public (p256_public_of priv))"

text \<open>A variable that is set is honoured exactly or refused; only an absent one gets the default.\<close>

definition knob :: "(string \<Rightarrow> nat \<Rightarrow> nat) \<Rightarrow> environment \<Rightarrow> string \<Rightarrow> duration \<Rightarrow> duration \<Rightarrow> bool" where
  "knob fr env k def d \<longleftrightarrow>
     (if Getenv env k = '''' then d = def else ParseDuration fr (Getenv env k) = Some d \<and> 0 < d \<and> d < 2 ^ 63)"

definition sound_config :: "(string \<Rightarrow> nat \<Rightarrow> nat) \<Rightarrow> environment \<Rightarrow> config \<Rightarrow> bool" where
  "sound_config fr env c \<longleftrightarrow>
     OpenAIKey c \<noteq> '''' \<and> DatabaseURL c \<noteq> '''' \<and>
     private_channel False (OpenAIBaseURL c) \<and> private_channel True (OpenAIRealtimeWSURL c) \<and>
     (HermesBaseURL c = '''' \<or> private_channel False (HermesBaseURL c)) \<and>
     (PushVAPIDPublicKey c = '''' \<and> PushVAPIDPrivateKey c = '''' \<or> matching_push_keys c) \<and>
     knob fr env ''QUIET_AFTER'' (seconds 30) (cfgQuietAfter c) \<and>
     knob fr env ''PARK_AFTER'' (minutes 10) (cfgParkAfter c) \<and>
     knob fr env ''ROLLOVER_AT'' (minutes 57) (cfgRolloverAt c) \<and>
     knob fr env ''APPROVAL_PARK_AFTER'' (minutes 15) (ApprovalParkAfter c) \<and>
     knob fr env ''EVENT_RETENTION'' (minutes 43200) (EventRetention c) \<and> 0 < FakeJobSeconds c \<and>
     \<not> dbl_nan (DailyBudgetUSD c) \<and> \<not> dbl_inf (DailyBudgetUSD c) \<and> \<not> dbl_neg (DailyBudgetUSD c)"

lemma ParseDuration_range: "ParseDuration fr s = Some d \<Longrightarrow> d < 2 ^ 63"
  by (auto simp: ParseDuration_def Let_def split: if_splits option.splits)

lemma getdur_knob: "getdur fr env k def = Inr d \<Longrightarrow> knob fr env k def d"
  using ParseDuration_range [of fr "Getenv env k"]
  by (auto simp: getdur_def knob_def Let_def split: if_splits option.splits)

lemma getint_pos: "getint env k 90 = Inr n \<Longrightarrow> 0 < n"
  by (auto simp: getint_def Let_def split: if_splits option.splits)

lemma default_budget:
  "\<not> dbl_nan 0x4039000000000000" "\<not> dbl_inf 0x4039000000000000" "\<not> dbl_neg 0x4039000000000000"
  by (simp_all add: dbl_nan_def dbl_inf_def dbl_neg_def dbl_key_def)

lemma getfloat_finite:
  "getfloat pf env k 0x4039000000000000 = Inr f \<Longrightarrow> \<not> dbl_nan f \<and> \<not> dbl_inf f \<and> \<not> dbl_neg f"
  using default_budget by (auto simp: getfloat_def Let_def split: if_splits option.splits)

lemma provider_private: "validateProviderURL name raw ws = None \<Longrightarrow> private_channel ws raw"
  by (auto simp: validateProviderURL_def private_channel_def Let_def split: option.splits if_splits)

lemma push_keys_match:
  "validatePushConfig c = None \<Longrightarrow>
     PushVAPIDPublicKey c = '''' \<and> PushVAPIDPrivateKey c = '''' \<or> matching_push_keys c"
  by (auto simp: validatePushConfig_def matching_push_keys_def Let_def split: option.splits if_splits)

lemma check_config_sound:
  assumes "check_config env c = None"
  shows "OpenAIKey c \<noteq> '''' \<and> DatabaseURL c \<noteq> '''' \<and>
     private_channel False (OpenAIBaseURL c) \<and> private_channel True (OpenAIRealtimeWSURL c) \<and>
     (HermesBaseURL c = '''' \<or> private_channel False (HermesBaseURL c)) \<and>
     (PushVAPIDPublicKey c = '''' \<and> PushVAPIDPrivateKey c = '''' \<or> matching_push_keys c)"
  using assms unfolding check_config_def first_error_None
  by (auto simp: provider_private push_keys_match split: if_splits)

lemma load_sound:
  assumes "Load fr parseFloat env = Inr c"
  shows "sound_config fr env c"
proof -
  from assms obtain approval quiet park rollover retention fake budget where
    k: "getdur fr env ''APPROVAL_PARK_AFTER'' (minutes 15) = Inr approval"
       "getdur fr env ''QUIET_AFTER'' (seconds 30) = Inr quiet" "getdur fr env ''PARK_AFTER'' (minutes 10) = Inr park"
       "getdur fr env ''ROLLOVER_AT'' (minutes 57) = Inr rollover"
       "getdur fr env ''EVENT_RETENTION'' (minutes (30 * 24 * 60)) = Inr retention"
       "getint env ''FAKE_JOB_SECONDS'' 90 = Inr fake"
       "getfloat parseFloat env ''DAILY_BUDGET_USD'' 0x4039000000000000 = Inr budget"
    and c: "ApprovalParkAfter c = approval" "cfgQuietAfter c = quiet" "cfgParkAfter c = park"
      "cfgRolloverAt c = rollover" "EventRetention c = retention" "FakeJobSeconds c = fake" "DailyBudgetUSD c = budget"
      "check_config env c = None"
    unfolding Load_def Let_def and_then_Inr checked_Inr by (elim exE conjE) simp
  show ?thesis
    using check_config_sound [OF c(8)] getdur_knob [OF k(1)] getdur_knob [OF k(2)] getdur_knob [OF k(3)]
      getdur_knob [OF k(4)] getdur_knob [OF k(5)] getint_pos [OF k(6)] getfloat_finite [OF k(7)] c
    by (simp add: sound_config_def)
qed

text \<open>
  C27. A configuration the program starts with is sound: the provider, sideband and Hermes addresses are encrypted or
  loopback and carry no user information, push is off or has a matching P-256 key pair, every timer that is set has
  exactly the value written (positive, in range) and only an absent one has its default, and the daily budget is
  a finite non-negative number, so the spending breaker cannot be disabled by a typo.
\<close>

theorem loaded_config_sound:
  assumes "Load fr parseFloat env = Inr c"
  shows "sound_config fr env c"
  using assms by (rule load_sound)

definition minimal_env :: environment where
  "minimal_env = [''OPENAI_API_KEY'' \<mapsto> ''sk'', ''DATABASE_URL'' \<mapsto> ''postgres://db'', ''QUIET_AFTER'' \<mapsto> ''45s'']"

lemma default_urls:
  "validateProviderURL n ''https://api.openai.com'' False = None"
  "realtimeURL ''https://api.openai.com'' = ''wss://api.openai.com/v1/realtime''"
  "validateProviderURL n ''wss://api.openai.com/v1/realtime'' True = None"
  by (simp_all add: validateProviderURL_def realtimeURL_def url_string_def escape_with_def path_byte_def
      trim_right_def origin_eval)

lemma push_off: "PushVAPIDPublicKey c = '''' \<Longrightarrow> PushVAPIDPrivateKey c = '''' \<Longrightarrow> PushVAPIDSubject c = '''' \<Longrightarrow>
    validatePushConfig c = None"
  by (simp add: validatePushConfig_def)

lemma trim_space_empty [simp]: "trim_space '''' = ''''"
  by (simp add: trim_space_def trim_seg_def)

lemma minimal_env_loads:
  "\<exists>c. Load (\<lambda>_ _. 0) (\<lambda>_. None) minimal_env = Inr c \<and> cfgQuietAfter c = seconds 45 \<and> HermesBaseURL c = '''' \<and>
     PushVAPIDPublicKey c = ''''"
proof -
  have q: "ParseDuration (\<lambda>_ _. 0) ''45s'' = Some 45000000000"
    by (simp add: ParseDuration_def dur_loop.simps unit_ns_def has_prefix_def is_digit_def byte_def dec_value_def
        Let_def)
  have "check_config minimal_env (load_texts minimal_env\<lparr>ApprovalParkAfter := a, cfgQuietAfter := b, cfgParkAfter := c,
      cfgRolloverAt := d, EventRetention := e, FakeJobSeconds := f, DailyBudgetUSD := g,
      OpenAIRealtimeWSURL := realtimeURL (OpenAIBaseURL (load_texts minimal_env))\<rparr>) = None" for a b c d e f g
    by (simp add: check_config_def validateDatabasePassword_def load_texts_def push_off getenv_def Getenv_def
        minimal_env_def trim_right_def default_urls)
  then show ?thesis
    unfolding Load_def Let_def and_then_Inr checked_Inr
    by (simp add: getdur_def getint_def getfloat_def Getenv_def minimal_env_def q seconds_def)
      (simp add: load_texts_def Getenv_def trim_right_def)
qed

lemma loaded_config_sound_witness:
  "\<exists>c. Load (\<lambda>_ _. 0) (\<lambda>_. None) minimal_env = Inr c \<and> sound_config (\<lambda>_ _. 0) minimal_env c \<and>
     cfgQuietAfter c = seconds 45"
  using minimal_env_loads loaded_config_sound by blast

end
