(* ===== verification/Gateway_Push.thy ===== *)
theory Gateway_Push
  imports Config World Outbox
begin

text \<open>
  The push endpoints of \<open>src/internal/gateway/gateway.go\<close>: which endpoint and keys may be stored, and by whom.
  The handler runs on the \<open>world\<close> of the store; \<open>between\<close> is what other transactions do between the two
  statements of the upsert (theory \<open>Outbox\<close>), \<open>hasPush\<close> whether the store implements \<open>pushStore\<close>.
\<close>

section \<open>The request\<close>

text \<open>
  \<open>decoder.Decode\<close> with \<open>DisallowUnknownFields\<close>: members are stored in order, \<open>null\<close> leaves a field alone, any
  other type or member is an error.
\<close>

definition set_str :: "json \<Rightarrow> string \<Rightarrow> string option" where
  "set_str v old = (case v of JStr s \<Rightarrow> Some s | JNull \<Rightarrow> Some old | _ \<Rightarrow> None)"

fun decode_keys :: "(string \<times> json) list \<Rightarrow> string \<times> string \<Rightarrow> (string \<times> string) option" where
  "decode_keys [] ks = Some ks"
| "decode_keys ((k, v) # ms) (p, a) =
     (if same_key k ''p256dh'' then Option.bind (set_str v p) (\<lambda>p. decode_keys ms (p, a))
      else if same_key k ''auth'' then Option.bind (set_str v a) (\<lambda>a. decode_keys ms (p, a))
      else None)"

fun decode_members ::
  "(string \<times> json) list \<Rightarrow> string \<times> string \<times> string \<Rightarrow> (string \<times> string \<times> string) option" where
  "decode_members [] s = Some s"
| "decode_members ((k, v) # ms) (e, ks) =
     (if same_key k ''endpoint'' then Option.bind (set_str v e) (\<lambda>e. decode_members ms (e, ks))
      else if same_key k ''keys'' then
        (case v of
           JNull \<Rightarrow> decode_members ms (e, ks)
         | JObj kms \<Rightarrow> Option.bind (decode_keys kms ks) (\<lambda>ks. decode_members ms (e, ks))
         | _ \<Rightarrow> None)
      else None)"

text \<open>Endpoint, P-256 key and secret; a body of more than 16 KiB or with anything after the value is refused.\<close>

definition pushSubscriptionRequest :: "error + string \<Rightarrow> (string \<times> string \<times> string) option" where
  "pushSubscriptionRequest body =
     (case body of
        Inl _ \<Rightarrow> None
      | Inr raw \<Rightarrow>
          if 16384 < length raw then None
          else (case json_parse raw of
              Some (JObj ms) \<Rightarrow> decode_members ms ('''', '''', '''')
            | Some JNull \<Rightarrow> Some ('''', '''', '''')
            | _ \<Rightarrow> None))"

section \<open>Validation\<close>

definition endpoint_host :: "(nat \<Rightarrow> nat) \<Rightarrow> url \<Rightarrow> string" where
  "endpoint_host lc u = trim_suffix (to_lower lc (Hostname u)) ''.''"

definition validatePushEndpoint :: "(nat \<Rightarrow> nat) \<Rightarrow> string \<Rightarrow> bool" where
  "validatePushEndpoint lc raw =
     (if raw = '''' \<or> 4096 < length raw then False
      else (case url_parse raw of
          None \<Rightarrow> False
        | Some u \<Rightarrow>
            if u_scheme u \<noteq> ''https'' \<or> u_host u = '''' \<or> u_user u \<noteq> None \<or> u_fragment u \<noteq> '''' then False
            else let host = endpoint_host lc u in
              if host = ''localhost'' \<or> has_suffix host ''.localhost'' then False
              else (case ParseIP host of Some ip \<Rightarrow> IsPublicPushIP ip | None \<Rightarrow> True)))"

section \<open>Handlers\<close>

definition push_enabled :: "config \<Rightarrow> bool" where
  "push_enabled c \<longleftrightarrow> PushVAPIDPublicKey c \<noteq> '''' \<and> PushVAPIDPrivateKey c \<noteq> ''''"

definition handlePushConfig :: "config option \<Rightarrow> response" where
  "handlePushConfig cfg =
     (let enabled = (case cfg of None \<Rightarrow> False | Some c \<Rightarrow> push_enabled c);
          publicKey = (case cfg of Some c \<Rightarrow> if enabled then PushVAPIDPublicKey c else '''' | None \<Rightarrow> '''') in
      \<lparr>rsStatus = 200, rsHeader = [(''Cache-Control'', ''no-store''), (''Content-Type'', ''application/json'')],
       rsBody = json_text (JObj [(''enabled'', JBool enabled), (''public_key'', JStr publicKey)]) @ [line_break]\<rparr>)"

definition no_content :: response where
  "no_content = \<lparr>rsStatus = 204, rsHeader = [], rsBody = ''''\<rparr>"

definition handlePushSubscription ::
  "(nat \<Rightarrow> nat) \<Rightarrow> config option \<Rightarrow> bool \<Rightarrow> (db \<Rightarrow> db) \<Rightarrow> http_request \<Rightarrow> 'a world_scheme \<Rightarrow>
   response \<times> 'a world_scheme" where
  "handlePushSubscription lc cfg hasPush between r w =
     (if \<not> browserSameOrigin lc r then (http_error ''origin not allowed'' 403, w)
      else if \<not> hasPush then (http_error ''push storage unavailable'' 503, w)
      else if rMethod r \<noteq> ''DELETE'' \<and> (case cfg of None \<Rightarrow> True | Some c \<Rightarrow> \<not> push_enabled c)
      then (http_error ''push notifications are disabled'' 503, w)
      else (case pushSubscriptionRequest (rBody r) of
          None \<Rightarrow> (http_error ''invalid push subscription'' 400, w)
        | Some (endpoint, p256dh, auth) \<Rightarrow>
            if \<not> validatePushEndpoint lc endpoint then (http_error ''invalid push subscription endpoint'' 400, w)
            else if rMethod r = ''DELETE'' then
              (case transact id (\<lambda>now d. Inr ((), DeletePushSubscription endpoint d)) w of
                 (Inl e, w) \<Rightarrow> (http_error ''subscription storage failed'' 500, w)
               | (Inr _, w) \<Rightarrow> (no_content, w))
            else if \<not> validatePushKeys p256dh auth then (http_error ''invalid push subscription keys'' 400, w)
            else (case transact id (\<lambda>now d. Inr ((), UpsertPushSubscription between endpoint p256dh auth now d)) w of
                (Inl e, w) \<Rightarrow> (http_error ''subscription storage failed'' 500, w)
              | (Inr _, w) \<Rightarrow> (no_content, w))))"

section \<open>What is stored\<close>

text \<open>A subscription a gateway may have admitted.\<close>

definition vetted :: "(nat \<Rightarrow> nat) \<Rightarrow> push_sub \<Rightarrow> bool" where
  "vetted lc s \<longleftrightarrow> validatePushEndpoint lc (Endpoint s) \<and> validatePushKeys (P256DH s) (Auth s)"

definition all_vetted :: "(nat \<Rightarrow> nat) \<Rightarrow> db \<Rightarrow> bool" where
  "all_vetted lc d \<longleftrightarrow> (\<forall>s\<in>set (subs d). vetted lc s)"

lemma insert_sub_vetted:
  "all_vetted lc d \<Longrightarrow> validatePushEndpoint lc e \<Longrightarrow> validatePushKeys p a \<Longrightarrow> all_vetted lc (insert_sub e p a now d)"
  by (auto simp: all_vetted_def vetted_def insert_sub_def set_keys_def)

lemma upsert_vetted:
  assumes "all_vetted lc d" "all_vetted lc (between d)" "validatePushEndpoint lc e" "validatePushKeys p a"
  shows "all_vetted lc (UpsertPushSubscription between e p a now d)"
proof (cases "with_endpoint e d")
  case None
  then show ?thesis using assms insert_sub_vetted by (simp add: UpsertPushSubscription_def)
next
  case (Some s)
  then have "Endpoint s = e" "s \<in> set (subs d)"
    by (auto simp: with_endpoint_def find_Some_iff)
  have "vetted lc (set_keys p a now x)" "vetted lc ((set_keys p a now x)\<lparr>psCreated := now, psDisabled := None\<rparr>)"
    if "x \<in> set (subs d)" for x
    using that assms(1,4) by (auto simp: all_vetted_def vetted_def set_keys_def)
  then show ?thesis using Some assms(1)
    by (auto simp: UpsertPushSubscription_def all_vetted_def)
qed

lemma delete_vetted: "all_vetted lc d \<Longrightarrow> all_vetted lc (DeletePushSubscription e d)"
  by (auto simp: all_vetted_def DeletePushSubscription_def Let_def)

lemma transact_pure:
  assumes "P (meddle w (txs w) (wdb w))" "\<And>now d. P d \<Longrightarrow> P (f now d)"
  shows "P (wdb (snd (transact id (\<lambda>now d. Inr ((), f now d)) w)))"
  using assms by (simp add: transact_def Let_def split: db_fault.splits)


lemma insert_stores:
  "\<exists>s\<in>set (subs (insert_sub e p a now d)). Endpoint s = e \<and> P256DH s = p \<and> Auth s = a"
proof (cases "with_endpoint e d")
  case (Some x)
  then have "x \<in> set (subs d)" "Endpoint x = e" by (auto simp: with_endpoint_def find_Some_iff)
  then have "set_keys p a now x \<in> set (subs (insert_sub e p a now d))" using Some
    by (auto simp: insert_sub_def image_iff intro: bexI [of _ x])
  then show ?thesis using \<open>Endpoint x = e\<close> by (intro bexI [of _ "set_keys p a now x"]) (simp_all add: set_keys_def)
qed (simp add: insert_sub_def)

lemma upsert_stores:
  "\<exists>s\<in>set (subs (UpsertPushSubscription between e p a now d)). Endpoint s = e \<and> P256DH s = p \<and> Auth s = a"
proof (cases "with_endpoint e d")
  case None
  then show ?thesis using insert_stores by (simp add: UpsertPushSubscription_def)
next
  case (Some x)
  then have x: "x \<in> set (subs d)" "Endpoint x = e" by (auto simp: with_endpoint_def find_Some_iff)
  define y where "y = (if psDisabled x \<noteq> None then (set_keys p a now x)\<lparr>psCreated := now, psDisabled := None\<rparr>
      else set_keys p a now x)"
  have "y \<in> set (subs (UpsertPushSubscription between e p a now d))" using Some x
    by (auto simp: UpsertPushSubscription_def y_def image_iff intro: bexI [of _ x])
  then show ?thesis using x(2) by (intro bexI [of _ y]) (simp_all add: y_def set_keys_def)
qed

lemma transact_done:
  "transact id (\<lambda>now d. Inr ((), f now d)) w = (Inr u, w') \<Longrightarrow> wdb w' = f (clock w (txs w)) (seen w)"
  by (auto simp: transact_def Let_def split: db_fault.splits)

lemma handler_keeps_vetted:
  assumes "all_vetted lc (seen w)" "all_vetted lc (wdb w)" "\<And>d. all_vetted lc d \<Longrightarrow> all_vetted lc (between d)"
  shows "all_vetted lc (wdb (snd (handlePushSubscription lc cfg hasPush between r w)))"
proof -
  have d: "all_vetted lc (wdb w')" if "transact id (\<lambda>now d. Inr ((), DeletePushSubscription e d)) w = (x, w')" for e x w'
    using transact_pure [of "all_vetted lc" w "\<lambda>_. DeletePushSubscription e"] assms(1) delete_vetted that by simp
  have u: "all_vetted lc (wdb w')"
    if "transact id (\<lambda>now d. Inr ((), UpsertPushSubscription between e p a now d)) w = (x, w')"
      "validatePushEndpoint lc e" "validatePushKeys p a" for e p a x w'
    using transact_pure [of "all_vetted lc" w "UpsertPushSubscription between e p a"] assms(1,3) upsert_vetted that
    by simp
  show ?thesis using assms(2)
    by (auto simp: handlePushSubscription_def split: option.splits sum.splits prod.splits dest: d u)
qed


end
