(* ===== verification/Gateway.thy ===== *)
theory Gateway
  imports Gateway_Push Desk_Run Ledger
begin

text \<open>
  Calls, desks and control messages of \<open>src/internal/gateway/gateway.go\<close>.  A desk is named by the number of desks
  started before it (the pointer \<open>d\<close> of the code); \<open>gwInbox\<close> are the control inputs handed to desks, in the
  vocabulary of theory \<open>Desk_Run\<close>, and \<open>gwStates\<close> the session states published, with the desk that published
  them.  The goroutine that runs a desk is the steps \<open>desk_returned\<close> and \<open>desk_done\<close>.  Events published on the bus
  go to the publications of the \<open>world\<close>.
\<close>

record provider_call =
  pcURL :: string
  pcAuthorization :: string
  pcSafety :: string
  pcSDP :: string
  pcSession :: string

record gateway =
  gwClosing :: bool
  gwCurrent :: "nat option"
  gwDeskStop :: "nat option"
  gwLaunched :: "(string \<times> fsm_config) list"
  gwRunning :: "nat list"
  gwReturned :: "nat list"
  gwCancelled :: "nat list"
  gwStopping :: "nat option"
  gwInbox :: "(nat \<times> desk_input) list"
  gwStates :: "(nat \<times> fsm_state \<times> string) list"
  gwOffers :: "provider_call list"
  gwHooks :: "(string \<times> string) list"
  gwSide :: side

definition new_gateway :: "side \<Rightarrow> gateway" where
  "new_gateway s = \<lparr>gwClosing = False, gwCurrent = None, gwDeskStop = None, gwLaunched = [], gwRunning = [],
     gwReturned = [], gwCancelled = [], gwStopping = None, gwInbox = [], gwStates = [], gwOffers = [],
     gwHooks = [], gwSide = s\<rparr>"

section \<open>Desks\<close>

definition startDesk :: "config \<Rightarrow> string \<Rightarrow> gateway \<Rightarrow> gateway" where
  "startDesk cfg callID g =
     (if gwClosing g then g
      else let d = length (gwLaunched g) in
        g\<lparr>gwCancelled := (case gwDeskStop g of None \<Rightarrow> gwCancelled g | Some k \<Rightarrow> k # gwCancelled g),
          gwDeskStop := Some d, gwCurrent := Some d, gwRunning := gwRunning g @ [d],
          gwLaunched := gwLaunched g @
            [(callID, DefaultFSMConfig (cfgQuietAfter cfg) (cfgParkAfter cfg) (cfgRolloverAt cfg))]\<rparr>)"

definition voiceDown :: "string \<Rightarrow> 'a world_scheme \<Rightarrow> 'a world_scheme" where
  "voiceDown msg = voice_error [(''message'', msg), (''play'', ''voice_down'')]"

text \<open>The section at the end of the goroutine, and what it announces first: nothing for nil or a cancellation.\<close>

definition desk_left :: "nat \<Rightarrow> gateway \<Rightarrow> gateway" where
  "desk_left d g = (if gwCurrent g = Some d then g\<lparr>gwCurrent := None, gwDeskStop := None\<rparr> else g)
     \<lparr>gwReturned := d # gwReturned g\<rparr>"

definition desk_returned :: "nat \<Rightarrow> error option \<Rightarrow> gateway \<times> 'a world_scheme \<Rightarrow> gateway \<times> 'a world_scheme" where
  "desk_returned d err = (\<lambda>(g, w).
     (desk_left d g, case err of
        None \<Rightarrow> w
      | Some e \<Rightarrow> if err_is ErrCanceled e then w else voiceDown (''session error: '' @ err_text e) w))"

definition desk_done :: "nat \<Rightarrow> gateway \<Rightarrow> gateway" where
  "desk_done d g = g\<lparr>gwCancelled := d # gwCancelled g, gwRunning := removeAll d (gwRunning g)\<rparr>"

definition publishDeskState :: "nat \<Rightarrow> fsm_state \<Rightarrow> string \<Rightarrow> gateway \<Rightarrow> gateway" where
  "publishDeskState d st reason g =
     (if gwCurrent g = Some d then g\<lparr>gwStates := gwStates g @ [(d, st, reason)]\<rparr> else g)"

text \<open>
  \<open>Shutdown\<close>: the section under the lock, the call of the cancel function it took, and the wait, which returns
  nil exactly when no desk goroutine is left, and the context's error otherwise.
\<close>

definition shutdown_begin :: "gateway \<Rightarrow> gateway" where
  "shutdown_begin g = g\<lparr>gwClosing := True, gwStopping := gwDeskStop g\<rparr>"

definition shutdown_stop :: "gateway \<Rightarrow> gateway" where
  "shutdown_stop g = (case gwStopping g of
      None \<Rightarrow> g
    | Some k \<Rightarrow> g\<lparr>gwCancelled := k # gwCancelled g, gwStopping := None\<rparr>)"

definition shutdown_wait :: "error \<Rightarrow> gateway \<Rightarrow> error option" where
  "shutdown_wait ctx g = (if gwRunning g = [] then None else Some ctx)"

section \<open>Control messages\<close>

definition bool_ok :: "json option \<Rightarrow> bool" where
  "bool_ok v = (case v of Some (JBool b) \<Rightarrow> True | Some JNull \<Rightarrow> True | None \<Rightarrow> True | _ \<Rightarrow> False)"

definition bool_of :: "json option \<Rightarrow> bool" where
  "bool_of v = (case v of Some (JBool b) \<Rightarrow> b | _ \<Rightarrow> False)"

definition clientMsg_ok :: "json option \<Rightarrow> bool" where
  "clientMsg_ok v \<longleftrightarrow> v \<noteq> None \<and> obj_ok v \<and> str_ok (json_get ''type'' v) \<and> bool_ok (json_get ''muted'' v) \<and>
     bool_ok (json_get ''hidden'' v) \<and> str_ok (json_get ''text'' v)"

definition deliver_input :: "nat \<Rightarrow> desk_input \<Rightarrow> gateway \<Rightarrow> gateway" where
  "deliver_input d i g = g\<lparr>gwInbox := gwInbox g @ [(d, i)]\<rparr>"

text \<open>The dash of the program's own text is U+2014.\<close>

definition no_session :: string where
  "no_session = ''no live session; text queued nowhere '' @ encode_rune 8212 @ '' resume first''"

definition ws_frame :: "string \<Rightarrow> gateway \<times> 'a world_scheme \<Rightarrow> gateway \<times> 'a world_scheme" where
  "ws_frame data = (\<lambda>(g, w).
     (let v = json_parse data; kind = str_of (json_get ''type'' v) in
      if \<not> clientMsg_ok v then (g, w)
      else (case gwCurrent g of
          None \<Rightarrow> if kind = ''text'' then (g, voice_error [(''message'', no_session)] w) else (g, w)
        | Some d \<Rightarrow>
            if kind = ''state'' then
              (deliver_input d (IClientState (bool_of (json_get ''muted'' v)) (bool_of (json_get ''hidden'' v))) g, w)
            else if kind = ''text'' then (deliver_input d (IUserText (str_of (json_get ''text'' v))) g, w)
            else if kind = ''park'' then (deliver_input d IParkRequest g, w)
            else (g, w))))"

text \<open>The read loop: the lock is taken per message, so the other steps of the program come between two of them.\<close>

fun handleWS ::
  "(nat \<Rightarrow> gateway \<Rightarrow> gateway) \<Rightarrow> string list \<Rightarrow> gateway \<times> 'a world_scheme \<Rightarrow> gateway \<times> 'a world_scheme" where
  "handleWS others [] gw = gw"
| "handleWS others (f # fs) gw = handleWS others fs (ws_frame f (others (length fs) (fst gw), snd gw))"

section \<open>Calls\<close>

definition upstream :: "config \<Rightarrow> string \<Rightarrow> string" where
  "upstream cfg override =
     (if override \<noteq> '''' then override
      else if OpenAIBaseURL cfg \<noteq> '''' then trim_right CHR ''/'' (OpenAIBaseURL cfg)
      else ''https://api.openai.com'')"

definition call_char :: "char \<Rightarrow> bool" where
  "call_char c \<longleftrightarrow> is_alpha c \<or> is_digit c \<or> c = CHR ''_'' \<or> c = CHR ''-''"

definition validCallID :: "string \<Rightarrow> bool" where
  "validCallID c \<longleftrightarrow> has_prefix c ''rtc_'' \<and> length c \<noteq> 4 \<and> list_all call_char (drop 4 c)"

definition truncate :: "string \<Rightarrow> nat \<Rightarrow> string" where
  "truncate s n = (if length (runes s) \<le> n then s else cut_runes n s @ ellipsis)"

definition session_config :: "config \<Rightarrow> json" where
  "session_config cfg = JObj
     [(''audio'', JObj
        [(''input'', JObj [(''turn_detection'', JObj [(''create_response'', JBool False),
            (''interrupt_response'', JBool False), (''type'', JStr ''semantic_vad'')])]),
         (''output'', JObj [(''voice'', JStr (Voice cfg))])]),
      (''model'', JStr (RealtimeModel cfg)), (''type'', JStr ''realtime'')]"

datatype upstream_result = UpError error | UpResponse nat string string

definition sdp_answer :: "string \<Rightarrow> response" where
  "sdp_answer a = \<lparr>rsStatus = 200, rsHeader = [(''Content-Type'', ''application/sdp'')], rsBody = a\<rparr>"

definition call_of_location :: "string \<Rightarrow> string" where
  "call_of_location loc = last (split_on CHR ''/'' (trim_right CHR ''/'' loc))"

text \<open>
  The provider's answer.  \<open>during\<close> is what the rest of the program does to the gateway while the call is in flight.
\<close>

definition finish_offer ::
  "config \<Rightarrow> upstream_result \<Rightarrow> gateway \<times> 'a world_scheme \<Rightarrow> response \<times> (gateway \<times> 'a world_scheme)" where
  "finish_offer cfg res = (\<lambda>(g, w).
     (case res of
        UpError e \<Rightarrow> (http_error ''upstream unreachable'' 502, (g, voiceDown (''call create failed: '' @ err_text e) w))
      | UpResponse status location body \<Rightarrow>
          let answer = take 1048576 body; callID = call_of_location location in
          if status div 100 \<noteq> 2
          then (http_error ''upstream error'' 502, (g, voiceDown
                  (''call create http '' @ nat_text status @ '': '' @ truncate answer 200) w))
          else if \<not> validCallID callID
          then (http_error ''upstream response missing a valid call id'' 502, (g, w))
          else (sdp_answer answer, (startDesk cfg callID g, w))))"

definition create_call ::
  "config \<Rightarrow> string \<Rightarrow> (string \<Rightarrow> string) \<Rightarrow> (gateway \<Rightarrow> gateway) \<Rightarrow> (provider_call \<Rightarrow> upstream_result) \<Rightarrow> string \<Rightarrow>
   gateway \<times> 'a world_scheme \<Rightarrow> response \<times> (gateway \<times> 'a world_scheme)" where
  "create_call cfg override perr during provider offer = (\<lambda>(g, w).
     (let target = upstream cfg override @ ''/v1/realtime/calls'';
          call = \<lparr>pcURL = target, pcAuthorization = ''Bearer '' @ OpenAIKey cfg, pcSafety = SafetyID cfg,
                  pcSDP = offer, pcSession = json_text (session_config cfg)\<rparr> in
      if url_parse target = None then (http_error (perr target) 500, (g, w))
      else finish_offer cfg (provider call) (during (g\<lparr>gwOffers := gwOffers g @ [call]\<rparr>), w)))"

definition handleOffer ::
  "(nat \<Rightarrow> nat) \<Rightarrow> (64 word \<Rightarrow> 64 word \<Rightarrow> 64 word) \<Rightarrow> (instant \<Rightarrow> instant) \<Rightarrow> config \<Rightarrow> string \<Rightarrow> (string \<Rightarrow> string) \<Rightarrow>
   (gateway \<Rightarrow> gateway) \<Rightarrow> (provider_call \<Rightarrow> upstream_result) \<Rightarrow> http_request \<Rightarrow> gateway \<times> 'a world_scheme \<Rightarrow>
   response \<times> (gateway \<times> 'a world_scheme)" where
  "handleOffer lc fadd day cfg override perr during provider r = (\<lambda>(g, w).
     (if \<not> originAllowed lc (AllowedOrigins cfg) r then (http_error ''origin not allowed'' 403, (g, w))
      else (case rBody r of
          Inl _ \<Rightarrow> (http_error ''empty sdp offer'' 400, (g, w))
        | Inr raw \<Rightarrow>
            let offer = take 1048576 raw in
            if trim_space offer = '''' then (http_error ''empty sdp offer'' 400, (g, w))
            else (case UsageTodayUSD fadd day (gwSide g) of
                (Inl _, s) \<Rightarrow> create_call cfg override perr during provider offer (g\<lparr>gwSide := s\<rparr>, voice_error
                    [(''message'', ''daily spend check unavailable; the budget breaker is not enforcing'')] w)
              | (Inr usd, s) \<Rightarrow>
                  if dbl_ge usd (DailyBudgetUSD cfg)
                  then (http_error ''daily budget reached'' 429, (g\<lparr>gwSide := s\<rparr>, voice_error
                    [(''message'', ''daily budget reached''), (''play'', ''budget_tripped'')] w))
                  else create_call cfg override perr during provider offer (g\<lparr>gwSide := s\<rparr>, w)))))"

section \<open>Hooks, status and the routes\<close>

text \<open>\<open>HooksHandler\<close> of \<open>src/internal/bridge/hermes.go\<close> behind \<open>guardHooks\<close>.\<close>

definition HooksHandler :: "http_request \<Rightarrow> gateway \<Rightarrow> response \<times> gateway" where
  "HooksHandler r g = (case rBody r of
      Inl _ \<Rightarrow> (http_error ''read'' 400, g)
    | Inr body \<Rightarrow>
        let raw = take 1048576 body; v = json_parse raw in
        (no_content, g\<lparr>gwHooks := gwHooks g @ [(str_of (json_get ''job_id'' v), raw)]\<rparr>))"

definition guardHooks :: "(nat \<Rightarrow> nat) \<Rightarrow> http_request \<Rightarrow> gateway \<Rightarrow> response \<times> gateway" where
  "guardHooks lc r g = (case hook_refused lc r of Some resp \<Rightarrow> (resp, g) | None \<Rightarrow> HooksHandler r g)"

definition valid_commit :: "string \<Rightarrow> bool" where
  "valid_commit c \<longleftrightarrow> length c = 40 \<and> list_all lower_hex c"

definition handleStatus :: "string \<Rightarrow> response" where
  "handleStatus commit =
     \<lparr>rsStatus = 200, rsHeader = [(''Cache-Control'', ''no-store''), (''Content-Type'', ''application/json'')],
      rsBody = json_text (JObj [(''source_commit'', JStr commit),
        (''status'', JStr (if valid_commit commit then ''ok'' else ''unversioned'')),
        (''versioned'', JBool (valid_commit commit))]) @ [line_break]\<rparr>"

datatype route =
  RStatus | RPushConfig | RPushSubscription | ROffer | RWS | REvents | RHooks | RAudio | RStatic | RMux

definition clean_path :: "string \<Rightarrow> bool" where
  "clean_path p \<longleftrightarrow> has_prefix p ''/'' \<and>
     (let parts = tl (split_on CHR ''/'' p) in
      list_all (\<lambda>s. s \<noteq> '''' \<and> s \<noteq> ''.'' \<and> s \<noteq> ''..'') (butlast parts) \<and> last parts \<noteq> ''.'' \<and> last parts \<noteq> ''..'')"

text \<open>
  The table of \<open>routeSpecs\<close> as \<open>http.ServeMux\<close> reads it: a GET pattern also serves HEAD, an exact path wins over
  a prefix, and what no pattern serves (a path to redirect, a method no pattern of the path has) the mux answers.
\<close>

definition routeSpecs :: "(string \<times> string \<times> route) list" where
  "routeSpecs =
     [(''GET'', ''/api/status'', RStatus), (''GET'', ''/api/push/config'', RPushConfig),
      (''POST'', ''/api/push/subscriptions'', RPushSubscription),
      (''DELETE'', ''/api/push/subscriptions'', RPushSubscription), (''POST'', ''/offer'', ROffer),
      (''GET'', ''/ws'', RWS), (''GET'', ''/events'', REvents), (''POST'', ''/hooks/hermes'', RHooks),
      (''GET'', ''/audio/prebaked/'', RAudio), (''GET'', ''/'', RStatic)]"

definition pattern_serves :: "http_request \<Rightarrow> string \<times> string \<times> route \<Rightarrow> bool" where
  "pattern_serves r = (\<lambda>(m, p, _).
     (rMethod r = m \<or> m = ''GET'' \<and> rMethod r = ''HEAD'') \<and>
     (if has_suffix p ''/'' then has_prefix (rPath r) p else rPath r = p))"

definition route_of :: "http_request \<Rightarrow> route" where
  "route_of r =
     (if \<not> clean_path (rPath r) \<or> rPath r = ''/audio/prebaked'' then RMux
      else (case find (pattern_serves r) routeSpecs of None \<Rightarrow> RMux | Some (_, _, x) \<Rightarrow> x))"

text \<open>The four headers every response gets before its handler runs.\<close>

definition contentSecurityPolicy :: string where
  "contentSecurityPolicy = ''default-src 'self'; script-src 'self'; style-src 'self'; img-src 'self' data:; '' @
     ''media-src 'self' blob:; connect-src 'self'; manifest-src 'self'; worker-src 'self'; font-src 'self'; '' @
     ''base-uri 'none'; form-action 'none'; object-src 'none'; frame-ancestors 'none'' @ [CHR 0x27]"

definition withSecurityHeaders :: "(writer \<Rightarrow> writer) \<Rightarrow> writer \<Rightarrow> writer" where
  "withSecurityHeaders handler w = handler
     (set_header ''Permissions-Policy'' ''camera=(), geolocation=(), payment=(), usb=()''
      (set_header ''Referrer-Policy'' ''no-referrer''
       (set_header ''X-Content-Type-Options'' ''nosniff''
        (set_header ''Content-Security-Policy'' contentSecurityPolicy w))))"

text \<open>
  One request.  Only the state it leaves is recorded here; \<open>accepts\<close> is the decision of the WebSocket library,
  \<open>frames\<close> what the client then sends.  The remaining routes read files, the bus or constants.
\<close>

definition serve ::
  "(nat \<Rightarrow> nat) \<Rightarrow> (64 word \<Rightarrow> 64 word \<Rightarrow> 64 word) \<Rightarrow> (instant \<Rightarrow> instant) \<Rightarrow> config \<Rightarrow> string \<Rightarrow> (string \<Rightarrow> string) \<Rightarrow>
   (gateway \<Rightarrow> gateway) \<Rightarrow> (provider_call \<Rightarrow> upstream_result) \<Rightarrow> bool \<Rightarrow> (db \<Rightarrow> db) \<Rightarrow> (http_request \<Rightarrow> bool) \<Rightarrow>
   (nat \<Rightarrow> gateway \<Rightarrow> gateway) \<Rightarrow> string list \<Rightarrow> http_request \<Rightarrow> gateway \<times> 'a world_scheme \<Rightarrow> gateway \<times> 'a world_scheme" where
  "serve lc fadd day cfg override perr during provider hasPush between accepts others frames r gw =
     (case route_of r of
        RPushSubscription \<Rightarrow> (fst gw, snd (handlePushSubscription lc (Some cfg) hasPush between r (snd gw)))
      | ROffer \<Rightarrow> snd (handleOffer lc fadd day cfg override perr during provider r gw)
      | RHooks \<Rightarrow> (snd (guardHooks lc r (fst gw)), snd gw)
      | RWS \<Rightarrow> if accepts r then handleWS others frames gw else gw
      | _ \<Rightarrow> gw)"

end
