(* ===== verification/Gateway_Laws.thy ===== *)
theory Gateway_Laws
  imports Gateway
begin

text \<open>
  One desk at a time: the steps of the gateway's goroutines interleave freely (\<open>gstep\<close>), and the invariant says
  which desk may speak and which ones are already cancelled.  Then the shutdown, the spending breaker and the
  origin policy over the whole route table.
\<close>

section \<open>The steps\<close>

text \<open>
  Every write to the gateway's state is one step; a handler is a sequence of them with others in between.  A desk
  can only be started for a call id the provider's answer named, and only running desks publish.
\<close>

inductive gstep :: "config \<Rightarrow> gateway \<Rightarrow> gateway \<Rightarrow> bool" for cfg where
  launch: "validCallID c \<Longrightarrow> gstep cfg g (startDesk cfg c g)"
| state: "d \<in> set (gwRunning g) \<Longrightarrow> gstep cfg g (publishDeskState d st why g)"
| left: "d \<in> set (gwRunning g) \<Longrightarrow> d \<notin> set (gwReturned g) \<Longrightarrow> gstep cfg g (desk_left d g)"
| finished: "d \<in> set (gwReturned g) \<Longrightarrow> gstep cfg g (desk_done d g)"
| closing: "gstep cfg g (shutdown_begin g)"
| stop: "gstep cfg g (shutdown_stop g)"
| message: "gwCurrent g = Some d \<Longrightarrow> gstep cfg g (deliver_input d i g)"
| offer: "gstep cfg g (g\<lparr>gwOffers := cs\<rparr>)"
| usage: "gstep cfg g (g\<lparr>gwSide := s\<rparr>)"
| hook: "gstep cfg g (g\<lparr>gwHooks := hs\<rparr>)"

inductive_cases gstep_cases: "gstep cfg g g'"

lemmas gateway_steps = startDesk_def publishDeskState_def desk_left_def desk_done_def shutdown_begin_def
  shutdown_stop_def deliver_input_def

section \<open>The invariant\<close>

definition live :: "gateway \<Rightarrow> nat set" where
  "live g = {d \<in> set (gwRunning g). d \<notin> set (gwReturned g) \<and> d \<notin> set (gwCancelled g)}"

definition gateway_inv :: "gateway \<Rightarrow> bool" where
  "gateway_inv g \<longleftrightarrow> gwDeskStop g = gwCurrent g \<and>
     set (gwRunning g) \<union> set (gwReturned g) \<subseteq> {..<length (gwLaunched g)} \<and>
     (\<forall>d. gwCurrent g = Some d \<longrightarrow> Suc d = length (gwLaunched g) \<and> d \<in> set (gwRunning g) \<and> d \<notin> set (gwReturned g)) \<and>
     (\<forall>d\<in>live g. gwCurrent g = Some d) \<and>
     sorted (map fst (gwStates g)) \<and> (\<forall>x\<in>set (gwStates g). fst x < length (gwLaunched g)) \<and>
     (gwClosing g \<longrightarrow> (\<forall>d\<in>live g. gwStopping g = Some d))"

lemma gateway_inv_new: "gateway_inv (new_gateway s)"
  by (simp add: gateway_inv_def new_gateway_def live_def)

lemma live_after:
  "live (shutdown_begin g) = live g" "live (publishDeskState d st why g) = live g"
  "live (desk_left d g) = live g - {d}" "live (desk_done d g) = live g - {d}"
  "live (shutdown_stop g) = live g - set_option (gwStopping g)"
  "live (deliver_input d i g) = live g"
  by (auto simp: live_def gateway_steps split: option.splits)

lemma live_start: "live (startDesk cfg c g) \<subseteq>
    (if gwClosing g then live g else insert (length (gwLaunched g)) (live g - set_option (gwDeskStop g)))"
  by (auto simp: live_def startDesk_def Let_def split: option.splits)

lemma startDesk_inv:
  assumes i: "gateway_inv g"
  shows "gateway_inv (startDesk cfg c g)"
proof (cases "gwClosing g")
  case False
  have "live g \<subseteq> set_option (gwDeskStop g)" using i by (auto simp: gateway_inv_def)
  then have l: "live (startDesk cfg c g) \<subseteq> {length (gwLaunched g)}" using live_start [of cfg c g] False by auto
  have "set (gwRunning g) \<subseteq> {..<length (gwLaunched g)}" "set (gwReturned g) \<subseteq> {..<length (gwLaunched g)}"
    "sorted (map fst (gwStates g))" "\<forall>x\<in>set (gwStates g). fst x < length (gwLaunched g)"
    using i by (auto simp: gateway_inv_def)
  with l False show ?thesis
    by (fastforce simp: gateway_inv_def startDesk_def Let_def)
qed (use i in \<open>simp add: startDesk_def\<close>)

lemma publish_inv:
  assumes i: "gateway_inv g"
  shows "gateway_inv (publishDeskState d st why g)"
proof (cases "gwCurrent g = Some d")
  case True
  then have "\<forall>x\<in>set (gwStates g). fst x \<le> d" "d < length (gwLaunched g)" using i by (auto simp: gateway_inv_def)
  then show ?thesis using i True live_after(2) [of d st why g]
    by (simp add: gateway_inv_def publishDeskState_def sorted_append)
qed (use i in \<open>simp add: publishDeskState_def\<close>)

lemma left_inv:
  assumes i: "gateway_inv g" and d: "d \<in> set (gwRunning g)"
  shows "gateway_inv (desk_left d g)"
proof -
  have "d < length (gwLaunched g)" using i d by (auto simp: gateway_inv_def)
  then show ?thesis using i live_after(3) [of d g]
    by (simp add: gateway_inv_def desk_left_def) auto
qed

lemma done_inv:
  assumes i: "gateway_inv g" and d: "d \<in> set (gwReturned g)"
  shows "gateway_inv (desk_done d g)"
proof -
  have "gwCurrent g \<noteq> Some d" using i d by (auto simp: gateway_inv_def)
  then show ?thesis using i live_after(4) [of d g]
    by (simp add: gateway_inv_def desk_done_def) auto
qed

lemma begin_inv: "gateway_inv g \<Longrightarrow> gateway_inv (shutdown_begin g)"
  using live_after(1) [of g] by (simp add: gateway_inv_def shutdown_begin_def)

lemma stop_inv:
  assumes i: "gateway_inv g"
  shows "gateway_inv (shutdown_stop g)"
proof (cases "gwStopping g")
  case (Some k)
  then show ?thesis using i live_after(5) [of g] by (simp add: gateway_inv_def shutdown_stop_def)
qed (use i in \<open>simp add: shutdown_stop_def\<close>)

lemma frame_inv:
  assumes "gateway_inv g" "live h = live g" "gwDeskStop h = gwDeskStop g" "gwCurrent h = gwCurrent g"
    "gwRunning h = gwRunning g" "gwReturned h = gwReturned g" "gwLaunched h = gwLaunched g"
    "gwStates h = gwStates g" "gwClosing h = gwClosing g" "gwStopping h = gwStopping g"
  shows "gateway_inv h"
  using assms by (simp add: gateway_inv_def)

lemma gstep_inv: "gstep cfg g g' \<Longrightarrow> gateway_inv g \<Longrightarrow> gateway_inv g'"
proof (induction rule: gstep.induct)
  case (message g d i)
  from message(2) show ?case by (rule frame_inv) (simp_all add: live_after, simp_all add: deliver_input_def)
next
  case (offer g cs)
  then show ?case by (rule frame_inv) (simp_all add: live_def)
next
  case (usage g s)
  then show ?case by (rule frame_inv) (simp_all add: live_def)
next
  case (hook g hs)
  then show ?case by (rule frame_inv) (simp_all add: live_def)
qed (simp_all add: startDesk_inv publish_inv left_inv done_inv begin_inv stop_inv)

lemma gateway_reach_inv: "rtranclp (gstep cfg) g g' \<Longrightarrow> gateway_inv g \<Longrightarrow> gateway_inv g'"
  by (induction rule: rtranclp_induct) (auto intro: gstep_inv)

text \<open>
  C3. A replaced desk is silenced for good: in every reachable state of the gateway the published session states
  never go back to an older desk, so no stale \<open>PARKED\<close> can follow the \<open>LIVE\<close> of its replacement; and at most one
  desk, the newest one, is neither cancelled nor returned.
\<close>

theorem replaced_desk_is_silenced:
  assumes "rtranclp (gstep cfg) (new_gateway s) g"
  shows "sorted (map fst (gwStates g)) \<and>
    (\<forall>d. d \<in> set (gwRunning g) \<and> d \<notin> set (gwReturned g) \<and> d \<notin> set (gwCancelled g) \<longrightarrow>
       gwCurrent g = Some d \<and> Suc d = length (gwLaunched g))"
proof -
  have "gateway_inv g" using gateway_reach_inv [OF assms gateway_inv_new] .
  then have "sorted (map fst (gwStates g))" "\<forall>d\<in>live g. gwCurrent g = Some d"
    "\<forall>d. gwCurrent g = Some d \<longrightarrow> Suc d = length (gwLaunched g)" by (simp_all add: gateway_inv_def)
  then show ?thesis unfolding live_def by blast
qed

section \<open>Shutdown\<close>

lemma closing_stays: "gstep cfg g g' \<Longrightarrow> gwClosing g \<Longrightarrow> gwClosing g' \<and> gwLaunched g' = gwLaunched g \<and>
    set (gwRunning g') \<subseteq> set (gwRunning g)"
  by (induction rule: gstep.induct) (auto simp: gateway_steps split: option.splits)

lemma closing_stays_reach: "rtranclp (gstep cfg) g g' \<Longrightarrow> gwClosing g \<Longrightarrow> gwClosing g' \<and> gwLaunched g' = gwLaunched g \<and>
    set (gwRunning g') \<subseteq> set (gwRunning g)"
proof (induction rule: rtranclp_induct)
  case (step y z)
  then show ?case using closing_stays [OF step(2)] by auto
qed simp

text \<open>Whatever is still running can leave, one goroutine after the other.\<close>

lemma desk_can_finish:
  assumes "d \<in> set (gwRunning g)"
  shows "\<exists>g'. rtranclp (gstep cfg) g g' \<and> gwRunning g' = removeAll d (gwRunning g)"
proof -
  define h where "h = (if d \<in> set (gwReturned g) then g else desk_left d g)"
  have h: "rtranclp (gstep cfg) g h" "d \<in> set (gwReturned h)" "gwRunning h = gwRunning g"
    using assms gstep.left [of d g cfg] by (auto simp: h_def) (simp_all add: desk_left_def)
  then have "rtranclp (gstep cfg) g (desk_done d h)" using gstep.finished [of d h cfg] by simp
  then show ?thesis using h(3) by (intro exI [of _ "desk_done d h"]) (simp add: desk_done_def)
qed

lemma desks_can_finish: "\<exists>g'. rtranclp (gstep cfg) g g' \<and> gwRunning g' = []"
proof (induction "length (gwRunning g)" arbitrary: g rule: less_induct)
  case less
  show ?case
  proof (cases "gwRunning g")
    case (Cons d ds)
    then obtain h where h: "rtranclp (gstep cfg) g h" "gwRunning h = removeAll d (gwRunning g)"
      using desk_can_finish [of d g] by auto
    then have "length (gwRunning h) < length (gwRunning g)" using Cons by (simp add: le_imp_less_Suc)
    with less h(1) show ?thesis by (meson rtranclp_trans)
  qed auto
qed

text \<open>
  C20. Shutdown is final and can complete: once the gateway is closing and its stop function has run, no later
  history starts a desk or revives one, every desk goroutine still running has been cancelled or has returned, and
  from every such state the goroutines can finish so that the wait returns nil.
\<close>

theorem shutdown_is_final:
  assumes r: "rtranclp (gstep cfg) (new_gateway s) g" and c: "gwClosing g" "gwStopping g = None"
    and later: "rtranclp (gstep cfg) g g'" "gwStopping g' = None"
  shows "gwLaunched g' = gwLaunched g \<and> set (gwRunning g') \<subseteq> set (gwRunning g) \<and>
    (\<forall>d\<in>set (gwRunning g'). d \<in> set (gwCancelled g') \<or> d \<in> set (gwReturned g')) \<and>
    (\<exists>h. rtranclp (gstep cfg) g' h \<and> shutdown_wait ctx h = None)"
proof -
  have "gateway_inv g'"
    using gateway_reach_inv [OF rtranclp_trans [OF r later(1)] gateway_inv_new] .
  moreover have "gwClosing g'" using closing_stays_reach [OF later(1) c(1)] by simp
  ultimately have "live g' = {}" using later(2) by (auto simp: gateway_inv_def)
  moreover have "\<exists>h. rtranclp (gstep cfg) g' h \<and> shutdown_wait ctx h = None"
    using desks_can_finish [of cfg g'] by (auto simp: shutdown_wait_def)
  ultimately show ?thesis using closing_stays_reach [OF later(1) c(1)] by (auto simp: live_def)
qed

end
