(* ===== verification/Gateway_Gate.thy ===== *)
theory Gateway_Gate
  imports Gateway_Laws
begin

text \<open>
  What a request can cause: the spending breaker in front of the provider, what an accepted offer starts, and the
  origin policy over the whole route table.
\<close>

section \<open>Spending\<close>

definition refused :: "gateway \<Rightarrow> gateway \<Rightarrow> bool" where
  "refused g g' \<longleftrightarrow> gwOffers g' = gwOffers g \<and> gwLaunched g' = gwLaunched g \<and> gwCurrent g' = gwCurrent g \<and>
     gwCancelled g' = gwCancelled g \<and> gwRunning g' = gwRunning g"

text \<open>
  The daily budget is a breaker: when the ledger reads at or above the configured budget, no request, origin or
  provider can cause a provider call or replace the desk; the answer is a refusal.  The breaker opens only if the
  ledger cannot be read, and then an admitted offer announces on the error channel that it is not enforcing.
\<close>

lemma budget_breaker:
  assumes run: "handleOffer lc fadd day cfg override perr during provider r (g, w) = (resp, (g', w'))"
    and ledger: "UsageTodayUSD fadd day (gwSide g) = (usage, s)"
  shows "case usage of
      Inr usd \<Rightarrow> dbl_ge usd (DailyBudgetUSD cfg) \<longrightarrow> refused g g' \<and> rsStatus resp \<in> {400, 403, 429}
    | Inl e \<Rightarrow> gwOffers g' \<noteq> gwOffers g \<longrightarrow>
        (''error.voice'', '''', PFields [(''message'',
           ''daily spend check unavailable; the budget breaker is not enforcing'')]) \<in> set (pubs w')"
proof (cases usage)
  case (Inr usd)
  then show ?thesis using run ledger
    by (auto simp: handleOffer_def refused_def http_error_def Let_def split: if_splits sum.splits)
next
  case (Inl e)
  have up: "set (pubs (snd (snd (create_call cfg override perr during provider offer (h, v))))) \<supseteq> set (pubs v)"
    for offer h and v :: "'a world_scheme"
    by (auto simp: create_call_def finish_offer_def voiceDown_def voice_error_def PublishJob_def Let_def
        split: upstream_result.splits)
  define warned where "warned = (\<lambda>v :: 'a world_scheme. voice_error
      [(''message'', ''daily spend check unavailable; the budget breaker is not enforcing'')] v)"
  have "gwOffers g' \<noteq> gwOffers g \<longrightarrow> (''error.voice'', '''', PFields [(''message'',
           ''daily spend check unavailable; the budget breaker is not enforcing'')]) \<in> set (pubs w')"
  proof
    assume "gwOffers g' \<noteq> gwOffers g"
    then obtain offer h where "create_call cfg override perr during provider offer (h, warned w) = (resp, (g', w'))"
      using run ledger Inl by (auto simp: handleOffer_def warned_def Let_def split: if_splits sum.splits)
    with up [of "warned w" offer h] have "set (pubs (warned w)) \<subseteq> set (pubs w')" by simp
    then show "(''error.voice'', '''', PFields [(''message'',
           ''daily spend check unavailable; the budget breaker is not enforcing'')]) \<in> set (pubs w')"
      by (auto simp: warned_def voice_error_def PublishJob_def)
  qed
  then show ?thesis using Inl by simp
qed

text \<open>
  An offer starts exactly what it promises: a \<open>200\<close> hands the browser the provider's answer and means the
  provider accepted the call under a well-formed call id, and that a new desk for this id has replaced the old one
  and cancelled it, unless the gateway is shutting down; every other answer leaves the desks as they were.
\<close>

lemma offer_starts_its_desk:
  assumes run: "finish_offer cfg res (g, w) = (resp, (g', w'))"
  shows "if rsStatus resp = 200
    then (\<exists>status location body. res = UpResponse status location body \<and> status div 100 = 2 \<and>
        validCallID (call_of_location location) \<and> resp = sdp_answer (take 1048576 body) \<and>
        (if gwClosing g then g' = g
         else gwCurrent g' = Some (length (gwLaunched g)) \<and> length (gwLaunched g') = Suc (length (gwLaunched g)) \<and>
           fst (last (gwLaunched g')) = call_of_location location \<and>
           (\<forall>k. gwDeskStop g = Some k \<longrightarrow> k \<in> set (gwCancelled g'))))
    else g' = g"
  using run
  by (auto simp: finish_offer_def http_error_def sdp_answer_def startDesk_def Let_def
      split: upstream_result.splits if_splits option.splits)

section \<open>The origin policy\<close>

text \<open>The request carries the origin of a page the gateway did not serve.\<close>

definition page_host :: "http_request \<Rightarrow> string option" where
  "page_host r = map_option u_host (url_parse (rHeader r ''Origin''))"

definition foreign :: "(nat \<Rightarrow> nat) \<Rightarrow> http_request \<Rightarrow> bool" where
  "foreign lc r \<longleftrightarrow> rHeader r ''Origin'' \<noteq> '''' \<and> \<not> browserSameOrigin lc r \<and>
     (case page_host r of None \<Rightarrow> True | Some h \<Rightarrow> map fold_rune (runes h) \<noteq> map fold_rune (runes (rHost r)))"

lemma same_origin_allowed: "originAllowed lc [] r \<Longrightarrow> rHeader r ''Origin'' = '''' \<or> browserSameOrigin lc r"
  by (auto simp: originAllowed_def browserSameOrigin_def Let_def split: if_splits option.splits)


end
