(* ===== verification/Push_Demo.thy ===== *)
theory Push_Demo
  imports Gateway_Push Realtime_Laws
begin

text \<open>A registration from the served page: the base point of P-256 as the browser's key.\<close>

definition demo_point :: "nat list" where
  "demo_point = [
  4, 107, 23, 209, 242, 225, 44, 66, 71, 248, 188, 230, 229, 99, 164, 64, 242, 119, 3, 125, 129, 45, 235, 51,
     160, 244, 161, 57, 69, 216, 152, 194, 150, 79, 227, 66, 226, 254, 26, 127, 155, 142, 231, 235, 74, 124,
     15, 158, 22, 43, 206, 51, 87, 107, 49, 94, 206, 203, 182, 64, 104, 55, 191, 81, 245]"

definition demo_key :: string where
  "demo_key = ''BGsX0fLhLEJH-Lzm5WOkQPJ3A32BLeszoPShOUXYmMKWT-NC4v4af5uO5-tK'' @
     ''fA-eFivOM1drMV7Oy7ZAaDe_UfU''"

definition demo_secret :: string where
  "demo_secret = ''AAAAAAAAAAAAAAAAAAAAAA''"

lemma demo_key_decodes: "base64_decode demo_key = Some demo_point"
  by code_simp

lemma demo_point_on_curve: "p256_public demo_point"
  by code_simp

lemma demo_keys_valid: "validatePushKeys demo_key demo_secret"
proof -
  have "base64_decode demo_secret = Some (replicate 16 0)"
    by code_simp
  then show ?thesis by (simp add: validatePushKeys_def demo_key_decodes demo_point_on_curve)
qed

definition demo_subscription :: json where
  "demo_subscription = JObj [(''endpoint'', JStr ''https://push.example.net/x''),
     (''keys'', JObj [(''p256dh'', JStr demo_key), (''auth'', JStr demo_secret)])]"

definition demo_registration :: http_request where
  "demo_registration = \<lparr>rMethod = ''POST'', rPath = ''/api/push/subscriptions'', rHost = ''desk'',
     rRemoteAddr = ''127.0.0.1:9'', rTLS = True,
     rHeader = (\<lambda>k. if k = ''Origin'' then ''https://desk'' else ''''), rBody = Inr (json_text demo_subscription)\<rparr>"

lemma demo_ascii: "ascii demo_key" "ascii demo_secret"
  by (simp_all add: ascii_def demo_key_def demo_secret_def byte_def)

lemma demo_parse: "json_parse (json_text demo_subscription) = Some demo_subscription"
  by (rule json_roundtrip) (simp_all add: demo_subscription_def ascii_valid demo_ascii byte_def)

lemma length_json_string: "length (json_string s) \<le> 2 + 6 * length s"
proof -
  have r: "length (json_rune r) \<le> 6" for r by (simp add: json_rune_def encode_rune_def hex2_def Let_def)
  have c: "length (concat (map f xs)) \<le> 6 * length xs" if "\<And>x. length (f x) \<le> 6" for f :: "nat \<times> string \<Rightarrow> string" and xs
    using that by (induction xs) (auto intro: add_mono)
  have "length xs \<le> length (concat (map snd xs))" if "\<And>x. x \<in> set xs \<Longrightarrow> snd x \<noteq> []" for xs :: "(nat \<times> string) list"
    using that
  proof (induction xs)
    case (Cons x xs)
    then have "length xs \<le> length (concat (map snd xs))" "0 < length (snd x)" by simp_all
    then show ?case by (simp del: length_greater_0_conv)
  qed simp
  then have n: "length (segments s) \<le> length s"
    using concat_segments [of s] segment_nonempty [of _ _ s] by (metis prod.collapse)
  have "length (concat (map (\<lambda>(r, b). if r = rune_error \<and> length b = 1 then CHR 0x5C # ''ufffd''
      else json_rune r) (segments s))) \<le> 6 * length (segments s)"
    by (rule c) (simp add: r split: prod.split)
  also have "\<dots> \<le> 6 * length s" using n by simp
  finally have "length (concat (map (\<lambda>(r, b). if r = rune_error \<and> length b = 1 then CHR 0x5C # ''ufffd''
      else json_rune r) (segments s))) \<le> 6 * length s" .
  then show ?thesis by (simp add: json_string_def)
qed

lemma demo_length: "length (json_text demo_subscription) \<le> 16384"
  using length_json_string [of "''endpoint''"] length_json_string [of "''https://push.example.net/x''"]
    length_json_string [of "''keys''"] length_json_string [of "''p256dh''"] length_json_string [of demo_key]
    length_json_string [of "''auth''"] length_json_string [of demo_secret]
  by (simp add: demo_subscription_def demo_key_def demo_secret_def)

lemma demo_endpoint: "validatePushEndpoint id ''https://push.example.net/x''"
  by (simp add: validatePushEndpoint_def endpoint_host_def origin_eval ParseIP_def ParseAddr_def parse_v4_def
      v4_field_def)

lemma demo_same_origin: "browserSameOrigin id demo_registration"
  by (simp add: browserSameOrigin_def demo_registration_def canonicalBrowserOrigin_def canonicalRequestOrigin_def
      request_scheme_def canonicalHTTPOrigin_def origin_eval)

lemma demo_request: "pushSubscriptionRequest (rBody demo_registration) =
    Some (''https://push.example.net/x'', demo_key, demo_secret)"
  using demo_parse demo_length
  by (simp add: pushSubscriptionRequest_def demo_registration_def demo_subscription_def key_simps set_str_def)

definition demo_config :: config where
  "demo_config = (load_texts (\<lambda>_. None))\<lparr>PushVAPIDPublicKey := ''k'', PushVAPIDPrivateKey := ''k'',
     DailyBudgetUSD := 0x4039000000000000\<rparr>"

definition demo_store :: world where
  "demo_store = \<lparr>wdb = empty_db, meddle = (\<lambda>_ d. d), dbfault = (\<lambda>_. NoFault), clock = (\<lambda>_. 0), txs = 0,
     freshID = (\<lambda>_. ''''), lcase = id, pubs = []\<rparr>"


end
