(* ===== verification/Gateway_Demo.thy ===== *)
theory Gateway_Demo
  imports Gateway_Gate Push_Demo
begin

text \<open>Concrete histories of the gateway, at which the properties of \<open>Gateway_Laws\<close> and \<open>Gateway_Gate\<close> apply.\<close>

definition demo_side :: side where
  "demo_side = \<lparr>stab = \<lparr>summaries = Map.empty, ledger = []\<rparr>, sops = 0, sclock = (\<lambda>_. 0), sfault = (\<lambda>_. None),
     smeddle = (\<lambda>_ t. t)\<rparr>"

lemma demo_call_id: "validCallID ''rtc_1''" "validCallID ''rtc_2''"
  by (simp_all add: validCallID_def has_prefix_def call_char_def is_digit_def is_alpha_def byte_def)

text \<open>Two calls; the first desk tries to report after it was replaced.\<close>

definition demo_first :: gateway where
  "demo_first = publishDeskState 0 LIVE '''' (startDesk demo_config ''rtc_1'' (new_gateway demo_side))"

definition demo_second :: gateway where
  "demo_second = publishDeskState 0 PARKED ''explicit''
     (publishDeskState 1 LIVE '''' (startDesk demo_config ''rtc_2'' demo_first))"

lemmas demo_gateway = demo_first_def demo_second_def gateway_steps new_gateway_def

lemma demo_second_reachable: "rtranclp (gstep demo_config) (new_gateway demo_side) demo_second"
proof -
  let ?s = "\<lambda>g h. gstep demo_config g h" and ?a = "startDesk demo_config ''rtc_1'' (new_gateway demo_side)"
  let ?b = "startDesk demo_config ''rtc_2'' demo_first"
  have "?s (new_gateway demo_side) ?a" by (rule gstep.launch) (rule demo_call_id)
  moreover have "?s ?a demo_first" unfolding demo_first_def
    by (rule gstep.state) (simp add: demo_gateway)
  moreover have "?s demo_first ?b" by (rule gstep.launch) (rule demo_call_id)
  moreover have "?s ?b (publishDeskState 1 LIVE '''' ?b)" by (rule gstep.state) (simp add: demo_gateway)
  moreover have "?s (publishDeskState 1 LIVE '''' ?b) demo_second" unfolding demo_second_def
    by (rule gstep.state) (simp add: demo_gateway)
  ultimately show ?thesis by (meson rtranclp.rtrancl_into_rtrancl rtranclp.rtrancl_refl)
qed

lemma replaced_desk_is_silenced_witness:
  "map fst (gwStates demo_second) = [0, 1] \<and> sorted (map fst (gwStates demo_second)) \<and>
     gwCurrent demo_second = Some 1"
  using replaced_desk_is_silenced [OF demo_second_reachable] by (simp add: demo_gateway)

definition demo_closed :: gateway where
  "demo_closed = shutdown_stop (shutdown_begin demo_second)"

lemma demo_closed_reachable: "rtranclp (gstep demo_config) (new_gateway demo_side) demo_closed"
  unfolding demo_closed_def
  by (rule rtranclp.rtrancl_into_rtrancl [OF rtranclp.rtrancl_into_rtrancl [OF demo_second_reachable gstep.closing] gstep.stop])

lemma shutdown_is_final_witness:
  "gwRunning (startDesk demo_config ''rtc_3'' demo_closed) = [0, 1] \<and>
     (0 \<in> set (gwCancelled demo_closed) \<or> 0 \<in> set (gwReturned demo_closed)) \<and>
     (1 \<in> set (gwCancelled demo_closed) \<or> 1 \<in> set (gwReturned demo_closed)) \<and>
     (\<exists>h. rtranclp (gstep demo_config) demo_closed h \<and> shutdown_wait ErrDeadline h = None)"
proof -
  have c: "gwClosing demo_closed" "gwStopping demo_closed = None" "gwRunning demo_closed = [0, 1]"
    by (simp_all add: demo_closed_def demo_gateway)
  from shutdown_is_final [OF demo_closed_reachable c(1,2) rtranclp.rtrancl_refl c(2), of ErrDeadline]
  show ?thesis using c by (simp add: startDesk_def)
qed

text \<open>A budget of zero refuses every offer.\<close>

definition demo_offer :: "string \<Rightarrow> http_request" where
  "demo_offer origin = \<lparr>rMethod = ''POST'', rPath = ''/offer'', rHost = ''desk'', rRemoteAddr = ''127.0.0.1:9'',
     rTLS = True, rHeader = (\<lambda>k. if k = ''Origin'' then origin else ''''), rBody = Inr ''v=0''\<rparr>"

lemma demo_usage: "UsageTodayUSD (\<lambda>a b. a) id demo_side = (Inr 0, demo_side\<lparr>sops := 1\<rparr>)"
  by (simp add: UsageTodayUSD_def side_op_def demo_side_def)

text \<open>The page \<open>https://evil.example\<close> posts an offer to the desk.\<close>

lemma evil_is_foreign: "foreign id (demo_offer ''https://evil.example'')"
  by (simp add: foreign_def page_host_def demo_offer_def browserSameOrigin_def canonicalBrowserOrigin_def
      canonicalRequestOrigin_def request_scheme_def canonicalHTTPOrigin_def origin_eval runes_def fold_rune_def)


end
