(* ===== verification/Event_Stream.thy ===== *)
theory Event_Stream
  imports Hermes_Run Json_Laws Json Ascii_Laws
begin

text \<open>
  The event stream of a run (\<open>scanRunEvents\<close>, \<open>eventError\<close> of \<open>src/internal/bridge/hermes.go\<close>): the lines
  \<open>bufio.Scanner\<close> takes from the response body, and the events decoded from the \<open>data:\<close> lines.  The body is the
  bytes read before the reader ended, with the error it ended with; \<open>number\<close> says whether \<open>strconv.ParseFloat\<close>
  accepts a JSON number, \<open>remarshal\<close> is \<open>json.Marshal\<close> of a decoded value.
\<close>

section \<open>Lines\<close>

text \<open>\<open>bufio.ScanLines\<close>: a trailing carriage return is dropped, and an empty last line is no token.\<close>

definition drop_cr :: "string \<Rightarrow> string" where
  "drop_cr s = (if s \<noteq> [] \<and> last s = CHR 0x0D then butlast s else s)"

definition scan_limit :: nat where "scan_limit = 2 ^ 21"

text \<open>\<open>sc.Buffer\<close> allows 2 MiB for a line with its line break; a longer one ends the scan.\<close>

fun scan_lines :: "string list \<Rightarrow> string list \<times> bool" where
  "scan_lines [] = ([], False)"
| "scan_lines [s] = (if s = [] then ([], False) else if scan_limit \<le> length s then ([], True) else ([drop_cr s], False))"
| "scan_lines (s # t # ts) =
     (if scan_limit \<le> length s then ([], True)
      else (case scan_lines (t # ts) of (ls, long) \<Rightarrow> (drop_cr s # ls, long)))"

section \<open>Events\<close>

definition number_field_ok :: "(string \<Rightarrow> bool) \<Rightarrow> json option \<Rightarrow> bool" where
  "number_field_ok number v \<longleftrightarrow>
     (case v of Some (JNum lit) \<Rightarrow> number lit | Some JNull \<Rightarrow> True | None \<Rightarrow> True | _ \<Rightarrow> False)"

definition eventError :: "(json \<Rightarrow> string) \<Rightarrow> json option \<Rightarrow> string" where
  "eventError remarshal v = (case v of
      Some (JStr s) \<Rightarrow> s
    | Some (JObj ms) \<Rightarrow>
        (case map_of (rev ms) ''message'' of Some (JStr m) \<Rightarrow> m | _ \<Rightarrow> remarshal (JObj ms))
    | Some x \<Rightarrow> remarshal x
    | None \<Rightarrow> ''null'')"

text \<open>The fields of \<open>runEvent\<close> that are strings.\<close>

definition event_texts :: "string list" where
  "event_texts = [''event'', ''run_id'', ''request_id'', ''tool'', ''preview'', ''delta'', ''output'', ''command'',
     ''description'', ''pattern_key'']"

definition decode_event :: "(string \<Rightarrow> bool) \<Rightarrow> (json \<Rightarrow> string) \<Rightarrow> json option \<Rightarrow> runEvent option" where
  "decode_event number remarshal v =
     (let g = (\<lambda>f. str_of (json_get f v)) in
      if v \<noteq> None \<and> obj_ok v \<and> list_all (\<lambda>f. str_ok (json_get f v)) event_texts \<and>
         strs_ok (json_get ''pattern_keys'' v) \<and> flag_ok (json_get ''allow_permanent'' v) \<and>
         number_field_ok number (json_get ''timestamp'' v)
      then Some \<lparr>reEvent = g ''event'', reRequestID = g ''request_id'', reTool = g ''tool'', rePreview = g ''preview'',
          reDelta = g ''delta'', reOutput = g ''output'', reError = eventError remarshal (json_get ''error'' v),
          reCommand = g ''command'', reDescription = g ''description'', rePatternKey = g ''pattern_key'',
          rePatternKeys = map (\<lambda>x. str_of (Some x)) (arr_of (json_get ''pattern_keys'' v)),
          reAllowPermanent = (json_get ''allow_permanent'' v = Some (JBool True))\<rparr>
      else None)"

definition line_event :: "(string \<Rightarrow> bool) \<Rightarrow> (json \<Rightarrow> string) \<Rightarrow> string \<Rightarrow> runEvent option" where
  "line_event number remarshal text =
     (let line = trim_space text in
      if \<not> has_prefix line ''data:'' then None
      else decode_event number remarshal (json_parse (trim_space (drop 5 line))))"

definition ErrTooLong :: error where
  "ErrTooLong = EText ''bufio.Scanner: token too long''"

text \<open>
  The events sent, in order, and the error that ends the stream.  \<open>cancel = Some (n, e)\<close>: the context ends with \<open>e\<close>
  while the goroutine offers event number \<open>n\<close>.
\<close>

definition scanRunEvents ::
  "(string \<Rightarrow> bool) \<Rightarrow> (json \<Rightarrow> string) \<Rightarrow> (nat \<times> error) option \<Rightarrow> string \<Rightarrow> error option \<Rightarrow>
   runEvent list \<times> error option" where
  "scanRunEvents number remarshal cancel body readErr =
     (let (ls, long) = scan_lines (split_on line_break body);
          evs = List.map_filter (line_event number remarshal) ls in
      case cancel of
        Some (n, e) \<Rightarrow> if n < length evs then (take n evs, Some e)
                       else (evs, if long then Some ErrTooLong else readErr)
      | None \<Rightarrow> (evs, if long then Some ErrTooLong else readErr))"

text \<open>What the loop of \<open>runTurnOwned\<close> then receives on its two channels.\<close>

definition stream_inputs :: "runEvent list \<times> error option \<Rightarrow> error option \<Rightarrow> turn_input list" where
  "stream_inputs s ctx = map Event (fst s) @ [StreamClosed (snd s) ctx]"

section \<open>No event is lost, merged or invented\<close>

text \<open>How the server writes the stream: events, and comments that keep the connection alive.\<close>

datatype frame = SEvent json | SComment string

fun frame_line :: "frame \<Rightarrow> string" where
  "frame_line (SEvent v) = ''data: '' @ json_text v"
| "frame_line (SComment s) = CHR '':'' # s"

definition frame_text :: "frame \<Rightarrow> string" where
  "frame_text f = frame_line f @ [line_break, line_break]"

fun frame_ok :: "frame \<Rightarrow> bool" where
  "frame_ok (SEvent v) = (well_formed v \<and> json_depth v \<le> 10000 \<and> (case v of JObj _ \<Rightarrow> True | _ \<Rightarrow> False))"
| "frame_ok (SComment s) = (line_break \<notin> set s)"

fun frame_events :: "frame \<Rightarrow> json list" where
  "frame_events (SEvent v) = [v]"
| "frame_events (SComment s) = []"

lemma trim_id:
  assumes "\<not> is_space (byte c)" "byte c < 128" "\<not> is_space (byte d)" "byte d < 128"
  shows "trim_space (c # s @ [d]) = c # s @ [d]"
proof -
  have "segments (c # s @ [d]) = (byte c, [c]) # segments s @ [(byte d, [d])]"
    using segments_ascii [OF assms(2), of "s @ [d]"] segments_append_ascii [OF assms(4), of s "[]"] by simp
  moreover have "trim_seg \<dots> = \<dots>" using assms by (simp add: trim_seg_def)
  ultimately show ?thesis using concat_segments [of "c # s @ [d]"] by (simp add: trim_space_def)
qed

lemma json_codes_printable: "c \<in> set (json_codes r) \<Longrightarrow> 32 \<le> c"
  by (auto simp: json_codes_def hex_code_def split: if_splits)

lemma json_code_printable: "well_formed v \<Longrightarrow> c \<in> set (json_code v) \<Longrightarrow> 32 \<le> c"
proof (induction v)
  case (JNum lit)
  then show ?case by (auto simp: list_all_iff number_char_def digit_def)
next
  case (JStr s)
  then show ?case using json_codes_printable by auto
next
  case (JArr vs)
  then show ?case using glue_set [of c "map json_code vs"] by (auto simp: list_all_iff)
next
  case (JObj ms)
  have "32 \<le> c" if "(k, v) \<in> set ms" "c \<in> set (str_code k @ 58 # json_code v)" for k v
    using JObj.IH [of "(k, v)" v] JObj.prems(1) that json_codes_printable by (auto simp: list_all_iff)
  then have e: "\<And>p. p \<in> set ms \<Longrightarrow> c \<in> set (case p of (k, v) \<Rightarrow> str_code k @ 58 # json_code v) \<Longrightarrow> 32 \<le> c"
    by (auto simp del: set_append set_simps)
  have "c = 123 \<or> c = 125 \<or> c \<in> set (glue (map (\<lambda>(k, v). str_code k @ 58 # json_code v) ms))"
    using JObj.prems(2) by auto
  moreover have "c = 44 \<or> 32 \<le> c" if "c \<in> set (glue (map (\<lambda>(k, v). str_code k @ 58 # json_code v) ms))"
    using glue_set [OF that] e by (auto simp del: set_append set_simps)
  ultimately show ?case by auto
qed (auto split: if_splits)

lemma json_text_one_line:
  assumes "well_formed v" "byte c < 32"
  shows "c \<notin> set (json_text v)"
proof
  assume "c \<in> set (json_text v)"
  then obtain r where "r \<in> set (json_code v)" "c \<in> set (encode_rune r)"
    using assms(1) by (auto simp: json_text_code of_runes_def)
  then have "r < 128" "c = char_of r" "32 \<le> r"
    using encode_low [of c r] json_code_printable [OF assms(1)] assms(2) by auto
  then show False using assms(2) by simp
qed

lemma trim_lead: "trim_space (CHR '' '' # t) = trim_space t"
  by (simp add: trim_space_def segments_ascii trim_seg_def byte_def is_space_def)

lemma trim_keeps_first:
  assumes "\<not> is_space (byte c)" "byte c < 128"
  shows "\<exists>t. trim_space (c # s) = c # t"
  using assms by (auto simp: trim_space_def segments_ascii trim_seg_def dropWhile_append)

lemma split_frames:
  assumes "\<forall>f\<in>set fs. line_break \<notin> set (frame_line f)"
  shows "split_on line_break (concat (map frame_text fs)) = concat (map (\<lambda>f. [frame_line f, []]) fs) @ [[]]"
  using assms by (induction fs) (simp_all add: frame_text_def split_line)

lemma scan_lines_short:
  "\<forall>l\<in>set ls. length l < scan_limit \<Longrightarrow> scan_lines (ls @ [[]]) = (map drop_cr ls, False)"
proof (induction ls)
  case (Cons l ls)
  then show ?case by (cases "ls @ [[]]") auto
qed simp

lemma frame_one_line: "frame_ok f \<Longrightarrow> line_break \<notin> set (frame_line f)"
  by (cases f) (auto simp: json_text_one_line line_break_def byte_def)

lemma event_line:
  assumes "frame_ok (SEvent v)"
  shows "line_event number remarshal (drop_cr (frame_line (SEvent v))) = decode_event number remarshal (Some v)"
proof -
  obtain ms where v: "v = JObj ms" using assms by (cases v) auto
  then obtain b where b: "json_text v = CHR ''{'' # b @ [CHR ''}'']" by simp
  have d: "trim_space (frame_line (SEvent v)) = frame_line (SEvent v)"
    using trim_id [of "CHR ''d''" "CHR ''}''" "''ata: '' @ CHR ''{'' # b"] b by (simp add: byte_def is_space_def)
  have j: "trim_space (json_text v) = json_text v"
    using trim_id [of "CHR ''{''" "CHR ''}''" b] b by (simp add: byte_def is_space_def)
  have "drop_cr (frame_line (SEvent v)) = frame_line (SEvent v)" by (simp add: drop_cr_def b)
  moreover have "json_parse (json_text v) = Some v" using assms by (intro json_roundtrip) simp_all
  ultimately show ?thesis using d j
    by (simp add: line_event_def has_prefix_def trim_lead del: json_text.simps)
qed

lemma comment_line: "line_event number remarshal (drop_cr (frame_line (SComment s))) = None"
proof -
  have "\<exists>t. drop_cr (CHR '':'' # s) = CHR '':'' # t" by (cases s) (auto simp: drop_cr_def)
  then obtain t where "drop_cr (CHR '':'' # s) = CHR '':'' # t" ..
  moreover obtain u where "trim_space (CHR '':'' # t) = CHR '':'' # u"
    using trim_keeps_first [of "CHR '':''" t] by (auto simp: byte_def is_space_def)
  ultimately show ?thesis by (simp add: line_event_def has_prefix_def)
qed

lemma blank_line: "line_event number remarshal (drop_cr []) = None"
  by (simp add: line_event_def drop_cr_def has_prefix_def trim_space_def trim_seg_def)

lemma frames_events:
  "\<forall>f\<in>set fs. frame_ok f \<Longrightarrow>
     List.map_filter (line_event number remarshal) (map drop_cr (concat (map (\<lambda>f. [frame_line f, []]) fs))) =
     List.map_filter (\<lambda>v. decode_event number remarshal (Some v)) (concat (map frame_events fs))"
proof (induction fs)
  case (Cons f fs)
  then show ?case
    by (cases f) (simp_all add: List.map_filter_def event_line comment_line blank_line del: frame_line.simps frame_ok.simps)
qed (simp add: List.map_filter_def)

text \<open>
  C14. The stream is read faithfully: whatever events a server writes, one \<open>data:\<close> line each and with any comments
  in between, the scanner hands over exactly the decoded events, in order, none lost, merged or made up from the
  text inside another, and ends with the reader's own error; no field of an event can forge a line of the stream.
  A line must stay under the 2 MiB the scanner allows.
\<close>

theorem stream_roundtrip:
  assumes ok: "\<forall>f\<in>set fs. frame_ok f" and short: "\<forall>f\<in>set fs. length (frame_line f) < scan_limit"
  shows "scanRunEvents number remarshal None (concat (map frame_text fs)) readErr =
    (List.map_filter (\<lambda>v. decode_event number remarshal (Some v)) (concat (map frame_events fs)), readErr)"
proof -
  have "split_on line_break (concat (map frame_text fs)) = concat (map (\<lambda>f. [frame_line f, []]) fs) @ [[]]"
    using ok frame_one_line by (intro split_frames) blast
  moreover have "\<forall>l\<in>set (concat (map (\<lambda>f. [frame_line f, []]) fs)). length l < scan_limit"
    using short by (auto simp: scan_limit_def)
  ultimately show ?thesis using scan_lines_short frames_events [OF ok] by (simp add: scanRunEvents_def)
qed

lemma stream_roundtrip_witness:
  "fst (scanRunEvents (\<lambda>_. True) json_text None (concat (map frame_text [SComment '' ping'',
       SEvent (JObj [(''event'', JStr ''run.completed''), (''output'', JStr [CHR 0x0A])])])) None) =
   List.map_filter (\<lambda>v. decode_event (\<lambda>_. True) json_text (Some v))
     [JObj [(''event'', JStr ''run.completed''), (''output'', JStr [CHR 0x0A])]]"
proof -
  have v: "valid_text ''event''" "valid_text ''run.completed''" "valid_text ''output''" "valid_text [CHR 0x0A]"
    by (simp_all add: valid_text_def runes_def segments_ascii of_runes_def encode_ascii byte_def char_of_def bit_0)
  show ?thesis
    by (subst stream_roundtrip)
      (simp_all add: v scan_limit_def line_break_def json_string_def segments_ascii byte_def json_rune_def hex2_def
         rune_error_def encode_ascii)
qed

end
