(* ===== verification/Key_Lock.thy ===== *)
theory Key_Lock
  imports Prelude
begin

text \<open>
  The keyed lock that serialises decisions on one run (\<open>approvalLockKey\<close>, \<open>lockApproval\<close> of
  \<open>src/internal/bridge/hermes.go\<close>): lock objects are created on demand, counted, and removed with their last
  user.  Any number of goroutines take it concurrently; each is at one of the points between the atomic sections
  of the code, which are the steps.
\<close>

definition approvalLockKey :: "string \<Rightarrow> string \<Rightarrow> string" where
  "approvalLockKey jobID runID = (if runID \<noteq> '''' then ''run:'' @ runID else ''job:'' @ jobID)"

text \<open>
  Where a goroutine is: it has its reference and waits for the mutex, it holds it, or it has unlocked it and will
  give its reference back.  The key and the lock object (\<open>lock\<close>) are its local variables.
\<close>

datatype stage = Waiting | Holding | Leaving

record locks =
  approvalLocks :: "string \<Rightarrow> nat option"
  lockRefs :: "nat \<Rightarrow> nat"
  lockOwner :: "nat \<Rightarrow> nat option"
  lockNext :: nat
  goroutines :: "nat \<Rightarrow> (string \<times> nat \<times> stage) option"

definition no_locks :: locks where
  "no_locks = \<lparr>approvalLocks = Map.empty, lockRefs = (\<lambda>_. 0), lockOwner = Map.empty, lockNext = 0,
     goroutines = Map.empty\<rparr>"

text \<open>The first section under \<open>h.mu\<close>: find or create the lock, and count the reference.\<close>

definition lock_enter :: "nat \<Rightarrow> string \<Rightarrow> locks \<Rightarrow> locks" where
  "lock_enter t k s =
     (case approvalLocks s k of
        Some l \<Rightarrow> s\<lparr>lockRefs := (lockRefs s)(l := Suc (lockRefs s l)),
                   goroutines := (goroutines s)(t \<mapsto> (k, l, Waiting))\<rparr>
      | None \<Rightarrow> let l = lockNext s in
          s\<lparr>approvalLocks := (approvalLocks s)(k \<mapsto> l), lockRefs := (lockRefs s)(l := 1), lockNext := Suc l,
            goroutines := (goroutines s)(t \<mapsto> (k, l, Waiting))\<rparr>)"

definition lock_acquire :: "nat \<Rightarrow> string \<Rightarrow> nat \<Rightarrow> locks \<Rightarrow> locks" where
  "lock_acquire t k l s = s\<lparr>lockOwner := (lockOwner s)(l \<mapsto> t), goroutines := (goroutines s)(t \<mapsto> (k, l, Holding))\<rparr>"

definition lock_release :: "nat \<Rightarrow> string \<Rightarrow> nat \<Rightarrow> locks \<Rightarrow> locks" where
  "lock_release t k l s = s\<lparr>lockOwner := (lockOwner s)(l := None), goroutines := (goroutines s)(t \<mapsto> (k, l, Leaving))\<rparr>"

text \<open>The second section under \<open>h.mu\<close>: give the reference back and delete the entry with the last one.\<close>

definition lock_drop :: "nat \<Rightarrow> string \<Rightarrow> nat \<Rightarrow> locks \<Rightarrow> locks" where
  "lock_drop t k l s =
     (let n = lockRefs s l - 1 in
      s\<lparr>lockRefs := (lockRefs s)(l := n),
        approvalLocks := (if n = 0 then (approvalLocks s)(k := None) else approvalLocks s),
        goroutines := (goroutines s)(t := None)\<rparr>)"

inductive lock_step :: "locks \<Rightarrow> locks \<Rightarrow> bool" where
  enter: "goroutines s t = None \<Longrightarrow> lock_step s (lock_enter t k s)"
| acquire: "goroutines s t = Some (k, l, Waiting) \<Longrightarrow> lockOwner s l = None \<Longrightarrow> lock_step s (lock_acquire t k l s)"
| release: "goroutines s t = Some (k, l, Holding) \<Longrightarrow> lock_step s (lock_release t k l s)"
| drop: "goroutines s t = Some (k, l, Leaving) \<Longrightarrow> lock_step s (lock_drop t k l s)"

section \<open>The invariant\<close>

definition users :: "nat \<Rightarrow> locks \<Rightarrow> nat set" where
  "users l s = {t. \<exists>k st. goroutines s t = Some (k, l, st)}"

text \<open>
  Every goroutine uses the object its key maps to, the count of a mapped object is the number of its users, and
  the mutex is owned exactly by the goroutine that holds it.
\<close>

definition lock_inv :: "locks \<Rightarrow> bool" where
  "lock_inv s \<longleftrightarrow>
     finite (dom (goroutines s)) \<and>
     (\<forall>t k l st. goroutines s t = Some (k, l, st) \<longrightarrow> approvalLocks s k = Some l) \<and>
     (\<forall>k l. approvalLocks s k = Some l \<longrightarrow> l < lockNext s \<and> 0 < lockRefs s l) \<and>
     (\<forall>k k' l. approvalLocks s k = Some l \<longrightarrow> approvalLocks s k' = Some l \<longrightarrow> k = k') \<and>
     (\<forall>l. l < lockNext s \<longrightarrow> lockRefs s l = card (users l s)) \<and>
     (\<forall>l t. lockOwner s l = Some t \<longleftrightarrow> (\<exists>k. goroutines s t = Some (k, l, Holding)))"

lemma users_finite: "lock_inv s \<Longrightarrow> finite (users l s)"
  by (rule finite_subset [of _ "dom (goroutines s)"]) (auto simp: lock_inv_def users_def)

lemma users_upd:
  "users l (s\<lparr>goroutines := (goroutines s)(t \<mapsto> (k, m, st))\<rparr>) =
     (if l = m then insert t (users l s) else users l s - {t})"
  by (auto simp: users_def)

lemma lock_inv_init: "lock_inv no_locks"
  by (simp add: lock_inv_def no_locks_def users_def)


lemma lock_invD:
  assumes "lock_inv s"
  shows "goroutines s t = Some (k, l, st) \<Longrightarrow> approvalLocks s k = Some l"
    and "approvalLocks s k = Some l \<Longrightarrow> l < lockNext s"
    and "approvalLocks s k = Some l \<Longrightarrow> 0 < lockRefs s l"
    and "approvalLocks s k = Some l \<Longrightarrow> approvalLocks s k' = Some l \<Longrightarrow> k = k'"
    and "l < lockNext s \<Longrightarrow> lockRefs s l = card (users l s)"
    and "lockOwner s l = Some t \<longleftrightarrow> (\<exists>k. goroutines s t = Some (k, l, Holding))"
  using assms unfolding lock_inv_def by blast+

lemma used_mapped: "lock_inv s \<Longrightarrow> approvalLocks s k = Some l \<Longrightarrow> 0 < card (users l s)"
  using lock_invD(2,3,5) by metis

lemma users_new: "lock_inv s \<Longrightarrow> lockNext s \<le> l \<Longrightarrow> users l s = {}"
  using lock_invD(1,2) by (fastforce simp: users_def)

lemma enter_inv:
  assumes i: "lock_inv s" and t: "goroutines s t = None"
  shows "lock_inv (lock_enter t k s)"
proof (cases "approvalLocks s k")
  case None
  have own: "lockOwner s (lockNext s) = None"
    using lock_invD(1,2,6) [OF i] by (metis less_irrefl not_None_eq)
  have fresh: "approvalLocks s k' = Some (lockNext s) \<Longrightarrow> False" for k'
    using lock_invD(2) [OF i] by blast
  have idle: "goroutines s u = Some (k, m, st) \<Longrightarrow> False" for u m st
    using lock_invD(1) [OF i] None by fastforce
  have none: "users (lockNext s) s = {}" by (rule users_new [OF i]) simp
  have out: "t \<notin> users l s" for l using t by (simp add: users_def)
  let ?s = "lock_enter t k s"
  have u: "users l ?s = (if l = lockNext s then {t} else users l s)" for l
    using none out by (auto simp: lock_enter_def None Let_def users_def t)
  show ?thesis
    unfolding lock_inv_def u
    using i t None own fresh idle used_mapped [OF i] unfolding lock_inv_def
    by (auto simp: lock_enter_def Let_def less_Suc_eq)
next
  case (Some m)
  have m: "m < lockNext s" by (rule lock_invD(2) [OF i Some])
  have out: "t \<notin> users l s" for l using t by (simp add: users_def)
  let ?s = "lock_enter t k s"
  have u: "users l ?s = (if l = m then insert t (users l s) else users l s)" for l
    by (auto simp: lock_enter_def Some Let_def users_def t)
  show ?thesis
    unfolding lock_inv_def u
    using i t Some out m users_finite [OF i] used_mapped [OF i] unfolding lock_inv_def
    by (auto simp: lock_enter_def)
qed

lemma stage_inv:
  assumes i: "lock_inv s" and t: "goroutines s t = Some (k, l, st)"
    and g: "goroutines s' = (goroutines s)(t \<mapsto> (k, l, st'))"
    and f: "approvalLocks s' = approvalLocks s" "lockRefs s' = lockRefs s" "lockNext s' = lockNext s"
    and o: "\<And>m u. lockOwner s' m = Some u \<longleftrightarrow> (\<exists>k. goroutines s' u = Some (k, m, Holding))"
  shows "lock_inv s'"
proof -
  have u: "users m s' = users m s" for m using t by (auto simp: users_def g)
  show ?thesis
    unfolding lock_inv_def u f o
    using i t lock_invD(1) [OF i t] used_mapped [OF i] unfolding lock_inv_def by (auto simp: g)
qed

lemma drop_inv:
  assumes i: "lock_inv s" and t: "goroutines s t = Some (k, l, Leaving)"
  shows "lock_inv (lock_drop t k l s)"
proof -
  let ?s = "lock_drop t k l s"
  have k: "approvalLocks s k = Some l" by (rule lock_invD(1) [OF i t])
  have l: "l < lockNext s" by (rule lock_invD(2) [OF i k])
  have r: "lockRefs s l = card (users l s)" by (rule lock_invD(5) [OF i l])
  have mem: "t \<in> users l s" using t by (auto simp: users_def)
  have u: "users m ?s = users m s - {t}" for m by (auto simp: users_def lock_drop_def Let_def)
  have other: "m \<noteq> l \<Longrightarrow> t \<notin> users m s" for m using t by (auto simp: users_def)
  have c: "card (users l s - {t}) = lockRefs s l - 1"
    using mem r by simp
  have last: "lockRefs s l - 1 = 0 \<Longrightarrow> users l s = {t}"
    using c mem users_finite [OF i, of l] by (metis card_0_eq finite_Diff insert_Diff)
  have gone: "goroutines s u = Some (k, l', st) \<Longrightarrow> u \<noteq> t \<Longrightarrow> lockRefs s l - 1 \<noteq> 0" for u l' st
    using last k lock_invD(1) [OF i, of u k l' st] by (auto simp: users_def)
  have own: "lockOwner s m \<noteq> Some t" for m using t lock_invD(6) [OF i] by simp
  show ?thesis
    unfolding lock_inv_def u
    using i t k c other gone own used_mapped [OF i] unfolding lock_inv_def
    by (auto simp: lock_drop_def Let_def split: if_splits)
qed

inductive_cases lock_stepE: "lock_step s s'"

lemma lock_step_inv:
  assumes i: "lock_inv s" and s: "lock_step s s'"
  shows "lock_inv s'"
  using s
proof (rule lock_stepE)
  fix t k l assume a: "s' = lock_acquire t k l s" "goroutines s t = Some (k, l, Waiting)" "lockOwner s l = None"
  have no: "goroutines s u \<noteq> Some (k', l, Holding)" for u k' using a(3) lock_invD(6) [OF i, of l u] by auto
  show ?thesis
    using a no lock_invD(6) [OF i] by (intro stage_inv [OF i a(2), of _ Holding]) (auto simp: lock_acquire_def)
next
  fix t k l assume a: "s' = lock_release t k l s" "goroutines s t = Some (k, l, Holding)"
  have held: "lockOwner s l = Some t" using a(2) lock_invD(6) [OF i] by blast
  have "lockOwner s' m = Some u \<longleftrightarrow> (\<exists>k. goroutines s' u = Some (k, m, Holding))" for m u
    using a held lock_invD(6) [OF i, of m u] lock_invD(6) [OF i, of l u]
    by (cases "m = l"; cases "u = t") (simp_all add: lock_release_def)
  with a show ?thesis by (intro stage_inv [OF i a(2), of _ Leaving]) (simp_all add: lock_release_def)
qed (use i in \<open>auto intro: enter_inv drop_inv\<close>)

lemma lock_reach_inv: "lock_step\<^sup>*\<^sup>* no_locks s \<Longrightarrow> lock_inv s"
  by (induction rule: rtranclp_induct) (auto intro: lock_inv_init lock_step_inv)

definition holds_key :: "locks \<Rightarrow> nat \<Rightarrow> string \<Rightarrow> bool" where
  "holds_key s t key \<longleftrightarrow> (\<exists>l. goroutines s t = Some (key, l, Holding))"

text \<open>
  C7. However the goroutines interleave, (i) no two of them hold the lock of one approval key at once, also when
  the entry was deleted and created again in between; (ii) whoever waits for a key that nobody holds can take it
  at once: no goroutine waits on an object that has left the table; (iii) when nobody uses the locks the table is
  empty, so the keys of finished runs do not accumulate.
\<close>

theorem approval_lock_excludes:
  assumes "lock_step\<^sup>*\<^sup>* no_locks s"
  shows "(holds_key s t key \<and> holds_key s u key \<longrightarrow> t = u) \<and>
    (goroutines s w = Some (key, l, Waiting) \<and> (\<nexists>v. holds_key s v key) \<longrightarrow>
       lock_step s (lock_acquire w key l s) \<and> holds_key (lock_acquire w key l s) w key) \<and>
    (goroutines s = Map.empty \<longrightarrow> approvalLocks s = Map.empty)"
proof -
  note i = lock_reach_inv [OF assms]
  have 1: "t = u" if "holds_key s t key" "holds_key s u key"
    using that lock_invD(1,6) [OF i] unfolding holds_key_def by (metis option.inject)
  have 2: "lock_step s (lock_acquire w key l s) \<and> holds_key (lock_acquire w key l s) w key"
    if w: "goroutines s w = Some (key, l, Waiting)" and free: "\<nexists>v. holds_key s v key"
  proof -
    have "lockOwner s l = None"
      using w free lock_invD(1,4,6) [OF i] unfolding holds_key_def by (metis not_None_eq)
    with w show ?thesis by (auto simp: holds_key_def lock_acquire_def intro: lock_step.acquire [unfolded lock_acquire_def])
  qed
  have 3: "approvalLocks s = Map.empty" if "goroutines s = Map.empty"
  proof (rule ccontr)
    assume "approvalLocks s \<noteq> Map.empty"
    then obtain k l where k: "approvalLocks s k = Some l" by (auto simp: fun_eq_iff)
    have "users l s = {}" using that by (simp add: users_def)
    thus False using lock_invD(2,3,5) [OF i] k by (metis card.empty less_irrefl)
  qed
  show ?thesis using 1 2 3 by blast
qed

text \<open>Two goroutines decide on run r: the first holds its lock, the second waits on the same object.\<close>

definition demo_locks :: locks where
  "demo_locks = lock_enter 2 (approvalLockKey ''j'' ''r'')
     (lock_acquire 1 (approvalLockKey ''j'' ''r'') 0 (lock_enter 1 (approvalLockKey ''j'' ''r'') no_locks))"

lemma demo_locks_reachable: "lock_step\<^sup>*\<^sup>* no_locks demo_locks"
proof -
  let ?k = "approvalLockKey ''j'' ''r''"
  have 1: "lock_step no_locks (lock_enter 1 ?k no_locks)" by (rule lock_step.enter) (simp add: no_locks_def)
  have 2: "lock_step (lock_enter 1 ?k no_locks) (lock_acquire 1 ?k 0 (lock_enter 1 ?k no_locks))"
    by (rule lock_step.acquire) (simp_all add: no_locks_def lock_enter_def Let_def)
  have 3: "lock_step (lock_acquire 1 ?k 0 (lock_enter 1 ?k no_locks)) demo_locks"
    unfolding demo_locks_def by (rule lock_step.enter) (simp add: no_locks_def lock_enter_def lock_acquire_def Let_def)
  show ?thesis using 1 2 3 by (meson rtranclp.rtrancl_into_rtrancl rtranclp.rtrancl_refl)
qed

lemma approval_lock_excludes_witness:
  "holds_key demo_locks 1 ''run:r'' \<and> \<not> holds_key demo_locks 2 ''run:r'' \<and>
   goroutines demo_locks 2 = Some (''run:r'', 0, Waiting)"
proof -
  have h: "holds_key demo_locks 1 ''run:r''" "goroutines demo_locks 2 = Some (''run:r'', 0, Waiting)"
    by (simp_all add: demo_locks_def holds_key_def lock_enter_def lock_acquire_def no_locks_def approvalLockKey_def Let_def)
  show ?thesis using h approval_lock_excludes [OF demo_locks_reachable, of 1 "''run:r''" 2] by auto
qed

end
