(* ===== verification/Line_Laws.thy ===== *)
theory Line_Laws
  imports Time_Text Ascii_Laws
begin

text \<open>Digits are no line breaks.\<close>

lemma break_byte: "byte line_break = 10"
  by (simp add: line_break_def byte_def)

lemma char_of_line: "(n :: nat) < 256 \<Longrightarrow> char_of n = line_break \<Longrightarrow> n = 10"
  using break_byte byte_char_of [of n] by simp

lemma hex_digit_line: "d < 16 \<Longrightarrow> hex_digit d \<noteq> line_break"
  by (subst byte_inj [symmetric], simp only: break_byte) (auto simp: hex_digit_def)

lemma digits_line: "line_break \<notin> set (pad_digits n v)"
proof (induction n arbitrary: v)
  case (Suc n)
  then show ?case using hex_digit_line [of "v mod 10"] by fastforce
qed simp

lemma nat_text_line: "line_break \<notin> set (nat_text n)"
proof (induction n rule: nat_text.induct)
  case (1 n)
  have "line_break \<noteq> char_of (48 + n)" if "n < 10" for n :: nat
    using char_of_line [of "48 + n"] that by auto
  then show ?case using 1 by (subst nat_text.simps) simp
qed

lemma int_line: "line_break \<notin> set (int_text i)"
  using nat_text_line by (simp add: int_text_def) (simp add: line_break_def)

end
