(* ===== verification/Ci_Types.thy ===== *)
theory Ci_Types
  imports Errors Json "HOL-Library.List_Lexorder" "HOL-Library.Char_ord"
begin

text \<open>
  The policy checker of the repository (\<open>src/internal/cipolicy/check.go\<close>), first part: the documents it reads,
  the view it has of the repository, and its helpers.  A Go map is an association list in the order in which
  \<open>range\<close> yields it.  What the YAML library and SHA-256 compute are the functions of \<open>ci_libs\<close>.
\<close>

section \<open>Documents\<close>

text \<open>A decoded YAML value of type \<open>any\<close>; \<open>YOther\<close> is one of a type the checker never asks for.\<close>

datatype yaml = YNull | YBool bool | YStr string | YList "yaml list" | YMap "(string \<times> yaml) list" | YOther string

record workflow_step =
  stName :: string
  stIf :: string
  stEnv :: "(string \<times> string) list"
  stWith :: "(string \<times> yaml) list"
  stUses :: string
  stRun :: string

record workflow_job =
  jbName :: string
  jbIf :: string
  jbEnvironment :: string
  jbNeeds :: yaml
  jbPermissions :: "(string \<times> string) list"
  jbSteps :: "workflow_step list"

record workflow =
  wfOn :: "(string \<times> yaml) list"
  wfPermissions :: "(string \<times> string) list"
  wfGroup :: string
  wfCancelInProgress :: bool
  wfJobs :: "(string \<times> workflow_job) list"

record dependabot_update =
  duEcosystem :: string
  duDirectory :: string
  duGroups :: "(string \<times> yaml) list"

record rollback_policy =
  rpSchemaSHA256 :: string
  rpMode :: string
  rpRationale :: string

record review_policy =
  DismissStaleReviews :: bool
  RequireCodeOwnerReviews :: bool
  RequiredApprovingReviewCount :: int

record protection =
  Strict :: bool
  Contexts :: "string list"
  EnforceAdmins :: bool
  Reviews :: "review_policy option"
  RequiredLinearHistory :: bool
  AllowForcePushes :: bool
  AllowDeletions :: bool
  RequiredConversationResolution :: bool

section \<open>The repository and the libraries\<close>

text \<open>
  Paths are relative to the checked root.  \<open>absPath\<close> is \<open>filepath.Join(root, -)\<close>, \<open>workflowPaths\<close> the answer of
  \<open>filepath.Glob\<close> for the workflow directory's \<open>*.yml\<close>.
\<close>

record ci_repo =
  readFile :: "string \<Rightarrow> error + string"
  statFile :: "string \<Rightarrow> error option"
  isNotExist :: "error \<Rightarrow> bool"
  workflowPaths :: "error + string list"
  absPath :: "string \<Rightarrow> string"

record ci_libs =
  yamlWorkflow :: "string \<Rightarrow> error + workflow"
  yamlDependabot :: "string \<Rightarrow> error + dependabot_update list"
  yamlCompose :: "string \<Rightarrow> error + (string \<times> string) list"
  yamlText :: "(string \<times> yaml) list \<Rightarrow> error + string"
  sha256Hex :: "string \<Rightarrow> string"
  jsonFailure :: "string \<Rightarrow> error"

definition decoding :: "string \<Rightarrow> error + 'a \<Rightarrow> error + 'a" where
  "decoding what m = (case m of Inl e \<Rightarrow> Inl (EWrap (''decode '' @ what @ '': '') e '''') | Inr x \<Rightarrow> Inr x)"

lemma decoding_Inr: "decoding what m = Inr x \<longleftrightarrow> m = Inr x"
  by (cases m) (simp_all add: decoding_def)

section \<open>JSON documents\<close>

definition flag_of :: "json option \<Rightarrow> bool" where
  "flag_of v \<longleftrightarrow> v = Some (JBool True)"

definition decode_reviews :: "json option \<Rightarrow> review_policy option" where
  "decode_reviews v = (case v of
      Some (JObj ms) \<Rightarrow> Some \<lparr>DismissStaleReviews = flag_of (json_get ''dismiss_stale_reviews'' v),
        RequireCodeOwnerReviews = flag_of (json_get ''require_code_owner_reviews'' v),
        RequiredApprovingReviewCount = int_of_json (json_get ''required_approving_review_count'' v)\<rparr>
    | _ \<Rightarrow> None)"

definition decode_protection :: "string \<Rightarrow> protection option" where
  "decode_protection data =
     (let v = json_parse data; c = json_get ''required_status_checks'' v;
          r = json_get ''required_pull_request_reviews'' v in
      if v \<noteq> None \<and> obj_ok v \<and> obj_ok c \<and> flag_ok (json_get ''strict'' c) \<and> strs_ok (json_get ''contexts'' c) \<and>
         list_all (\<lambda>f. flag_ok (json_get f v)) [''enforce_admins'', ''required_linear_history'', ''allow_force_pushes'',
           ''allow_deletions'', ''required_conversation_resolution''] \<and>
         obj_ok r \<and> flag_ok (json_get ''dismiss_stale_reviews'' r) \<and>
         flag_ok (json_get ''require_code_owner_reviews'' r) \<and> int_ok (json_get ''required_approving_review_count'' r)
      then Some \<lparr>Strict = flag_of (json_get ''strict'' c),
          Contexts = map (\<lambda>x. str_of (Some x)) (arr_of (json_get ''contexts'' c)),
          EnforceAdmins = flag_of (json_get ''enforce_admins'' v), Reviews = decode_reviews r,
          RequiredLinearHistory = flag_of (json_get ''required_linear_history'' v),
          AllowForcePushes = flag_of (json_get ''allow_force_pushes'' v),
          AllowDeletions = flag_of (json_get ''allow_deletions'' v),
          RequiredConversationResolution = flag_of (json_get ''required_conversation_resolution'' v)\<rparr>
      else None)"

definition decode_rollback :: "string \<Rightarrow> rollback_policy option" where
  "decode_rollback data =
     (let v = json_parse data in
      if v \<noteq> None \<and> obj_ok v \<and>
         list_all (\<lambda>f. str_ok (json_get f v)) [''schema_sha256'', ''mode'', ''rationale'']
      then Some \<lparr>rpSchemaSHA256 = str_of (json_get ''schema_sha256'' v), rpMode = str_of (json_get ''mode'' v),
          rpRationale = str_of (json_get ''rationale'' v)\<rparr>
      else None)"

definition or_json :: "ci_libs \<Rightarrow> string \<Rightarrow> string \<Rightarrow> 'a option \<Rightarrow> error + 'a" where
  "or_json L what data m = (case m of None \<Rightarrow> Inl (EWrap what (jsonFailure L data) '''') | Some x \<Rightarrow> Inr x)"

lemma or_json_Inr: "or_json L what data m = Inr x \<longleftrightarrow> m = Some x"
  by (cases m) (simp_all add: or_json_def)

section \<open>Helpers\<close>

definition entry :: "(string \<times> string) list \<Rightarrow> string \<Rightarrow> string" where
  "entry m k = (case map_of m k of None \<Rightarrow> '''' | Some v \<Rightarrow> v)"

fun yaml_strings :: "yaml list \<Rightarrow> string list option" where
  "yaml_strings [] = Some []"
| "yaml_strings (YStr s # vs) = map_option (Cons s) (yaml_strings vs)"
| "yaml_strings (v # vs) = None"

fun yamlStringList :: "yaml option \<Rightarrow> string list option" where
  "yamlStringList (Some (YList vs)) = yaml_strings vs"
| "yamlStringList v = None"

fun needs :: "workflow_job \<Rightarrow> string \<Rightarrow> bool" where
  "needs j wanted = (case jbNeeds j of
      YStr s \<Rightarrow> s = wanted
    | YList vs \<Rightarrow> list_ex (\<lambda>v. v = YStr wanted) vs
    | _ \<Rightarrow> False)"

definition hex_lower :: "char \<Rightarrow> bool" where
  "hex_lower c \<longleftrightarrow> 48 \<le> byte c \<and> byte c \<le> 57 \<or> 97 \<le> byte c \<and> byte c \<le> 102"

text \<open>\<open>strings.Cut(uses, "@")\<close>: up to the first \<open>@\<close>, and what follows.\<close>

definition pinnedActionSHA :: "string \<Rightarrow> string option" where
  "pinnedActionSHA uses =
     (case dropWhile (\<lambda>c. c \<noteq> CHR ''@'') uses of
        [] \<Rightarrow> None
      | _ # ref \<Rightarrow> if length ref = 40 \<and> list_all hex_lower ref then Some ref else None)"

text \<open>\<open>strings.Count\<close> of a non-empty text.\<close>

function count_text :: "string \<Rightarrow> string \<Rightarrow> nat" where
  "count_text s p =
     (if p = [] \<or> s = [] then 0
      else if has_prefix s p then Suc (count_text (drop (length p) s) p) else count_text (tl s) p)"
  by pat_completeness auto
termination by (relation "measure (\<lambda>(s, p). length s)") auto

declare count_text.simps [simp del]

text \<open>\<open>strings.Cut\<close> at a text: what follows its first occurrence, and what stands before.\<close>

fun after_text :: "string \<Rightarrow> string \<Rightarrow> string option" where
  "after_text p [] = (if p = [] then Some [] else None)"
| "after_text p (c # s) = (if has_prefix (c # s) p then Some (drop (length p) (c # s)) else after_text p s)"

fun before_text :: "string \<Rightarrow> string \<Rightarrow> string option" where
  "before_text p [] = (if p = [] then Some [] else None)"
| "before_text p (c # s) = (if has_prefix (c # s) p then Some [] else map_option (Cons c) (before_text p s))"

text \<open>A regular expression made of literal texts with \<open>\s+\<close> between them, where no text starts with a space.\<close>

definition re_space :: "char \<Rightarrow> bool" where
  "re_space c \<longleftrightarrow> byte c \<in> {9, 10, 12, 13, 32}"

fun re_here :: "string list \<Rightarrow> string \<Rightarrow> bool" where
  "re_here [] s = True"
| "re_here [p] s = has_prefix s p"
| "re_here (p # q # ps) s =
     (has_prefix s p \<and>
      (case drop (length p) s of
         [] \<Rightarrow> False
       | c # t \<Rightarrow> re_space c \<and> re_here (q # ps) (dropWhile re_space t)))"

fun re_match :: "string list \<Rightarrow> string \<Rightarrow> bool" where
  "re_match ps [] = re_here ps []"
| "re_match ps (c # s) = (re_here ps (c # s) \<or> re_match ps s)"

section \<open>Lanes\<close>

definition env_text :: "workflow_step \<Rightarrow> string" where
  "env_text st = concat (map (\<lambda>(n, v). n @ ''='' @ v @ [line_break]) (stEnv st))"

definition with_text :: "ci_libs \<Rightarrow> workflow_step \<Rightarrow> error + string" where
  "with_text L st = (if stWith st = [] then Inr '''' else yamlText L (stWith st))"

fun workflowLaneText :: "ci_libs \<Rightarrow> workflow_step list \<Rightarrow> error + string" where
  "workflowLaneText L [] = Inr ''''"
| "workflowLaneText L (st # sts) =
     and_then (with_text L st) (\<lambda>w.
     and_then (workflowLaneText L sts) (\<lambda>rest.
       Inr (stName st @ [line_break] @ stIf st @ [line_break] @ env_text st @ w @ stUses st @ [line_break] @
         stRun st @ [line_break] @ rest)))"

definition must_include :: "(string \<Rightarrow> string) \<Rightarrow> string \<Rightarrow> string list \<Rightarrow> error option" where
  "must_include msg lane ws = first_error (map (\<lambda>w. require (contains lane w) (msg w)) ws)"

lemma must_include_None [simp]: "must_include msg lane ws = None \<longleftrightarrow> (\<forall>w\<in>set ws. contains lane w)"
  by (auto simp: must_include_def first_error_None)

definition requireLaneSteps :: "ci_libs \<Rightarrow> string \<Rightarrow> workflow_job \<Rightarrow> string list \<Rightarrow> error option" where
  "requireLaneSteps L name j ws =
     (case workflowLaneText L (jbSteps j) of
        Inl e \<Rightarrow> Some (EWrap (name @ '': '') e '''')
      | Inr lane \<Rightarrow> must_include (\<lambda>w. name @ '' must include '' @ quoted w) lane ws)"

text \<open>The recurring check of a permission table against the documented one.\<close>

definition permission_check ::
  "string \<Rightarrow> (string \<Rightarrow> string \<Rightarrow> string) \<Rightarrow> (string \<times> string) list \<Rightarrow> (string \<times> string) list \<Rightarrow> error option" where
  "permission_check sizeMsg entryMsg want got =
     first_error (require (length got = length want) sizeMsg #
       map (\<lambda>(n, a). require (entry got n = a) (entryMsg n a)) want)"

definition exact_entries :: "(string \<times> string) list \<Rightarrow> (string \<times> string) list \<Rightarrow> bool" where
  "exact_entries want got \<longleftrightarrow> length got = length want \<and> list_all (\<lambda>(n, a). entry got n = a) want"

lemma permission_check_None [simp]:
  "permission_check sizeMsg entryMsg want got = None \<longleftrightarrow> exact_entries want got"
  by (auto simp: permission_check_def exact_entries_def first_error_None list_all_iff)

end
