(* ===== verification/Ci_Checks.thy ===== *)
theory Ci_Checks
  imports Ci_Types
begin

text \<open>
  The policy checker (\<open>src/internal/cipolicy/check.go\<close>), second part: every check, in the order of the code, and
  \<open>Check\<close> itself.  \<open>None\<close> is the nil error.
\<close>

definition requiredCheck :: string where
  "requiredCheck = ''Go, web, and image build''"

definition empty_or_missing :: "yaml option \<Rightarrow> bool" where
  "empty_or_missing v \<longleftrightarrow> v = None \<or> v = Some YNull"

section \<open>The retired publisher\<close>

definition publisher_lane :: "ci_libs \<Rightarrow> workflow_step list \<Rightarrow> error + string" where
  "publisher_lane L sts = foldr (\<lambda>st rest. and_then (with_text L st) (\<lambda>w. and_then rest (\<lambda>r.
     Inr (stUses st @ [line_break] @ stRun st @ [line_break] @ w @ r)))) sts (Inr '''')"

definition publisher_bindings :: "string list" where
  "publisher_bindings =
    [''.version == 1 and .source_commit == $expected'',
     ''.images.app.archive == \"app.tar.gz\"'',
     ''.images.app.local_tag == \"thornhill:ci\"'',
     ''.images.postgres.archive == \"postgres.tar.gz\"'',
     ''.images.postgres.local_tag == \"thornhill-postgres:ci\"'',
     ''(.images.app.id | test(\"^sha256:[0-9a-f]{64}$\"))'',
     ''(.images.postgres.id | test(\"^sha256:[0-9a-f]{64}$\"))'',
     ''[[ \"${app_id}\" == \"${expected_app_id}\" ]]'',
     ''[[ \"${db_id}\" == \"${expected_db_id}\" ]]'']"

definition publisher_steps :: "string list" where
  "publisher_steps =
    [''.head_repository.full_name'',
     ''.head_branch'',
     ''.head_sha'',
     ''git/ref/heads/main'',
     ''[[ \"${event}\" == push || \"${event}\" == workflow_dispatch ]]'',
     ''[[ \"${head_branch}\" == main ]]'',
     ''[[ \"${head_sha}\" == \"${main_sha}\" ]]'',
     ''actions/download-artifact@'',
     ''run-id:'',
     ''github-token:'',
     ''thornhill-images-'',
     ''docker load'',
     ''docker tag'',
     ''docker image inspect'',
     ''docker run --rm'',
     ''--read-only'',
     ''--cap-drop ALL'',
     ''--pids-limit 256'',
     ''docker stop'',
     ''docker wait'',
     ''docker login ghcr.io'',
     ''docker push'',
     ''org.opencontainers.image.revision'',
     ''@sha256:'',
     ''actions/upload-artifact@'']"

definition publisher_forbidden :: "string list" where
  "publisher_forbidden =
    [''actions/checkout@'',
     ''docker buildx build'',
     ''docker build '',
     ''docker compose build'']"

definition publisher_rules :: "ci_libs \<Rightarrow> string \<Rightarrow> string \<Rightarrow> error option" where
  "publisher_rules L relative text = first_error
     [require (\<not> contains text ''secrets.'' \<and> \<not> contains text ''pull_request_target'')
        (relative @ '' must not access repository secrets or use pull_request_target''),
      or_error (decoding relative (yamlWorkflow L text)) (\<lambda>flow. first_error
       [require (length (wfOn flow) = 1 \<and> \<not> empty_or_missing (map_of (wfOn flow) ''workflow_run''))
          (relative @ '' must trigger only from workflow_run''),
        (case map_of (wfOn flow) ''workflow_run'' of
           Some (YMap run) \<Rightarrow>
             require (yamlStringList (map_of run ''workflows'') = Some [''CI''] \<and>
                 yamlStringList (map_of run ''types'') = Some [''completed''])
               (relative @ '' must trigger only the completed CI workflow'')
         | _ \<Rightarrow> Some (EText (relative @ '' workflow_run must select the completed CI workflow''))),
        permission_check (relative @ '' must default to exactly read-only permissions'')
          (\<lambda>n a. relative @ '' default permission '' @ n @ '' must be '' @ a)
          [(''actions'', ''read''), (''contents'', ''read'')] (wfPermissions flow),
        (case map_of (wfJobs flow) ''publish'' of
           None \<Rightarrow> Some (EText (relative @ '' must contain only the success-gated publish job''))
         | Some publish \<Rightarrow> first_error
            [require (length (wfJobs flow) = 1 \<and> jbIf publish = (''github.event.workflow_run.conclusion == '' @ [CHR 0x27] @ ''success'' @ [CHR 0x27]))
               (relative @ '' must contain only the success-gated publish job''),
             permission_check (relative @ '' publish job must hold exactly the documented package-write permissions'')
               (\<lambda>n a. relative @ '' publish permission '' @ n @ '' must be '' @ a)
               [(''actions'', ''read''), (''contents'', ''read''), (''packages'', ''write'')] (jbPermissions publish),
             (case publisher_lane L (jbSteps publish) of
                Inl e \<Rightarrow> Some (EWrap (''encode '' @ relative @ '' step inputs: '') e '''')
              | Inr lane \<Rightarrow> first_error
                 [must_include (\<lambda>w. relative @ '' must include publisher artifact binding '' @ quoted w) lane
                    publisher_bindings,
                  must_include (\<lambda>w. relative @ '' must include '' @ quoted w) lane publisher_steps,
                  first_error (map (\<lambda>f. require (\<not> contains lane f)
                    (relative @ '' must not contain privileged checkout or rebuild path: '' @ quoted f))
                    publisher_forbidden)])])])]"

definition checkTrustedImagePublisher :: "ci_libs \<Rightarrow> ci_repo \<Rightarrow> error option" where
  "checkTrustedImagePublisher L r =
     (let relative = ''.github/workflows/publish-images.yml'' in
      case statFile r relative of
        None \<Rightarrow> Some (EText (relative @ '' is retired; use the operator-installed local bundle''))
      | Some e \<Rightarrow>
          if \<not> isNotExist r e then Some e
          else (case readFile r relative of
              Inl e \<Rightarrow> if isNotExist r e then None else Some e
            | Inr text \<Rightarrow> publisher_rules L relative text))"

section \<open>The local release bundle\<close>

definition bundle_contract :: "string list" where
  "bundle_contract =
    [''scripts/test-local-release.sh'',
     ''scripts/package-local-release.sh'',
     ''--output-dir \"${RUNNER_TEMP}/thornhill-release\"'',
     ''--scan-dir \"${RUNNER_TEMP}/thornhill-scan\"'',
     ''name: thornhill-release-${{ github.sha }}'',
     ''actions/upload-artifact@'']"

definition bundle_forbidden :: "string list" where
  "bundle_forbidden =
    [''packages: write'',
     ''docker login ghcr.io'',
     ''docker push'',
     ''docker pull'',
     ''ssh '']"

definition bundle_scripts :: "string list" where
  "bundle_scripts =
    [''scripts/package-local-release.sh'',
     ''scripts/install-local-release.sh'',
     ''scripts/test-local-release.sh'']"

definition checkLocalReleaseBundle :: "ci_repo \<Rightarrow> error option" where
  "checkLocalReleaseBundle r =
     (let path = absPath r ''.github/workflows/ci.yml'' in
      first_error
       [or_error (readFile r ''.github/workflows/ci.yml'') (\<lambda>text. first_error
         [must_include (\<lambda>w. path @ '' must include local release bundle contract '' @ quoted w) text bundle_contract,
          first_error (map (\<lambda>f. require (\<not> contains text f)
            (path @ '' must not grant or use remote publication authority '' @ quoted f)) bundle_forbidden)]),
        first_error (map (\<lambda>relative. or_error (readFile r relative) (\<lambda>text.
          require (\<not> contains text ''docker pull'' \<and> \<not> contains text ''docker push'' \<and> \<not> contains text ''gh api'')
            (relative @ '' must remain local-only and must not pull, push, or call GitHub''))) bundle_scripts),
        or_error (readFile r ''scripts/install-local-release.sh'') (\<lambda>text.
          must_include (\<lambda>w. ''scripts/install-local-release.sh must include '' @ quoted w) text
            [''docker load'',
             ''config --quiet'',
             ''--no-build'',
             ''wait_for_runtime'',
             ''transition.json'']),
        or_error (readFile r ''scripts/package-local-release.sh'') (\<lambda>text.
          must_include (\<lambda>w. ''scripts/package-local-release.sh must include '' @ quoted w) text
            [''SHA256SUMS'',
             ''release.json'',
             ''install-release.sh'',
             ''compose/env.example''])])"

section \<open>The protected canary\<close>

definition canary_lane :: "workflow_step list \<Rightarrow> string" where
  "canary_lane sts = concat (map (\<lambda>st. stUses st @ [line_break] @ stRun st @ [line_break] @ env_text st) sts)"

definition canary_steps :: "string list" where
  "canary_steps =
    [''git/ref/heads/main'',
     ''actions/checkout@'',
     ''scripts/run-canary.sh'',
     ''vars.THORNHILL_CANARY_BASE_URL'',
     ''vars.THORNHILL_CANARY_PROVIDER_URL'',
     ''THORNHILL_CANARY_PROVIDER_TOKEN'',
     ''secrets.THORNHILL_CANARY_PROVIDER_TOKEN'']"

definition checkProtectedCanary :: "ci_libs \<Rightarrow> ci_repo \<Rightarrow> error option" where
  "checkProtectedCanary L r =
     (let relative = ''.github/workflows/canary.yml''; want = [(''actions'', ''read''), (''contents'', ''read'')] in
      or_error (readFile r relative) (\<lambda>data.
      or_error (decoding relative (yamlWorkflow L data)) (\<lambda>flow. first_error
       [require (length (wfOn flow) = 1 \<and> \<not> empty_or_missing (map_of (wfOn flow) ''workflow_dispatch''))
          (relative @ '' must be opt-in workflow_dispatch only''),
        permission_check (relative @ '' must default to read-only permissions'')
          (\<lambda>n a. relative @ '' permission '' @ n @ '' must be '' @ a) want (wfPermissions flow),
        (case map_of (wfJobs flow) ''canary'' of
           None \<Rightarrow> Some (EText (relative @ '' must have one protected-main environment canary job''))
         | Some job \<Rightarrow> first_error
            [require (length (wfJobs flow) = 1 \<and> jbIf job = (''github.ref == '' @ [CHR 0x27] @ ''refs/heads/main'' @ [CHR 0x27]) \<and>
                jbEnvironment job = ''production-canary'')
               (relative @ '' must have one protected-main environment canary job''),
             permission_check (relative @ '' canary job must retain read-only permissions'')
               (\<lambda>n a. relative @ '' canary job permission '' @ n @ '' must be '' @ a) want (jbPermissions job),
             require (\<not> contains (canary_lane (jbSteps job)) ''inputs.base_url'' \<and>
                \<not> contains (canary_lane (jbSteps job)) ''inputs.provider_url'')
               (relative @ '' must not route a protected provider token to dispatch-controlled URLs''),
             must_include (\<lambda>w. relative @ '' must include '' @ quoted w) (canary_lane (jbSteps job)) canary_steps])])))"

section \<open>Rollback compatibility\<close>

definition checkRollbackCompatibility :: "ci_libs \<Rightarrow> ci_repo \<Rightarrow> error option" where
  "checkRollbackCompatibility L r =
     or_error (readFile r ''internal/store/store.go'') (\<lambda>store.
     case after_text (''const schema = '' @ [CHR 0x60]) store of
       None \<Rightarrow> Some (EText ''store schema marker is missing'')
     | Some rest \<Rightarrow>
         (case before_text [CHR 0x60] rest of
            None \<Rightarrow> Some (EText ''store schema terminator is missing'')
          | Some schema \<Rightarrow>
              or_error (readFile r ''docs/rollback-compatibility.json'') (\<lambda>data.
              or_error (or_json L ''decode rollback compatibility policy: '' data (decode_rollback data)) (\<lambda>policy. first_error
                [require (rpSchemaSHA256 policy = sha256Hex L schema)
                   (''rollback compatibility policy does not cover current schema: got '' @ quoted (rpSchemaSHA256 policy) @
                    '' want '' @ quoted (sha256Hex L schema)),
                 require (rpMode policy = ''backward-compatible-additive'' \<or> rpMode policy = ''manual-forward-only'')
                   (''rollback compatibility mode '' @ quoted (rpMode policy) @ '' is not recognized''),
                 require (80 \<le> length (trim_space (rpRationale policy)))
                   ''rollback compatibility rationale must explain the migration and rollback consequence'',
                 or_error (readFile r ''scripts/deploy-passed-main.sh'') (\<lambda>deployer.
                   require (contains deployer ''docs/rollback-compatibility.json'' \<and>
                       contains deployer ''backward-compatible-additive'')
                     ''deployer must gate automatic promotion on rollback compatibility mode'')]))))"

section \<open>The qualification lanes\<close>

definition dispatch_group :: string where
  "dispatch_group = (''${{ github.workflow }}-${{ github.ref }}-${{ github.event_name }}-${{ inputs.expected_sha || '' @ [CHR 0x27] @ [CHR 0x27] @ '' }}'')"

definition dispatch_guards :: "string list" where
  "dispatch_guards =
    [''[[ \"${GITHUB_REF}\" == '' @ [CHR 0x27] @ ''refs/heads/main'' @ [CHR 0x27] @ '' ]]'',
     ''[[ \"${EXPECTED_SHA}\" =~ ^[0-9a-f]{40}$ ]]'',
     ''[[ \"${GITHUB_SHA}\" == \"${EXPECTED_SHA}\" ]]'']"

definition checkCIDispatchContract :: "workflow \<Rightarrow> workflow_job \<Rightarrow> error option" where
  "checkCIDispatchContract flow preflight =
     (case map_of (wfOn flow) ''workflow_dispatch'' of
        Some (YMap dispatch) \<Rightarrow>
          (case map_of dispatch ''inputs'' of
             Some (YMap inputs) \<Rightarrow>
               if length inputs \<noteq> 1
               then Some (EText ''CI workflow_dispatch must define only expected_sha'')
               else (case map_of inputs ''expected_sha'' of
                   Some (YMap expected) \<Rightarrow> first_error
                    [require (map_of expected ''required'' = Some (YBool True) \<and> map_of expected ''type'' = Some (YStr ''string''))
                       ''CI workflow_dispatch expected_sha must be a required string'',
                     require (wfGroup flow = dispatch_group \<and> wfCancelInProgress flow)
                       ''CI concurrency must isolate pushes from exact-SHA dispatches while cancelling duplicates'',
                     (case jbSteps preflight of
                        [] \<Rightarrow> Some (EText ''CI preflight must verify the dispatched protected-main revision as its first step'')
                      | step # _ \<Rightarrow> first_error
                         [require (stName step = ''Verify dispatched protected-main revision'')
                            ''CI preflight must verify the dispatched protected-main revision as its first step'',
                          require (stIf step = (''github.event_name == '' @ [CHR 0x27] @ ''workflow_dispatch'' @ [CHR 0x27]) \<and> length (stEnv step) = 1 \<and>
                             entry (stEnv step) ''EXPECTED_SHA'' = ''${{ inputs.expected_sha }}'')
                            ''CI dispatch verification step must be isolated to workflow_dispatch and bind expected_sha'',
                          must_include (\<lambda>w. ''CI dispatch verification step must include '' @ quoted w) (stRun step)
                            dispatch_guards])]
                 | _ \<Rightarrow> Some (EText ''CI workflow_dispatch expected_sha must be a required string''))
           | _ \<Rightarrow> Some (EText ''CI workflow_dispatch must define only expected_sha''))
      | _ \<Rightarrow> Some (EText ''CI workflow_dispatch must define the exact-SHA input contract''))"

definition source_lane :: "string list" where
  "source_lane =
    [''go tool actionlint'',
     ''go tool staticcheck'',
     ''go tool govulncheck'',
     ''go test -race -covermode=atomic'',
     ''scripts/check-coverage.py'',
     ''scripts/high-risk-review.py'',
     ''scripts/test-high-risk-review.py'',
     ''github.event.before'',
     ''scripts/test-deployer-policy.sh'',
     ''scripts/test-deployer-transition-recovery.sh'',
     ''scripts/test-fuzz.sh'',
     ''TestProviderProcessConformance'',
     ''npm run lint'',
     ''npm test'',
     ''npm audit --audit-level=high'']"

definition image_lane :: "string list" where
  "image_lane =
    [''docker buildx build --check'',
     ''scripts/test-container-hardening.sh'',
     ''scripts/test-postgres-integration.sh'',
     ''scripts/test-local-recovery.sh'',
     ''scripts/run-security-scans.sh'',
     ''docker save thornhill:ci'',
     ''docker save thornhill-postgres:ci'',
     ''thornhill-images-${{ github.sha }}'',
     ''actions/upload-artifact@'']"

definition lane_job :: "workflow \<Rightarrow> string \<Rightarrow> (workflow_job \<Rightarrow> bool) \<Rightarrow> string \<Rightarrow> (workflow_job \<Rightarrow> error option) \<Rightarrow> error option" where
  "lane_job flow name ok msg k =
     (case map_of (wfJobs flow) name of None \<Rightarrow> Some (EText msg) | Some j \<Rightarrow> if ok j then k j else Some (EText msg))"

definition checkQualificationLanes :: "ci_libs \<Rightarrow> workflow \<Rightarrow> string \<Rightarrow> error option" where
  "checkQualificationLanes L flow required = first_error
     [lane_job flow ''preflight'' (\<lambda>_. True) ''CI must include history and policy preflight'' (\<lambda>preflight. first_error
       [checkCIDispatchContract flow preflight,
        requireLaneSteps L ''CI preflight'' preflight [''gitleaks/gitleaks-action@'',
  ''scripts/check-ci-policy.sh'']]),
      lane_job flow ''source'' (\<lambda>j. needs j ''preflight'') ''CI source qualification lane must depend on preflight''
        (\<lambda>j. requireLaneSteps L ''CI source qualification lane'' j source_lane),
      lane_job flow ''image'' (\<lambda>j. needs j ''preflight'') ''CI image qualification lane must depend on preflight''
        (\<lambda>j. requireLaneSteps L ''CI image qualification lane'' j image_lane),
      lane_job flow ''verify'' (\<lambda>j. jbName j = required) (''CI verify job must retain required check name '' @ quoted required)
        (\<lambda>verify. first_error
          [require (contains (jbIf verify) ''always()'' \<and> needs verify ''source'' \<and> needs verify ''image'')
             ''CI verify job must fail closed after source and image qualification lanes'',
           require (case jbSteps verify of [step] \<Rightarrow> contains (stRun step) ''needs.source.result'' \<and>
               contains (stRun step) ''needs.image.result'' | _ \<Rightarrow> False)
             ''CI verify job must explicitly require source and image success''])]"

section \<open>Dependabot\<close>

definition run_lane :: "workflow_step list \<Rightarrow> string" where
  "run_lane sts = concat (map (\<lambda>st. stRun st @ [line_break]) sts)"

definition approval_steps :: "string list" where
  "approval_steps =
    [''.actor.login'',
     ''.head_repository.full_name'',
     ''.head_branch'',
     ''.head_sha'',
     ''\"${actor}\" != '' @ [CHR 0x27] @ ''dependabot[bot]'' @ [CHR 0x27],
     ''\"${source_repository}\" != \"${REPOSITORY}\"'',
     ''\"${head_branch}\" != dependabot/*'',
     ''.user.login == \"dependabot[bot]\"'',
     ''.head.repo.full_name == .base.repo.full_name'',
     ''.base.ref == \"main\"'',
     ''.head.sha == $sha'',
     ''repos/${REPOSITORY}/pulls/${pull_request}/reviews'',
     ''-f event=APPROVE'',
     ''-f \"commit_id=${head_sha}\"'']"

definition checkDependabotApproval :: "ci_libs \<Rightarrow> ci_repo \<Rightarrow> error option" where
  "checkDependabotApproval L r =
     (let relative = ''.github/workflows/dependabot-auto-approve.yml'' in
      or_error (readFile r relative) (\<lambda>text. first_error
       [require (\<not> contains text ''secrets.'' \<and> \<not> contains text ''actions/checkout@'' \<and> \<not> contains text ''pull_request_target'')
          (relative @ '' must not access secrets, check out code, or use pull_request_target''),
        or_error (decoding relative (yamlWorkflow L text)) (\<lambda>flow. first_error
         [require (length (wfOn flow) = 1 \<and> \<not> empty_or_missing (map_of (wfOn flow) ''workflow_run''))
            (relative @ '' must trigger only from workflow_run''),
          permission_check (relative @ '' must have exactly the documented approval permissions'')
            (\<lambda>n a. relative @ '' permission '' @ n @ '' must be '' @ a)
            [(''actions'', ''read''), (''contents'', ''read''), (''pull-requests'', ''write'')] (wfPermissions flow),
          (case map_of (wfJobs flow) ''approve'' of
             None \<Rightarrow> Some (EText (relative @ '' must contain only the success-gated approval job without permission overrides''))
           | Some approve \<Rightarrow> first_error
              [require (length (wfJobs flow) = 1 \<and> jbIf approve = (''github.event.workflow_run.conclusion == '' @ [CHR 0x27] @ ''success'' @ [CHR 0x27]) \<and>
                  jbPermissions approve = [])
                 (relative @ '' must contain only the success-gated approval job without permission overrides''),
               require (list_all (\<lambda>st. stUses st = '''') (jbSteps approve))
                 (relative @ '' approval job must not run external actions''),
               must_include (\<lambda>w. relative @ '' approval lane must include '' @ quoted w) (run_lane (jbSteps approve))
                 approval_steps])])]))"

definition merge_endpoint :: string where
  "merge_endpoint = ''repos/${REPOSITORY}/pulls/${pull_request}/merge''"

definition dispatch_endpoint :: string where
  "dispatch_endpoint = ''repos/${REPOSITORY}/actions/workflows/ci.yml/dispatches''"

definition merge_forbidden :: "string list" where
  "merge_forbidden =
    [''gh api -X'',
     ''gh api --method='',
     ''gh pr merge'',
     ''gh workflow run'',
     ''curl '',
     ''wget '']"

definition merge_steps :: "string list" where
  "merge_steps =
    [''.actor.login'',
     ''.head_repository.full_name'',
     ''.head_branch'',
     ''.head_sha'',
     ''\"${actor}\" != '' @ [CHR 0x27] @ ''dependabot[bot]'' @ [CHR 0x27],
     ''\"${source_repository}\" != \"${REPOSITORY}\"'',
     ''\"${head_branch}\" != dependabot/*'',
     ''.user.login == \"dependabot[bot]\"'',
     ''.head.repo.full_name == .base.repo.full_name'',
     ''.base.repo.full_name == $repository'',
     ''.base.ref == \"main\"'',
     ''.head.ref == $branch'',
     ''.head.sha == $sha'',
     ''.pull_requests[0].number'',
     ''-f state=all'',
     ''.merge_commit_sha'',
     ''gh run list --repo'',
     ''.status == \"queued\"'',
     ''.status == \"in_progress\"'',
     ''.conclusion == \"success\"'',
     ''repos/${REPOSITORY}/pulls/${pull_request}/merge'',
     ''-f \"sha=${head_sha}\"'',
     ''-f merge_method=squash'',
     ''.merged == true'',
     ''repos/${REPOSITORY}/git/ref/heads/main'',
     ''\"${main_sha}\" == \"${landed_sha}\"'',
     [CHR 0x27] @ ''{ref:\"main\", inputs:{expected_sha:$expected_sha}}'' @ [CHR 0x27],
     ''X-GitHub-Api-Version: 2026-03-10'',
     ''repos/${REPOSITORY}/actions/workflows/ci.yml/dispatches'',
     ''.workflow_run_id'',
     ''repos/${REPOSITORY}/actions/runs/${dispatch_run_id}'',
     ''\"${dispatch_event}\" != '' @ [CHR 0x27] @ ''workflow_dispatch'' @ [CHR 0x27],
     ''\"${dispatch_branch}\" != '' @ [CHR 0x27] @ ''main'' @ [CHR 0x27],
     ''\"${dispatch_sha}\" != \"${landed_sha}\"'',
     ''repos/${REPOSITORY}/actions/runs/${dispatch_run_id}/cancel'']"

text \<open>The pieces of the regular expression \<open>boundMerge\<close>, between which it has \<open>\s+\<close>.\<close>

definition bound_merge :: "string list" where
  "bound_merge =
    [(''if merge_response=$(gh api --method PUT \"repos/${REPOSITORY}/pulls/${pull_request}/merge\" '' @ [CHR 0x5C]) @ [line_break],
     (''-f \"sha=${head_sha}\" '' @ [CHR 0x5C]) @ [line_break],
     ''-f merge_method=squash) &&'']"

definition merge_lane_rules :: "string \<Rightarrow> string \<Rightarrow> error option" where
  "merge_lane_rules relative lane = first_error
     [require (count_text lane merge_endpoint = 1 \<and> count_text lane dispatch_endpoint = 1)
        (relative @ '' must contain exactly one SHA-bound merge and one exact-main CI dispatch''),
      require (count_text lane ''gh api --method PUT'' = 1 \<and> count_text lane ''gh api --method POST'' = 3)
        (relative @ '' must contain only the one merge mutation and three documented Actions mutations''),
      first_error (map (\<lambda>f. require (\<not> contains lane f)
        (relative @ '' must not use an alternate network mutation form '' @ quoted f)) merge_forbidden),
      first_error (map (\<lambda>line. first_error
        [require (\<not> (contains line ''/pulls/'' \<and> contains line ''/merge'' \<and> \<not> contains line merge_endpoint))
           (relative @ '' contains an unrecognized pull-request merge endpoint''),
         require (\<not> (contains line ''/actions/workflows/'' \<and> contains line ''/dispatches'' \<and>
             \<not> contains line dispatch_endpoint))
           (relative @ '' contains an unrecognized workflow dispatch endpoint'')]) (split_on line_break lane)),
      require (re_match bound_merge lane)
        (relative @ '' merge call must bind the qualified SHA and squash method in one command''),
      must_include (\<lambda>w. relative @ '' merge lane must include '' @ quoted w) lane merge_steps]"

definition checkDependabotMerge :: "ci_libs \<Rightarrow> ci_repo \<Rightarrow> error option" where
  "checkDependabotMerge L r =
     (let relative = ''.github/workflows/dependabot-auto-merge.yml'' in
      or_error (readFile r relative) (\<lambda>text. first_error
       [require (\<not> contains text ''secrets.'' \<and> \<not> contains text ''actions/checkout@'' \<and> \<not> contains text ''pull_request_target'')
          (relative @ '' must not access secrets, check out code, or use pull_request_target''),
        or_error (decoding relative (yamlWorkflow L text)) (\<lambda>flow. first_error
         [require (length (wfOn flow) = 1 \<and> \<not> empty_or_missing (map_of (wfOn flow) ''workflow_run''))
            (relative @ '' must trigger only from workflow_run''),
          permission_check (relative @ '' must default to exactly the documented read-only permissions'')
            (\<lambda>n a. relative @ '' default permission '' @ n @ '' must be '' @ a)
            [(''actions'', ''read''), (''contents'', ''read'')] (wfPermissions flow),
          (case map_of (wfJobs flow) ''merge'' of
             None \<Rightarrow> Some (EText (relative @ '' must contain only the success-gated merge job''))
           | Some merge \<Rightarrow> first_error
              [require (length (wfJobs flow) = 1 \<and> jbIf merge = (''github.event.workflow_run.conclusion == '' @ [CHR 0x27] @ ''success'' @ [CHR 0x27]))
                 (relative @ '' must contain only the success-gated merge job''),
               permission_check (relative @ '' merge job must hold exactly the documented narrow permissions'')
                 (\<lambda>n a. relative @ '' merge job permission '' @ n @ '' must be '' @ a)
                 [(''contents'', ''write''), (''pull-requests'', ''write''), (''actions'', ''write'')] (jbPermissions merge),
               require (list_all (\<lambda>st. stUses st = '''') (jbSteps merge))
                 (relative @ '' merge job must not run external actions''),
               merge_lane_rules relative (run_lane (jbSteps merge))])])]))"

definition dependabot_wanted :: "string list" where
  "dependabot_wanted =
    [''github-actions|/'', ''gomod|/'', ''npm|/web'', ''docker|/'', ''docker-compose|/'', ''docker-compose|/.github/scanners'']"

definition checkDependabot :: "ci_libs \<Rightarrow> ci_repo \<Rightarrow> error option" where
  "checkDependabot L r =
     or_error (readFile r ''.github/dependabot.yml'') (\<lambda>data.
     or_error (decoding ''Dependabot config'' (yamlDependabot L data)) (\<lambda>updates.
       let key = (\<lambda>u. duEcosystem u @ ''|'' @ duDirectory u) in
       first_error
        [first_error (map (\<lambda>u. require (\<not> (key u = ''docker-compose|/.github/scanners'' \<and> duGroups u = []))
           ''dependabot scanner-image entry must group scanner and embedded-rule updates'') updates),
         first_error (map (\<lambda>k. require (k \<in> set (map key updates)) (''dependabot must cover '' @ k)) dependabot_wanted)]))"

section \<open>Scorecard, pinned actions, pinned images\<close>

text \<open>The triggers of a workflow, sorted and joined as the code compares them.\<close>

definition triggers :: "workflow \<Rightarrow> string" where
  "triggers flow = join '','' (sort (map fst (wfOn flow)))"

definition list_text :: "string list \<Rightarrow> string" where
  "list_text xs = ''['' @ join '' '' xs @ '']''"

definition checkScorecard :: "ci_libs \<Rightarrow> ci_repo \<Rightarrow> error option" where
  "checkScorecard L r =
     (let relative = ''.github/workflows/scorecard.yml'' in
      or_error (readFile r relative) (\<lambda>text. first_error
       [require (\<not> contains text ''secrets.'' \<and> \<not> contains text ''pull_request_target'')
          (relative @ '' must not access secrets or use pull_request_target''),
        require (contains text ''publish_results: false'') (relative @ '' must explicitly disable result publication''),
        or_error (decoding relative (yamlWorkflow L text)) (\<lambda>flow. first_error
         [require (triggers flow = ''push,schedule,workflow_dispatch'')
            (relative @ '' triggers = '' @ list_text (sort (map fst (wfOn flow))) @ '', want [push schedule workflow_dispatch]''),
          require (length (wfPermissions flow) = 1 \<and> entry (wfPermissions flow) ''contents'' = ''read'')
            (relative @ '' must default to exactly contents: read''),
          (case map_of (wfJobs flow) ''analyze'' of
             None \<Rightarrow> Some (EText (relative @ '' must contain only the analysis job''))
           | Some analyze \<Rightarrow> first_error
              [require (length (wfJobs flow) = 1) (relative @ '' must contain only the analysis job''),
               permission_check (relative @ '' analysis job must hold exactly the documented narrow permissions'')
                 (\<lambda>n a. relative @ '' analysis job permission '' @ n @ '' must be '' @ a)
                 [(''security-events'', ''write''), (''actions'', ''read''), (''contents'', ''read'')] (jbPermissions analyze)])])]))"

definition step_pinned :: "workflow_step \<Rightarrow> bool" where
  "step_pinned st \<longleftrightarrow> stUses st = '''' \<or> pinnedActionSHA (stUses st) \<noteq> None"

definition pinned_workflow :: "ci_libs \<Rightarrow> ci_repo \<Rightarrow> string \<Rightarrow> error option" where
  "pinned_workflow L r path =
     or_error (readFile r path) (\<lambda>data.
     or_error (decoding (absPath r path) (yamlWorkflow L data)) (\<lambda>flow.
       first_error (map (\<lambda>(job, j). first_error (map (\<lambda>st. require (step_pinned st)
         (path @ '' job '' @ job @ '' uses unpinned action '' @ quoted (stUses st))) (jbSteps j))) (wfJobs flow))))"

definition checkPinnedWorkflowActions :: "ci_libs \<Rightarrow> ci_repo \<Rightarrow> error option" where
  "checkPinnedWorkflowActions L r =
     or_error (workflowPaths r) (\<lambda>paths.
       first_error (require (paths \<noteq> []) (''no workflows found at '' @ absPath r ''.github/workflows/*.yml'') #
         map (pinned_workflow L r) (sort paths)))"

text \<open>
  A line that starts with \<open>FROM\<close> and a blank after trimming has a second field: the missing case is the index panic
  that cannot happen.
\<close>

definition image_pinned :: "string \<Rightarrow> bool" where
  "image_pinned line \<longleftrightarrow>
     \<not> (has_prefix line ''FROM '' \<and> \<not> (case Text.fields line of _ # img # _ \<Rightarrow> contains img ''@sha256:'' | _ \<Rightarrow> False))"

definition checkPinnedImages :: "ci_libs \<Rightarrow> ci_repo \<Rightarrow> error option" where
  "checkPinnedImages L r = first_error
     [first_error (map (\<lambda>relative. or_error (readFile r relative) (\<lambda>data.
        first_error (map (\<lambda>line. require (image_pinned (trim_space line))
          (relative @ '' contains an unpinned base image: '' @ trim_space line)) (split_on line_break data))))
        [''Dockerfile'',
         ''Dockerfile.postgres'']),
      or_error (readFile r ''.github/scanners/compose.yml'') (\<lambda>data.
      or_error (decoding ''scanner Compose model'' (yamlCompose L data)) (\<lambda>services.
        first_error (map (\<lambda>name. require (case map_of services name of None \<Rightarrow> False | Some img \<Rightarrow> contains img ''@sha256:'')
          (''scanner '' @ name @ '' must use a tag plus immutable manifest digest'')) [''hadolint'',
  ''shellcheck'',
  ''trivy''])))]"

section \<open>Everything\<close>

definition branch_rules :: "protection \<Rightarrow> error option" where
  "branch_rules p = first_error
     [require (Contexts p = [requiredCheck]) (''branch protection must require exactly '' @ quoted requiredCheck),
      require (Strict p \<and> EnforceAdmins p \<and> RequiredLinearHistory p \<and> \<not> AllowForcePushes p \<and> \<not> AllowDeletions p \<and>
          RequiredConversationResolution p)
        ''branch protection safety invariants are incomplete'',
      require (case Reviews p of None \<Rightarrow> False | Some rv \<Rightarrow> DismissStaleReviews rv \<and> \<not> RequireCodeOwnerReviews rv \<and>
          RequiredApprovingReviewCount rv = 0)
        ''branch protection must require pull requests with stale-review dismissal and the documented solo-maintainer review policy'']"

definition secretlessWorkflows :: "(string \<times> string list) list" where
  "secretlessWorkflows =
    [(''.github/workflows/ci.yml'', [''pull_request'', ''push'', ''workflow_dispatch'']),
     (''.github/workflows/fuzz.yml'', [''schedule'', ''workflow_dispatch''])]"

definition secretless_permissions :: "string \<Rightarrow> (string \<times> string) list" where
  "secretless_permissions relative =
     (''contents'', ''read'') # (if relative = ''.github/workflows/ci.yml'' then [(''pull-requests'', ''read'')] else [])"

definition secretless_rules :: "ci_libs \<Rightarrow> ci_repo \<Rightarrow> string \<times> string list \<Rightarrow> error option" where
  "secretless_rules L r = (\<lambda>(relative, want).
     or_error (readFile r relative) (\<lambda>data. first_error
      [require (\<not> contains data ''secrets.'') (relative @ '' references secrets''),
       or_error (decoding relative (yamlWorkflow L data)) (\<lambda>flow. first_error
        [require (exact_entries (secretless_permissions relative) (wfPermissions flow))
           (relative @ '' must have exactly the documented read-only permissions''),
         first_error (map (\<lambda>(job, j). require (jbPermissions j = [])
           (relative @ '' job '' @ job @ '' overrides permissions'')) (wfJobs flow)),
         require (triggers flow = join '','' (sort want)) (relative @ '' triggers = '' @ list_text (sort (map fst (wfOn flow))) @ '', want '' @ list_text (sort want)),
         (if relative = ''.github/workflows/ci.yml'' then checkQualificationLanes L flow requiredCheck else None)])]))"

definition Check :: "ci_libs \<Rightarrow> ci_repo \<Rightarrow> error option" where
  "Check L r =
     or_error (readFile r ''.github/branch-protection.json'') (\<lambda>data.
     or_error (or_json L ''decode branch protection: '' data (decode_protection data)) (\<lambda>policy. first_error
      [branch_rules policy,
       first_error (map (secretless_rules L r) secretlessWorkflows),
       checkDependabot L r,
       checkDependabotApproval L r,
       checkDependabotMerge L r,
       checkPinnedWorkflowActions L r,
       checkScorecard L r,
       checkTrustedImagePublisher L r,
       checkLocalReleaseBundle r,
       checkProtectedCanary L r,
       checkPinnedImages L r,
       checkRollbackCompatibility L r]))"

end
