(* ===== verification/Ci_Laws.thy ===== *)
theory Ci_Laws
  imports Ci_Checks Ascii_Laws
begin

text \<open>What the policy checker guarantees of a repository it accepts.\<close>

section \<open>Pins\<close>

lemma cut_first: "dropWhile (\<lambda>c. c \<noteq> d) s = e # t \<Longrightarrow> \<exists>a. s = a @ d # t \<and> d \<notin> set a"
proof (induction s)
  case (Cons c s)
  show ?case
  proof (cases "c = d")
    case True
    then show ?thesis using Cons.prems by (auto intro: exI [of _ "[]"])
  next
    case False
    then obtain a where "s = a @ d # t" "d \<notin> set a" using Cons by auto
    then show ?thesis using False by (auto intro!: exI [of _ "c # a"])
  qed
qed simp

lemma drop_first: "d \<notin> set a \<Longrightarrow> dropWhile (\<lambda>c. c \<noteq> d) (a @ d # t) = d # t"
  by (induction a) auto

definition is_pin :: "string \<Rightarrow> string \<Rightarrow> bool" where
  "is_pin uses ref \<longleftrightarrow> (\<exists>action. uses = action @ CHR ''@'' # ref \<and> CHR ''@'' \<notin> set action) \<and>
     length ref = 40 \<and> list_all hex_lower ref"

lemma pinned_iff: "pinnedActionSHA uses = Some ref \<longleftrightarrow> is_pin uses ref"
proof
  assume "pinnedActionSHA uses = Some ref"
  then show "is_pin uses ref"
    by (auto simp: pinnedActionSHA_def is_pin_def split: list.splits if_splits dest: cut_first)
next
  assume "is_pin uses ref"
  then show "pinnedActionSHA uses = Some ref" by (auto simp: is_pin_def pinnedActionSHA_def drop_first)
qed

definition step_ok :: "workflow_step \<Rightarrow> bool" where
  "step_ok st \<longleftrightarrow> stUses st = '''' \<or> (\<exists>ref. is_pin (stUses st) ref)"

lemma step_pinned_ok: "step_pinned st = step_ok st"
  using pinned_iff [of "stUses st"] by (cases "pinnedActionSHA (stUses st)") (auto simp: step_pinned_def step_ok_def)

definition all_steps :: "workflow \<Rightarrow> workflow_step set" where
  "all_steps flow = (\<Union>(n, j)\<in>set (wfJobs flow). set (jbSteps j))"

lemma pinned_workflow_None:
  "pinned_workflow L r path = None \<longleftrightarrow>
     (\<exists>data flow. readFile r path = Inr data \<and> yamlWorkflow L data = Inr flow \<and> (\<forall>st\<in>all_steps flow. step_ok st))"
  by (fastforce simp: pinned_workflow_def or_error_None decoding_Inr first_error_None step_pinned_ok all_steps_def)

text \<open>
  Every workflow can be read and decoded, and every \<open>uses:\<close> of every step of every job names its action by a full
  commit: a name without @, one @, and forty lower-case hexadecimal digits.  The action check says exactly that.
\<close>

definition all_pinned :: "ci_libs \<Rightarrow> ci_repo \<Rightarrow> bool" where
  "all_pinned L r \<longleftrightarrow>
     (\<exists>paths. workflowPaths r = Inr paths \<and> paths \<noteq> [] \<and>
        (\<forall>path\<in>set paths. \<exists>data flow. readFile r path = Inr data \<and> yamlWorkflow L data = Inr flow \<and>
           (\<forall>st\<in>all_steps flow. step_ok st)))"

lemma actions_pinned_exact: "checkPinnedWorkflowActions L r = None \<longleftrightarrow> all_pinned L r"
  by (auto simp: checkPinnedWorkflowActions_def all_pinned_def or_error_None first_error_None pinned_workflow_None)

section \<open>Authority\<close>

lemma entries_exact:
  assumes "exact_entries want got" and "distinct (map fst got)" and "distinct (map fst want)"
    and "\<forall>(n, a)\<in>set want. a \<noteq> ''''"
  shows "set got = set want"
proof -
  have "set want \<subseteq> set got"
  proof
    fix p assume p: "p \<in> set want"
    obtain n a where na: "p = (n, a)" by (cases p)
    have "entry got n = a" "a \<noteq> ''''" using assms(1,4) p by (auto simp: exact_entries_def list_all_iff na)
    then have "map_of got n = Some a" by (auto simp: entry_def split: option.splits)
    then show "p \<in> set got" by (simp add: map_of_SomeD na)
  qed
  moreover have "card (set got) = card (set want)"
  proof -
    have "distinct got" "distinct want" using assms(2,3) by (auto simp: distinct_map)
    then show ?thesis using assms(1) by (simp add: distinct_card exact_entries_def)
  qed
  ultimately show ?thesis by (metis List.finite_set card_subset_eq)
qed

lemma one_entry: "length m = 1 \<Longrightarrow> map_of m k = Some v \<Longrightarrow> m = [(k, v)]"
  by (cases m) (auto split: if_splits)

text \<open>A decoded map has every key once.\<close>

definition go_maps :: "workflow \<Rightarrow> bool" where
  "go_maps flow \<longleftrightarrow> distinct (map fst (wfPermissions flow)) \<and>
     (\<forall>(n, j)\<in>set (wfJobs flow). distinct (map fst (jbPermissions j)))"

definition workflow_at :: "ci_libs \<Rightarrow> ci_repo \<Rightarrow> string \<Rightarrow> string \<Rightarrow> workflow \<Rightarrow> bool" where
  "workflow_at L r path text flow \<longleftrightarrow> readFile r path = Inr text \<and> yamlWorkflow L text = Inr flow"

text \<open>The contributor-triggered workflows: no secret, read access only, and no job that asks for more.\<close>

definition secretless :: "ci_libs \<Rightarrow> ci_repo \<Rightarrow> bool" where
  "secretless L r \<longleftrightarrow> (\<forall>(path, want)\<in>set secretlessWorkflows. \<exists>text flow. workflow_at L r path text flow \<and>
     \<not> contains text ''secrets.'' \<and> set (wfPermissions flow) = set (secretless_permissions path) \<and>
     (\<forall>(n, j)\<in>set (wfJobs flow). jbPermissions j = []) \<and>
     ((\<forall>t\<in>fst ` set (wfOn flow). CHR '','' \<notin> set t) \<longrightarrow> fst ` set (wfOn flow) = set want))"

text \<open>The one workflow that can write to the protected branch.\<close>

definition merge_confined :: "ci_libs \<Rightarrow> ci_repo \<Rightarrow> bool" where
  "merge_confined L r \<longleftrightarrow> (\<exists>text flow merge.
     workflow_at L r ''.github/workflows/dependabot-auto-merge.yml'' text flow \<and>
     wfJobs flow = [(''merge'', merge)] \<and> map fst (wfOn flow) = [''workflow_run''] \<and>
     set (wfPermissions flow) = {(''actions'', ''read''), (''contents'', ''read'')} \<and>
     set (jbPermissions merge) = {(''contents'', ''write''), (''pull-requests'', ''write''), (''actions'', ''write'')} \<and>
     (\<forall>st\<in>set (jbSteps merge). stUses st = '''') \<and>
     count_text (run_lane (jbSteps merge)) merge_endpoint = 1 \<and> re_match bound_merge (run_lane (jbSteps merge)))"

text \<open>The required check runs whatever happened before it, after both lanes, which come after the preflight.\<close>

definition fail_closed :: "ci_libs \<Rightarrow> ci_repo \<Rightarrow> bool" where
  "fail_closed L r \<longleftrightarrow> (\<exists>text flow verify source img step.
     workflow_at L r ''.github/workflows/ci.yml'' text flow \<and>
     map_of (wfJobs flow) ''verify'' = Some verify \<and> jbName verify = requiredCheck \<and> contains (jbIf verify) ''always()'' \<and>
     needs verify ''source'' \<and> needs verify ''image'' \<and> jbSteps verify = [step] \<and>
     contains (stRun step) ''needs.source.result'' \<and> contains (stRun step) ''needs.image.result'' \<and>
     map_of (wfJobs flow) ''source'' = Some source \<and> needs source ''preflight'' \<and>
     map_of (wfJobs flow) ''image'' = Some img \<and> needs img ''preflight'')"

definition schema_covered :: "ci_libs \<Rightarrow> ci_repo \<Rightarrow> bool" where
  "schema_covered L r \<longleftrightarrow> (\<exists>store rest schema data policy.
     readFile r ''internal/store/store.go'' = Inr store \<and> after_text (''const schema = '' @ [CHR 0x60]) store = Some rest \<and>
     before_text [CHR 0x60] rest = Some schema \<and> readFile r ''docs/rollback-compatibility.json'' = Inr data \<and>
     decode_rollback data = Some policy \<and> rpSchemaSHA256 policy = sha256Hex L schema)"

lemma secretless_want:
  assumes "(path, want) \<in> set secretlessWorkflows"
  shows "want \<noteq> [] \<and> '''' \<notin> set want \<and> (\<forall>t\<in>set want. CHR '','' \<notin> set t) \<and> distinct (map fst (secretless_permissions path)) \<and>
    (\<forall>(n, a)\<in>set (secretless_permissions path). a \<noteq> '''')"
  using assms by (auto simp: secretlessWorkflows_def secretless_permissions_def)

lemma same_triggers:
  assumes "triggers flow = join '','' (sort want)" and "want \<noteq> []" "'''' \<notin> set want" "\<forall>t\<in>set want. CHR '','' \<notin> set t"
    and "\<forall>t\<in>fst ` set (wfOn flow). CHR '','' \<notin> set t"
  shows "fst ` set (wfOn flow) = set want"
proof -
  let ?got = "sort (map fst (wfOn flow))"
  have w: "split_on CHR '','' (join '','' (sort want)) = sort want"
    using assms(2,4) by (intro split_join) (auto dest: arg_cong [of _ _ length])
  have "?got \<noteq> []"
  proof
    assume "?got = []"
    then have "split_on CHR '','' (triggers flow) = ['''']" by (simp add: triggers_def)
    then have "sort want = ['''']" using w assms(1) by simp
    then have "set want = {''''}" by (metis list.set(1,2) set_sort)
    then show False using assms(3) by simp
  qed
  then have "split_on CHR '','' (triggers flow) = ?got"
    using assms(5) by (auto simp: triggers_def intro!: split_join)
  then have "?got = sort want" using w assms(1) by simp
  then have "set ?got = set (sort want)" by simp
  then show ?thesis by simp
qed

definition decodes_maps :: "ci_libs \<Rightarrow> bool" where
  "decodes_maps L \<longleftrightarrow> (\<forall>text flow. yamlWorkflow L text = Inr flow \<longrightarrow> go_maps flow)"

lemma secretless_sound:
  assumes m: "decodes_maps L" and e: "first_error (map (secretless_rules L r) secretlessWorkflows) = None"
  shows "secretless L r"
  unfolding secretless_def
proof (clarify)
  fix path want assume pw: "(path, want) \<in> set secretlessWorkflows"
  note w = secretless_want [OF pw]
  have "secretless_rules L r (path, want) = None" using e pw by (auto simp: first_error_None)
  then obtain body flow where f: "workflow_at L r path body flow" "\<not> contains body ''secrets.''"
      "exact_entries (secretless_permissions path) (wfPermissions flow)"
      "\<forall>(n, j)\<in>set (wfJobs flow). jbPermissions j = []" "triggers flow = join '','' (sort want)"
    by (auto simp: secretless_rules_def or_error_None decoding_Inr first_error_None workflow_at_def split_beta)
  have "go_maps flow" using m f(1) by (auto simp: decodes_maps_def workflow_at_def)
  then have "set (wfPermissions flow) = set (secretless_permissions path)"
    using entries_exact [OF f(3)] w by (simp add: go_maps_def)
  then show "\<exists>text flow. workflow_at L r path text flow \<and>
     \<not> contains text ''secrets.'' \<and> set (wfPermissions flow) = set (secretless_permissions path) \<and>
     (\<forall>(n, j)\<in>set (wfJobs flow). jbPermissions j = []) \<and>
     ((\<forall>t\<in>fst ` set (wfOn flow). CHR '','' \<notin> set t) \<longrightarrow> fst ` set (wfOn flow) = set want)"
    using f same_triggers [OF f(5)] w by blast
qed

lemma one_trigger: "length m = 1 \<Longrightarrow> \<not> empty_or_missing (map_of m k) \<Longrightarrow> map fst m = [k]"
  by (cases m) (auto simp: empty_or_missing_def split: if_splits)

lemma merge_lane_bound:
  assumes "merge_lane_rules relative lane = None"
  shows "count_text lane merge_endpoint = 1 \<and> re_match bound_merge lane"
proof -
  note parts = assms [unfolded merge_lane_rules_def first_error_None list.set ball_simps require_None]
  show ?thesis using parts by (elim conjE) (intro conjI; assumption)
qed

lemma merge_sound:
  assumes m: "decodes_maps L" and e: "checkDependabotMerge L r = None"
  shows "merge_confined L r"
proof -
  let ?path = "''.github/workflows/dependabot-auto-merge.yml''"
  from e obtain body flow merge where f: "workflow_at L r ?path body flow" "map_of (wfJobs flow) ''merge'' = Some merge"
      "length (wfJobs flow) = 1" "length (wfOn flow) = 1" "\<not> empty_or_missing (map_of (wfOn flow) ''workflow_run'')"
      "exact_entries [(''actions'', ''read''), (''contents'', ''read'')] (wfPermissions flow)"
      "exact_entries [(''contents'', ''write''), (''pull-requests'', ''write''), (''actions'', ''write'')] (jbPermissions merge)"
      "\<forall>st\<in>set (jbSteps merge). stUses st = ''''" "merge_lane_rules ?path (run_lane (jbSteps merge)) = None"
    unfolding checkDependabotMerge_def Let_def
    by (auto simp: or_error_None decoding_Inr first_error_None workflow_at_def list_all_iff split: option.splits)
  have j: "wfJobs flow = [(''merge'', merge)]" by (rule one_entry [OF f(3,2)])
  have "go_maps flow" using m f(1) by (auto simp: decodes_maps_def workflow_at_def)
  then have "set (wfPermissions flow) = {(''actions'', ''read''), (''contents'', ''read'')}"
      "set (jbPermissions merge) = {(''contents'', ''write''), (''pull-requests'', ''write''), (''actions'', ''write'')}"
    using entries_exact [OF f(6)] entries_exact [OF f(7)] by (simp_all add: go_maps_def j)
  moreover have "count_text (run_lane (jbSteps merge)) merge_endpoint = 1 \<and> re_match bound_merge (run_lane (jbSteps merge))"
    using f(9) by (rule merge_lane_bound)
  moreover have "map fst (wfOn flow) = [''workflow_run'']" by (rule one_trigger [OF f(4,5)])
  ultimately show ?thesis unfolding merge_confined_def using f(1,8) j by (intro exI conjI) auto
qed

lemma lane_job_None:
  "lane_job flow name ok msg k = None \<longleftrightarrow> (\<exists>j. map_of (wfJobs flow) name = Some j \<and> ok j \<and> k j = None)"
  by (auto simp: lane_job_def split: option.splits)

lemma fail_closed_sound:
  assumes "first_error (map (secretless_rules L r) secretlessWorkflows) = None"
  shows "fail_closed L r"
proof -
  have "secretless_rules L r (''.github/workflows/ci.yml'', [''pull_request'', ''push'', ''workflow_dispatch'']) = None"
    using assms by (simp add: first_error_None secretlessWorkflows_def)
  then obtain body flow where f: "workflow_at L r ''.github/workflows/ci.yml'' body flow"
      "checkQualificationLanes L flow requiredCheck = None"
    unfolding secretless_rules_def by (auto simp: or_error_None decoding_Inr first_error_None workflow_at_def)
  note q = f(2) [unfolded checkQualificationLanes_def first_error_None list.set ball_simps lane_job_None require_None]
  then obtain source img verify where
      source: "map_of (wfJobs flow) ''source'' = Some source" "needs source ''preflight''"
    and img: "map_of (wfJobs flow) ''image'' = Some img" "needs img ''preflight''"
    and verify: "map_of (wfJobs flow) ''verify'' = Some verify" "jbName verify = requiredCheck"
      "contains (jbIf verify) ''always()''" "needs verify ''source''" "needs verify ''image''"
    and steps: "case jbSteps verify of [step] \<Rightarrow> contains (stRun step) ''needs.source.result'' \<and>
               contains (stRun step) ''needs.image.result'' | _ \<Rightarrow> False"
    by (elim conjE exE) (rule that; assumption)
  from steps obtain step where "jbSteps verify = [step]" "contains (stRun step) ''needs.source.result''"
      "contains (stRun step) ''needs.image.result''" by (auto split: list.splits)
  with f(1) source img verify show ?thesis unfolding fail_closed_def by blast
qed

lemma first_error_member: "first_error es = None \<Longrightarrow> \<forall>e\<in>set es. e = None"
  by (simp add: first_error_None)

lemma option_case_None: "(case m of None \<Rightarrow> Some e | Some x \<Rightarrow> k x) = None \<longleftrightarrow> (\<exists>x. m = Some x \<and> k x = None)"
  by (auto split: option.splits)

lemma schema_sound: "checkRollbackCompatibility L r = None \<Longrightarrow> schema_covered L r"
  unfolding checkRollbackCompatibility_def schema_covered_def or_error_None option_case_None or_json_Inr first_error_None
    list.set ball_simps require_None
  by blast


section \<open>An example\<close>

text \<open>One workflow, whose only step names its action by a tag.\<close>

definition tagged_flow :: workflow where
  "tagged_flow = \<lparr>wfOn = [], wfPermissions = [], wfGroup = '''', wfCancelInProgress = False,
     wfJobs = [(''build'', \<lparr>jbName = '''', jbIf = '''', jbEnvironment = '''', jbNeeds = YNull, jbPermissions = [],
       jbSteps = [\<lparr>stName = '''', stIf = '''', stEnv = [], stWith = [], stUses = ''actions/checkout@v4'', stRun = ''''\<rparr>]\<rparr>)]\<rparr>"

definition demo_libs :: ci_libs where
  "demo_libs = \<lparr>yamlWorkflow = (\<lambda>_. Inr tagged_flow), yamlDependabot = (\<lambda>_. Inr []), yamlCompose = (\<lambda>_. Inr []),
     yamlText = (\<lambda>_. Inr ''''), sha256Hex = id, jsonFailure = EText\<rparr>"

definition demo_repo :: ci_repo where
  "demo_repo = \<lparr>readFile = (\<lambda>_. Inr ''''), statFile = (\<lambda>_. Some ErrNotFound), isNotExist = (\<lambda>e. e = ErrNotFound),
     workflowPaths = Inr [''.github/workflows/ci.yml''], absPath = id\<rparr>"

lemma tagged_not_pinned: "checkPinnedWorkflowActions demo_libs demo_repo \<noteq> None"
  by (simp add: checkPinnedWorkflowActions_def pinned_workflow_def demo_libs_def demo_repo_def tagged_flow_def or_error_def
      decoding_def first_error_None step_pinned_def pinnedActionSHA_def)


end
