(* ===== verification/Compact.thy ===== *)
theory Compact
  imports Json Line_Laws
begin

text \<open>
  \<open>encoding/json\<close>'s compaction of a raw text (what \<open>Marshal\<close> makes of a \<open>RawMessage\<close>), and that no line break
  survives it in a text the parser accepts.
\<close>

section \<open>Compact JSON\<close>

text \<open>
  \<open>json.Marshal\<close> of a \<open>RawMessage\<close>: white space outside strings goes, and five runes are escaped.  The text is the
  list of its runes with their bytes; the second function is inside a string.
\<close>

definition html_escape :: "nat \<Rightarrow> string \<Rightarrow> string" where
  "html_escape r b =
     (if r = 60 \<or> r = 62 \<or> r = 38 then CHR 0x5C # ''u00'' @ hex2 r
      else if r = 8232 \<or> r = 8233 then CHR 0x5C # ''u202'' @ [hex_digit (r mod 16)]
      else b)"

fun compact_out :: "(nat \<times> string) list \<Rightarrow> string" and compact_str :: "(nat \<times> string) list \<Rightarrow> string" where
  "compact_out [] = ''''"
| "compact_out ((r, b) # ps) =
     (if r = 34 then b @ compact_str ps
      else if r = 32 \<or> r = 9 \<or> r = 10 \<or> r = 13 then compact_out ps
      else html_escape r b @ compact_out ps)"
| "compact_str [] = ''''"
| "compact_str ((r, b) # ps) =
     (if r = 34 then b @ compact_out ps
      else if r = 92 then (case ps of [] \<Rightarrow> b | (q, d) # qs \<Rightarrow> b @ html_escape q d @ compact_str qs)
      else html_escape r b @ compact_str ps)"

definition compact :: "string \<Rightarrow> string option" where
  "compact raw = (if json_parse raw = None then None else Some (compact_out (segments raw)))"

section \<open>Where line breaks are\<close>

definition breaks_coded :: "(nat \<times> string) list \<Rightarrow> bool" where
  "breaks_coded ps \<longleftrightarrow> (\<forall>(r, b)\<in>set ps. line_break \<in> set b \<longrightarrow> r = 10)"

lemma clean_drop: "breaks_coded ps \<Longrightarrow> breaks_coded (drop n ps)"
  by (auto simp: breaks_coded_def dest: in_set_dropD)

lemma clean_Cons: "breaks_coded ((r, b) # ps) \<Longrightarrow> r \<noteq> 10 \<Longrightarrow> line_break \<notin> set b"
  by (auto simp: breaks_coded_def)

lemma cont_not_break: "cont (byte c) \<Longrightarrow> c \<noteq> line_break" "second_ok b (byte c) \<Longrightarrow> c \<noteq> line_break"
  by (auto simp: cont_def second_ok_def line_break_def byte_def split: if_splits)

lemma decode_break:
  "decode_rune (c # cs) = (r, w) \<Longrightarrow> line_break \<in> set (take w (c # cs)) \<Longrightarrow> r = 10"
  using cont_not_break
  by (auto simp: decode_rune.simps Let_def line_break_def byte_def take_Cons' split: if_splits list.splits)

lemma clean_segments: "breaks_coded (segments s)"
proof (induction s rule: segments.induct)
  case (2 c cs)
  obtain r w where d: "decode_rune (c # cs) = (r, w)" by (cases "decode_rune (c # cs)")
  show ?case
    using "2.IH" [OF d [symmetric]] decode_break [OF d] by (auto simp: segments.simps(2) d breaks_coded_def)
qed (simp add: breaks_coded_def)

section \<open>Compaction follows the parser\<close>

text \<open>
  From a place inside a string, respectively outside, the printed text up to a later place outside has no line
  break; \<open>r\<close> is what the parser has left there.
\<close>

definition str_reaches :: "(nat \<times> string) list \<Rightarrow> nat list \<Rightarrow> bool" where
  "str_reaches ps r \<longleftrightarrow> (\<exists>k q. r = map fst (drop k ps) \<and> compact_str ps = q @ compact_out (drop k ps) \<and> line_break \<notin> set q)"

definition out_reaches :: "(nat \<times> string) list \<Rightarrow> nat list \<Rightarrow> bool" where
  "out_reaches ps r \<longleftrightarrow> (\<exists>k q. r = map fst (drop k ps) \<and> compact_out ps = q @ compact_out (drop k ps) \<and> line_break \<notin> set q)"

lemma html_clean:
  assumes "breaks_coded ((r, b) # ps)" "r \<noteq> 10"
  shows "line_break \<notin> set (html_escape r b)"
proof -
  have "line_break \<notin> set (hex2 60)" "line_break \<notin> set (hex2 62)" "line_break \<notin> set (hex2 38)"
    using hex_digit_line [symmetric] by (auto simp: hex2_def)
  moreover have "hex_digit (r mod 16) \<noteq> line_break" by (rule hex_digit_line) simp
  moreover have "line_break \<notin> set ''u00''" "line_break \<notin> set ''u202''" "line_break \<noteq> CHR 0x5C" by (simp_all add: line_break_def)
  ultimately show ?thesis using clean_Cons [OF assms] by (auto simp: html_escape_def)
qed

lemma str_reaches_plain:
  assumes "breaks_coded ((c, b) # ps)" "c \<noteq> 34" "c \<noteq> 92" "32 \<le> c" "str_reaches ps r"
  shows "str_reaches ((c, b) # ps) r"
proof -
  from assms(5) obtain k q where k: "r = map fst (drop k ps)" "compact_str ps = q @ compact_out (drop k ps)" "line_break \<notin> set q"
    by (auto simp: str_reaches_def)
  have "line_break \<notin> set (html_escape c b)" using assms by (intro html_clean) auto
  then show ?thesis
    unfolding str_reaches_def using k assms(2,3)
    by (intro exI [of _ "Suc k"] exI [of _ "html_escape c b @ q"]) auto
qed

lemma str_reaches_escape:
  assumes "breaks_coded ((92, b) # (a, d) # ps)" "32 \<le> a" "str_reaches ps r"
  shows "str_reaches ((92, b) # (a, d) # ps) r"
proof -
  from assms(3) obtain k q where k: "r = map fst (drop k ps)" "compact_str ps = q @ compact_out (drop k ps)" "line_break \<notin> set q"
    by (auto simp: str_reaches_def)
  have "line_break \<notin> set b" using clean_Cons [OF assms(1)] by simp
  moreover have "line_break \<notin> set (html_escape a d)"
    using clean_drop [OF assms(1), of 1] assms(2) by (intro html_clean) auto
  ultimately show ?thesis
    unfolding str_reaches_def using k
    by (intro exI [of _ "Suc (Suc k)"] exI [of _ "b @ html_escape a d @ q"]) auto
qed

lemma hex_plain: "hex_value c = Some v \<Longrightarrow> c \<noteq> 34 \<and> c \<noteq> 92 \<and> 32 \<le> c"
  by (auto simp: hex_value_def split: if_splits)

lemma hex4_plain:
  "hex4 a b c d = Some v \<Longrightarrow> (\<forall>x\<in>{a, b, c, d}. x \<noteq> 34 \<and> x \<noteq> 92 \<and> 32 \<le> x)"
  using hex_plain by (auto simp: hex4_def split: option.splits)

lemma clean_tl: "breaks_coded (p # ps) \<Longrightarrow> breaks_coded ps"
  by (auto simp: breaks_coded_def)

lemma str_reaches_hex:
  assumes "breaks_coded ((92, b) # (117, d) # (a1, b1) # (a2, b2) # (a3, b3) # (a4, b4) # ps)" "hex4 a1 a2 a3 a4 = Some v"
    and "str_reaches ps r"
  shows "str_reaches ((92, b) # (117, d) # (a1, b1) # (a2, b2) # (a3, b3) # (a4, b4) # ps) r"
  using assms hex4_plain [OF assms(2)]
  by (intro str_reaches_escape str_reaches_plain) (simp_all add: breaks_coded_def)

lemma escape_plain: "json_escape a = Some x \<Longrightarrow> 32 \<le> a"
  by (auto simp: json_escape_def split: if_splits)

lemma str_compact:
  "str_lit (map fst ps) = Some (t, r) \<Longrightarrow> breaks_coded ps \<Longrightarrow> str_reaches ps r"
proof (induction "length ps" arbitrary: ps t rule: less_induct)
  case less
  note IH = less.hyps
  from less.prems(1) obtain c b ps1 where ps: "ps = (c, b) # ps1" by (cases ps) auto
  have cl: "breaks_coded ps1" using less.prems(2) ps clean_tl by blast
  note s = less.prems(1) [unfolded ps, simplified, unfolded str_lit.simps(2)]
  show ?case
  proof (cases "c = 34")
    case True
    have "line_break \<notin> set b" using clean_Cons [of c b ps1] less.prems(2) ps True by simp
    then show ?thesis using s True unfolding ps str_reaches_def by (intro exI [of _ 1] exI [of _ b]) simp
  next
    case q: False
    then have c32: "32 \<le> c" using s by (auto split: if_splits)
    show ?thesis
    proof (cases "c = 92")
      case False
      then obtain t' where "str_lit (map fst ps1) = Some (t', r)" using s q c32 by auto
      then have "str_reaches ps1 r" using IH [of ps1] cl ps by simp
      then show ?thesis using str_reaches_plain less.prems(2) q False c32 by (simp add: ps)
    next
      case True
      then obtain a d ps2 where ps1: "ps1 = (a, d) # ps2" using s by (cases ps1) auto
      have cl2: "breaks_coded ps2" using cl ps1 clean_tl by blast
      show ?thesis
      proof (cases "a = 117")
        case False
        then obtain x t' where x: "json_escape a = Some x" "str_lit (map fst ps2) = Some (t', r)"
          using s True by (auto simp: ps1 split: option.splits)
        then have "str_reaches ps2 r" using IH [of ps2] cl2 ps ps1 by simp
        then show ?thesis using str_reaches_escape less.prems(2) escape_plain [OF x(1)] by (simp add: ps ps1 True)
      next
        case u: True
        obtain a1 b1 a2 b2 a3 b3 a4 b4 ps3 where ps2: "ps2 = (a1, b1) # (a2, b2) # (a3, b3) # (a4, b4) # ps3"
          using s True u by (auto simp: ps1 split: list.splits)
        have cl3: "breaks_coded ps3" using cl2 ps2 clean_tl by blast
        obtain v where v: "hex4 a1 a2 a3 a4 = Some v" using s True u by (auto simp: ps1 ps2 split: option.splits)
        have "str_reaches ps3 r"
        proof (cases "surrogate v \<and> v < 56320 \<and> low_half (map fst ps3) \<noteq> None")
          case False
          then have "\<exists>t'. str_lit (map fst ps3) = Some (t', r)"
            using s True u v by (auto simp: ps1 ps2 split: if_splits option.splits)
          then show ?thesis using IH [of ps3] cl3 ps ps1 ps2 by auto
        next
          case low: True
          then obtain w where w: "low_half (map fst ps3) = Some w" by blast
          then have len: "6 \<le> length ps3" by (cases "map fst ps3" rule: low_half.cases) (auto dest: arg_cong [of _ _ length])
          then obtain e0 f0 e1 f1 g1 h1 g2 h2 g3 h3 g4 h4 ps4 where
              ps3: "ps3 = (e0, f0) # (e1, f1) # (g1, h1) # (g2, h2) # (g3, h3) # (g4, h4) # ps4"
            by (auto simp: eval_nat_numeral Suc_le_length_iff)
          then obtain y where y: "e0 = 92" "e1 = 117" "hex4 g1 g2 g3 g4 = Some y"
            using w by (auto split: if_splits option.splits)
          have "\<exists>t'. str_lit (map fst ps4) = Some (t', r)"
            using s True u v w low by (auto simp: ps1 ps2 ps3 split: if_splits)
          then obtain t' where "str_lit (map fst ps4) = Some (t', r)" by blast
          moreover have "breaks_coded ps4" using clean_drop [OF cl3, of 6] by (simp add: ps3)
          ultimately have "str_reaches ps4 r" using IH [of ps4] by (simp add: ps ps1 ps2 ps3)
          then show ?thesis using str_reaches_hex cl3 y by (simp add: ps3)
        qed
        then show ?thesis using str_reaches_hex less.prems(2) v by (simp add: ps ps1 ps2 True u)
      qed
    qed
  qed
qed

section \<open>Values\<close>

definition leads :: "nat list \<Rightarrow> nat list \<Rightarrow> bool" where
  "leads s r \<longleftrightarrow> (\<forall>ps. s = map fst ps \<longrightarrow> breaks_coded ps \<longrightarrow> out_reaches ps r)"

lemma leads_refl [simp]: "leads s s"
proof -
  have "out_reaches ps (map fst ps)" for ps
    unfolding out_reaches_def by (intro exI [of _ 0] exI [of _ "[]"]) simp
  then show ?thesis by (simp add: leads_def)
qed

lemma leads_trans:
  assumes "leads s r" "leads r z"
  shows "leads s z"
  unfolding leads_def
proof (intro allI impI)
  fix ps assume s: "s = map fst ps" and cl: "breaks_coded ps"
  then obtain k q where k: "r = map fst (drop k ps)" "compact_out ps = q @ compact_out (drop k ps)" "line_break \<notin> set q"
    using assms(1) by (auto simp: leads_def out_reaches_def)
  then have "out_reaches (drop k ps) z" using assms(2) clean_drop [OF cl] by (simp add: leads_def)
  then obtain l p where "z = map fst (drop l (drop k ps))" "compact_out (drop k ps) = p @ compact_out (drop l (drop k ps))"
      "line_break \<notin> set p" by (auto simp: out_reaches_def)
  then show "out_reaches ps z"
    unfolding out_reaches_def using k by (intro exI [of _ "l + k"] exI [of _ "q @ p"]) (simp add: add.commute)
qed

lemma leads_step:
  assumes "c \<noteq> 34"
  shows "leads (c # s) s"
  unfolding leads_def
proof (intro allI impI)
  fix ps assume s: "c # s = map fst ps" and cl: "breaks_coded ps"
  then obtain b qs where ps: "ps = (c, b) # qs" "s = map fst qs" by (cases ps) auto
  let ?q = "if c = 32 \<or> c = 9 \<or> c = 10 \<or> c = 13 then '''' else html_escape c b"
  have "line_break \<notin> set ?q" using html_clean [of c b qs] cl ps by auto
  then show "out_reaches ps s"
    unfolding out_reaches_def using assms ps by (intro exI [of _ 1] exI [of _ ?q]) auto
qed

lemma leads_ws: "leads s (skip_ws s)"
  by (induction s rule: skip_ws.induct) (auto intro: leads_trans [OF leads_step])

lemma leads_string:
  assumes "str_lit s = Some (t, r)"
  shows "leads (34 # s) r"
  unfolding leads_def
proof (intro allI impI)
  fix ps assume s: "34 # s = map fst ps" and cl: "breaks_coded ps"
  then obtain b qs where ps: "ps = (34, b) # qs" "s = map fst qs" by (cases ps) auto
  have "str_reaches qs r" using str_compact [of qs t r] assms cl clean_tl ps by auto
  then obtain k q where "r = map fst (drop k qs)" "compact_str qs = q @ compact_out (drop k qs)" "line_break \<notin> set q"
    by (auto simp: str_reaches_def)
  moreover have "line_break \<notin> set b" using clean_Cons [of 34 b qs] cl ps by simp
  ultimately show "out_reaches ps r"
    unfolding out_reaches_def ps by (intro exI [of _ "Suc k"] exI [of _ "b @ q"]) simp
qed

lemma leads_number: "leads s (dropWhile number_char s)"
proof (induction s)
  case (Cons c s)
  have "number_char c \<Longrightarrow> c \<noteq> 34" by (auto simp: number_char_def digit_def)
  then show ?case using Cons leads_step [of c s] by (auto intro: leads_trans)
qed simp

lemma leads_front: "34 \<notin> set (take n s) \<Longrightarrow> leads s (drop n s)"
proof (induction n arbitrary: s)
  case (Suc n)
  then show ?case
  proof (cases s)
    case (Cons c t)
    then show ?thesis using Suc leads_step [of c t] by (auto intro: leads_trans)
  qed simp
qed simp

lemma leads_word: "json_word s = Some (v, r) \<Longrightarrow> leads s r"
  using leads_front [of 4 s] leads_front [of 5 s] by (auto simp: json_word_def split: if_splits)

lemma leads_after_ws: "skip_ws s = c # z \<Longrightarrow> c \<noteq> 34 \<Longrightarrow> leads s z"
  using leads_ws [of s] leads_step [of c z] by (auto intro: leads_trans)

lemma leads_ws_then: "skip_ws s = t \<Longrightarrow> leads t z \<Longrightarrow> leads s z"
  using leads_ws [of s] by (auto intro: leads_trans)

lemma parser_leads:
  shows "\<And>v r. json_value n s = Some (v, r) \<Longrightarrow> leads s r"
    and "\<And>vs r. json_items n s = Some (vs, r) \<Longrightarrow> leads s r"
    and "\<And>ms r. json_members n s = Some (ms, r) \<Longrightarrow> leads s r"
proof (induction n s and n s and n s rule: json_value_json_items_json_members.induct)
  case (2 n s)
  obtain c t where ws: "skip_ws s = c # t" using "2.prems" by (auto split: list.splits)
  note e = "2.prems" [simplified, unfolded ws, simplified]
  consider "c = 34" | "c = 91" | "c = 123" | "c \<noteq> 34" "c \<noteq> 91" "c \<noteq> 123" by blast
  then show ?case
  proof cases
    case 1
    then obtain u where "str_lit t = Some (u, r)" using e by auto
    then show ?thesis using leads_string leads_ws_then [OF ws] 1 by simp
  next
    case 2
    obtain d z where z: "skip_ws t = d # z" using e 2 by (auto split: list.splits)
    have s: "leads s t" using leads_after_ws [OF ws] 2 by simp
    show ?thesis
    proof (cases "d = 93")
      case True
      then have "r = z" using e 2 z by simp
      then show ?thesis using s leads_after_ws [OF z] True by (auto intro: leads_trans)
    next
      case False
      then obtain vs where "json_items n (d # z) = Some (vs, r)" using e 2 z by auto
      then have "leads (d # z) r" using "2.IH"(1) ws 2 z False by simp
      then show ?thesis using s leads_ws_then [OF z] by (auto intro: leads_trans)
    qed
  next
    case 3
    obtain d z where z: "skip_ws t = d # z" using e 3 by (auto split: list.splits)
    have s: "leads s t" using leads_after_ws [OF ws] 3 by simp
    show ?thesis
    proof (cases "d = 125")
      case True
      then have "r = z" using e 3 z by simp
      then show ?thesis using s leads_after_ws [OF z] True by (auto intro: leads_trans)
    next
      case False
      then obtain ms where "json_members n (d # z) = Some (ms, r)" using e 3 z by auto
      then have "leads (d # z) r" using "2.IH"(2) ws 3 z False by simp
      then show ?thesis using s leads_ws_then [OF z] by (auto intro: leads_trans)
    qed
  next
    case 4
    show ?thesis
    proof (cases "c = 45 \<or> digit c")
      case True
      then have "r = dropWhile number_char (c # t)" using e 4 by (auto split: if_splits)
      then show ?thesis using leads_ws_then [OF ws] leads_number by metis
    next
      case False
      then have "json_word (c # t) = Some (v, r)" using e 4 by auto
      then show ?thesis using leads_ws_then [OF ws] leads_word by metis
    qed
  qed
next
  case (4 n s)
  obtain v y where v: "json_value n s = Some (v, y)" using "4.prems" by (auto split: option.splits)
  obtain c z where z: "skip_ws y = c # z" using "4.prems" v by (auto split: list.splits)
  have s: "leads s y" using "4.IH"(1) v by simp
  show ?case
  proof (cases "c = 93")
    case True
    then show ?thesis using "4.prems" v z s leads_after_ws [OF z] by (auto intro: leads_trans)
  next
    case False
    then obtain ws where w: "c = 44" "json_items n z = Some (ws, r)" using "4.prems" v z by (auto split: if_splits)
    then have "leads z r" using "4.IH"(2) [OF v] z False by simp
    then show ?thesis using s leads_after_ws [OF z] w(1) by (auto intro: leads_trans)
  qed
next
  case (6 n s)
  obtain t where q: "skip_ws s = 34 # t" using "6.prems" by (auto split: list.splits if_splits)
  obtain k r1 where k: "str_lit t = Some (k, r1)" using "6.prems" q by (auto split: option.splits)
  obtain r2 where c: "skip_ws r1 = 58 # r2" using "6.prems" q k by (auto split: list.splits if_splits)
  obtain v r3 where v: "json_value n r2 = Some (v, r3)" using "6.prems" q k c by (auto split: option.splits)
  obtain d z where z: "skip_ws r3 = d # z" using "6.prems" q k c v by (auto split: list.splits)
  have "leads s r1" using leads_ws_then [OF q leads_string [OF k]] .
  moreover have "leads r1 r2" using leads_after_ws [OF c] by simp
  moreover have "leads r2 r3" using "6.IH"(1) q k c v by simp
  ultimately have s: "leads s r3" by (blast intro: leads_trans)
  show ?case
  proof (cases "d = 125")
    case True
    then show ?thesis using "6.prems" q k c v z s leads_after_ws [OF z] by (auto intro: leads_trans)
  next
    case False
    then obtain ms where w: "d = 44" "json_members n z = Some (ms, r)" using "6.prems" q k c v z by (auto split: if_splits)
    then have "leads z r" using "6.IH"(2) q k c v z by simp
    then show ?thesis using s leads_after_ws [OF z] w(1) by (auto intro: leads_trans)
  qed
qed simp_all

lemma compact_one_line: "compact raw = Some t \<Longrightarrow> line_break \<notin> set t"
proof -
  assume c: "compact raw = Some t"
  then have t: "t = compact_out (segments raw)" and "json_parse raw \<noteq> None" by (auto simp: compact_def split: if_splits)
  then obtain v r where v: "json_value (Suc (2 * length (runes raw))) (runes raw) = Some (v, r)" "skip_ws r = []"
    by (auto simp: json_parse_def split: option.splits if_splits)
  have "leads (runes raw) []" using parser_leads(1) [OF v(1)] leads_ws [of r] v(2) by (metis leads_trans)
  then have "out_reaches (segments raw) []" using clean_segments by (simp add: leads_def runes_def)
  then show ?thesis by (auto simp: t out_reaches_def)
qed

end
