(* ===== verification/Mirror.thy ===== *)
theory Mirror
  imports Bus Compact
begin

text \<open>
  The live mirrors of the bus (\<open>handleSSE\<close> and the writer of \<open>handleWS\<close>, \<open>src/internal/gateway/gateway.go\<close>): how an
  event is encoded, and the frames that are sent.
\<close>

section \<open>Events\<close>

text \<open>\<open>json.Marshal\<close> of an \<open>Event\<close>; \<open>None\<close> when it reports an error.\<close>

definition event_text :: "event \<Rightarrow> string option" where
  "event_text e =
     (case json_time (evTS e) of
        None \<Rightarrow> None
      | Some ts \<Rightarrow>
          let front = ''{\"seq\":'' @ int_text (evSeq e) @ '',\"ts\":'' @ ts @ '',\"kind\":'' @ json_string (evKind e) @
                (if evJob e = '''' then '''' else '',\"job_id\":'' @ json_string (evJob e)) in
          (case nullableJSON (evPayload e) of
             None \<Rightarrow> Some (front @ ''}'')
           | Some raw \<Rightarrow> map_option (\<lambda>p. front @ '',\"payload\":'' @ p @ ''}'') (compact raw)))"

section \<open>The mirrors\<close>

text \<open>\<open>handleSSE\<close>: what is written for the events the subscription yields.\<close>

definition sse_frame :: "event \<Rightarrow> string" where
  "sse_frame e = (case event_text e of None \<Rightarrow> '''' | Some t \<Rightarrow> ''data: '' @ t @ [line_break, line_break])"

definition handleSSE :: "event list \<Rightarrow> string" where
  "handleSSE es = concat (map sse_frame es)"

text \<open>
  The writer of \<open>handleWS\<close>: heartbeats and events until the subscription ends or a write fails (\<open>wr n\<close> for the
  \<open>n\<close>-th), which cancels the connection.  The result: the messages written, and whether it was cancelled.
\<close>

datatype ws_tick = Heartbeat | BusEvent event

fun ws_message :: "ws_tick \<Rightarrow> string option" where
  "ws_message Heartbeat = Some ''{\"type\":\"hb\"}''"
| "ws_message (BusEvent e) = map_option (\<lambda>t. ''{\"event\":'' @ t @ '',\"type\":\"event\"}'') (event_text e)"

fun ws_writer :: "(nat \<Rightarrow> bool) \<Rightarrow> nat \<Rightarrow> ws_tick list \<Rightarrow> string list \<times> bool" where
  "ws_writer wr n [] = ([], False)"
| "ws_writer wr n (i # is) =
     (case ws_message i of
        None \<Rightarrow> ws_writer wr n is
      | Some m \<Rightarrow> if wr n then ([], True)
          else (case ws_writer wr (Suc n) is of (ms, c) \<Rightarrow> (m # ms, c)))"

section \<open>No event breaks the framing\<close>

lemma frac_line: "line_break \<notin> set (frac_text n v)"
proof -
  let ?ds = "rev (dropWhile (\<lambda>c. c = CHR ''0'') (rev (pad_digits n (v mod 10 ^ n))))"
  have "set ?ds \<subseteq> set (pad_digits n (v mod 10 ^ n))" using set_dropWhileD by fastforce
  then have "line_break \<notin> set ?ds" using digits_line by blast
  then show ?thesis by (simp add: frac_text_def Let_def) (simp add: line_break_def)
qed

lemma time_line: "json_time t = Some s \<Longrightarrow> line_break \<notin> set s"
proof -
  have "line_break \<notin> set (pad_int n i)" for n i by (simp add: pad_int_def digits_line)
  then have "line_break \<notin> set (rfc3339 t)"
    using frac_line by (simp add: rfc3339_def Let_def split_beta) (simp add: line_break_def)
  then show "json_time t = Some s \<Longrightarrow> ?thesis"
    by (auto simp: json_time_def split_beta Let_def split: if_splits) (simp_all add: line_break_def)
qed

lemma string_line: "line_break \<notin> set (json_string s)"
proof -
  have r: "line_break \<notin> set (json_rune r)" if "r \<noteq> 10" for r
  proof -
    have h: "line_break \<notin> set (hex2 r)" if "r < 256"
    proof -
      have "r div 16 < 16" using that by (intro less_mult_imp_div_less) simp
      then show ?thesis using hex_digit_line [of "r div 16"] hex_digit_line [of "r mod 16"] by (auto simp: hex2_def)
    qed
    moreover have "line_break \<noteq> hex_digit (r mod 16)" using hex_digit_line [of "r mod 16"] by auto
    moreover have "line_break \<notin> set (encode_rune r)"
    proof
      assume "line_break \<in> set (encode_rune r)"
      then have "10 \<in> set (map byte (encode_rune r))" by (force simp: line_break_def byte_def)
      then show False using that by (auto simp: encode_rune_def valid_rune_def rune_error_def split: if_splits)
    qed
    moreover have "char_of r \<noteq> line_break" if "r = 34 \<or> r = 92" using that char_of_line [of r] by auto
    ultimately show ?thesis using that by (auto simp: json_rune_def) (simp_all add: line_break_def)
  qed
  have "line_break \<notin> set (json_rune 10)" by (simp add: json_rune_def) (simp add: line_break_def)
  then have "line_break \<notin> set (json_rune r)" for r using r by (cases "r = 10") auto
  then show ?thesis by (auto simp: json_string_def split: if_splits) (simp_all add: line_break_def)
qed

lemma event_text_line: "event_text e = Some t \<Longrightarrow> line_break \<notin> set t"
proof -
  assume e: "event_text e = Some t"
  obtain ts where ts: "json_time (evTS e) = Some ts" using e by (auto simp: event_text_def split: option.splits)
  let ?front = "''{\"seq\":'' @ int_text (evSeq e) @ '',\"ts\":'' @ ts @ '',\"kind\":'' @ json_string (evKind e) @
    (if evJob e = '''' then '''' else '',\"job_id\":'' @ json_string (evJob e))"
  have lits: "line_break \<notin> set ''{\"seq\":''" "line_break \<notin> set '',\"ts\":''" "line_break \<notin> set '',\"kind\":''"
    "line_break \<notin> set '',\"job_id\":''" "line_break \<notin> set '',\"payload\":''" "line_break \<notin> set ''}''"
    by (simp_all add: line_break_def)
  have front: "line_break \<notin> set ?front"
    using int_line time_line [OF ts] string_line lits by (simp only: set_append Un_iff if_split simp_thms list.set empty_iff) auto
  show ?thesis
  proof (cases "nullableJSON (evPayload e)")
    case None
    then have "t = ?front @ ''}''" using e ts by (simp only: event_text_def Let_def option.case option.inject)
    then show ?thesis using front lits by (simp only: set_append Un_iff simp_thms)
  next
    case (Some raw)
    then obtain p where p: "compact raw = Some p" "t = ?front @ '',\"payload\":'' @ p @ ''}''"
      using e ts by (cases "compact raw") (simp_all only: event_text_def Let_def option.case option.inject option.map option.distinct)
    then show ?thesis using front lits compact_one_line by (simp only: set_append Un_iff simp_thms)
  qed
qed

text \<open>
  C22. One event is one frame of the stream.  Read back line by line, the live mirror is, for every event that can
  be encoded, one line \<open>data:\<close> with that event's text and one empty line, in the order of the events: no kind, job
  id or payload, also none that a webhook brought in, can end a frame or start another.
\<close>

theorem mirror_frames:
  "split_on line_break (handleSSE es) =
     concat (map (\<lambda>t. [''data: '' @ t, '''']) (List.map_filter event_text es)) @ ['''']"
proof (induction es)
  case (Cons e es)
  show ?case
  proof (cases "event_text e")
    case None
    then show ?thesis using Cons by (simp add: handleSSE_def sse_frame_def map_filter_simps)
  next
    case (Some t)
    have "line_break \<notin> set (''data: '' @ t)" using event_text_line [OF Some] by simp (simp add: line_break_def)
    then have "split_on line_break ((''data: '' @ t) @ line_break # line_break # handleSSE es) =
        (''data: '' @ t) # '''' # split_on line_break (handleSSE es)"
      using split_line [of line_break "''data: '' @ t"] by simp
    then show ?thesis using Cons Some by (simp add: handleSSE_def sse_frame_def map_filter_simps)
  qed
qed (simp add: handleSSE_def map_filter_simps)

end
