(* ===== verification/Dial.thy ===== *)
theory Dial
  imports Config Realtime Ascii_Laws "HOL-Library.List_Lexorder" "HOL-Library.Char_ord"
begin

text \<open>
  Opening the sideband of a call (\<open>DialURL\<close> of \<open>src/internal/openairt/client.go\<close>): what it uses of the query
  functions of \<open>net/url\<close>, where it is willing to send the provider's key, and the address it opens.  The WebSocket
  library is the argument \<open>connect\<close>: it gets the address and the authorization, and gives an error or a connection
  (the faults of its writes).
\<close>

section \<open>Queries\<close>

definition unreserved :: "char \<Rightarrow> bool" where
  "unreserved c \<longleftrightarrow> is_alpha c \<or> is_digit c \<or> c \<in> set ''-_.~''"

definition QueryEscape :: "string \<Rightarrow> string" where
  "QueryEscape s = map (\<lambda>c. if c = CHR '' '' then CHR ''+'' else c) (escape_with (\<lambda>c. unreserved c \<or> c = CHR '' '') s)"

definition QueryUnescape :: "string \<Rightarrow> string option" where
  "QueryUnescape s = unescape EncodeOther (map (\<lambda>c. if c = CHR ''+'' then CHR '' '' else c) s)"

text \<open>\<open>url.ParseQuery\<close>: the pairs in order; a malformed one is dropped, as \<open>URL.Query\<close> ignores the error.\<close>

definition query_pair :: "string \<Rightarrow> (string \<times> string) option" where
  "query_pair s =
     (if s = '''' \<or> CHR '';'' \<in> set s then None
      else (case cut_at CHR ''='' s of (k, v) \<Rightarrow>
        (case (QueryUnescape k, QueryUnescape (case v of None \<Rightarrow> '''' | Some x \<Rightarrow> x)) of
           (Some k, Some v) \<Rightarrow> Some (k, v)
         | _ \<Rightarrow> None)))"

definition Query :: "string \<Rightarrow> (string \<times> string) list" where
  "Query q = List.map_filter query_pair (split_on CHR ''&'' q)"

text \<open>\<open>Values.Set\<close> and \<open>Values.Encode\<close>: the keys in order, the values of a key in theirs.\<close>

definition query_set :: "string \<Rightarrow> string \<Rightarrow> (string \<times> string) list \<Rightarrow> (string \<times> string) list" where
  "query_set k v ps = filter (\<lambda>p. fst p \<noteq> k) ps @ [(k, v)]"

definition Encode :: "(string \<times> string) list \<Rightarrow> string" where
  "Encode ps = join ''&'' (map (\<lambda>(k, v). QueryEscape k @ ''='' @ QueryEscape v) (sort_key fst ps))"

section \<open>DialURL\<close>

text \<open>\<open>URL.EscapedPath\<close>: the path as it was written, if that is a valid encoding.\<close>

definition escaped_path :: "string \<Rightarrow> url \<Rightarrow> string" where
  "escaped_path raw u =
     (case getScheme (fst (cut_at CHR ''#'' raw)) of
        None \<Rightarrow> ''''
      | Some (_, rest) \<Rightarrow>
          let p = dropWhile (\<lambda>c. c \<noteq> CHR ''/'') (drop 2 (fst (cut_at CHR ''?'' rest))) in
          if list_all (\<lambda>c. path_byte c \<or> c = CHR 0x27 \<or> c \<in> set ''!()*[]%'') p then p
          else escape_with path_byte (u_path u))"

text \<open>\<open>URL.String\<close> of an absolute URL with a query.\<close>

definition dial_string :: "string \<Rightarrow> url \<Rightarrow> string \<Rightarrow> string" where
  "dial_string raw u q =
     u_scheme u @ ''://'' @ escape_with host_byte (u_host u) @ escaped_path raw u @ ''?'' @ q"

definition sidebandURL :: string where
  "sidebandURL = ''wss://api.openai.com/v1/realtime''"

definition DialURL ::
  "string \<Rightarrow> string \<Rightarrow> string \<Rightarrow> (string \<Rightarrow> string \<Rightarrow> error + (nat \<Rightarrow> (error \<times> bool) option)) \<Rightarrow> error + rt_client" where
  "DialURL apiKey callID baseURL connect =
     (let base = (if baseURL = '''' then sidebandURL else baseURL);
          absolute = Inl (EText ''realtime sideband endpoint must be an absolute ws or wss URL'') in
      case url_parse base of
        None \<Rightarrow> absolute
      | Some u \<Rightarrow>
          if u_host u = '''' \<or> u_scheme u \<noteq> ''wss'' \<and> u_scheme u \<noteq> ''ws'' then absolute
          else if u_user u \<noteq> None \<or> u_fragment u \<noteq> ''''
          then Inl (EText ''realtime sideband endpoint must not contain userinfo or a fragment'')
          else if u_scheme u = ''ws'' \<and> Hostname u \<noteq> ''localhost'' \<and>
            (case ParseIP (Hostname u) of None \<Rightarrow> True | Some ip \<Rightarrow> \<not> IsLoopback ip)
          then Inl (EText ''realtime sideband endpoint must use wss except on loopback'')
          else (case connect (dial_string base u (Encode (query_set ''call_id'' callID (Query (u_query u)))))
                       (''Bearer '' @ apiKey) of
              Inl e \<Rightarrow> Inl (EWrap ''sideband dial: '' e '''')
            | Inr fault \<Rightarrow> Inr \<lparr>wire = [], writes = 0, wfault = fault\<rparr>))"

definition DialCall ::
  "string \<Rightarrow> string \<Rightarrow> (string \<Rightarrow> string \<Rightarrow> error + (nat \<Rightarrow> (error \<times> bool) option)) \<Rightarrow> error + rt_client" where
  "DialCall apiKey callID = DialURL apiKey callID sidebandURL"

section \<open>What is encoded is read back\<close>

lemma hex_upper_ok: "d < 16 \<Longrightarrow> is_hex (hex_upper d) \<and> hex_nibble (hex_upper d) = d \<and> unreserved (hex_upper d)"
proof -
  have "list_all (\<lambda>d. is_hex (hex_upper d) \<and> hex_nibble (hex_upper d) = d \<and> unreserved (hex_upper d)) [0..<16]"
    by (simp add: upt_rec is_hex_def hex_upper_def hex_nibble_def unreserved_def is_digit_def is_alpha_def byte_def)
  then show "d < 16 \<Longrightarrow> ?thesis" by (simp add: list_all_iff)
qed

lemma char_of_hex:
  "is_hex (hex_upper (byte c div 16)) \<and> is_hex (hex_upper (byte c mod 16)) \<and>
   char_of (16 * hex_nibble (hex_upper (byte c div 16)) + hex_nibble (hex_upper (byte c mod 16))) = c"
proof -
  have "byte c div 16 < 16" using byte_less [of c] by (intro less_mult_imp_div_less) simp
  then have "is_hex (hex_upper (byte c div 16)) \<and> is_hex (hex_upper (byte c mod 16)) \<and>
      16 * hex_nibble (hex_upper (byte c div 16)) + hex_nibble (hex_upper (byte c mod 16)) = byte c"
    using hex_upper_ok [of "byte c div 16"] hex_upper_ok [of "byte c mod 16"] by simp
  then show ?thesis by (simp add: byte_def)
qed

lemma unescape_escape: "\<not> ok CHR ''%'' \<Longrightarrow> unescape EncodeOther (escape_with ok s) = Some s"
  using char_of_hex by (induction s) (auto simp: escape_with_def escape_ok_def)

lemma escape_set:
  "c \<in> set (escape_with ok s) \<Longrightarrow> ok c \<or> c = CHR ''%'' \<or> unreserved c"
proof -
  have "b \<in> set s \<Longrightarrow> unreserved (hex_upper (byte b div 16)) \<and> unreserved (hex_upper (byte b mod 16))" for b
    using byte_less [of b] hex_upper_ok [of "byte b div 16"] hex_upper_ok [of "byte b mod 16"]
      less_mult_imp_div_less [of "byte b" 16 16] by simp
  then show "c \<in> set (escape_with ok s) \<Longrightarrow> ?thesis" by (auto simp: escape_with_def split: if_splits)
qed

lemma query_escape_set: "c \<in> set (QueryEscape s) \<Longrightarrow> c = CHR ''+'' \<or> c = CHR ''%'' \<or> unreserved c"
  unfolding QueryEscape_def using escape_set by (fastforce split: if_splits)

lemma query_escape_marks:
  "CHR ''&'' \<notin> set (QueryEscape s)" "CHR '';'' \<notin> set (QueryEscape s)" "CHR ''='' \<notin> set (QueryEscape s)"
  using query_escape_set by (fastforce simp: unreserved_def is_alpha_def is_digit_def byte_def)+

lemma query_unescape [simp]: "QueryUnescape (QueryEscape s) = Some s"
proof -
  let ?ok = "\<lambda>c. unreserved c \<or> c = CHR '' ''"
  have "c \<noteq> CHR ''+''" if "c \<in> set (escape_with ?ok s)" for c
    using escape_set [OF that] by (auto simp: unreserved_def is_alpha_def is_digit_def byte_def)
  then have "map (\<lambda>c. if c = CHR ''+'' then CHR '' '' else c) (QueryEscape s) = escape_with ?ok s"
    unfolding QueryEscape_def map_map by (intro map_idI) auto
  then show ?thesis
    by (simp add: QueryUnescape_def unescape_escape unreserved_def is_alpha_def is_digit_def byte_def)
qed

lemma query_pair_encode: "query_pair (QueryEscape k @ ''='' @ QueryEscape v) = Some (k, v)"
proof -
  have "takeWhile (\<lambda>c. c \<noteq> CHR ''='') (QueryEscape k @ CHR ''='' # QueryEscape v) = QueryEscape k"
    "dropWhile (\<lambda>c. c \<noteq> CHR ''='') (QueryEscape k @ CHR ''='' # QueryEscape v) = CHR ''='' # QueryEscape v"
    using query_escape_marks(3) [of k] by (auto simp: takeWhile_append dropWhile_append takeWhile_eq_all_conv)
  then show ?thesis using query_escape_marks(2) by (simp add: query_pair_def cut_at_def)
qed

lemma query_encode: "Query (Encode ps) = sort_key fst ps"
proof (cases "ps = []")
  case False
  let ?qs = "sort_key fst ps" and ?f = "\<lambda>(k, v). QueryEscape k @ ''='' @ QueryEscape v"
  have "sort_key fst ps \<noteq> []" using False by (metis length_0_conv length_sort)
  then have "split_on CHR ''&'' (Encode ps) = map ?f ?qs"
    unfolding Encode_def using query_escape_marks(1) by (intro split_join) auto
  moreover have "List.map_filter query_pair (map ?f qs) = qs" for qs
    using query_pair_encode by (induction qs) (auto simp: map_filter_simps)
  ultimately show ?thesis by (simp add: Query_def)
qed (simp add: Query_def Encode_def query_pair_def map_filter_simps)

section \<open>Where the key goes\<close>

lemma cut_at_first: "d \<notin> set a \<Longrightarrow> cut_at d (a @ d # b) = (a, Some b)"
  by (auto simp: cut_at_def takeWhile_append dropWhile_append takeWhile_eq_all_conv)

lemma unescape_head: "unescape EncodeOther (c # s) = Some t \<Longrightarrow> c \<noteq> CHR ''%'' \<Longrightarrow> hd t = c \<and> t \<noteq> ''''"
  by (auto split: if_splits)

text \<open>The path of a parsed address is written as a path that is read back, and that does not run into what follows.\<close>

definition path_text :: "string \<Rightarrow> bool" where
  "path_text p \<longleftrightarrow> (p = '''' \<or> hd p = CHR ''/'') \<and> CHR ''?'' \<notin> set p \<and> CHR ''#'' \<notin> set p"

lemma escape_path_text: "q = '''' \<or> hd q = CHR ''/'' \<Longrightarrow> path_text (escape_with path_byte q)"
proof -
  assume q: "q = '''' \<or> hd q = CHR ''/''"
  have b: "path_byte CHR ''/''" by (simp add: path_byte_def)
  have "escape_with path_byte q = '''' \<or> hd (escape_with path_byte q) = CHR ''/''"
    using q b by (cases q) (auto simp: escape_with_def)
  moreover have "c \<notin> set (escape_with path_byte q)" if "c = CHR ''?'' \<or> c = CHR ''#''" for c
    using escape_set [of c path_byte q] that
    by (auto simp: path_byte_def unreserved_def is_alpha_def is_digit_def byte_def)
  ultimately show ?thesis by (simp add: path_text_def)
qed

lemma escaped_path_read:
  assumes "url_parse raw = Some u" "u_host u \<noteq> ''''"
  shows "path_text (escaped_path raw u) \<and> unescape EncodeOther (escaped_path raw u) = Some (u_path u)"
proof -
  let ?body = "fst (cut_at CHR ''#'' raw)"
  obtain sch rest where g: "getScheme ?body = Some (sch, rest)"
    using assms by (auto simp: url_parse_def no_url_def Let_def case_prod_beta bind_eq_Some_conv split: if_splits)
  let ?front = "fst (cut_at CHR ''?'' rest)"
  let ?p = "dropWhile (\<lambda>c. c \<noteq> CHR ''/'') (drop 2 ?front)"
  have p: "unescape EncodeOther ?p = Some (u_path u)"
    using assms g
    by (auto simp: url_parse_def parse_rest_def no_url_def Let_def case_prod_beta bind_eq_Some_conv split: if_splits)
  have slash: "?p = '''' \<or> hd ?p = CHR ''/''" using hd_dropWhile [of "\<lambda>c. c \<noteq> CHR ''/''" "drop 2 ?front"] by blast
  then have q: "u_path u = '''' \<or> hd (u_path u) = CHR ''/''"
    using unescape_head [of "hd ?p" "tl ?p" "u_path u"] p by (cases ?p) (simp_all del: unescape.simps(2))
  have "CHR ''?'' \<notin> set ?p" by (auto simp: cut_at_def dest!: set_dropWhileD in_set_dropD set_takeWhileD)
  moreover have "CHR ''#'' \<notin> set ?p"
    if "list_all (\<lambda>c. path_byte c \<or> c = CHR 0x27 \<or> c \<in> set ''!()*[]%'') ?p"
    using that by (fastforce simp: list_all_iff path_byte_def is_alpha_def is_digit_def byte_def)
  ultimately show ?thesis
    using g p slash escape_path_text [OF q] unescape_escape [of path_byte "u_path u"]
    by (auto simp: escaped_path_def path_text_def Let_def path_byte_def is_alpha_def is_digit_def byte_def)
qed

text \<open>The authority of an address: between the slashes and the path it names the host, and nothing else.\<close>

definition host_text :: "string \<Rightarrow> bool" where
  "host_text a \<longleftrightarrow> (\<forall>c\<in>set ''@/?#''. c \<notin> set a)"

lemma escaped_host_text: "host_text (escape_with host_byte h) \<and> unescape EncodeOther (escape_with host_byte h) = Some h"
proof -
  have "c \<notin> set (escape_with host_byte h)" if "c \<in> set ''@/?#''" for c
    using escape_set [of c host_byte h] that
    by (auto simp: host_byte_def unreserved_def is_alpha_def is_digit_def byte_def)
  moreover have "\<not> host_byte CHR ''%''" by (simp add: host_byte_def is_alpha_def is_digit_def byte_def)
  ultimately show ?thesis using unescape_escape by (auto simp: host_text_def)
qed

lemma encode_no_fragment: "CHR ''#'' \<notin> set (Encode ps)"
proof -
  have "set (join ''&'' xs) \<subseteq> insert (CHR ''&'') (\<Union> (set ` set xs))" for xs
    by (induction "''&''" xs rule: join.induct) auto
  moreover have "CHR ''#'' \<notin> set (QueryEscape s)" for s
    using query_escape_set [of "CHR ''#''" s] by (auto simp: unreserved_def is_alpha_def is_digit_def byte_def)
  ultimately show ?thesis by (fastforce simp: Encode_def)
qed

lemma loopback_name:
  "Hostname u = ''localhost'' \<or> (\<exists>ip. ParseIP (Hostname u) = Some ip \<and> IsLoopback ip) \<Longrightarrow> loopbackHost (Hostname u)"
  by (auto simp: loopbackHost_def)

text \<open>
  C23. The provider's key leaves the machine encrypted only, and to the configured place for the call it was meant for.
  When the sideband of a call is open, the address it was opened with, under that key, reads
  \<open>scheme://host/path?query\<close>: the scheme is the configured one, \<open>wss\<close>, or \<open>ws\<close> of this machine; between the slashes
  and the path stands the configured host, with no user information; the path is the configured one; no fragment
  follows; and the query asks for this call id, once, and for whatever else the configured address asked for,
  unchanged, even when the call id or the parameters contain the delimiters of a query.
\<close>

theorem dial_private_and_exact:
  assumes "DialURL key callID base connect = Inr c"
  shows "\<exists>u target host path q fault. url_parse (if base = '''' then sidebandURL else base) = Some u \<and>
     connect target (''Bearer '' @ key) = Inr fault \<and> c = \<lparr>wire = [], writes = 0, wfault = fault\<rparr> \<and>
     target = u_scheme u @ ''://'' @ host @ path @ ''?'' @ q \<and>
     (u_scheme u = ''wss'' \<or> u_scheme u = ''ws'' \<and> loopbackHost (Hostname u)) \<and>
     host_text host \<and> unescape EncodeOther host = Some (u_host u) \<and> u_host u \<noteq> '''' \<and> u_user u = None \<and>
     path_text path \<and> unescape EncodeOther path = Some (u_path u) \<and> CHR ''#'' \<notin> set q \<and>
     Query q = sort_key fst (filter (\<lambda>p. fst p \<noteq> ''call_id'') (Query (u_query u)) @ [(''call_id'', callID)])"
proof -
  let ?base = "if base = '''' then sidebandURL else base"
  obtain u where u: "url_parse ?base = Some u"
    using assms unfolding DialURL_def Let_def by (cases "url_parse ?base") auto
  let ?q = "Encode (query_set ''call_id'' callID (Query (u_query u)))"
  let ?host = "escape_with host_byte (u_host u)" and ?path = "escaped_path ?base u"
  have g: "u_host u \<noteq> ''''" "u_scheme u = ''wss'' \<or> u_scheme u = ''ws''" "u_user u = None"
    "u_scheme u = ''ws'' \<Longrightarrow> Hostname u = ''localhost'' \<or> (\<exists>ip. ParseIP (Hostname u) = Some ip \<and> IsLoopback ip)"
    using assms u unfolding DialURL_def Let_def by (auto split: if_splits sum.splits option.splits)
  obtain fault where f: "connect (dial_string ?base u ?q) (''Bearer '' @ key) = Inr fault"
    "c = \<lparr>wire = [], writes = 0, wfault = fault\<rparr>"
    using assms u unfolding DialURL_def Let_def by (auto split: if_splits sum.splits option.splits)
  have s: "u_scheme u = ''wss'' \<or> u_scheme u = ''ws'' \<and> loopbackHost (Hostname u)"
    using g(2,4) loopback_name by blast
  show ?thesis
    using u f s g(1,3) escaped_host_text [of "u_host u"] escaped_path_read [OF u g(1)]
      encode_no_fragment [of "query_set ''call_id'' callID (Query (u_query u))"]
      query_encode [of "query_set ''call_id'' callID (Query (u_query u))"]
    by (intro exI [of _ u] exI [of _ "dial_string ?base u ?q"] exI [of _ ?host] exI [of _ ?path] exI [of _ ?q]
        exI [of _ fault]) (simp add: dial_string_def query_set_def)
qed

text \<open>A loaded configuration is dialled: only the spelling of \<open>localhost\<close> can still be refused.\<close>

lemma loaded_config_dials:
  assumes "Load fr pf env = Inr cfg" "url_parse (OpenAIRealtimeWSURL cfg) = Some u"
    and "u_scheme u = ''ws'' \<Longrightarrow> Hostname u = ''localhost'' \<or> (\<exists>ip. ParseIP (Hostname u) = Some ip \<and> IsLoopback ip)"
    and "\<And>target. connect target (''Bearer '' @ key) = Inr fault"
  shows "DialURL key callID (OpenAIRealtimeWSURL cfg) connect = Inr \<lparr>wire = [], writes = 0, wfault = fault\<rparr>"
proof -
  have "check_config env cfg = None" using assms(1) unfolding Load_def Let_def and_then_Inr checked_Inr by auto
  then have "validateProviderURL ''OPENAI_REALTIME_WS_URL'' (OpenAIRealtimeWSURL cfg) True = None"
    unfolding check_config_def first_error_None by simp
  then have v: "u_host u \<noteq> ''''" "u_user u = None" "u_fragment u = ''''" "u_scheme u = ''wss'' \<or> u_scheme u = ''ws''"
    using assms(2) by (auto simp: validateProviderURL_def Let_def split: if_splits)
  have "OpenAIRealtimeWSURL cfg \<noteq> ''''"
  proof
    assume "OpenAIRealtimeWSURL cfg = ''''"
    then show False using assms(2) v(1) by (auto simp: origin_eval)
  qed
  then show ?thesis using assms(2-4) v by (auto simp: DialURL_def Let_def split: option.splits)
qed

text \<open>The configuration takes any case of \<open>localhost\<close>, the dialler only the lower one.\<close>

lemma localhost_spelling:
  "validateProviderURL n ''ws://LOCALHOST/v1/realtime'' True = None \<and>
   DialURL key callID ''ws://LOCALHOST/v1/realtime'' connect =
     Inl (EText ''realtime sideband endpoint must use wss except on loopback'')"
  by (simp add: validateProviderURL_def DialURL_def loopbackHost_def ParseIP_def ParseAddr_def runes_def segments_ascii fold_rune_def origin_eval)

lemma dial_private_and_exact_witness:
  "\<exists>path q. DialURL ''sk'' ''a&call_id=b'' '''' (\<lambda>t _. if has_prefix t ''wss://api.openai.com/'' then Inr (\<lambda>_. None) else Inl (EText t)) =
       Inr \<lparr>wire = [], writes = 0, wfault = \<lambda>_. None\<rparr> \<and> path_text path \<and>
     unescape EncodeOther path = Some ''/v1/realtime'' \<and> Query q = [(''call_id'', ''a&call_id=b'')]"
proof -
  let ?connect = "\<lambda>t _. if has_prefix t ''wss://api.openai.com/'' then Inr (\<lambda>_. None) else Inl (EText t)"
  have "\<exists>u. url_parse sidebandURL = Some u \<and> u_scheme u = ''wss'' \<and> u_host u = ''api.openai.com'' \<and> u_query u = '''' \<and>
      u_user u = None \<and> u_fragment u = '''' \<and> u_path u = ''/v1/realtime''"
    by (simp add: sidebandURL_def origin_eval)
  then obtain u where u: "url_parse sidebandURL = Some u" "u_scheme u = ''wss''" "u_host u = ''api.openai.com''"
    "u_query u = ''''" "u_user u = None" "u_fragment u = ''''" "u_path u = ''/v1/realtime''" by blast
  have "escaped_path sidebandURL u = ''/v1/realtime''"
    by (simp add: escaped_path_def sidebandURL_def cut_at_def getScheme_def is_alpha_def is_digit_def byte_def path_byte_def)
  moreover have "escape_with host_byte ''api.openai.com'' = ''api.openai.com''"
    by (simp add: escape_with_def host_byte_def is_alpha_def is_digit_def byte_def)
  ultimately have d: "DialURL ''sk'' ''a&call_id=b'' '''' ?connect = Inr \<lparr>wire = [], writes = 0, wfault = \<lambda>_. None\<rparr>"
    using u by (simp add: DialURL_def Let_def dial_string_def has_prefix_def)
  have "Query '''' = []" by (simp add: Query_def query_pair_def map_filter_simps)
  with dial_private_and_exact [OF d] d u show ?thesis by fastforce
qed

end
