(* ===== verification/Provider.thy ===== *)
theory Provider
  imports Realtime_Laws Json "HOL-Library.List_Lexorder" "HOL-Library.Char_ord"
begin

text \<open>
  The deterministic stand-in for the voice provider (\<open>src/internal/dummyopenai/provider.go\<close>) against which the
  conformance tests run the desk: its HTTP endpoints, its sideband, and the endpoint line it prints.  The sixteen
  random bytes of the \<open>n\<close>-th id are an argument, as are the form the multipart reader made of a request body and
  the writes that fail.
\<close>

section \<open>State\<close>

record provider =
  pvToken :: string
  pvCalls :: "string set"

definition new_provider :: "string \<Rightarrow> provider" where
  "new_provider token = \<lparr>pvToken = token, pvCalls = {}\<rparr>"

datatype reply = Plain nat string | Body nat "(string \<times> string) list" string

definition randomID :: "string \<Rightarrow> string option \<Rightarrow> string option" where
  "randomID pre raw =
     map_option (\<lambda>bs. pre @ concat (map (\<lambda>c. [hex_digit (byte c div 16), hex_digit (byte c mod 16)]) bs)) raw"

section \<open>HTTP\<close>

text \<open>\<open>auth\<close>: \<open>Some\<close> refuses the request.\<close>

definition provider_auth :: "provider \<Rightarrow> string \<Rightarrow> string \<Rightarrow> reply option" where
  "provider_auth p path authorization =
     (if path \<noteq> ''/health'' \<and> pvToken p \<noteq> '''' \<and> authorization \<noteq> ''Bearer '' @ pvToken p
      then Some (Plain 401 ''unauthorized'') else None)"

definition provider_health :: reply where
  "provider_health = Body 200 [(''Content-Type'', ''application/json'')] (json_text
     (JObj [(''status'', JStr ''ok''), (''provider'', JStr ''dummy-openai'')]))"

text \<open>\<open>form\<close>: what \<open>FormValue\<close> returns, if the body is a multipart form.\<close>

definition createCall :: "(string \<Rightarrow> string) option \<Rightarrow> string option \<Rightarrow> provider \<Rightarrow> reply \<times> provider" where
  "createCall form raw p =
     (case form of
        None \<Rightarrow> (Plain 400 ''invalid multipart body'', p)
      | Some f \<Rightarrow>
          if trim_space (f ''sdp'') = '''' then (Plain 400 ''missing sdp'', p)
          else let session = json_parse (f ''session'') in
          if session = None \<or> \<not> obj_ok session then (Plain 400 ''invalid session json'', p)
          else (case randomID ''rtc_dummy_'' raw of
              None \<Rightarrow> (Plain 500 ''random id'', p)
            | Some callID \<Rightarrow>
                (Body 201 [(''Location'', ''/v1/realtime/calls/'' @ callID), (''Content-Type'', ''application/sdp'')]
                   (''v=0'' @ [CHR 0x0D, line_break] @ ''s=dummy-openai'' @ [CHR 0x0D, line_break]),
                 p\<lparr>pvCalls := insert callID (pvCalls p)\<rparr>)))"

definition provider_speech :: "string \<Rightarrow> reply" where
  "provider_speech body =
     (let v = decode_body (take 1048576 body); input = json_get ''input'' v in
      if v = None \<or> \<not> str_ok input \<or> str_of input = '''' then Plain 400 ''invalid speech request''
      else Body 200 [(''Content-Type'', ''audio/mpeg'')]
        (''ID3'' @ [CHR 0x04] @ replicate 6 (CHR 0x00) @ ''DUMMY''))"

definition provider_chat :: "string \<Rightarrow> reply" where
  "provider_chat body =
     (let v = decode_body (take 1048576 body); messages = json_get ''messages'' v in
      if v = None \<or> \<not> arr_ok messages \<or> arr_of messages = [] then Plain 400 ''invalid chat request''
      else Body 200 [(''Content-Type'', ''application/json'')] (json_text (JObj
        [(''choices'', JArr [JObj [(''message'', JObj [(''content'', JStr ''deterministic dummy summary''),
            (''role'', JStr ''assistant'')])]]),
         (''id'', JStr ''chatcmpl_dummy''),
         (''usage'', JObj [(''completion_tokens'', JNum ''1''), (''prompt_tokens'', JNum ''1'')])]) @ [line_break]))"

section \<open>The sideband\<close>

text \<open>
  The connection: the frames that reached the client; the \<open>n\<close>-th write fails if \<open>scFault n\<close>, and the bytes of the
  \<open>n\<close>-th response id are \<open>scRandom n\<close>.
\<close>

record sideband_conn =
  scOut :: "json list"
  scWrites :: nat
  scFault :: "nat \<Rightarrow> bool"
  scIDs :: nat
  scRandom :: "nat \<Rightarrow> string option"

text \<open>Frames in order; the flag of a frame says whether the loop ends when its write fails.\<close>

fun writeFrames :: "(json \<times> bool) list \<Rightarrow> sideband_conn \<Rightarrow> bool \<times> sideband_conn" where
  "writeFrames [] c = (True, c)"
| "writeFrames ((v, fatal) # fs) c =
     (let c' = c\<lparr>scWrites := Suc (scWrites c)\<rparr> in
      if scFault c (scWrites c) then (if fatal then (False, c') else writeFrames fs c')
      else writeFrames fs (c'\<lparr>scOut := scOut c @ [v]\<rparr>))"

definition error_frame :: "string \<Rightarrow> string \<Rightarrow> json" where
  "error_frame code msg = JObj [(''error'', JObj [(''code'', JStr code), (''message'', JStr msg),
     (''type'', JStr ''invalid_request_error'')]), (''type'', JStr ''error'')]"

text \<open>A decoded \<open>map[string]string\<close> encoded again: one member per key, in order; a nil map is \<open>null\<close>.\<close>

definition metadata_json :: "json option \<Rightarrow> json" where
  "metadata_json m = (case m of
      Some (JObj ms) \<Rightarrow> JObj (map (\<lambda>k. (k, JStr (dict_get k m))) (sort (remdups (map fst ms))))
    | _ \<Rightarrow> JNull)"

definition response_frames :: "string \<Rightarrow> json \<Rightarrow> json list" where
  "response_frames rid meta =
     [JObj [(''response'', JObj [(''id'', JStr rid), (''metadata'', meta)]), (''type'', JStr ''response.created'')],
      JObj [(''response_id'', JStr rid), (''type'', JStr ''output_audio_buffer.started'')],
      JObj [(''transcript'', JStr ''deterministic dummy response''),
        (''type'', JStr ''response.output_audio_transcript.done'')],
      JObj [(''response'', JObj [(''id'', JStr rid), (''metadata'', meta), (''status'', JStr ''completed''),
          (''usage'', JObj [(''input_tokens'', JNum ''1''), (''output_tokens'', JNum ''1'')])]),
        (''type'', JStr ''response.done'')],
      JObj [(''response_id'', JStr rid), (''type'', JStr ''output_audio_buffer.stopped'')]]"

definition head_ok :: "json option \<Rightarrow> bool" where
  "head_ok v \<longleftrightarrow> v \<noteq> None \<and> obj_ok v \<and> str_ok (json_get ''type'' v) \<and> str_ok (json_get ''event_id'' v) \<and>
     obj_ok (json_get ''response'' v) \<and> dict_ok (json_get ''metadata'' (json_get ''response'' v))"

text \<open>One frame of the client: whether the loop goes on.\<close>

definition sideband_step :: "string \<Rightarrow> string \<Rightarrow> sideband_conn \<Rightarrow> bool \<times> sideband_conn" where
  "sideband_step callID raw c =
     (let v = json_parse raw; kind = str_of (json_get ''type'' v) in
      if \<not> head_ok v then writeFrames [(error_frame ''invalid_json'' ''invalid JSON'', False)] c
      else if kind = ''session.update''
      then writeFrames [(JObj [(''session'', JObj [(''id'', JStr callID)]), (''type'', JStr ''session.updated'')], False)] c
      else if kind = ''response.create'' then
        (if str_of (json_get ''event_id'' v) = ''''
         then writeFrames [(error_frame ''missing_event_id'' ''response.create requires event_id'', False)] c
         else (case randomID ''resp_dummy_'' (scRandom c (scIDs c)) of
             None \<Rightarrow> (False, c\<lparr>scIDs := Suc (scIDs c)\<rparr>)
           | Some rid \<Rightarrow>
               writeFrames (zip (response_frames rid (metadata_json (json_get ''metadata'' (json_get ''response'' v))))
                 [True, True, True, True, False]) (c\<lparr>scIDs := Suc (scIDs c)\<rparr>)))
      else if kind = ''response.cancel''
      then writeFrames [(JObj [(''response'', JObj [(''status'', JStr ''cancelled'')]), (''type'', JStr ''response.done'')], False)] c
      else if kind = ''conversation.item.create'' then (True, c)
      else writeFrames [(error_frame ''unsupported_event'' ''unsupported event type'', False)] c)"

fun sideband_loop :: "string \<Rightarrow> string list \<Rightarrow> sideband_conn \<Rightarrow> sideband_conn" where
  "sideband_loop callID [] c = c"
| "sideband_loop callID (raw # raws) c =
     (case sideband_step callID raw c of (go, c) \<Rightarrow> if go then sideband_loop callID raws c else c)"

text \<open>\<open>None\<close>: the call is unknown and the request answered with 404.\<close>

definition sideband :: "string \<Rightarrow> string list \<Rightarrow> provider \<Rightarrow> sideband_conn \<Rightarrow> sideband_conn option" where
  "sideband callID raws p c =
     (if callID \<notin> pvCalls p then None
      else Some (case writeFrames [(JObj [(''session'', JObj [(''id'', JStr callID)]),
               (''type'', JStr ''session.created'')], True)] c of
          (go, c) \<Rightarrow> if go then sideband_loop callID raws c else c))"

section \<open>The endpoint line\<close>

definition EndpointJSON :: "string \<Rightarrow> error + string" where
  "EndpointJSON baseURL =
     (let wsURL = ''ws'' @ (if has_prefix baseURL ''http'' then drop 4 baseURL else baseURL) @ ''/v1/realtime'' in
      if \<not> has_prefix baseURL ''http://'' \<and> \<not> has_prefix baseURL ''https://''
      then Inl (EText (''unsupported base URL '' @ quoted baseURL))
      else Inr (json_text (JObj [(''base_url'', JStr baseURL), (''realtime_ws_url'', JStr wsURL)])))"

definition ParseEndpoint :: "string \<Rightarrow> error + string \<times> string" where
  "ParseEndpoint line =
     (let v = json_parse line; b = json_get ''base_url'' v; ws = json_get ''realtime_ws_url'' v in
      if v = None \<or> \<not> obj_ok v \<or> \<not> str_ok b \<or> \<not> str_ok ws \<or> str_of b = '''' \<or> str_of ws = ''''
      then Inl (EText ''invalid dummy provider endpoint line'')
      else Inr (str_of b, str_of ws))"

section \<open>Conformance\<close>

text \<open>The stand-in speaks the protocol that the sideband client reads.\<close>

lemma hex_digit_ascii: "d < 16 \<Longrightarrow> byte (hex_digit d) < 128"
  by (auto simp: hex_digit_def)

lemma randomID_ascii: "randomID pre raw = Some rid \<Longrightarrow> ascii pre \<Longrightarrow> ascii rid"
proof -
  have "byte c div 16 < 16" for c using byte_less [of c] by (intro less_mult_imp_div_less) simp
  then have "ascii (concat (map (\<lambda>c. [hex_digit (byte c div 16), hex_digit (byte c mod 16)]) bs))" for bs
    by (induction bs) (simp_all add: hex_digit_ascii)
  then show "randomID pre raw = Some rid \<Longrightarrow> ascii pre \<Longrightarrow> ?thesis" by (auto simp: randomID_def)
qed

lemma writes_through:
  "(\<And>n. \<not> scFault c n) \<Longrightarrow>
   writeFrames fs c = (True, c\<lparr>scWrites := scWrites c + length fs, scOut := scOut c @ map fst fs\<rparr>)"
  by (induction fs arbitrary: c) (auto simp: Let_def)

text \<open>The metadata of the client's request, as the provider decodes and encodes it.\<close>

lemma request_metadata:
  "metadata_json (Some (JObj [(requestMetadataKey, JStr ev)])) = JObj [(requestMetadataKey, JStr ev)]"
  by (simp add: metadata_json_def)

definition request_meta :: "string \<Rightarrow> json" where
  "request_meta ev = JObj [(requestMetadataKey, JStr ev)]"

lemma create_parse:
  "valid_text ev \<Longrightarrow> json_parse (json_text (create_response ev)) = Some (create_response ev)"
  by (rule json_roundtrip) (simp_all add: create_response_def requestMetadataKey_def ascii_valid byte_def)

lemma create_step:
  assumes "valid_text ev" "ev \<noteq> ''''" "\<And>n. \<not> scFault c n"
    and "randomID ''resp_dummy_'' (scRandom c (scIDs c)) = Some rid"
  shows "\<exists>c'. sideband_step callID (json_text (create_response ev)) c = (True, c') \<and>
    scOut c' = scOut c @ response_frames rid (request_meta ev)"
proof -
  have h: "head_ok (Some (create_response ev))"
    by (simp add: head_ok_def create_response_def key_simps requestMetadataKey_def)
  have k: "str_of (json_get ''type'' (Some (create_response ev))) = ''response.create''"
    "str_of (json_get ''event_id'' (Some (create_response ev))) = ev"
    "json_get ''metadata'' (json_get ''response'' (Some (create_response ev))) = Some (request_meta ev)"
    by (simp_all add: create_response_def request_meta_def key_simps)
  have m: "metadata_json (Some (request_meta ev)) = request_meta ev"
    by (simp add: request_meta_def request_metadata)
  have "length (response_frames rid (request_meta ev)) = 5" by (simp add: response_frames_def)
  then have z: "map fst (zip (response_frames rid (request_meta ev)) [True, True, True, True, False]) =
      response_frames rid (request_meta ev)" by simp
  show ?thesis
    using assms(2-4) writes_through [of "c\<lparr>scIDs := Suc (scIDs c)\<rparr>"]
    by (simp add: sideband_step_def Let_def create_parse [OF assms(1)] h k m z)
qed

section \<open>What the client reads\<close>

lemma frames_parse:
  assumes "ascii rid" "valid_text ev" and "v \<in> set (response_frames rid (request_meta ev))"
  shows "json_parse (json_text v) = Some v"
proof (rule json_roundtrip)
  show "well_formed v"
    using assms by (auto simp: response_frames_def request_meta_def requestMetadataKey_def ascii_valid byte_def number_ok_def
        digit_def number_char_def fraction_ok_def)
  show "json_depth v \<le> 10000" using assms(3) by (auto simp: response_frames_def request_meta_def)
qed

text \<open>
  C24. The stand-in answers what the desk's client asks.  When the client's \<open>response.create\<close> with event id \<open>ev\<close>
  reaches it and no write fails, the provider sends exactly five frames, which the client reads as
  response created, audio started, transcript, response done and audio stopped, in this order; they all name the one
  new response, the first and the fourth give back \<open>ev\<close> as the request they answer, and the response is completed
  and calls no function.
\<close>

theorem provider_conforms:
  assumes "valid_text ev" "ev \<noteq> ''''" "\<And>n. \<not> scFault c n"
    and "randomID ''resp_dummy_'' (scRandom c (scIDs c)) = Some rid"
  shows "\<exists>c' a b t d e. sideband_step callID (json_text (create_response ev)) c = (True, c') \<and>
    map json_text (scOut c') = map json_text (scOut c) @ [a, b, t, d, e] \<and>
    map (read_frame jerr) [a, b, t, d, e] = map Inr
      [\<lparr>evType = EvResponseCreated, evRaw = a\<rparr>, \<lparr>evType = EvOutputAudioStarted, evRaw = b\<rparr>,
       \<lparr>evType = EvOutputTranscriptDone, evRaw = t\<rparr>, \<lparr>evType = EvResponseDone, evRaw = d\<rparr>,
       \<lparr>evType = EvOutputAudioStopped, evRaw = e\<rparr>] \<and>
    ExtractResponseRef a = \<lparr>refID = rid, refRequestID = ev\<rparr> \<and> ExtractAudioResponseID b = rid \<and>
    ExtractResponseRef d = \<lparr>refID = rid, refRequestID = ev\<rparr> \<and> ExtractResponseStatus d = ''completed'' \<and>
    ExtractFuncCalls d = [] \<and> ExtractUsage d = \<lparr>InputTokens = 1, OutputTokens = 1\<rparr> \<and> ExtractAudioResponseID e = rid"
proof -
  have rid: "ascii rid" using randomID_ascii [OF assms(4)] by (simp add: byte_def)
  obtain c' where c: "sideband_step callID (json_text (create_response ev)) c = (True, c')"
      "scOut c' = scOut c @ response_frames rid (request_meta ev)"
    using create_step [OF assms] by blast
  note parse = frames_parse [OF rid assms(1)]
  let ?fs = "response_frames rid (request_meta ev)"
  have p: "json_parse (json_text (?fs ! i)) = Some (?fs ! i)" if "i < 5" for i
    using that by (intro parse nth_mem) (simp add: response_frames_def)
  have fs: "?fs = [?fs ! 0, ?fs ! 1, ?fs ! 2, ?fs ! 3, ?fs ! 4]" by (simp add: response_frames_def)
  have out: "map json_text (scOut c') = map json_text (scOut c) @
      [json_text (?fs ! 0), json_text (?fs ! 1), json_text (?fs ! 2), json_text (?fs ! 3), json_text (?fs ! 4)]"
    by (simp add: c(2)) (subst fs, simp)
  note facts = response_frames_def request_meta_def key_simps requestMetadataKey_def response_of_def map_filter_simps
    event_names digit_def
  have rf: "map (read_frame jerr) [json_text (?fs ! 0), json_text (?fs ! 1), json_text (?fs ! 2), json_text (?fs ! 3),
        json_text (?fs ! 4)] = map Inr
      [\<lparr>evType = EvResponseCreated, evRaw = json_text (?fs ! 0)\<rparr>, \<lparr>evType = EvOutputAudioStarted, evRaw = json_text (?fs ! 1)\<rparr>,
       \<lparr>evType = EvOutputTranscriptDone, evRaw = json_text (?fs ! 2)\<rparr>, \<lparr>evType = EvResponseDone, evRaw = json_text (?fs ! 3)\<rparr>,
       \<lparr>evType = EvOutputAudioStopped, evRaw = json_text (?fs ! 4)\<rparr>]"
    by (simp add: read_frame_def p del: json_text.simps) (simp add: facts del: json_text.simps)
  have ref: "ExtractResponseRef (json_text (?fs ! 0)) = \<lparr>refID = rid, refRequestID = ev\<rparr>"
      "ExtractResponseRef (json_text (?fs ! 3)) = \<lparr>refID = rid, refRequestID = ev\<rparr>"
    by (simp_all add: ExtractResponseRef_def response_of_def p del: json_text.simps) (simp_all add: facts del: json_text.simps)
  have audio: "ExtractAudioResponseID (json_text (?fs ! 1)) = rid" "ExtractAudioResponseID (json_text (?fs ! 4)) = rid"
    by (simp_all add: ExtractAudioResponseID_def p del: json_text.simps) (simp_all add: facts del: json_text.simps)
  have finished: "ExtractResponseStatus (json_text (?fs ! 3)) = ''completed''" "ExtractFuncCalls (json_text (?fs ! 3)) = []"
      "ExtractUsage (json_text (?fs ! 3)) = \<lparr>InputTokens = 1, OutputTokens = 1\<rparr>"
    by (simp_all add: ExtractResponseStatus_def ExtractFuncCalls_def ExtractUsage_def response_of_def p del: json_text.simps)
      (simp_all add: facts del: json_text.simps)
  show ?thesis using c(1) out rf ref audio finished by blast
qed

definition demo_conn :: sideband_conn where
  "demo_conn = \<lparr>scOut = [], scWrites = 0, scFault = (\<lambda>_. False), scIDs = 0, scRandom = (\<lambda>_. Some (replicate 16 (CHR ''A'')))\<rparr>"

lemma provider_conforms_witness:
  "\<exists>c' a b t d e. sideband_step ''rtc_1'' (json_text (create_response ''thornhill_1'')) demo_conn = (True, c') \<and>
     map json_text (scOut c') = [a, b, t, d, e] \<and> refRequestID (ExtractResponseRef d) = ''thornhill_1''"
proof -
  obtain rid where rid: "randomID ''resp_dummy_'' (scRandom demo_conn (scIDs demo_conn)) = Some rid"
    by (simp add: randomID_def demo_conn_def)
  have "valid_text ''thornhill_1''" by (simp add: ascii_valid byte_def)
  from provider_conforms [OF this _ _ rid, of "''rtc_1''" id] show ?thesis
    by (fastforce simp: demo_conn_def)
qed

section \<open>The endpoint line\<close>

text \<open>The line the provider prints is the one its starter reads, and the sideband has the scheme's own web socket.\<close>

lemma shorter_prefix: "has_prefix s p \<Longrightarrow> has_prefix s (take n p)"
  unfolding has_prefix_def by (metis length_take min.commute take_take)

lemma endpoint_roundtrip:
  assumes "ascii base" "EndpointJSON base = Inr line"
  shows "ParseEndpoint line = Inr (base, ''ws'' @ drop 4 base @ ''/v1/realtime'')"
proof -
  let ?ws = "''ws'' @ drop 4 base @ ''/v1/realtime''"
  let ?v = "JObj [(''base_url'', JStr base), (''realtime_ws_url'', JStr ?ws)]"
  have h: "has_prefix base ''http''" "base \<noteq> ''''"
    using assms(2) shorter_prefix [of base "''http://''" 4] shorter_prefix [of base "''https://''" 4]
    by (auto simp: EndpointJSON_def has_prefix_def Let_def split: if_splits)
  then have l: "line = json_text ?v" using assms(2) by (simp add: EndpointJSON_def Let_def split: if_splits)
  have "ascii (drop 4 base)" using assms(1) by (auto simp: ascii_def list_all_iff dest: in_set_dropD)
  then have "ascii ?ws" by (simp add: byte_def)
  then have "json_parse line = Some ?v"
    unfolding l using assms(1) by (intro json_roundtrip) (simp_all add: ascii_valid byte_def)
  then show ?thesis using h(2) by (simp add: ParseEndpoint_def key_simps)
qed

end
