(* ===== verification/Tts.thy ===== *)
theory Tts
  imports Provider Config "HOL-Library.Multiset"
begin

text \<open>
  The spoken error messages (\<open>src/internal/audio/tts.go\<close>): synthesis through the speech endpoint, and the phrases
  that are synthesized at start and kept as files.  The directory is a partial map from paths to contents.  Arguments
  are the replies of the provider, the outcome of each write (\<open>None\<close>, or what a failed write left of the file) and the
  order in which Go iterates over the map of phrases.
\<close>

definition Canned :: "(string \<times> string) list" where
  "Canned =
     [(''voice_lost'', ''Voice connection lost. Reconnecting.''),
      (''voice_down'', ''Voice service is unavailable. Jobs continue in the background.''),
      (''backend_error'', ''Backend error. Check the board when you can.''),
      (''resume_ok'', ''Voice link restored.''),
      (''approval_needed'', ''A background job needs your approval. Resume voice and I will explain.''),
      (''budget_tripped'', ''Daily voice budget reached. Voice is paused; text and board still work.'')]"

record tts =
  ttsKey :: string
  ttsBase :: string
  ttsModel :: string
  ttsVoice :: string
  ttsDir :: string

definition new_tts :: "string \<Rightarrow> string \<Rightarrow> string \<Rightarrow> string \<Rightarrow> string \<Rightarrow> tts" where
  "new_tts key base model voice dir =
     \<lparr>ttsKey = key, ttsBase = trim_right CHR ''/'' base, ttsModel = model, ttsVoice = voice, ttsDir = dir\<rparr>"

section \<open>Speak\<close>

record speech_request =
  srURL :: string
  srAuthorization :: string
  srBody :: string

text \<open>An error of the request or the transport; or the status, the body, and the error that cut it off.\<close>

datatype speech_reply = SpeechError error | SpeechReply nat string "error option"

definition speech_request :: "tts \<Rightarrow> string \<Rightarrow> speech_request" where
  "speech_request t txt =
     \<lparr>srURL = ttsBase t @ ''/v1/audio/speech'', srAuthorization = ''Bearer '' @ ttsKey t,
      srBody = json_text (JObj [(''input'', JStr txt), (''model'', JStr (ttsModel t)),
        (''response_format'', JStr ''mp3''), (''voice'', JStr (ttsVoice t))])\<rparr>"

fun speech_result :: "speech_reply \<Rightarrow> error + string" where
  "speech_result (SpeechError e) = Inl e"
| "speech_result (SpeechReply code body broken) =
     (if code div 100 \<noteq> 2 then Inl (EText (''tts http '' @ nat_text code @ '': '' @ take 1024 body))
      else (case broken of Some e \<Rightarrow> Inl e | None \<Rightarrow> Inr body))"

definition Speak :: "tts \<Rightarrow> (speech_request \<Rightarrow> speech_reply) \<Rightarrow> string \<Rightarrow> error + string" where
  "Speak t post txt = speech_result (post (speech_request t txt))"

section \<open>Paths: filepath.Clean and filepath.Join\<close>

definition clean_step :: "bool \<Rightarrow> string list \<Rightarrow> string \<Rightarrow> string list" where
  "clean_step rooted st e =
     (if e = '''' \<or> e = ''.'' then st
      else if e = ''..'' then (if st = [] \<and> rooted then [] else if st = [] \<or> hd st = ''..'' then ''..'' # st else tl st)
      else e # st)"

definition cleaned_path :: "string \<Rightarrow> string" where
  "cleaned_path p =
     (let rooted = has_prefix p ''/'';
          body = join ''/'' (rev (foldl (clean_step rooted) [] (split_on CHR ''/'' p))) in
      if rooted then ''/'' @ body else if body = '''' then ''.'' else body)"

definition join_path :: "string \<Rightarrow> string \<Rightarrow> string" where
  "join_path dir name = cleaned_path (if dir = '''' then name else dir @ ''/'' @ name)"

definition phrase_path :: "tts \<Rightarrow> string \<Rightarrow> string" where
  "phrase_path t key = join_path (ttsDir t) (key @ ''.mp3'')"

section \<open>Prebake\<close>

text \<open>The files, and the requests that were made with their replies; \<open>post n\<close> answers the \<open>n\<close>-th.\<close>

record prebake =
  pbFiles :: "string \<rightharpoonup> string"
  pbLog :: "(speech_request \<times> speech_reply) list"

type_synonym file_writes = "string \<Rightarrow> string \<Rightarrow> string option option"

definition left_on_disk :: "file_writes \<Rightarrow> string \<Rightarrow> string \<Rightarrow> string option" where
  "left_on_disk wr path data = (case wr path data of None \<Rightarrow> Some data | Some rest \<Rightarrow> rest)"

definition prebake_one ::
  "tts \<Rightarrow> (nat \<Rightarrow> speech_request \<Rightarrow> speech_reply) \<Rightarrow> file_writes \<Rightarrow> string \<times> string \<Rightarrow> prebake \<Rightarrow> prebake" where
  "prebake_one t post wr = (\<lambda>(key, txt) s.
     (let path = phrase_path t key; req = speech_request t txt; rep = post (length (pbLog s)) req in
      if pbFiles s path \<noteq> None then s
      else (case Speak t (post (length (pbLog s))) txt of
          Inl e \<Rightarrow> s\<lparr>pbLog := pbLog s @ [(req, rep)]\<rparr>
        | Inr data \<Rightarrow> s\<lparr>pbLog := pbLog s @ [(req, rep)], pbFiles := (pbFiles s)(path := left_on_disk wr path data)\<rparr>)))"

definition Prebake ::
  "tts \<Rightarrow> bool \<Rightarrow> (nat \<Rightarrow> speech_request \<Rightarrow> speech_reply) \<Rightarrow> file_writes \<Rightarrow> (string \<times> string) list \<Rightarrow>
   prebake \<Rightarrow> prebake" where
  "Prebake t mkdir_fails post wr order s =
     (if mkdir_fails then s else fold (prebake_one t post wr) order s)"

section \<open>The phrases have paths of their own\<close>

lemma join_last:
  "join ''/'' (xs @ [n]) = (if xs = [] then n else join ''/'' xs @ ''/'' @ n)"
  by (induction "''/''" xs rule: join.induct) auto

lemma split_slash: "d \<notin> set n \<Longrightarrow> split_on d (s @ d # n) = split_on d s @ [n]"
proof (induction s)
  case (Cons c s)
  have "split_on d s \<noteq> []" by (induction s) (auto split: list.splits)
  then show ?case using Cons by (cases "split_on d s") auto
qed (simp add: split_whole)

definition plain_name :: "string \<Rightarrow> bool" where
  "plain_name n \<longleftrightarrow> CHR ''/'' \<notin> set n \<and> n \<notin> {'''', ''.'', ''..''}"

lemma join_path_last: "\<exists>front. \<forall>n. plain_name n \<longrightarrow> join_path dir n = front @ n"
proof (cases "dir = ''''")
  case True
  have "join_path dir n = [] @ n" if n: "plain_name n" for n
  proof -
    have "\<not> has_prefix n ''/''" "split_on CHR ''/'' n = [n]"
      using n by (auto simp: plain_name_def has_prefix_def split_whole take_Suc_conv_app_nth neq_Nil_conv split: list.splits)
    then show ?thesis using n True by (simp add: join_path_def cleaned_path_def clean_step_def plain_name_def)
  qed
  then show ?thesis by blast
next
  case False
  let ?r = "has_prefix dir ''/''"
  let ?st = "rev (foldl (clean_step ?r) [] (split_on CHR ''/'' dir))"
  let ?front = "(if ?r then ''/'' else '''') @ (if ?st = [] then '''' else join ''/'' ?st @ ''/'')"
  have "join_path dir n = ?front @ n" if n: "plain_name n" for n
  proof -
    have "has_prefix (dir @ ''/'' @ n) ''/'' = ?r" using False by (cases dir) (simp_all add: has_prefix_def)
    moreover have "split_on CHR ''/'' (dir @ ''/'' @ n) = split_on CHR ''/'' dir @ [n]"
      using n split_slash [of "CHR ''/''" n dir] by (simp add: plain_name_def)
    ultimately show ?thesis
      using False n by (simp add: join_path_def cleaned_path_def clean_step_def plain_name_def join_last)
  qed
  then show ?thesis by blast
qed

lemma canned_names: "(k, a) \<in> set Canned \<Longrightarrow> plain_name (k @ ''.mp3'')"
  by (auto simp: Canned_def plain_name_def)

lemma distinct_paths: "distinct (map (\<lambda>(k, a). phrase_path t k) Canned)"
proof -
  obtain front where "plain_name n \<Longrightarrow> join_path (ttsDir t) n = front @ n" for n
    using join_path_last by blast
  then have "map (\<lambda>(k, a). phrase_path t k) Canned = map (\<lambda>k. front @ k @ ''.mp3'') (map fst Canned)"
    using canned_names by (auto simp: phrase_path_def)
  moreover have "inj_on (\<lambda>k. front @ k @ ''.mp3'') X" for X by (simp add: inj_on_def)
  moreover have "distinct (map fst Canned)" by (simp add: Canned_def)
  ultimately show ?thesis by (simp only: distinct_map)
qed

section \<open>One run\<close>

definition missing :: "tts \<Rightarrow> prebake \<Rightarrow> (string \<times> string) list \<Rightarrow> (string \<times> string) list" where
  "missing t s order = filter (\<lambda>(k, a). pbFiles s (phrase_path t k) = None) order"

definition settle :: "file_writes \<Rightarrow> string \<Rightarrow> speech_reply \<Rightarrow> string option" where
  "settle wr path rep = (case speech_result rep of Inl e \<Rightarrow> None | Inr data \<Rightarrow> left_on_disk wr path data)"

lemma prebake_one_eq:
  "prebake_one t post wr (k, a) s =
     (if pbFiles s (phrase_path t k) \<noteq> None then s
      else let rep = post (length (pbLog s)) (speech_request t a) in
        \<lparr>pbFiles = (pbFiles s)(phrase_path t k := settle wr (phrase_path t k) rep),
         pbLog = pbLog s @ [(speech_request t a, rep)], \<dots> = prebake.more s\<rparr>)"
  by (auto simp: prebake_one_def Speak_def settle_def Let_def fun_upd_idem split: sum.splits)

lemma missing_later:
  "phrase_path t k \<notin> (\<lambda>(k, a). phrase_path t k) ` set order \<Longrightarrow>
   missing t \<lparr>pbFiles = (pbFiles s)(phrase_path t k := x), pbLog = l, \<dots> = m\<rparr> order = missing t s order"
  unfolding missing_def by (intro filter_cong) (auto simp: image_iff)

lemma prebake_run:
  "distinct (map (\<lambda>(k, a). phrase_path t k) order) \<Longrightarrow> s' = fold (prebake_one t post wr) order s \<Longrightarrow>
   \<exists>reps. length reps = length (missing t s order) \<and>
     pbLog s' = pbLog s @ zip (map (\<lambda>(k, a). speech_request t a) (missing t s order)) reps \<and>
     list_all2 (\<lambda>(k, a) rep. pbFiles s' (phrase_path t k) = settle wr (phrase_path t k) rep) (missing t s order) reps \<and>
     (\<forall>p. p \<notin> (\<lambda>(k, a). phrase_path t k) ` set (missing t s order) \<longrightarrow> pbFiles s' p = pbFiles s p)"
proof (induction order arbitrary: s)
  case (Cons ka order)
  obtain k a where ka: "ka = (k, a)" by force
  show ?case
  proof (cases "pbFiles s (phrase_path t k) = None")
    case False
    then have "missing t s (ka # order) = missing t s order" by (auto simp: missing_def ka)
    then show ?thesis using Cons.IH [of s] Cons.prems False by (simp add: ka prebake_one_eq)
  next
    case True
    let ?req = "speech_request t a" and ?path = "phrase_path t k"
    let ?rep = "post (length (pbLog s)) ?req"
    let ?s = "\<lparr>pbFiles = (pbFiles s)(?path := settle wr ?path ?rep), pbLog = pbLog s @ [(?req, ?rep)], \<dots> = prebake.more s\<rparr>"
    have fresh: "?path \<notin> (\<lambda>(k, a). phrase_path t k) ` set order" using Cons.prems(1) by (simp add: ka)
    have s': "s' = fold (prebake_one t post wr) order ?s" using Cons.prems(2) True by (simp add: ka prebake_one_eq Let_def)
    have m: "missing t ?s order = missing t s order" using missing_later [OF fresh] by simp
    have mc: "missing t s (ka # order) = ka # missing t s order" using True by (simp add: missing_def ka)
    have sub: "set (missing t s order) \<subseteq> set order" by (auto simp: missing_def)
    obtain reps where r: "length reps = length (missing t s order)"
      "pbLog s' = pbLog ?s @ zip (map (\<lambda>(k, a). speech_request t a) (missing t s order)) reps"
      "list_all2 (\<lambda>(k, a) rep. pbFiles s' (phrase_path t k) = settle wr (phrase_path t k) rep) (missing t s order) reps"
      "\<And>p. p \<notin> (\<lambda>(k, a). phrase_path t k) ` set (missing t s order) \<Longrightarrow> pbFiles s' p = pbFiles ?s p"
      using Cons.IH [OF _ s'] Cons.prems(1) unfolding m by auto
    have "pbFiles s' ?path = settle wr ?path ?rep" using r(4) [of ?path] fresh sub by auto
    moreover have "pbFiles s' p = pbFiles s p" if "p \<notin> (\<lambda>(k, a). phrase_path t k) ` set (ka # missing t s order)" for p
      using r(4) [of p] that by (simp add: ka)
    ultimately show ?thesis
      unfolding mc using r(1-3) by (intro exI [of _ "?rep # reps"]) (simp add: ka)
  qed
qed (simp add: missing_def)

text \<open>
  The spoken error messages are made once each and never overwritten.  Whatever the order in which the phrases
  are visited, a run asks the provider exactly for the phrases that are not on disk, once each; each of those files
  then is what its own reply and its own write left (the audio, or nothing when the provider failed), so that one
  failing phrase never costs another; and no other file of the directory changes.
\<close>

lemma prebake_once:
  assumes "mset order = mset Canned" and s': "s' = Prebake t False post wr order s" and todo: "todo = missing t s order"
  shows "\<exists>reps. pbLog s' = pbLog s @ zip (map (\<lambda>(k, a). speech_request t a) todo) reps \<and> length reps = length todo \<and>
     distinct todo \<and> set todo = {(k, a) \<in> set Canned. pbFiles s (phrase_path t k) = None} \<and>
     list_all2 (\<lambda>(k, a) rep. pbFiles s' (phrase_path t k) = settle wr (phrase_path t k) rep) todo reps \<and>
     (\<forall>p. p \<notin> (\<lambda>(k, a). phrase_path t k) ` set todo \<longrightarrow> pbFiles s' p = pbFiles s p)"
proof -
  let ?p = "\<lambda>(k, a). phrase_path t k"
  have "mset (map ?p order) = mset (map ?p Canned)" using assms(1) by simp
  then have d: "distinct (map ?p order)" using distinct_paths mset_eq_imp_distinct_iff by blast
  then have "distinct todo" by (simp add: todo missing_def distinct_map)
  moreover have "set todo = {(k, a) \<in> set Canned. pbFiles s (phrase_path t k) = None}"
    using mset_eq_setD [OF assms(1)] by (auto simp: todo missing_def)
  ultimately show ?thesis
    using prebake_run [OF d, of s' post wr s] by (simp add: s' Prebake_def todo) blast
qed

text \<open>When every phrase was made, the next start asks for nothing.\<close>

lemma prebake_again:
  assumes "\<forall>(k, a)\<in>set order. pbFiles s (phrase_path t k) \<noteq> None"
  shows "Prebake t b post wr order s = s"
proof -
  have "fold (prebake_one t post wr) order s = s" using assms by (induction order) (auto simp: prebake_one_eq)
  then show ?thesis by (simp add: Prebake_def)
qed

text \<open>
  A write that fails half way leaves a file, and the next start takes it for the phrase: it is never made again.
\<close>

lemma truncated_phrase_stays:
  assumes "(k, a) \<in> set Canned" "pbFiles s (phrase_path t k) = None"
    and "speech_result (post (length (pbLog s)) (speech_request t a)) = Inr data" "wr (phrase_path t k) data = Some (Some part)"
  shows "pbFiles (prebake_one t post' wr' (k, a) (prebake_one t post wr (k, a) s)) (phrase_path t k) = Some part"
  using assms by (simp add: prebake_one_eq settle_def left_on_disk_def Let_def)

section \<open>Against the stand-in\<close>

text \<open>The routes of the stand-in as the speech endpoint; \<open>http.Error\<close> ends its text with a line break.\<close>

definition stand_in_speech :: "provider \<Rightarrow> speech_request \<Rightarrow> speech_reply" where
  "stand_in_speech p r =
     (case (case provider_auth p ''/v1/audio/speech'' (srAuthorization r) of
              Some e \<Rightarrow> e | None \<Rightarrow> provider_speech (srBody r)) of
        Plain code txt \<Rightarrow> SpeechReply code (txt @ [line_break]) None
      | Body code hs body \<Rightarrow> SpeechReply code body None)"

lemma decode_text:
  assumes "well_formed v" "json_depth v \<le> 10000" "obj_ok (Some v)" and "tail = [] \<or> tail = [line_break]"
  shows "decode_body (json_text v @ tail) = Some v"
proof -
  have "runes (json_text v) = json_code v"
    using assms(1) json_code_valid by (simp add: json_text_code runes_of_runes)
  moreover have "byte line_break = 10" by (simp add: line_break_def byte_def)
  ultimately have r: "runes (json_text v @ tail) = json_code v @ map byte tail"
    using assms(4) segments_append_ascii [of line_break "json_text v" "[]"] by (auto simp: runes_def)
  have "ends (map byte tail)" using assms(4) by (auto simp: ends_def number_char_def digit_def line_break_def byte_def)
  then have "json_value (Suc (2 * length (json_code v @ map byte tail))) (json_code v @ map byte tail) = Some (v, map byte tail)"
    using assms(1) by (intro json_value_code) simp_all
  then show ?thesis using assms(2,3) by (simp add: decode_body_def r)
qed

lemma status_401: "nat_text 401 = ''401''"
  by (simp add: nat_text.simps char_of_def bit_0)

text \<open>With the stand-in's token every text is spoken; with another one, every request is refused.\<close>

lemma stand_in_speaks:
  assumes "valid_text txt" "valid_text (ttsModel t)" "valid_text (ttsVoice t)" "txt \<noteq> ''''"
    and "length (srBody (speech_request t txt)) \<le> 1048576"
  shows "Speak t (stand_in_speech p) txt =
    (if pvToken p = '''' \<or> pvToken p = ttsKey t then Inr (''ID3'' @ [CHR 0x04] @ replicate 6 (CHR 0x00) @ ''DUMMY'')
     else Inl (EText (''tts http 401: unauthorized'' @ [line_break])))"
proof -
  let ?v = "JObj [(''input'', JStr txt), (''model'', JStr (ttsModel t)), (''response_format'', JStr ''mp3''),
    (''voice'', JStr (ttsVoice t))]"
  have "decode_body (json_text ?v) = Some ?v" using assms(1-3) decode_text [of ?v "[]"] by (simp add: ascii_valid byte_def)
  then have "provider_speech (json_text ?v) = Body 200 [(''Content-Type'', ''audio/mpeg'')]
      (''ID3'' @ [CHR 0x04] @ replicate 6 (CHR 0x00) @ ''DUMMY'')"
    using assms(4,5) by (simp add: provider_speech_def speech_request_def key_simps del: json_text.simps)
  then show ?thesis
    by (auto simp: Speak_def stand_in_speech_def speech_request_def provider_auth_def status_401 simp del: json_text.simps)
qed

end
