(* ===== verification/Boot.thy ===== *)
theory Boot
  imports Gateway Json Realtime_Laws Tts Bus_Log Hermes_Job
begin

text \<open>
  The process (\<open>src/cmd/thornhill/main.go\<close>): its start, its exit and the sweep of the event log, after the health check
  of the container (\<open>runHealthcheck\<close>), with the proof that the latter accepts exactly the
  status page of its own build (\<open>handleStatus\<close> of \<open>src/internal/gateway/gateway.go\<close>).
\<close>

definition defaultHealthcheckURL :: string where
  "defaultHealthcheckURL = ''http://127.0.0.1:8787/api/status''"

text \<open>An error of the request or the transport, or the status code, the status line and the body.\<close>

datatype health_reply = HealthError error | HealthReply nat string string

definition bool_text :: "bool \<Rightarrow> string" where
  "bool_text b = (if b then ''true'' else ''false'')"

definition runHealthcheck :: "string \<Rightarrow> (string \<Rightarrow> error) \<Rightarrow> (string \<Rightarrow> health_reply) \<Rightarrow> string \<Rightarrow> error option" where
  "runHealthcheck commit jerr get rawURL0 =
     (let rawURL = (if rawURL0 = '''' then defaultHealthcheckURL else rawURL0) in
      case get rawURL of
        HealthError e \<Rightarrow> Some (EWrap ''request: '' e '''')
      | HealthReply code line body \<Rightarrow>
          if code \<noteq> 200 then Some (EText (''unexpected HTTP status '' @ line))
          else (let v = decode_body body; st = json_get ''status'' v; src = json_get ''source_commit'' v;
                    ver = json_get ''versioned'' v;
                    seen = ''status='' @ quoted (str_of st) @ '' versioned='' @ bool_text (ver = Some (JBool True)) @
                      '' source_commit='' @ quoted (str_of src) in
            if v = None \<or> \<not> str_ok st \<or> \<not> str_ok src \<or> \<not> flag_ok ver then Some (EWrap ''decode status: '' (jerr body) '''')
            else if valid_commit commit
            then (if str_of st \<noteq> ''ok'' \<or> ver \<noteq> Some (JBool True) \<or> str_of src \<noteq> commit
                  then Some (EText (''unhealthy '' @ seen)) else None)
            else (if str_of st \<noteq> ''unversioned'' \<or> ver = Some (JBool True) \<or> str_of src \<noteq> commit
                  then Some (EText (''unhealthy unversioned '' @ seen)) else None)))"

section \<open>A status page is accepted by its own build only\<close>

text \<open>
  The health check tells builds apart.  Asked for the status page that a desk built from commit \<open>served\<close> writes,
  the health check of a binary built from commit \<open>commit\<close> succeeds if and only if the two commits are the same, for
  versioned and unversioned builds alike.
\<close>

lemma healthcheck_same_build:
  assumes "valid_text served"
  shows "runHealthcheck commit jerr (\<lambda>_. HealthReply (response.rsStatus (handleStatus served)) line (response.rsBody (handleStatus served))) url = None
      \<longleftrightarrow> commit = served"
    (is "?run = None \<longleftrightarrow> _")
proof -
  let ?v = "JObj [(''source_commit'', JStr served), (''status'', JStr (if valid_commit served then ''ok'' else ''unversioned'')),
     (''versioned'', JBool (valid_commit served))]"
  have "decode_body (json_text ?v @ [line_break]) = Some ?v"
    using assms by (intro decode_text) (simp_all add: ascii_valid byte_def)
  then show ?thesis
    by (auto simp: runHealthcheck_def handleStatus_def Let_def key_simps flag_ok_def simp del: json_text.simps)
qed

section \<open>The process\<close>

text \<open>
  \<open>main\<close>: which parts start, in which order, with what of the configuration, what
  is undone on the way out, and the sweep of the event log.  Arguments are what the outside decides: whether the
  database opens and the queue starts, how the listener ends, and for Hermes the world its reconciliation runs in.  A
  part is its entry in the list of steps; what it does is the model of its own theory.
\<close>

section \<open>Start and exit\<close>

datatype boot_step =
    OpenStore string | OpenBus
  | NewStubRunner duration | NewHermes string string string duration | Reconciled | StartRiver
  | StartSummarizer string string string | StartPush string string string | StartPrebake tts | StartRetention duration
  | NewGateway bool | Listen string
  | StopGateway | StopPush | StopRiver | CloseBus | CloseStore

record outcomes =
  oStore :: "string \<Rightarrow> bool"
  oRiver :: bool
  oServe :: "error option"

text \<open>
  From the configuration on.  The second list is the stack of deferred calls, which run only when \<open>main\<close> returns:
  \<open>os.Exit\<close> skips them.  \<open>oServe = None\<close> is \<open>http.ErrServerClosed\<close>, after a signal.
\<close>

definition start_runner :: "config \<Rightarrow> hermes \<Rightarrow> boot_step list \<times> bool \<times> hermes" where
  "start_runner cfg w =
     (if HermesBaseURL cfg = '''' then ([NewStubRunner (i64 (seconds (FakeJobSeconds cfg)))], True, w)
      else let new = NewHermes (trim_right CHR ''/'' (HermesBaseURL cfg)) (HermesAPIKey cfg) (HermesModel cfg) (config.ApprovalParkAfter cfg) in
        case ReconcileOrphans w of
          (Some e, w) \<Rightarrow> ([new], False, w)
        | (None, w) \<Rightarrow> ([new, Reconciled], True, w))"

definition start_services :: "config \<Rightarrow> boot_step list \<times> boot_step list" where
  "start_services cfg =
     (let push = PushVAPIDPublicKey cfg \<noteq> '''' in
      ([StartSummarizer (OpenAIKey cfg) (OpenAIBaseURL cfg) (SummaryModel cfg)] @
         (if push then [StartPush (PushVAPIDPublicKey cfg) (PushVAPIDPrivateKey cfg) (PushVAPIDSubject cfg)] else []) @
         [StartPrebake (new_tts (OpenAIKey cfg) (OpenAIBaseURL cfg) (TTSModel cfg) (TTSVoice cfg) (PrebakeDir cfg)),
          StartRetention (EventRetention cfg), NewGateway (HermesBaseURL cfg \<noteq> ''''), Listen (ListenAddr cfg)],
       StopGateway # (if push then [StopPush] else [])))"

definition boot :: "config \<Rightarrow> outcomes \<Rightarrow> hermes \<Rightarrow> boot_step list \<times> nat \<times> hermes" where
  "boot cfg out w =
     (if \<not> oStore out (DatabaseURL cfg) then ([], 1, w)
      else case start_runner cfg w of
        (runner, ok, w) \<Rightarrow>
          let front = [OpenStore (DatabaseURL cfg), OpenBus] @ runner in
          if \<not> ok \<or> \<not> oRiver out then (front, 1, w)
          else let (services, defers) = start_services cfg; up = front @ [StartRiver] @ services in
            if oServe out \<noteq> None then (up, 1, w)
            else (up @ defers @ [StopRiver, CloseBus, CloseStore], 0, w))"

text \<open>\<open>main\<close>: what it prints itself, the steps, the exit code.\<close>

definition main_program ::
  "string list \<Rightarrow> string \<Rightarrow> (string \<Rightarrow> error) \<Rightarrow> (string \<Rightarrow> health_reply) \<Rightarrow> (string \<Rightarrow> nat \<Rightarrow> nat) \<Rightarrow>
   (string \<Rightarrow> 64 word option) \<Rightarrow> environment \<Rightarrow> outcomes \<Rightarrow> hermes \<Rightarrow> string \<times> boot_step list \<times> nat \<times> hermes" where
  "main_program args commit jerr get fr parseFloat env out w =
     (if tl args = [''--version''] then (''thornhill '' @ commit @ [line_break], [], 0, w)
      else if tl args = [''healthcheck''] then
        (case runHealthcheck commit jerr get (Getenv env ''HEALTHCHECK_URL'') of
           Some e \<Rightarrow> (''healthcheck: '' @ err_text e @ [line_break], [], 1, w)
         | None \<Rightarrow> ('''', [], 0, w))
      else (case Load fr parseFloat env of
          Inl e \<Rightarrow> ('''', [], 1, w)
        | Inr cfg \<Rightarrow> Pair '''' (boot cfg out w)))"

text \<open>The configuration admits a run time of the stub that does not fit a duration: it comes out negative.\<close>

lemma stub_duration_wraps:
  "HermesBaseURL cfg = '''' \<Longrightarrow> FakeJobSeconds cfg = 9223372037 \<Longrightarrow>
   \<exists>d < 0. start_runner cfg w = ([NewStubRunner d], True, w)"
  by (simp add: start_runner_def seconds_def i64_def)

section \<open>What is started is undone, in reverse\<close>

fun undo :: "boot_step \<Rightarrow> boot_step option" where
  "undo (OpenStore _) = Some CloseStore"
| "undo OpenBus = Some CloseBus"
| "undo StartRiver = Some StopRiver"
| "undo (StartPush _ _ _) = Some StopPush"
| "undo (NewGateway _) = Some StopGateway"
| "undo _ = None"

lemma start_runner_steps:
  "start_runner cfg w = (runner, ok, w') \<Longrightarrow>
   List.map_filter undo runner = [] \<and> StartRiver \<notin> set runner \<and>
   (ok \<longrightarrow> HermesBaseURL cfg = '''' \<or> (\<exists>new. new \<noteq> StartRiver \<and> runner = [new, Reconciled]) \<and> ReconcileOrphans w = (None, w'))"
  by (auto simp: start_runner_def Let_def map_filter_simps split: if_splits prod.splits option.splits)

lemma start_services_steps:
  "start_services cfg = (services, defers) \<Longrightarrow>
   StartRiver \<notin> set services \<union> set defers \<and> List.map_filter undo defers = [] \<and> defers = rev (List.map_filter undo services)"
  by (auto simp: start_services_def Let_def map_filter_simps)

lemma undo_append: "List.map_filter undo (xs @ ys) = List.map_filter undo xs @ List.map_filter undo ys"
  by (simp add: map_filter_def)

text \<open>How far the start comes, and what is left of it.\<close>

lemma boot_shape:
  assumes "boot cfg out w = (steps, code, w')"
  obtains (failed) "StartRiver \<notin> set steps" "code = 1"
  | (up) runner services defers where "start_runner cfg w = (runner, True, w')" "start_services cfg = (services, defers)"
      "steps = [OpenStore (DatabaseURL cfg), OpenBus] @ runner @ StartRiver # services @
         (if code = 0 then defers @ [StopRiver, CloseBus, CloseStore] else [])"
proof -
  obtain runner ok w1 where r: "start_runner cfg w = (runner, ok, w1)" by (metis prod_cases3)
  obtain services defers where s: "start_services cfg = (services, defers)" by force
  show ?thesis
  proof (cases "oStore out (DatabaseURL cfg) \<and> ok \<and> oRiver out")
    case True
    then show ?thesis using assms r s up by (cases "oServe out = None") (auto simp: boot_def Let_def)
  next
    case False
    then have "StartRiver \<notin> set steps \<and> code = 1"
      using assms r start_runner_steps [OF r] by (auto simp: boot_def Let_def split: if_splits)
    then show ?thesis using failed by blast
  qed
qed

text \<open>
  The process starts its parts behind its fences and leaves in the opposite order.  Jobs are worked on only by a
  process whose configuration is sound and, with Hermes, only after every run that an earlier process left behind has
  been reconciled; and when the process leaves by itself, each part that was started is undone once, in the reverse
  order of the starts, so that nothing publishes to a bus or writes to a store that is already closed, while a failed
  start or a failed listener undoes nothing.
\<close>

lemma start_is_fenced:
  assumes "main_program args commit jerr get fr parseFloat env out w = (txt, steps, code, w')"
  shows "(StartRiver \<in> set steps \<longrightarrow>
       (\<exists>cfg. Load fr parseFloat env = Inr cfg \<and> sound_config fr env cfg \<and>
          (HermesBaseURL cfg \<noteq> '''' \<longrightarrow> ReconcileOrphans w = (None, w') \<and>
             (\<exists>before after. steps = before @ Reconciled # StartRiver # after \<and> StartRiver \<notin> set before)))) \<and>
     (\<exists>up down. steps = up @ down \<and> List.map_filter undo down = [] \<and>
        down = (if code = 0 then rev (List.map_filter undo up) else []))"
proof -
  have quick: ?thesis if "steps = []" using that by simp
  show ?thesis
  proof (cases "tl args = [''--version''] \<or> tl args = [''healthcheck''] \<or> (\<exists>e. Load fr parseFloat env = Inl e)")
    case True
    then show ?thesis using assms quick by (auto simp: main_program_def split: if_splits option.splits sum.splits)
  next
    case False
    then obtain cfg where cfg: "Load fr parseFloat env = Inr cfg" by (cases "Load fr parseFloat env") auto
    then have "boot cfg out w = (steps, code, w')" using assms False by (simp add: main_program_def)
    then show ?thesis
    proof (cases rule: boot_shape)
      case failed
      then show ?thesis by (intro conjI exI [of _ steps] exI [of _ "[]"]) (simp_all add: map_filter_simps)
    next
      case (up runner services defers)
      let ?up = "[OpenStore (DatabaseURL cfg), OpenBus] @ runner @ StartRiver # services"
      let ?down = "if code = 0 then defers @ [StopRiver, CloseBus, CloseStore] else []"
      note r = start_runner_steps [OF up(1)] and s = start_services_steps [OF up(2)]
      have "HermesBaseURL cfg \<noteq> '''' \<longrightarrow> ReconcileOrphans w = (None, w') \<and>
          (\<exists>before after. steps = before @ Reconciled # StartRiver # after \<and> StartRiver \<notin> set before)"
      proof
        assume "HermesBaseURL cfg \<noteq> ''''"
        then obtain new where n: "new \<noteq> StartRiver" "runner = [new, Reconciled]" "ReconcileOrphans w = (None, w')"
          using r by auto
        then have "steps = [OpenStore (DatabaseURL cfg), OpenBus, new] @ Reconciled # StartRiver # services @
            (if code = 0 then defers @ [StopRiver, CloseBus, CloseStore] else [])" using up(3) by simp
        moreover have "StartRiver \<notin> set [OpenStore (DatabaseURL cfg), OpenBus, new]" using n(1) by simp
        ultimately show "ReconcileOrphans w = (None, w') \<and>
            (\<exists>before after. steps = before @ Reconciled # StartRiver # after \<and> StartRiver \<notin> set before)"
          using n(3) by blast
      qed
      moreover have d: "List.map_filter undo defers = []" "rev (List.map_filter undo services) = defers" using s by (blast, metis)
      moreover have "List.map_filter undo ?down = []" by (simp add: undo_append d map_filter_simps)
      moreover have "?down = (if code = 0 then rev (List.map_filter undo ?up) else [])"
        using r by (simp add: undo_append d map_filter_simps)
      moreover have "steps = ?up @ ?down" using up(3) by simp
      ultimately show ?thesis using cfg load_sound [OF cfg] by blast
    qed
  qed
qed

section \<open>The sweep of the event log\<close>

text \<open>\<open>pruneEvents\<close>: at start and then daily; each sweep has its time, and may fail.\<close>

definition prune_sweep :: "duration \<Rightarrow> instant \<times> bool \<Rightarrow> event_log \<Rightarrow> event_log" where
  "prune_sweep retention = (\<lambda>(now, fails) l. if fails then l else snd (PruneTransientEvents now retention l))"

definition pruneEvents :: "duration \<Rightarrow> (instant \<times> bool) list \<Rightarrow> event_log \<Rightarrow> event_log" where
  "pruneEvents retention sweeps l = fold (prune_sweep retention) sweeps l"

text \<open>However long the process runs, no sweep removes a job's outcome or an operator's decision.\<close>

lemma sweeps_keep_judgement:
  assumes "\<And>r. P r \<Longrightarrow> rowKind r \<notin> set transientEventKinds"
  shows "filter P (rows (pruneEvents retention sweeps l)) = filter P (rows l)"
proof (induction sweeps arbitrary: l)
  case (Cons s sweeps)
  obtain now fails where s: "s = (now, fails)" by force
  have "filter P (rows (snd (PruneTransientEvents now retention l))) = filter P (rows l)"
    using assms by (auto simp: PruneTransientEvents_def Let_def filter_filter intro!: filter_cong)
  then show ?case using Cons by (simp add: pruneEvents_def prune_sweep_def s)
qed (simp add: pruneEvents_def)

end
