(* ===== verification/Row.thy ===== *)
theory Row
  imports Wire Net_Url Realtime_Laws "HOL-Library.Multiset"
begin

text \<open>
  How a row of \<open>jobs\<close> becomes a \<open>Job\<close> again: \<open>scanJob\<close> of \<open>src/internal/store/store.go\<close> with the two JSON columns that
  \<open>UpdateJobTx\<close> writes.  The struct tags are those of \<open>Wire\<close>; instants inside the columns are read by the strict RFC 3339
  parser of \<open>time.Time\<close>, whose calendar is inverted first.
\<close>

section \<open>The calendar\<close>

definition year_start :: "int \<Rightarrow> int" where
  "year_start y = 365 * y + y div 4 - y div 100"

definition year_end :: "int \<Rightarrow> int" where
  "year_end y = year_start (y + 1) - (if y = 399 then 0 else 1)"

definition year_guess :: "int \<Rightarrow> int" where
  "year_guess doe = doe - doe div 1460 + doe div 36524 - doe div 146096"

lemma div_next: "0 < m \<Longrightarrow> (k + 1) div m = k div m + (if m dvd k + 1 then 1 else (0 :: int))"
proof -
  assume m: "0 < m"
  show ?thesis
  proof (cases "m dvd k + 1")
    case True
    then obtain q where q: "k + 1 = m * q" by (elim dvdE)
    then have "k = m * (q - 1) + (m - 1)" by (simp add: algebra_simps)
    then have "k div m = q - 1" using m by (simp add: int_div_pos_eq)
    then show ?thesis using True q m by simp
  next
    case False
    have "k = m * (k div m) + k mod m" by simp
    moreover have "k mod m + 1 \<noteq> m" using False by (metis add.assoc dvd_add dvd_refl dvd_triv_left calculation)
    moreover have "k mod m < m" "0 \<le> k mod m" using m by simp_all
    ultimately have "(k + 1) div m = k div m" by (intro int_div_pos_eq [of _ _ _ "k mod m + 1"]) linarith+
    then show ?thesis using False by simp
  qed
qed

lemma guess_next: "year_guess k \<le> year_guess (k + 1)"
proof -
  have "36524 dvd k + 1" if "146096 dvd k + 1" using that by (rule dvd_trans [rotated]) simp
  then show ?thesis by (auto simp: year_guess_def div_next)
qed

lemma guess_mono: "a \<le> b \<Longrightarrow> year_guess a \<le> year_guess b"
proof (induction b rule: int_ge_induct)
  case (step b)
  then show ?case using guess_next [of b] by simp
qed simp

lemma guess_table:
  "list_all (\<lambda>y. 365 * y \<le> year_guess (year_start y) \<and> year_guess (year_end y) < 365 * (y + 1)) [0..399]"
  by code_simp

lemma year_of_day:
  assumes "0 \<le> doe" "doe < 146097"
  obtains y where "0 \<le> y" "y < 400" "year_start y \<le> doe" "doe \<le> year_end y"
proof -
  have "k \<le> 400 \<Longrightarrow> doe < year_start (int k) + (if k = 400 then 1 else 0) \<Longrightarrow>
      \<exists>y. 0 \<le> y \<and> y < int k \<and> year_start y \<le> doe \<and> doe \<le> year_end y" for k
  proof (induction k)
    case 0
    then show ?case using assms(1) by (simp add: year_start_def)
  next
    case (Suc k)
    show ?case
    proof (cases "doe < year_start (int k)")
      case True
      then show ?thesis using Suc by (force simp: less_Suc_eq)
    next
      case False
      then show ?thesis using Suc.prems by (intro exI [of _ "int k"]) (auto simp: year_end_def add.commute)
    qed
  qed
  from this [of 400] show ?thesis using assms(2) that by (auto simp: year_start_def)
qed

lemma guess_year:
  assumes "0 \<le> y" "y < 400" "year_start y \<le> doe" "doe \<le> year_end y"
  shows "year_guess doe div 365 = y"
proof -
  have "y \<in> set [0..399]" using assms(1,2) by simp
  then have "365 * y \<le> year_guess (year_start y) \<and> year_guess (year_end y) < 365 * (y + 1)"
    using guess_table unfolding list_all_iff by blast
  then have "365 * y \<le> year_guess doe" "year_guess doe < 365 * (y + 1)"
    using guess_mono [OF assms(3)] guess_mono [OF assms(4)] by simp_all
  then show ?thesis by (intro int_div_pos_eq [of _ _ _ "year_guess doe - 365 * y"]) simp_all
qed

text \<open>The day number of a civil date, as \<open>time.Date\<close> normalises it, and the calendar checks of the parser.\<close>

definition leap :: "int \<Rightarrow> bool" where
  "leap y \<longleftrightarrow> y mod 4 = 0 \<and> (y mod 100 \<noteq> 0 \<or> y mod 400 = 0)"

definition days_in :: "int \<Rightarrow> int \<Rightarrow> int" where
  "days_in y m = (if m = 2 then (if leap y then 29 else 28) else if m \<in> {4, 6, 9, 11} then 30 else 31)"

definition day_number :: "int \<Rightarrow> int \<Rightarrow> int \<Rightarrow> int" where
  "day_number y m d =
     (let y' = (if m \<le> 2 then y - 1 else y); mp = (if 2 < m then m - 3 else m + 9) in
      y' div 400 * 146097 + year_start (y' mod 400) + (153 * mp + 2) div 5 + d - 1 - 306)"

lemma civil_month:
  fixes doy mp d :: int
  assumes "0 \<le> doy" "doy \<le> 365" and "mp = (5 * doy + 2) div 153" and "d = doy - (153 * mp + 2) div 5 + 1"
  shows "0 \<le> mp \<and> mp \<le> 11 \<and> 1 \<le> d \<and> d \<le> (if mp = 11 then doy - 336 else if mp \<in> {1, 3, 6, 8} then 30 else 31)"
proof -
  have mp: "0 \<le> mp" "mp \<le> 11" using assms(1-3) by (simp_all, linarith?)
  have b: "153 * mp \<le> 5 * doy + 2" "5 * doy + 2 < 153 * mp + 153" using assms(3) by linarith+
  have "mp = 0 \<or> mp = 1 \<or> mp = 2 \<or> mp = 3 \<or> mp = 4 \<or> mp = 5 \<or> mp = 6 \<or> mp = 7 \<or> mp = 8 \<or> mp = 9 \<or> mp = 10 \<or> mp = 11"
    using mp by presburger
  then show ?thesis using b assms(1,4) by (elim disjE) simp_all
qed

lemma year_length:
  assumes "0 \<le> y" "y < 400"
  shows "year_end y - year_start y = (if leap (y + 1) then 365 else 364)"
proof -
  have "100 dvd y + 1 \<Longrightarrow> 4 dvd y + 1" using dvd_trans [of 4 100 "y + 1"] by simp
  moreover have "(y + 1) mod 400 = 0 \<longleftrightarrow> y = 399"
    using assms mod_pos_pos_trivial [of "y + 1" 400] by (cases "y = 399") auto
  moreover have "100 dvd y + 1" if "y = 399" using that by simp
  ultimately show ?thesis
    by (auto simp: year_end_def year_start_def leap_def div_next dvd_eq_mod_eq_0 [symmetric])
qed

lemma leap_era: "leap (y + e * 400) = leap y"
proof -
  have "(y + e * 400) mod 400 = y mod 400" by simp
  moreover have "(y + e * 400) mod 100 = y mod 100" using mod_mult_self1 [of y "e * 4" 100] by (simp add: mult.assoc)
  moreover have "(y + e * 400) mod 4 = y mod 4" using mod_mult_self1 [of y "e * 100" 4] by (simp add: mult.assoc)
  ultimately show ?thesis by (simp add: leap_def)
qed

lemma civil_inverse:
  assumes "civil_date day = (y, m, d)"
  shows "day_number y m d = day \<and> 1 \<le> m \<and> m \<le> 12 \<and> 1 \<le> d \<and> d \<le> days_in y m"
proof -
  let ?z = "day + 306" let ?era = "?z div 146097" and ?doe = "?z mod 146097"
  obtain yoe where yoe: "0 \<le> yoe" "yoe < 400" "year_start yoe \<le> ?doe" "?doe \<le> year_end yoe"
    using year_of_day [of ?doe] by auto
  let ?doy = "?doe - year_start yoe"
  have g: "year_guess ?doe div 365 = yoe" by (rule guess_year [OF yoe])
  define mp where "mp = (5 * ?doy + 2) div 153"
  define dd where "dd = ?doy - (153 * mp + 2) div 5 + 1"
  have c: "civil_date day = (let m = (if mp < 10 then mp + 3 else mp - 9) in
      (yoe + ?era * 400 + (if m \<le> 2 then 1 else 0), m, dd))"
    unfolding civil_date_def Let_def year_guess_def [symmetric] g mp_def dd_def year_start_def by simp
  have doy: "0 \<le> ?doy" "?doy \<le> (if leap (yoe + 1) then 365 else 364)" "?doy \<le> 365"
    using yoe year_length [OF yoe(1,2)] by (auto split: if_splits)
  note r = civil_month [OF doy(1,3) mp_def dd_def]
  have whole: "?era * 146097 + ?doe = ?z" by simp
  have part: "(153 * mp + 2) div 5 + dd = ?doy + 1" by (simp add: dd_def)
  have era: "(yoe + ?era * 400) div 400 = ?era" "(yoe + ?era * 400) mod 400 = yoe" using yoe(1,2) by simp_all
  show ?thesis
  proof (cases "mp < 10")
    case True
    then have e: "y = yoe + ?era * 400" "m = mp + 3" "d = dd" using assms c r by (auto simp: Let_def)
    have "day_number y m d = ?era * 146097 + year_start yoe + ((153 * mp + 2) div 5 + dd) - 1 - 306"
      using True r era by (simp add: day_number_def e)
    then have "day_number y m d = day" unfolding part using whole by simp
    then show ?thesis using True r e by (auto simp: days_in_def)
  next
    case False
    then have e: "y = yoe + ?era * 400 + 1" "m = mp - 9" "d = dd" using assms c r by (auto simp: Let_def)
    have "day_number y m d = ?era * 146097 + year_start yoe + ((153 * mp + 2) div 5 + dd) - 1 - 306"
      using False r era by (simp add: day_number_def e)
    then have "day_number y m d = day" unfolding part using whole by simp
    moreover have "leap y = leap (yoe + 1)" using leap_era [of "yoe + 1" ?era] by (simp add: e algebra_simps)
    ultimately show ?thesis using False r e doy(2) by (auto simp: days_in_def split: if_splits)
  qed
qed

section \<open>RFC 3339\<close>

text \<open>\<open>parseStrictRFC3339\<close>, with which \<open>time.Time.UnmarshalJSON\<close> reads an instant.\<close>

definition uint_at :: "nat \<Rightarrow> nat \<Rightarrow> int \<Rightarrow> int \<Rightarrow> string \<Rightarrow> int option" where
  "uint_at i n lo hi s =
     (let ds = take n (drop i s); x = int (dec_value ds) in
      if list_all is_digit ds \<and> lo \<le> x \<and> x \<le> hi then Some x else None)"

definition parse_fraction :: "string \<Rightarrow> nat \<times> string" where
  "parse_fraction s =
     (let ds = takeWhile is_digit (tl s) in
      if s \<noteq> '''' \<and> hd s = CHR ''.'' \<and> ds \<noteq> ''''
      then (dec_value (take 9 ds) * 10 ^ (9 - length (take 9 ds)), drop (Suc (length ds)) s) else (0, s))"

definition parse_zone :: "string \<Rightarrow> int option" where
  "parse_zone s =
     (if s = ''Z'' then Some 0
      else if length s \<noteq> 6 then None
      else (case (uint_at 1 2 0 23 s, uint_at 4 2 0 59 s) of
          (Some h, Some m) \<Rightarrow>
            if (s ! 0 = CHR ''-'' \<or> s ! 0 = CHR ''+'') \<and> s ! 3 = CHR '':''
            then Some ((h * 60 + m) * 60 * (if s ! 0 = CHR ''-'' then - 1 else 1)) else None
        | _ \<Rightarrow> None))"

definition parse_time :: "string \<Rightarrow> instant option" where
  "parse_time s =
     (if length s < 19 then None
      else (case (uint_at 0 4 0 9999 s, uint_at 5 2 1 12 s, uint_at 11 2 0 23 s, uint_at 14 2 0 59 s, uint_at 17 2 0 59 s) of
          (Some y, Some mo, Some h, Some mi, Some sec) \<Rightarrow>
            (case uint_at 8 2 1 (days_in y mo) s of
               None \<Rightarrow> None
             | Some d \<Rightarrow>
                 if s ! 4 = CHR ''-'' \<and> s ! 7 = CHR ''-'' \<and> s ! 10 = CHR ''T'' \<and> s ! 13 = CHR '':'' \<and> s ! 16 = CHR '':''
                 then (case parse_fraction (drop 19 s) of (ns, zone) \<Rightarrow>
                     map_option (\<lambda>off. (day_number y mo d * 86400 + h * 3600 + mi * 60 + sec - off) * 1000000000 + int ns)
                       (parse_zone zone))
                 else None)
        | _ \<Rightarrow> None))"

lemma dec_value_snoc: "dec_value (s @ [c]) = 10 * dec_value s + (byte c - 48)"
  by (simp add: dec_value_def)

lemma decimal_digit: "v < 10 \<Longrightarrow> is_digit (hex_digit v) \<and> byte (hex_digit v) - 48 = v"
  by (simp add: hex_digit_def is_digit_def byte_def)

lemma pad_digits_value:
  "length (pad_digits n v) = n \<and> list_all is_digit (pad_digits n v) \<and> dec_value (pad_digits n v) = v mod 10 ^ n"
proof (induction n arbitrary: v)
  case (Suc n)
  have "v mod 10 ^ Suc n = 10 * (v div 10 mod 10 ^ n) + v mod 10" by (simp add: mod_mult2_eq)
  then show ?case using Suc [of "v div 10"] decimal_digit [of "v mod 10"] by (simp add: dec_value_snoc)
qed (simp add: dec_value_def)

lemma pad_int_value:
  "0 \<le> i \<Longrightarrow> i < 10 ^ n \<Longrightarrow> length (pad_int n i) = n \<and> list_all is_digit (pad_int n i) \<and> int (dec_value (pad_int n i)) = i"
  using pad_digits_value [of n "nat i"] by (simp add: pad_int_def nat_mod_distrib)

lemma dec_value_zeros: "\<forall>c\<in>set z. c = CHR ''0'' \<Longrightarrow> dec_value (s @ z) = dec_value s * 10 ^ length z"
proof (induction z rule: rev_induct)
  case (snoc c z)
  then show ?case using dec_value_snoc [of "s @ z" c] by (simp add: byte_def)
qed simp

text \<open>What \<open>frac_text\<close> leaves out are trailing zeros.\<close>

lemma fraction_parts:
  assumes "v < 1000000000"
  obtains ds where "frac_text 9 v = (if ds = '''' then '''' else CHR ''.'' # ds)" "list_all is_digit ds" "length ds \<le> 9"
    "dec_value ds * 10 ^ (9 - length ds) = v"
proof -
  let ?p = "pad_digits 9 v" let ?ds = "rev (dropWhile (\<lambda>c. c = CHR ''0'') (rev ?p))"
  let ?z = "rev (takeWhile (\<lambda>c. c = CHR ''0'') (rev ?p))"
  note p = pad_digits_value [of 9 v]
  have s: "?p = ?ds @ ?z" by (metis rev_append rev_rev_ident takeWhile_dropWhile_id)
  have z: "\<forall>c\<in>set ?z. c = CHR ''0''" by (auto dest: set_takeWhileD)
  have l: "length ?z = 9 - length ?ds" using p s by (metis add_diff_cancel_left' length_append)
  have "list_all is_digit (?ds @ ?z)" using p s by metis
  then have "list_all is_digit ?ds" by simp
  moreover have "length ?ds \<le> 9" using p length_dropWhile_le [of "\<lambda>c. c = CHR ''0''" "rev ?p"] by simp
  moreover have "dec_value ?ds * 10 ^ (9 - length ?ds) = v"
    using dec_value_zeros [OF z, of ?ds] p assms unfolding s [symmetric] l by simp
  ultimately show ?thesis using that [of ?ds] assms by (simp add: frac_text_def Let_def)
qed

lemma parse_frac_text: "v < 1000000000 \<Longrightarrow> parse_fraction (frac_text 9 v @ ''Z'') = (v, ''Z'')"
proof -
  assume "v < 1000000000"
  then obtain ds where d: "frac_text 9 v = (if ds = '''' then '''' else CHR ''.'' # ds)" "list_all is_digit ds" "length ds \<le> 9"
    "dec_value ds * 10 ^ (9 - length ds) = v" by (rule fraction_parts)
  have "takeWhile is_digit (ds @ ''Z'') = ds" using d(2) by (simp add: list_all_iff takeWhile_append is_digit_def byte_def)
  then show ?thesis using d by (cases "ds = ''''") (auto simp: parse_fraction_def Let_def dec_value_def)
qed

lemma clock_parts:
  fixes sod :: int
  assumes "0 \<le> sod" "sod < 86400"
  shows "sod div 3600 < 24" "sod div 60 mod 60 < 60" "sod mod 60 < 60" "0 \<le> sod div 3600"
    "sod div 3600 * 3600 + sod div 60 mod 60 * 60 + sod mod 60 = sod"
proof -
  have "sod div 3600 = sod div 60 div 60" by (simp add: zdiv_zmult2_eq [symmetric])
  then show "sod div 3600 * 3600 + sod div 60 mod 60 * 60 + sod mod 60 = sod" by presburger
qed (use assms in auto)

lemma uint_parts:
  assumes "length a = i" "list_all is_digit w" "length w = n" "int (dec_value w) = x" "lo \<le> x" "x \<le> hi"
  shows "uint_at i n lo hi (a @ w @ b) = Some x"
  using assms by (simp add: uint_at_def)

lemma parse_parts:
  fixes y m d h i s :: int
  assumes "0 \<le> y" "y \<le> 9999" "1 \<le> m" "m \<le> 12" "1 \<le> d" "d \<le> days_in y m" "0 \<le> h" "h < 24" "0 \<le> i" "i < 60" "0 \<le> s" "s < 60"
    and v: "v < 1000000000"
  shows "parse_time (pad_int 4 y @ ''-'' @ pad_int 2 m @ ''-'' @ pad_int 2 d @ ''T'' @ pad_int 2 h @ '':'' @ pad_int 2 i @ '':'' @
      pad_int 2 s @ frac_text 9 v @ ''Z'') = Some ((day_number y m d * 86400 + h * 3600 + i * 60 + s) * 1000000000 + int v)"
    (is "parse_time ?r = _")
proof -
  let ?Y = "pad_int 4 y" let ?M = "pad_int 2 m" let ?D = "pad_int 2 d"
  let ?H = "pad_int 2 h" let ?I = "pad_int 2 i" let ?S = "pad_int 2 s" let ?F = "frac_text 9 v @ ''Z''"
  have d31: "d \<le> 31" using assms(6) by (auto simp: days_in_def split: if_splits)
  have Y: "length ?Y = 4 \<and> list_all is_digit ?Y \<and> int (dec_value ?Y) = y" using assms(1,2) by (intro pad_int_value) simp_all
  have two: "length (pad_int 2 x) = 2 \<and> list_all is_digit (pad_int 2 x) \<and> int (dec_value (pad_int 2 x)) = x"
    if "0 \<le> x" "x < 100" for x using that by (intro pad_int_value) simp_all
  have M: "length ?M = 2 \<and> list_all is_digit ?M \<and> int (dec_value ?M) = m" using assms(3,4) by (intro two) simp_all
  have D: "length ?D = 2 \<and> list_all is_digit ?D \<and> int (dec_value ?D) = d" using assms(5) d31 by (intro two) simp_all
  have H: "length ?H = 2 \<and> list_all is_digit ?H \<and> int (dec_value ?H) = h" using assms(7,8) by (intro two) simp_all
  have I: "length ?I = 2 \<and> list_all is_digit ?I \<and> int (dec_value ?I) = i" using assms(9,10) by (intro two) simp_all
  have S: "length ?S = 2 \<and> list_all is_digit ?S \<and> int (dec_value ?S) = s" using assms(11,12) by (intro two) simp_all
  have "uint_at 0 4 0 9999 ?r = Some y"
    using uint_parts [of "''''" 0 ?Y 4 y 0 9999] Y assms(1,2) by simp
  moreover have "uint_at 5 2 1 12 ?r = Some m"
    using uint_parts [of "?Y @ ''-''" 5 ?M 2 m 1 12] Y M assms(3,4) by simp
  moreover have "uint_at 8 2 1 (days_in y m) ?r = Some d"
    using uint_parts [of "?Y @ ''-'' @ ?M @ ''-''" 8 ?D 2 d 1 "days_in y m"] Y M D assms(5,6) by simp
  moreover have "uint_at 11 2 0 23 ?r = Some h"
    using uint_parts [of "?Y @ ''-'' @ ?M @ ''-'' @ ?D @ ''T''" 11 ?H 2 h 0 23] Y M D H assms(7,8) by simp
  moreover have "uint_at 14 2 0 59 ?r = Some i"
    using uint_parts [of "?Y @ ''-'' @ ?M @ ''-'' @ ?D @ ''T'' @ ?H @ '':''" 14 ?I 2 i 0 59] Y M D H I assms(9,10) by simp
  moreover have "uint_at 17 2 0 59 ?r = Some s"
    using uint_parts [of "?Y @ ''-'' @ ?M @ ''-'' @ ?D @ ''T'' @ ?H @ '':'' @ ?I @ '':''" 17 ?S 2 s 0 59] Y M D H I S assms(11,12)
    by simp
  moreover have "?r ! 4 = CHR ''-''" "?r ! 7 = CHR ''-''" "?r ! 10 = CHR ''T''" "?r ! 13 = CHR '':''" "?r ! 16 = CHR '':''"
      "drop 19 ?r = ?F" "\<not> length ?r < 19"
    using Y M D H I S by (simp_all add: nth_append)
  moreover note parse_frac_text [OF v]
  ultimately show ?thesis by (simp add: parse_time_def parse_zone_def)
qed

lemma time_roundtrip:
  assumes "civil_date (t div 1000000000 div 86400) = (y, m, d)" "0 \<le> y" "y \<le> 9999"
  shows "parse_time (rfc3339 t) = Some t"
proof -
  define sec where "sec = t div 1000000000"
  define sod where "sod = sec mod 86400"
  note c = civil_inverse [OF assms(1)]
  have k: "0 \<le> sod" "sod < 86400" by (simp_all add: sod_def)
  note k2 = clock_parts [OF k]
  have "parse_time (rfc3339 t) = Some ((day_number y m d * 86400 + sod div 3600 * 3600 + sod div 60 mod 60 * 60 + sod mod 60) *
      1000000000 + int (nat (t mod 1000000000)))"
    unfolding rfc3339_def Let_def sec_def [symmetric] sod_def [symmetric] assms(1) [folded sec_def] prod.case
    by (rule parse_parts) (use assms(2,3) c k k2 in \<open>simp_all\<close>)
  moreover have "day_number y m d * 86400 + sod = sec" using c by (simp add: sod_def sec_def)
  then have "day_number y m d * 86400 + sod div 3600 * 3600 + sod div 60 mod 60 * 60 + sod mod 60 = sec"
    using k2(5) by (simp only: add.assoc)
  moreover have "sec * 1000000000 + t mod 1000000000 = t" by (simp add: sec_def)
  ultimately show ?thesis by simp
qed

section \<open>JSON columns\<close>

text \<open>
  A \<open>jsonb\<close> column keeps the value, not the text: PostgreSQL puts the members of an object in an order of its own
  (\<open>ord\<close>), and what is read back is some text of that value.
\<close>

fun jsonb :: "((string \<times> json) list \<Rightarrow> (string \<times> json) list) \<Rightarrow> json \<Rightarrow> json" where
  "jsonb ord (JArr vs) = JArr (map (jsonb ord) vs)"
| "jsonb ord (JObj ms) = JObj (ord (map (\<lambda>(k, v). (k, jsonb ord v)) ms))"
| "jsonb ord v = v"

text \<open>What \<open>UpdateJobTx\<close> writes; a nil slice and an empty one differ.  \<open>None\<close> is the error of \<open>Marshal\<close>.\<close>

definition approvals_column :: "bool \<Rightarrow> approval list \<Rightarrow> string option" where
  "approvals_column nil as =
     (if as = [] then Some (if nil then ''null'' else ''[]'')
      else if None \<in> set (map approval_json as) then None
      else Some (json_text (JArr (map (the \<circ> approval_json) as))))"

definition progress_column :: "progress option \<Rightarrow> string option option" where
  "progress_column p = (case p of None \<Rightarrow> Some None | Some x \<Rightarrow> map_option (\<lambda>v. Some (json_text v)) (progress_json x))"

text \<open>The struct fields of \<open>Approval\<close> and \<open>Progress\<close> from a decoded value.\<close>

definition time_ok :: "json option \<Rightarrow> bool" where
  "time_ok v \<longleftrightarrow> (case v of None \<Rightarrow> True | Some JNull \<Rightarrow> True | Some (JStr s) \<Rightarrow> parse_time s \<noteq> None | _ \<Rightarrow> False)"

definition time_at :: "json option \<Rightarrow> instant option" where
  "time_at v = (case v of Some (JStr s) \<Rightarrow> parse_time s | _ \<Rightarrow> None)"

definition time_of :: "json option \<Rightarrow> instant" where
  "time_of v = (case time_at v of None \<Rightarrow> zero_time | Some t \<Rightarrow> t)"

text \<open>The four states are texts in the code; a text that no operation writes has no form here and counts as an error.\<close>

definition state_of :: "json option \<Rightarrow> approval_state option" where
  "state_of v = find (\<lambda>s. approval_state_text s = str_of v) [APending, ASending, AParked, AIndeterminate]"

definition approval_ok :: "json \<Rightarrow> bool" where
  "approval_ok v \<longleftrightarrow> (let g = (\<lambda>f. json_get f (Some v)) in obj_ok (Some v) \<and>
     list_all (\<lambda>f. str_ok (g f)) [''id'', ''provider_request_id'', ''decision_nonce'', ''decision'', ''state'', ''command'',
       ''description'', ''park_reason''] \<and>
     strs_ok (g ''pattern_keys'') \<and> flag_ok (g ''allow_permanent'') \<and> time_ok (g ''requested_at'') \<and>
     time_ok (g ''parked_at'') \<and> state_of (g ''state'') \<noteq> None)"

definition approval_of :: "json \<Rightarrow> approval" where
  "approval_of v = (let g = (\<lambda>f. json_get f (Some v)) in
     \<lparr>apID = str_of (g ''id''), ProviderRequestID = str_of (g ''provider_request_id''),
      DecisionNonce = str_of (g ''decision_nonce''), apDecision = str_of (g ''decision''),
      apState = the (state_of (g ''state'')), Command = str_of (g ''command''), Description = str_of (g ''description''),
      PatternKeys = map (\<lambda>x. str_of (Some x)) (arr_of (g ''pattern_keys'')),
      AllowPermanent = (g ''allow_permanent'' = Some (JBool True)), RequestedAt = time_of (g ''requested_at''),
      ParkedAt = time_at (g ''parked_at''), ParkReason = str_of (g ''park_reason'')\<rparr>)"

definition progress_ok :: "json option \<Rightarrow> bool" where
  "progress_ok v \<longleftrightarrow> v \<noteq> None \<and> obj_ok v \<and> str_ok (json_get ''tool'' v) \<and> str_ok (json_get ''label'' v) \<and>
     str_ok (json_get ''state'' v) \<and> time_ok (json_get ''updated_at'' v)"

definition progress_of :: "json option \<Rightarrow> progress" where
  "progress_of v = \<lparr>prTool = str_of (json_get ''tool'' v), prLabel = str_of (json_get ''label'' v),
     prState = str_of (json_get ''state'' v), prUpdatedAt = time_of (json_get ''updated_at'' v)\<rparr>"

text \<open>
  \<open>scanJob\<close> on the two columns; \<open>Inl ErrNotFound\<close> is no row, and \<open>scan\<close> another error of the driver.  \<open>jerr\<close> is the
  decoder's error for a text.
\<close>

definition scanJob :: "(string \<Rightarrow> error) \<Rightarrow> error + job \<times> string \<times> string option \<Rightarrow> error + job" where
  "scanJob jerr row =
     (case row of
        Inl e \<Rightarrow> Inl e
      | Inr (j, approvals, progress) \<Rightarrow>
          let v = json_parse approvals in
          if approvals \<noteq> '''' \<and> (v = None \<or> \<not> arr_ok v \<or> \<not> list_all approval_ok (arr_of v))
          then Inl (EWrap ''decode approvals: '' (jerr approvals) '''')
          else let j = j\<lparr>Approvals := map approval_of (arr_of v)\<rparr> in
            (case progress of
               None \<Rightarrow> Inr (j\<lparr>Progress := None\<rparr>)
             | Some p \<Rightarrow>
                 if p = '''' \<or> p = ''null'' then Inr (j\<lparr>Progress := None\<rparr>)
                 else if \<not> progress_ok (json_parse p) then Inl (EWrap ''decode progress: '' (jerr p) '''')
                 else Inr (j\<lparr>Progress := Some (progress_of (json_parse p))\<rparr>)))"

section \<open>What is written is read back\<close>

lemma find_filter: "find P xs = (case filter P xs of [] \<Rightarrow> None | x # _ \<Rightarrow> Some x)"
  by (induction xs) auto

lemma find_any_order:
  assumes "mset ys = mset xs" "length (filter P xs) \<le> 1"
  shows "find P (rev ys) = (case filter P xs of [] \<Rightarrow> None | x # _ \<Rightarrow> Some x)"
proof -
  have m: "mset (filter P ys) = mset (filter P xs)" using assms(1) by simp
  then have "filter P ys = filter P xs"
  proof (cases "filter P xs")
    case (Cons x r)
    then have f: "filter P xs = [x]" using assms(2) by simp
    have "mset (filter P ys) = mset [x]" using m by (simp only: f)
    then have "mset (filter P ys) = {#x#}" by (simp del: mset_filter)
    then show ?thesis by (simp only: mset_single_iff f)
  qed simp
  moreover have "rev (filter P xs) = filter P xs"
    using assms(2) by (cases "filter P xs"; cases "tl (filter P xs)") auto
  ultimately show ?thesis by (simp add: find_filter rev_filter [symmetric])
qed

lemma stored_get:
  assumes "\<And>ms. mset (ord ms) = mset ms" "length (filter (\<lambda>(k, v). same_key k f) ms) \<le> 1"
  shows "json_get f (Some (jsonb ord (JObj ms))) =
    (case filter (\<lambda>(k, v). same_key k f) ms of [] \<Rightarrow> None | x # _ \<Rightarrow> Some (jsonb ord (snd x)))"
proof -
  let ?g = "\<lambda>(k, v). (k, jsonb ord v)"
  have f: "filter (\<lambda>(k, v). same_key k f) (map ?g ms) = map ?g (filter (\<lambda>(k, v). same_key k f) ms)"
    by (induction ms) auto
  then show ?thesis
    using assms(2) find_any_order [OF assms(1) [of "map ?g ms"], of "\<lambda>(k, v). same_key k f"]
    by (auto split: list.splits)
qed

lemma json_time_parse: "json_time t \<noteq> None \<Longrightarrow> parse_time (rfc3339 t) = Some t"
  using time_roundtrip by (auto simp: json_time_def Let_def split: prod.splits if_splits)

lemma time_ascii: "ascii (rfc3339 t)"
proof -
  have p: "ascii (pad_digits n v)" for n v
    using pad_digits_value [of n v] by (auto simp: ascii_def list_all_iff is_digit_def)
  have "set (frac_text n v) \<subseteq> insert (CHR ''.'') (set (pad_digits n (v mod 10 ^ n)))" for n v
    by (auto simp: frac_text_def Let_def dest!: set_dropWhileD)
  then have "ascii (frac_text n v)" for n v
    using p [of n "v mod 10 ^ n"] by (fastforce simp: ascii_def list_all_iff byte_def)
  then show ?thesis using p by (simp add: rfc3339_def Let_def pad_int_def split_beta byte_def)
qed

text \<open>The names of the fields are lower case, so two of them match only if they are equal.\<close>

definition field_key :: "string \<Rightarrow> bool" where
  "field_key k \<longleftrightarrow> list_all (\<lambda>c. 97 \<le> byte c \<and> byte c \<le> 122 \<or> byte c = 95) k"

lemma field_keys: "field_key k \<Longrightarrow> field_key f \<Longrightarrow> same_key k f \<longleftrightarrow> k = f"
proof -
  assume k: "field_key k" "field_key f"
  have "inj_on (fold_rune \<circ> byte) {c. 97 \<le> byte c \<and> byte c \<le> 122 \<or> byte c = 95}"
  proof (rule inj_onI)
    fix x y assume h: "x \<in> {c. 97 \<le> byte c \<and> byte c \<le> 122 \<or> byte c = 95}" "y \<in> {c. 97 \<le> byte c \<and> byte c \<le> 122 \<or> byte c = 95}"
      "(fold_rune \<circ> byte) x = (fold_rune \<circ> byte) y"
    then have "byte x \<le> byte y" "byte y \<le> byte x" by (auto simp: fold_rune_def split: if_splits)
    then have "byte x = byte y" by (rule order_antisym)
    then show "x = y" by (simp add: byte_def)
  qed
  then have "inj_on (fold_rune \<circ> byte) (set k \<union> set f)"
    by (rule inj_on_subset) (use k in \<open>auto simp: field_key_def list_all_iff\<close>)
  moreover have "ascii k" "ascii f" using k by (auto simp: field_key_def ascii_def list_all_iff)
  ultimately show "same_key k f \<longleftrightarrow> k = f" using ascii_key [of k f] inj_on_map_eq_map by metis
qed

lemma field_names [simp]:
  "field_key ''id''" "field_key ''provider_request_id''" "field_key ''decision_nonce''" "field_key ''decision''"
  "field_key ''state''" "field_key ''command''" "field_key ''description''" "field_key ''pattern_keys''"
  "field_key ''allow_permanent''" "field_key ''requested_at''" "field_key ''parked_at''" "field_key ''park_reason''"
  "field_key ''tool''" "field_key ''label''" "field_key ''updated_at''"
  by (simp_all add: field_key_def byte_def)

definition approval_members :: "approval \<Rightarrow> (string \<times> json) list" where
  "approval_members a =
     [(''id'', JStr (apID a))] @ omit_empty ''provider_request_id'' (ProviderRequestID a) @
     [(''decision_nonce'', JStr (DecisionNonce a))] @ omit_empty ''decision'' (apDecision a) @
     [(''state'', JStr (approval_state_text (apState a)))] @ omit_empty ''command'' (Command a) @
     omit_empty ''description'' (Description a) @
     (if PatternKeys a = [] then [] else [(''pattern_keys'', JArr (map JStr (PatternKeys a)))]) @
     [(''allow_permanent'', JBool (AllowPermanent a)), (''requested_at'', JStr (rfc3339 (RequestedAt a)))] @
     (case ParkedAt a of None \<Rightarrow> [] | Some t \<Rightarrow> [(''parked_at'', JStr (rfc3339 t))]) @ omit_empty ''park_reason'' (ParkReason a)"

lemma approval_json_members:
  "approval_json a = Some v \<longleftrightarrow> v = JObj (approval_members a) \<and> json_time (RequestedAt a) \<noteq> None \<and>
     (\<forall>t. ParkedAt a = Some t \<longrightarrow> json_time t \<noteq> None)"
  by (auto simp: approval_json_def members_def approval_members_def time_member_def time_json_def opt_time_member_def
      split: option.splits if_splits)

lemma approval_back:
  assumes ord: "\<And>ms. mset (ord ms) = mset ms" and "approval_json a = Some v"
  shows "approval_ok (jsonb ord v) \<and> approval_of (jsonb ord v) = a"
proof -
  have v: "v = JObj (approval_members a)" "parse_time (rfc3339 (RequestedAt a)) = Some (RequestedAt a)"
    "\<And>t. ParkedAt a = Some t \<Longrightarrow> parse_time (rfc3339 t) = Some t"
    using assms(2) json_time_parse unfolding approval_json_members by blast+
  let ?g = "\<lambda>f. json_get f (Some (jsonb ord v))"
  note get = stored_get [where ord = ord and ms = "approval_members a", OF ord, folded v(1)]
  note ev = approval_members_def omit_empty_def field_keys
  have omitted: "str_ok x \<and> str_of x = s" if "x = (if s = '''' then None else Some (JStr s))" for x s using that by simp
  have g: "?g ''id'' = Some (JStr (apID a))" "?g ''decision_nonce'' = Some (JStr (DecisionNonce a))"
    "?g ''state'' = Some (JStr (approval_state_text (apState a)))"
    "?g ''provider_request_id'' = (if ProviderRequestID a = '''' then None else Some (JStr (ProviderRequestID a)))"
    "?g ''decision'' = (if apDecision a = '''' then None else Some (JStr (apDecision a)))"
    "?g ''command'' = (if Command a = '''' then None else Some (JStr (Command a)))"
    "?g ''description'' = (if Description a = '''' then None else Some (JStr (Description a)))"
    "?g ''park_reason'' = (if ParkReason a = '''' then None else Some (JStr (ParkReason a)))"
    "?g ''pattern_keys'' = (if PatternKeys a = [] then None else Some (JArr (map JStr (PatternKeys a))))"
    "?g ''allow_permanent'' = Some (JBool (AllowPermanent a))"
    "?g ''requested_at'' = Some (JStr (rfc3339 (RequestedAt a)))"
    "?g ''parked_at'' = map_option (\<lambda>t. JStr (rfc3339 t)) (ParkedAt a)"
    by (subst get; simp add: ev comp_def split: option.split)+
  have st: "state_of (?g ''state'') = Some (apState a)" by (cases "apState a") (simp_all add: g(3) state_of_def)
  have obj: "obj_ok (Some (jsonb ord v))" by (simp add: v(1))
  have "approval_ok (jsonb ord v)"
    unfolding approval_ok_def Let_def
    using obj st v(2,3) by (simp add: g strs_ok_def flag_ok_def time_ok_def list_all_iff split: option.split)
  moreover have "approval_of (jsonb ord v) = a"
    unfolding approval_of_def Let_def st
    using v(2,3) by (simp add: g time_of_def time_at_def comp_def split: option.split)
  ultimately show ?thesis by blast
qed

lemma progress_back:
  assumes ord: "\<And>ms. mset (ord ms) = mset ms" and "progress_json p = Some v"
  shows "progress_ok (Some (jsonb ord v)) \<and> progress_of (Some (jsonb ord v)) = p"
proof -
  let ?ms = "omit_empty ''tool'' (prTool p) @ omit_empty ''label'' (prLabel p) @
    [(''state'', JStr (prState p)), (''updated_at'', JStr (rfc3339 (prUpdatedAt p)))]"
  have v: "v = JObj ?ms" "parse_time (rfc3339 (prUpdatedAt p)) = Some (prUpdatedAt p)"
    using assms(2) json_time_parse [of "prUpdatedAt p"]
    by (auto simp: progress_json_def members_def time_member_def time_json_def split: if_splits)
  let ?g = "\<lambda>f. json_get f (Some (jsonb ord v))"
  note get = stored_get [where ord = ord and ms = ?ms, OF ord, folded v(1)]
  have g: "?g ''tool'' = (if prTool p = '''' then None else Some (JStr (prTool p)))"
    "?g ''label'' = (if prLabel p = '''' then None else Some (JStr (prLabel p)))"
    "?g ''state'' = Some (JStr (prState p))" "?g ''updated_at'' = Some (JStr (rfc3339 (prUpdatedAt p)))"
    by (subst get; simp add: omit_empty_def field_keys)+
  have "obj_ok (Some (jsonb ord v))" by (simp add: v(1))
  then show ?thesis
    using v(2) by (simp add: progress_ok_def progress_of_def g time_ok_def time_of_def time_at_def)
qed

definition valid_approval :: "approval \<Rightarrow> bool" where
  "valid_approval a \<longleftrightarrow> list_all valid_text ([apID a, ProviderRequestID a, DecisionNonce a, apDecision a, Command a,
     Description a, ParkReason a] @ PatternKeys a)"

definition valid_progress :: "progress \<Rightarrow> bool" where
  "valid_progress p \<longleftrightarrow> valid_text (prTool p) \<and> valid_text (prLabel p) \<and> valid_text (prState p)"

lemma field_valid [simp]: "field_key k \<Longrightarrow> valid_text k"
  by (rule ascii_valid) (auto simp: field_key_def ascii_def list_all_iff)

lemma approval_text:
  assumes "approval_json a = Some v" "valid_approval a"
  shows "well_formed v \<and> json_depth v \<le> 2"
proof -
  have v: "v = JObj (approval_members a)" using assms(1) unfolding approval_json_members by blast
  have "valid_text (approval_state_text s)" for s by (cases s) (simp_all add: ascii_valid byte_def)
  then have "well_formed v" unfolding v approval_members_def
    using assms(2) time_ascii [THEN ascii_valid]
    by (auto simp: omit_empty_def valid_approval_def list_all_iff split: option.split)
  moreover have "json_depth v \<le> 2" by (cases "ParkedAt a") (simp_all add: v approval_members_def omit_empty_def)
  ultimately show ?thesis by blast
qed

lemma progress_text:
  assumes "progress_json p = Some v" "valid_progress p"
  shows "well_formed v \<and> json_depth v \<le> 2"
  using assms time_ascii [THEN ascii_valid]
  by (auto simp: progress_json_def members_def time_member_def time_json_def omit_empty_def valid_progress_def split: if_splits)

text \<open>
  C32. A row is its record.  What an update writes into the two JSON columns of a job, the next read gets back: for
  every approval list and progress whose texts are valid UTF-8 and whose instants have a JSON form, whatever order
  PostgreSQL puts the members of an object in, \<open>scanJob\<close> returns exactly the approvals and the progress that were
  written, to the nanosecond, nonces and pattern keys included, and never an error.  The hypothesis on \<open>column\<close> is that
  PostgreSQL took the written texts and gives a text of the same values back.
\<close>

theorem row_roundtrip:
  assumes "\<And>ms. mset (ord ms) = mset ms" and "\<And>s v. s = a \<or> p = Some s \<Longrightarrow> json_parse s = Some v \<Longrightarrow> json_parse (column s) = Some (jsonb ord v)"
    and "approvals_column nil (Approvals j) = Some a" "progress_column (Progress j) = Some p"
    and "list_all valid_approval (Approvals j)" "\<And>x. Progress j = Some x \<Longrightarrow> valid_progress x"
  shows "scanJob jerr (Inr (j0, column a, map_option column p)) = Inr (j0\<lparr>Approvals := Approvals j, Progress := Progress j\<rparr>)"
proof -
  have e: "json_parse ''null'' = Some JNull" "json_parse ''[]'' = Some (JArr [])" "json_parse '''' = None"
    using json_roundtrip [of JNull] json_roundtrip [of "JArr []"]
    by (simp_all add: json_parse_def runes_def)
  have A: "\<exists>w. json_parse (column a) = Some w \<and> arr_ok (Some w) \<and> list_all approval_ok (arr_of (Some w)) \<and>
      map approval_of (arr_of (Some w)) = Approvals j"
  proof (cases "Approvals j = []")
    case True
    then have "a = ''null'' \<or> a = ''[]''" using assms(3) by (auto simp: approvals_column_def split: if_splits)
    then show ?thesis using assms(2) e True by fastforce
  next
    case False
    let ?vs = "map (the \<circ> approval_json) (Approvals j)"
    have some: "approval_json x = Some (the (approval_json x))" if "x \<in> set (Approvals j)" for x
    proof -
      have "None \<notin> approval_json ` set (Approvals j)"
        using assms(3) False by (auto simp: approvals_column_def split: if_splits)
      then have "approval_json x \<noteq> None" using that by force
      then show ?thesis by simp
    qed
    have a: "a = json_text (JArr ?vs)" using assms(3) False by (simp add: approvals_column_def split: if_splits)
    have t: "\<forall>x\<in>set (Approvals j). well_formed (the (approval_json x)) \<and> json_depth (the (approval_json x)) \<le> 2"
      using approval_text some assms(5) by (auto simp: list_all_iff)
    have "json_parse a = Some (JArr ?vs)" unfolding a
      by (rule json_roundtrip) (use t in \<open>auto simp: list_all_iff\<close>)
    then have "json_parse (column a) = Some (JArr (map (jsonb ord) ?vs))" using assms(2) by fastforce
    moreover have "approval_ok (jsonb ord (the (approval_json x))) \<and> approval_of (jsonb ord (the (approval_json x))) = x"
      if "x \<in> set (Approvals j)" for x using approval_back [OF assms(1) some [OF that]] .
    ultimately show ?thesis by (auto simp: list_all_iff intro!: map_idI)
  qed
  then obtain w where w: "json_parse (column a) = Some w" "arr_ok (Some w)" "list_all approval_ok (arr_of (Some w))"
    "map approval_of (arr_of (Some w)) = Approvals j" by blast
  show ?thesis
  proof (cases "Progress j")
    case None
    then have "p = None" using assms(4) by (simp add: progress_column_def)
    then show ?thesis using w None by (simp add: scanJob_def Let_def)
  next
    case (Some x)
    then obtain v where v: "progress_json x = Some v" "p = Some (json_text v)" using assms(4) by (auto simp: progress_column_def)
    have "json_parse (json_text v) = Some v" using progress_text [OF v(1)] assms(6) [OF Some] by (intro json_roundtrip) auto
    then have c: "json_parse (column (json_text v)) = Some (jsonb ord v)" by (intro assms(2) disjI2 v(2))
    have b: "progress_ok (Some (jsonb ord v))" "progress_of (Some (jsonb ord v)) = x"
      using progress_back [OF assms(1) v(1)] by blast+
    obtain ms where ms: "v = JObj ms" using v(1) by (auto simp: progress_json_def members_def split: if_splits)
    have null: "json_parse (column (json_text v)) \<noteq> Some JNull" unfolding c by (simp add: ms)
    have "column (json_text v) \<noteq> ''''" by (rule notI, drule arg_cong [of _ _ json_parse], simp add: c e(3))
    moreover have "column (json_text v) \<noteq> ''null''"
      using null by (rule contrapos_nn) (simp only: e(1))
    ultimately show ?thesis using w Some v(2) b c by (simp add: scanJob_def Let_def)
  qed
qed

lemma jsonb_same: "jsonb (\<lambda>ms. ms) v = v"
  by (induction v) (auto intro!: map_idI)

definition scanned_row :: job where
  "scanned_row = \<lparr>jID = ''j1'', DisplayName = ''demo'', Task = ''t'', Status = Running, Question = '''', PendingInput = '''',
     ResultDigest = '''', Error = '''', HermesSessionID = ''s1'', HermesRunID = ''r1'', Approvals = [], Progress = None,
     CreatedAt = 0, UpdatedAt = 0, FinishedAt = None, StateVersion = 3\<rparr>"

definition demo_columns :: job where
  "demo_columns = scanned_row\<lparr>Approvals := [\<lparr>apID = ''a1'', ProviderRequestID = ''r1'', DecisionNonce = ''n1'', apDecision = '''', apState = AParked,
       Command = ''rm x'', Description = '''', PatternKeys = [''rm''], AllowPermanent = True, RequestedAt = 63835596800123456789,
       ParkedAt = Some 63835596801000000000, ParkReason = ''run gone''\<rparr>],
     Progress := Some \<lparr>prTool = ''shell'', prLabel = '''', prState = ''running'', prUpdatedAt = 63835596800000000000\<rparr>\<rparr>"

lemma row_roundtrip_witness:
  "\<exists>a p. approvals_column False (Approvals demo_columns) = Some a \<and> progress_column (Progress demo_columns) = Some p \<and>
     scanJob EText (Inr (scanned_row, a, p)) = Inr (scanned_row\<lparr>Approvals := Approvals demo_columns, Progress := Progress demo_columns\<rparr>)"
proof -
  have valid: "list_all valid_approval (Approvals demo_columns)" "\<And>x. Progress demo_columns = Some x \<Longrightarrow> valid_progress x"
    by (auto simp: demo_columns_def valid_approval_def valid_progress_def ascii_valid byte_def)
  have day: "civil_date 738837 = (2023, 11, 14)" by code_simp
  have "approvals_column False (Approvals demo_columns) \<noteq> None"
    by (simp add: demo_columns_def approvals_column_def approval_json_def members_def opt_time_member_def time_member_def
        time_json_def json_time_def day del: json_text.simps)
  then obtain a where a: "approvals_column False (Approvals demo_columns) = Some a" by blast
  have "progress_column (Progress demo_columns) \<noteq> None"
    by (simp add: demo_columns_def progress_column_def progress_json_def members_def time_member_def time_json_def json_time_def
        day del: json_text.simps)
  then obtain p where p: "progress_column (Progress demo_columns) = Some p" by blast
  have "scanJob EText (Inr (scanned_row, (\<lambda>s. s) a, map_option (\<lambda>s. s) p)) =
      Inr (scanned_row\<lparr>Approvals := Approvals demo_columns, Progress := Progress demo_columns\<rparr>)"
    by (rule row_roundtrip [of "\<lambda>ms. ms", OF _ _ a p valid]) (simp_all add: jsonb_same)
  then show ?thesis using a p by (simp add: option.map_ident)
qed

end
