(* ===== verification/Spec2Isabelle.thy ===== *)
theory Spec2Isabelle
  imports Fsm Job_Laws Lookup Policy Bus_Log Dispatch_Laws Stub Broker_Safety Walk_Safety Run_Laws Store_Laws
    Notify Push_Net Desk_Props Desk_Exit Toolset Gateway_Demo
    Event_Stream Key_Lock Summarize Ci_Laws Mirror Dial Boot Row
begin

text \<open>
  A verification library for Thornhill, a single-operator voice desk in Go: a browser talks to a realtime voice model,
  whose sideband the server drives; the model's tools dispatch jobs to a fleet of Hermes agents, and the server relays
  their questions, their requests for authority and their results back into the conversation, or as push notifications
  when nobody is on a call.  Everything durable is in PostgreSQL; sessions are thrown away.

  \<^bold>\<open>The parts, and the theories that model them.\<close>  File names are under \<open>src/internal\<close> unless they say otherwise.

  \<^item> Foundations.  \<open>Prelude\<close> has instants, durations and 64-bit wrap-around; \<open>Text\<close> Go strings as bytes with their UTF-8
    runes, trimming, fields and splitting; \<open>Ascii_Laws\<close>, \<open>Line_Laws\<close> what their ASCII bytes and line breaks do;
    \<open>Time_Text\<close> RFC 3339 and duration texts; \<open>Errors\<close> errors as values; \<open>Json\<close>, \<open>Json_Laws\<close> and \<open>Compact\<close> the parser, printer and field rules of \<open>encoding/json\<close>; \<open>Net_Url\<close>, \<open>Glob\<close>, \<open>Push_Keys\<close> what is used of
    \<open>net/url\<close>, \<open>net/netip\<close>, \<open>path.Match\<close>, base64 and P-256.

  \<^item> The store (\<open>store/store.go\<close>).  \<open>Jobs\<close> has the rows, the tables (\<open>db\<close>) and every write to a job, each one transaction;
    \<open>Lookup\<close> the reads and the standing policies, \<open>Policy\<close> their pattern hash; \<open>Outbox\<close> the attention and push outboxes
    with their leases; \<open>Ledger\<close> summaries and usage; \<open>Bus\<close> the event log.  \<open>World\<close> is the database as a client meets it:
    each access may be preceded by other transactions (\<open>meddle\<close>), may fail before or after its commit (\<open>dbfault\<close>), and reads
    the clock.  \<open>Job_Laws\<close>, \<open>Outbox_Laws\<close>, \<open>Outbox_Lease\<close> and \<open>Outbox_Safety\<close> hold what the tables promise,
    \<open>Store_Laws\<close> every write of the store as one step relation (\<open>store_step\<close>) and what its reachable databases keep.
    \<open>Row\<close> writes and reads the two JSON columns of a job; everywhere else a row is its record.

  \<^item> The event bus (\<open>events/bus.go\<close>): \<open>Bus\<close> and \<open>Bus_Log\<close>.  Publication, the persistence goroutine, subscriptions and
    \<open>Close\<close> are operations on one state; a history interleaves them (\<open>bus_run\<close>).

  \<^item> Dispatch (\<open>dispatch/\<close>): \<open>Dispatch\<close> and \<open>Dispatch_Laws\<close> the dispatcher and the queue worker, \<open>Stub\<close> the stub runner.

  \<^item> The Hermes bridge (\<open>bridge/hermes.go\<close>).  \<open>Hermes\<close> is its memory, its HTTP calls and stopping runs; \<open>Approvals\<close> and
    \<open>Broker\<close> the approval broker; \<open>Hermes_Text\<close> its prompts; \<open>Event_Stream\<close> the SSE scanner; \<open>Hermes_Run\<close> one turn
    with the two timers of its loop (\<open>on_time\<close>);
    \<open>Hermes_Job\<close> a delivery of the queue and the reconciliation at start; \<open>Key_Lock\<close> the keyed lock.  \<open>Walk\<close> and \<open>Walk_Ops\<close>
    carry a relation between databases through every operation of the bridge, once; \<open>Broker_Laws\<close>, \<open>Broker_Safety\<close>,
    \<open>Walk_Safety\<close> and \<open>Run_Laws\<close> hold its promises, \<open>Broker_Demo\<close> concrete worlds.

  \<^item> The voice desk (\<open>desk/\<close>, \<open>openairt/client.go\<close>).  \<open>Fsm\<close> is the session machine; \<open>Realtime\<close> and
    \<open>Realtime_Laws\<close> the sideband client, \<open>Dial\<close> how its socket is opened; \<open>Desk\<close>, \<open>Desk_Tools\<close> and \<open>Desk_Run\<close> the desk: its
    queues, its one way to ask for a response, tools, event handlers and loop, with \<open>Toolset\<close> and \<open>Wire\<close> on what the model
    is offered and what is sent; \<open>Board\<close> puts it on the dispatcher and the bridge.  \<open>Desk_Laws\<close>, \<open>Desk_Ack\<close>, \<open>Desk_Props\<close>
    and \<open>Desk_Exit\<close> hold its promises, \<open>Desk_Demo\<close> one call worked through.

  \<^item> The gateway (\<open>gateway/gateway.go\<close>).  \<open>Origin\<close> is the origin policy, \<open>Assets\<close> the static files, \<open>Gateway_Push\<close> the push
    endpoints, \<open>Gateway\<close> calls, desks, control messages and the route table, \<open>Mirror\<close> the live mirrors of the bus.
    \<open>Origin_Laws\<close>, \<open>Gateway_Laws\<close>, \<open>Gateway_Gate\<close> hold their promises, \<open>Gateway_Demo\<close> and \<open>Push_Demo\<close> concrete requests.

  \<^item> Push (\<open>notify/notify.go\<close>): \<open>Push_Net\<close> where a push may go, \<open>Notify\<close> the delivery worker, its sender and loop.

  \<^item> The rest: \<open>Summarize\<close> (\<open>summarize/summarize.go\<close>), \<open>Tts\<close> (\<open>audio/tts.go\<close>), \<open>Config\<close> (\<open>config/config.go\<close>), \<open>Boot\<close>
    (\<open>src/cmd/thornhill/main.go\<close>), \<open>Provider\<close> (\<open>dummyopenai/provider.go\<close>), and \<open>Ci_Types\<close>, \<open>Ci_Checks\<close>,
    \<open>Ci_Laws\<close> (\<open>cipolicy/check.go\<close>).

  \<^bold>\<open>How the code is modelled.\<close>  A struct is a record and a method a function on it; a method that holds its mutex throughout is
  one atomic operation, and one that gives it up is several, between which others act.  An error is a value of \<open>error\<close>, a
  fallible call \<open>error + 'a\<close>.  A transaction is a function on the database that \<open>transact\<close> runs between the moves of the
  other transactions.  Goroutines that share state are interleaved steps (\<open>bus_run\<close>, \<open>store_step\<close>, \<open>outbox_step\<close>, \<open>gstep\<close>, \<open>lock_step\<close>,
  \<open>summ_step\<close>, \<open>bridge_step\<close>, \<open>desk_reach\<close>), each an inductive relation whose reachable states carry the invariants.  What the
  outside does is an argument: \<open>meddle\<close> and \<open>dbfault\<close> for the database, \<open>http\<close> for Hermes and the providers, \<open>wfault\<close> and
  \<open>scFault\<close> for sockets, \<open>clock\<close> for time, \<open>freshID\<close> for ULIDs.  Log lines are left out.

  \<^bold>\<open>Interfaces.\<close>  \<open>job_store\<close> (a transactional update, provided by \<open>UpdateJob\<close>), \<open>persister\<close> (what the bus needs of the
  event log, provided by \<open>AppendEvent\<close>), \<open>run_queue\<close> (what the dispatcher needs of River's insert), \<open>leased_table\<close> (claims
  under a lease, provided twice: by the attention and by the push outbox), \<open>bridge_walk\<close> and its extension \<open>delivery_walk\<close>
  (a relation that every single write of the bridge respects is respected by every operation; interpreted for finished jobs,
  run handles, nonces and unspoken attention), and \<open>quiet_board\<close> (a dispatcher that leaves unspoken attention alone, which the
  desk relies on, provided by the dispatcher over the bridge).

  \<^bold>\<open>What the lemmas show.\<close>  Invariants of every reachable database, outbox, bus, lock table, gateway and desk; atomicity of
  admission, cancellation, answers and decisions under faults and other transactions; that authority is exercised at most
  once and never without the operator or a standing grant, denials first; that a run handle is dropped only on proof; that
  a result counts as spoken only when it was heard, and an interrupted one is said again; that turns, drains and shutdowns
  end; that the log, the streams and the mirrors keep order, framing and content; what the origin, address, key and
  configuration checks admit, exactly; that the stand-in provider speaks the protocol the client reads; and that the
  repository checker rejects a repository that lost a safeguard.

  \<^bold>\<open>Bounds and fuel.\<close>  The recursions are structural or have a length measure, except: \<open>json_value\<close> takes fuel, at most two
  units per rune, and \<open>json_parse\<close> gives it \<open>2 * length + 1\<close>, with the nesting limit of 10000 of the library
  checked on the result; the matcher of \<open>Glob\<close> takes the lengths of pattern and name.  Integers are unbounded where the
  code cannot reach their width, wrap by \<open>i64\<close> where it can (durations of the configuration, the stub's run time, event
  ids), and saturate in \<open>time_sub\<close> as \<open>Time.Sub\<close> does.  Doubles are their 64 bits.

  \<^bold>\<open>Arguments that stand for code outside the repository.\<close>  The Unicode lower-case table beyond ASCII (\<open>lc\<close>, \<open>lcase\<close>),
  \<open>strconv.ParseFloat\<close> and the double arithmetic of a duration's fraction, addition and the day boundary of SQL, SHA-256,
  gzip, the file server, the YAML library, the WebSocket handshake, the web push library, resolver and dialler.  The
  hypotheses that properties put on them are documented behaviour, and each has a witness.

  \<^bold>\<open>Not modelled\<close>, and why: the SQL schema and migrations, opening the pool and \<open>StartRiver\<close> (they configure libraries; the
  retry and concurrency limits given to River are its own affair); the rounding of a \<open>TIMESTAMPTZ\<close> column to
  microseconds (instants keep their nanoseconds); the file server behind the static handler, request logging and \<open>withLogging\<close>; the bytes of WebSocket, TLS and
  encrypted push frames; the timeouts of HTTP clients, which appear as errors of the call; the other commands of \<open>src/cmd\<close>
  (key generation, starting the stand-in, calling the checker), which print what modelled functions return; and the
  TypeScript frontend and the scripts, which are other languages.
\<close>

end
